(* ===== verification/Fb_Prelude.thy ===== *)
theory Fb_Prelude
  imports Complex_Main "HOL-Library.Char_ord" "HOL-Library.List_Lexorder"
begin

text \<open>
  Shared vocabulary of the development: JSON values as Python's \<open>json\<close> module decodes
  them, errors as values, Python's integer text and rounding, and the list lemmas behind the
  SQL statements of the stores (a table is a list of rows in insertion order, a query a
  \<open>filter\<close>, an \<open>UPDATE ... WHERE\<close> a \<open>map\<close>, an upsert \<open>upsert_by\<close>).
  The locale \<open>transition_system\<close> carries the induction over reachable states once for
  every state machine of the development.
\<close>

named_theorems table_simps \<open>row-level facts about table updates\<close>

section \<open>JSON values\<close>

datatype json =
    JNull
  | JBool bool
  | JInt int
  | JStr string
  | JArr "json list"
  | JObj "(string \<times> json) list"

datatype py_error =
    Key_Error string
  | Type_Error
  | Value_Error
  | Integrity_Error
  | Bind_Error
  | Attribute_Error

text \<open>\<open>d[k]\<close> on a decoded JSON value: a missing key and a non-dictionary both raise.\<close>

fun py_index :: "json \<Rightarrow> string \<Rightarrow> py_error + json" where
  "py_index (JObj kvs) k = (case map_of kvs k of None \<Rightarrow> Inl (Key_Error k) | Some v \<Rightarrow> Inr v)"
| "py_index _ k = Inl Type_Error"

text \<open>\<open>d.get(k)\<close>: only a dictionary has the method.\<close>

fun py_get :: "json \<Rightarrow> string \<Rightarrow> py_error + json" where
  "py_get (JObj kvs) k = Inr (case map_of kvs k of None \<Rightarrow> JNull | Some v \<Rightarrow> v)"
| "py_get _ k = Inl Attribute_Error"

fun truthy :: "json \<Rightarrow> bool" where
  "truthy JNull = False"
| "truthy (JBool b) = b"
| "truthy (JInt i) = (i \<noteq> 0)"
| "truthy (JStr s) = (s \<noteq> [])"
| "truthy (JArr xs) = (xs \<noteq> [])"
| "truthy (JObj kvs) = (kvs \<noteq> [])"

text \<open>Python's exception propagation over a list: the first error wins.\<close>

fun seq_map :: "('a \<Rightarrow> 'e + 'b) \<Rightarrow> 'a list \<Rightarrow> 'e + 'b list" where
  "seq_map f [] = Inr []"
| "seq_map f (x # xs) =
     (case f x of Inl e \<Rightarrow> Inl e
      | Inr y \<Rightarrow> (case seq_map f xs of Inl e \<Rightarrow> Inl e | Inr ys \<Rightarrow> Inr (y # ys)))"

lemma seq_map_Inr_iff:
  "seq_map f xs = Inr ys \<longleftrightarrow> list_all2 (\<lambda>x y. f x = Inr y) xs ys"
proof (induction xs arbitrary: ys)
  case Nil
  then show ?case by auto
next
  case (Cons x xs)
  show ?case
    by (cases ys) (auto simp: Cons.IH [symmetric] split: sum.splits)
qed

lemma seq_map_length: "seq_map f xs = Inr ys \<Longrightarrow> length ys = length xs"
  by (auto simp: seq_map_Inr_iff dest: list_all2_lengthD)

lemma seq_map_total: "(\<And>x. x \<in> set xs \<Longrightarrow> f x = Inr (g x)) \<Longrightarrow> seq_map f xs = Inr (map g xs)"
  by (induction xs) auto

text \<open>Sequencing of fallible steps: the first error is the result.\<close>

definition and_then :: "'e + 'a \<Rightarrow> ('a \<Rightarrow> 'e + 'b) \<Rightarrow> 'e + 'b" where
  "and_then r f = (case r of Inl e \<Rightarrow> Inl e | Inr x \<Rightarrow> f x)"

lemma and_then_simps [simp]: "and_then (Inl e) f = Inl e" "and_then (Inr x) f = f x"
  by (simp_all add: and_then_def)

lemma and_then_Inr: "and_then r f = Inr y \<longleftrightarrow> (\<exists>x. r = Inr x \<and> f x = Inr y)"
  by (simp add: and_then_def split: sum.split)

lemma and_then_Inl: "and_then r f = Inl e \<longleftrightarrow> r = Inl e \<or> (\<exists>x. r = Inr x \<and> f x = Inl e)"
  by (simp add: and_then_def split: sum.split)

section \<open>Integer text\<close>

definition digit_char :: "nat \<Rightarrow> char" where
  "digit_char n = char_of (48 + n)"

fun nat_text :: "nat \<Rightarrow> string" where
  "nat_text n = (if n < 10 then [digit_char n] else nat_text (n div 10) @ [digit_char (n mod 10)])"

declare nat_text.simps [simp del]

definition int_text :: "int \<Rightarrow> string" where
  "int_text i = (if i < 0 then CHR ''-'' # nat_text (nat (- i)) else nat_text (nat i))"

definition is_digit :: "char \<Rightarrow> bool" where
  "is_digit c \<longleftrightarrow> 48 \<le> (of_char c :: nat) \<and> (of_char c :: nat) \<le> 57"

definition digit_value :: "char \<Rightarrow> nat" where
  "digit_value c = of_char c - 48"

text \<open>\<open>int(s)\<close> on a string of ASCII digits.\<close>

definition digits_value :: "string \<Rightarrow> nat" where
  "digits_value s = foldl (\<lambda>n c. 10 * n + digit_value c) 0 s"

lemma of_char_digit_char: "n < 10 \<Longrightarrow> (of_char (digit_char n) :: nat) = 48 + n"
  by (simp add: digit_char_def)

lemma is_digit_digit_char: "n < 10 \<Longrightarrow> is_digit (digit_char n)"
  by (simp add: is_digit_def of_char_digit_char)

lemma digits_value_snoc: "digits_value (s @ [c]) = 10 * digits_value s + digit_value c"
  by (simp add: digits_value_def)

lemma nat_text_roundtrip: "digits_value (nat_text n) = n"
proof (induction n rule: nat_text.induct)
  case (1 n)
  show ?case
  proof (cases "n < 10")
    case True
    then show ?thesis
      by (simp add: nat_text.simps [of n] digits_value_def digit_value_def of_char_digit_char)
  next
    case False
    with 1 show ?thesis
      by (simp add: nat_text.simps [of n] digits_value_snoc digit_value_def of_char_digit_char)
  qed
qed

lemma nat_text_digits: "c \<in> set (nat_text n) \<Longrightarrow> is_digit c"
proof (induction n rule: nat_text.induct)
  case (1 n)
  then show ?case
    by (auto simp: nat_text.simps [of n] is_digit_digit_char split: if_splits)
qed

lemma nat_text_nonempty [simp]: "nat_text n \<noteq> []"
  by (subst nat_text.simps) simp

lemma nat_text_inj: "nat_text m = nat_text n \<longleftrightarrow> m = n"
  by (metis nat_text_roundtrip)

section \<open>Python's rounding\<close>

text \<open>\<open>round(x)\<close> rounds half to even; \<open>round(x, k)\<close> on exact rationals.\<close>

definition py_round :: "rat \<Rightarrow> int" where
  "py_round x = (let f = \<lfloor>x\<rfloor>; d = x - of_int f in
     if d < 1 / 2 then f else if d > 1 / 2 then f + 1 else if even f then f else f + 1)"

definition py_round_to :: "nat \<Rightarrow> rat \<Rightarrow> rat" where
  "py_round_to k x = of_int (py_round (x * 10 ^ k)) / 10 ^ k"

lemma py_round_bounds: "\<bar>of_int (py_round x) - x\<bar> \<le> 1 / 2"
proof -
  define f where "f = (of_int \<lfloor>x\<rfloor> :: rat)"
  have f: "f \<le> x" "x < f + 1" unfolding f_def by linarith+
  have "of_int (py_round x) = f \<and> x - f \<le> 1 / 2
      \<or> of_int (py_round x) = f + 1 \<and> 1 / 2 \<le> x - f"
    by (auto simp: py_round_def Let_def f_def)
  with f show ?thesis by (auto simp: abs_if)
qed

lemma py_round_of_int [simp]: "py_round (of_int i) = i"
  by (simp add: py_round_def)

section \<open>Tables as lists of rows\<close>

text \<open>\<open>INSERT ... ON CONFLICT(key) DO UPDATE\<close>: rewrite the row that has the key, or append.\<close>

definition upsert_by :: "('r \<Rightarrow> 'k) \<Rightarrow> ('r \<Rightarrow> 'r \<Rightarrow> 'r) \<Rightarrow> 'r \<Rightarrow> 'r list \<Rightarrow> 'r list" where
  "upsert_by key upd r rows =
     (if key r \<in> key ` set rows
      then map (\<lambda>x. if key x = key r then upd x r else x) rows
      else rows @ [r])"

text \<open>\<open>UPDATE ... WHERE\<close>.\<close>

definition update_where :: "('r \<Rightarrow> bool) \<Rightarrow> ('r \<Rightarrow> 'r) \<Rightarrow> 'r list \<Rightarrow> 'r list" where
  "update_where p f rows = map (\<lambda>r. if p r then f r else r) rows"

lemma length_update_where [simp]: "length (update_where p f rows) = length rows"
  by (simp add: update_where_def)

lemma set_update_where:
  "set (update_where p f rows) = (\<lambda>r. if p r then f r else r) ` set rows"
  by (simp add: update_where_def)

lemma map_update_where [table_simps]:
  "(\<And>r. r \<in> set rows \<Longrightarrow> p r \<Longrightarrow> key (f r) = key r) \<Longrightarrow>
   map key (update_where p f rows) = map key rows"
  by (simp add: update_where_def)

lemma update_where_none: "(\<And>r. r \<in> set rows \<Longrightarrow> \<not> p r) \<Longrightarrow> update_where p f rows = rows"
  by (auto simp: update_where_def intro: map_idI)

lemma update_where_append [table_simps]:
  "update_where p f (xs @ ys) = update_where p f xs @ update_where p f ys"
  by (simp add: update_where_def)

lemma filter_update_where_frame:
  "(\<And>r. r \<in> set rows \<Longrightarrow> p r \<Longrightarrow> q (f r) = q r) \<Longrightarrow>
   length (filter q (update_where p f rows)) = length (filter q rows)"
  by (induction rows) (auto simp: update_where_def)

lemma upsert_by_keys:
  assumes "\<And>x r. key (upd x r) = key x"
  shows "map key (upsert_by key upd r rows) =
    (if key r \<in> key ` set rows then map key rows else map key rows @ [key r])"
  using assms by (simp add: upsert_by_def)

lemma upsert_by_distinct:
  assumes "\<And>x r. key (upd x r) = key x" and "distinct (map key rows)"
  shows "distinct (map key (upsert_by key upd r rows))"
  using assms by (simp add: upsert_by_keys)

lemma upsert_by_key_set:
  assumes "\<And>x r. key (upd x r) = key x"
  shows "key ` set (upsert_by key upd r rows) = insert (key r) (key ` set rows)"
proof -
  have "set (map key (upsert_by key upd r rows)) = insert (key r) (set (map key rows))"
    using assms by (subst upsert_by_keys) auto
  then show ?thesis by simp
qed

lemma upsert_by_idem:
  assumes k: "\<And>x r. key (upd x r) = key x" and u: "\<And>x r. upd (upd x r) r = upd x r"
    and r: "upd r r = r"
  shows "upsert_by key upd r (upsert_by key upd r rows) = upsert_by key upd r rows"
proof -
  have "key r \<in> key ` set (upsert_by key upd r rows)"
    by (simp add: upsert_by_key_set [of key upd, OF k])
  then have "upsert_by key upd r (upsert_by key upd r rows) =
      map (\<lambda>x. if key x = key r then upd x r else x) (upsert_by key upd r rows)"
    by (subst upsert_by_def) simp
  also have "\<dots> = upsert_by key upd r rows"
    using u r k by (auto simp: upsert_by_def image_iff intro!: map_idI split: if_splits)
  finally show ?thesis .
qed

section \<open>Chunks of a list\<close>

text \<open>\<open>[xs[i : i + k] for i in range(0, len(xs), k)]\<close> for a positive \<open>k\<close>.\<close>

function chunks :: "nat \<Rightarrow> 'a list \<Rightarrow> 'a list list" where
  "chunks k xs = (if k = 0 \<or> xs = [] then [] else take k xs # chunks k (drop k xs))"
  by pat_completeness auto
termination
  by (relation "measure (\<lambda>(k, xs). length xs)") auto

declare chunks.simps [simp del]

lemma chunks_Nil [simp]: "chunks k [] = []"
  by (subst chunks.simps) simp

lemma chunks_Cons:
  "0 < k \<Longrightarrow> xs \<noteq> [] \<Longrightarrow> chunks k xs = take k xs # chunks k (drop k xs)"
  by (subst chunks.simps) simp

lemma concat_chunks: "0 < k \<Longrightarrow> concat (chunks k xs) = xs"
proof (induction k xs rule: chunks.induct)
  case (1 k xs)
  then show ?case by (cases "xs = []") (simp_all add: chunks_Cons)
qed

lemma chunks_nonempty: "c \<in> set (chunks k xs) \<Longrightarrow> c \<noteq> [] \<and> length c \<le> k"
proof (induction k xs rule: chunks.induct)
  case (1 k xs)
  then show ?case
    by (subst (asm) (2) chunks.simps) (auto split: if_splits)
qed

lemma ceil_div_step:
  fixes n k :: nat
  assumes "0 < k" "0 < n"
  shows "(n + k - 1) div k = Suc ((n - k + k - 1) div k)"
proof -
  have "(n + k - 1) div k = (n - 1 + k) div k" using assms(2) by (simp add: add.commute)
  also have "\<dots> = Suc ((n - 1) div k)" using assms(1) by (simp add: div_add_self2)
  also have "(n - 1) div k = (n - k + k - 1) div k"
    by (cases "k \<le> n") simp_all
  finally show ?thesis .
qed

lemma length_chunks: "0 < k \<Longrightarrow> length (chunks k xs) = (length xs + k - 1) div k"
proof (induction k xs rule: chunks.induct)
  case (1 k xs)
  show ?case
  proof (cases "xs = []")
    case True
    with "1.prems" show ?thesis by simp
  next
    case False
    then have "length (chunks k xs) = Suc (length (chunks k (drop k xs)))"
      using "1.prems" by (simp add: chunks_Cons)
    also have "\<dots> = Suc ((length xs - k + k - 1) div k)"
      using 1 False by simp
    also have "\<dots> = (length xs + k - 1) div k"
      using "1.prems" False by (intro ceil_div_step [symmetric]) simp_all
    finally show ?thesis .
  qed
qed

section \<open>Reachable states\<close>

text \<open>
  The interface of a state machine and its invariant: the provider shows that the invariant
  holds at the start and that every step keeps it; the client gets it in every reachable
  state and along every run.
\<close>

locale transition_system =
  fixes init :: "'s \<Rightarrow> bool"
    and step :: "'s \<Rightarrow> 's \<Rightarrow> bool"
    and inv :: "'s \<Rightarrow> bool"
  assumes inv_init: "init s \<Longrightarrow> inv s"
    and inv_step: "inv s \<Longrightarrow> step s t \<Longrightarrow> inv t"
begin

lemma inv_run: "step\<^sup>*\<^sup>* s t \<Longrightarrow> inv s \<Longrightarrow> inv t"
  by (induction rule: rtranclp_induct) (auto intro: inv_step)

lemma inv_reachable: "init s \<Longrightarrow> step\<^sup>*\<^sup>* s t \<Longrightarrow> inv t"
  by (blast intro: inv_run inv_init)

end

end
