(* ===== verification/Job_Store.thy ===== *)
theory Job_Store
  imports Fb_Prelude
begin

text \<open>
  The SQLite store of \<open>control/db.py\<close>: its tables as lists of row records, every operation
  as a function on the store. A transaction is one function application, and an error result
  (\<open>Inl\<close>) carries no store: the connection's context manager rolls the transaction back.

  Clock readings are arguments. Times are exact rationals (the code has binary floats, so
  their sums and quotients are rounded there and not here); all readings inside one operation
  are the same value. Identifiers drawn from \<open>uuid\<close> are arguments.
\<close>

section \<open>Rows\<close>

datatype job_status = Running | Job_done | Cancelled

datatype shard_state = Pending | Leased | Shard_done

datatype worker_state = Starting | Worker_running | Dead

datatype stop_reason = No_heartbeat | Scaled_down | Job_complete

record job =
  j_id :: string
  j_name :: string
  j_model :: string
  j_deadline_ts :: rat
  j_created_ts :: rat
  j_status :: job_status
  j_shard_size :: int
  j_n_requests :: nat
  j_accept :: json

record shard =
  s_id :: string
  s_job :: string
  s_idx :: nat
  s_state :: shard_state
  s_lease_worker :: "string option"
  s_lease_exp :: "rat option"
  s_attempts :: nat
  s_done_ts :: "rat option"

record request =
  r_job :: string
  r_id :: string
  r_shard :: string
  r_payload :: json

record result_row =
  o_job :: string
  o_req :: string
  o_shard :: string
  o_output :: json
  o_accepted :: bool
  o_worker :: string
  o_ts :: rat

record worker =
  w_id :: string
  w_job :: string
  w_provider :: string
  w_instance_id :: "string option"
  w_instance_type :: "string option"
  w_price_hr :: rat
  w_state :: worker_state
  w_started_ts :: rat
  w_last_seen :: "rat option"
  w_stopped_ts :: "rat option"
  w_stop_reason :: "stop_reason option"

text \<open>The event kinds, each with the values its detail text interpolates.\<close>

datatype event_kind =
    Job_created string nat
  | Job_status_set job_status
  | Lease_expired string
  | Shard_leased string nat
  | Shard_finished string
  | Worker_launched "string option" rat
  | Worker_dead stop_reason nat

record event =
  e_ts :: rat
  e_job :: "string option"
  e_worker :: "string option"
  e_kind :: event_kind

record store =
  jobs :: "job list"
  shards :: "shard list"
  requests :: "request list"
  results :: "result_row list"
  workers :: "worker list"
  events_log :: "event list"

definition empty_store :: store where
  "empty_store = \<lparr>jobs = [], shards = [], requests = [], results = [], workers = [],
     events_log = []\<rparr>"

definition log_event ::
  "event_kind \<Rightarrow> string option \<Rightarrow> string option \<Rightarrow> rat \<Rightarrow> store \<Rightarrow> store" where
  "log_event k job wk now st =
     st\<lparr>events_log := events_log st @ [\<lparr>e_ts = now, e_job = job, e_worker = wk, e_kind = k\<rparr>]\<rparr>"

lemma log_event_frame [simp]:
  "jobs (log_event k j w t st) = jobs st" "shards (log_event k j w t st) = shards st"
  "requests (log_event k j w t st) = requests st" "results (log_event k j w t st) = results st"
  "workers (log_event k j w t st) = workers st"
  by (simp_all add: log_event_def)

section \<open>Jobs\<close>

definition get_job :: "string \<Rightarrow> store \<Rightarrow> job option" where
  "get_job jid st = find (\<lambda>j. j_id j = jid) (jobs st)"

text \<open>
  A value bound to a \<open>TEXT NOT NULL\<close> column: text as it is, integers and booleans in their
  decimal form, \<open>None\<close> refused by the constraint, containers refused by the driver.
\<close>

fun sql_text :: "json \<Rightarrow> py_error + string" where
  "sql_text (JStr s) = Inr s"
| "sql_text (JInt i) = Inr (int_text i)"
| "sql_text (JBool b) = Inr (if b then ''1'' else ''0'')"
| "sql_text JNull = Inl Integrity_Error"
| "sql_text (JArr xs) = Inl Bind_Error"
| "sql_text (JObj kvs) = Inl Bind_Error"

definition request_row :: "string \<Rightarrow> string \<Rightarrow> json \<Rightarrow> py_error + request" where
  "request_row jid sid r =
     (case py_index r ''request_id'' of Inl e \<Rightarrow> Inl e
      | Inr v \<Rightarrow> (case sql_text v of Inl e \<Rightarrow> Inl e
         | Inr rid \<Rightarrow> Inr \<lparr>r_job = jid, r_id = rid, r_shard = sid, r_payload = r\<rparr>))"

definition new_shard :: "string \<Rightarrow> string \<Rightarrow> nat \<Rightarrow> shard" where
  "new_shard sid jid i = \<lparr>s_id = sid, s_job = jid, s_idx = i, s_state = Pending,
     s_lease_worker = None, s_lease_exp = None, s_attempts = 0, s_done_ts = None\<rparr>"

definition request_key :: "request \<Rightarrow> string \<times> string" where
  "request_key r = (r_job r, r_id r)"

text \<open>\<open>INSERT INTO requests\<close>, row after row: the primary key refuses a repeated id.\<close>

fun insert_requests :: "request list \<Rightarrow> request list \<Rightarrow> py_error + request list" where
  "insert_requests [] tab = Inr tab"
| "insert_requests (r # rs) tab =
     (if request_key r \<in> request_key ` set tab then Inl Integrity_Error
      else insert_requests rs (tab @ [r]))"

text \<open>The loop of \<open>create_job\<close> over the chunks; \<open>ids i\<close> is the id drawn for chunk \<open>i\<close>.\<close>

fun insert_chunks ::
  "string \<Rightarrow> (nat \<Rightarrow> string) \<Rightarrow> nat \<Rightarrow> json list list \<Rightarrow> store \<Rightarrow> py_error + store" where
  "insert_chunks jid ids i [] st = Inr st"
| "insert_chunks jid ids i (c # cs) st =
     (if ids i \<in> s_id ` set (shards st) then Inl Integrity_Error
      else case seq_map (request_row jid (ids i)) c of Inl e \<Rightarrow> Inl e
      | Inr rows \<Rightarrow> (case insert_requests rows (requests st) of Inl e \<Rightarrow> Inl e
         | Inr tab \<Rightarrow> insert_chunks jid ids (Suc i) cs
             (st\<lparr>shards := shards st @ [new_shard (ids i) jid i], requests := tab\<rparr>)))"

text \<open>
  \<open>range(0, n, shard_size)\<close>: a zero step raises, a negative step is an empty range (when
  \<open>n\<close> is not negative), so the job gets no shard at all.
\<close>

definition job_chunks :: "int \<Rightarrow> json list \<Rightarrow> py_error + json list list" where
  "job_chunks ssize reqs =
     (if ssize = 0 then Inl Value_Error
      else if ssize < 0 then Inr []
      else Inr (chunks (nat ssize) reqs))"

definition create_job ::
  "string \<Rightarrow> (nat \<Rightarrow> string) \<Rightarrow> string \<Rightarrow> string \<Rightarrow> rat \<Rightarrow> int \<Rightarrow> json list \<Rightarrow> json \<Rightarrow> rat
     \<Rightarrow> store \<Rightarrow> py_error + store" where
  "create_job jid ids name model deadline ssize reqs accept now st =
     (if jid \<in> j_id ` set (jobs st) then Inl Integrity_Error
      else case job_chunks ssize reqs of Inl e \<Rightarrow> Inl e
      | Inr cs \<Rightarrow>
         (case insert_chunks jid ids 0 cs
            (st\<lparr>jobs := jobs st @ [\<lparr>j_id = jid, j_name = name, j_model = model,
               j_deadline_ts = deadline, j_created_ts = now, j_status = Running,
               j_shard_size = ssize, j_n_requests = length reqs, j_accept = accept\<rparr>]\<rparr>) of
            Inl e \<Rightarrow> Inl e
          | Inr st' \<Rightarrow> Inr (log_event (Job_created name (length reqs)) (Some jid) None now st')))"

definition set_job_status :: "string \<Rightarrow> job_status \<Rightarrow> rat \<Rightarrow> store \<Rightarrow> store" where
  "set_job_status jid status now st =
     log_event (Job_status_set status) (Some jid) None now
       (st\<lparr>jobs := update_where (\<lambda>j. j_id j = jid) (\<lambda>j. j\<lparr>j_status := status\<rparr>) (jobs st)\<rparr>)"

definition latest_job :: "store \<Rightarrow> string option" where
  "latest_job st =
     (case sort_key (\<lambda>j. - j_created_ts j) (jobs st) of [] \<Rightarrow> None | j # _ \<Rightarrow> Some (j_id j))"

section \<open>Leases\<close>

definition answered :: "store \<Rightarrow> string \<Rightarrow> string \<Rightarrow> bool" where
  "answered st jid rid \<longleftrightarrow> (jid, rid) \<in> (\<lambda>o'. (o_job o', o_req o')) ` set (results st)"

definition expired :: "rat \<Rightarrow> shard \<Rightarrow> bool" where
  "expired now s \<longleftrightarrow> s_state s = Leased \<and>
     (case s_lease_exp s of None \<Rightarrow> False | Some e \<Rightarrow> e < now)"

definition release_lease :: "shard \<Rightarrow> shard" where
  "release_lease s = s\<lparr>s_state := Pending, s_lease_worker := None, s_lease_exp := None\<rparr>"

definition reap_row :: "rat \<Rightarrow> shard \<Rightarrow> store \<Rightarrow> store" where
  "reap_row clock r st =
     log_event (Lease_expired (s_id r)) (Some (s_job r)) (s_lease_worker r) clock
       (st\<lparr>shards := update_where (\<lambda>s. s_id s = s_id r) release_lease (shards st)\<rparr>)"

text \<open>\<open>now or time.time()\<close>: a zero argument counts as absent.\<close>

definition reap :: "rat option \<Rightarrow> rat \<Rightarrow> store \<Rightarrow> nat \<times> store" where
  "reap arg clock st =
     (let now = (case arg of None \<Rightarrow> clock | Some t \<Rightarrow> if t = 0 then clock else t);
          rows = filter (expired now) (shards st)
      in (length rows, fold (reap_row clock) rows st))"

definition pick_pending :: "string \<Rightarrow> store \<Rightarrow> shard option" where
  "pick_pending jid st =
     (case sort_key s_idx (filter (\<lambda>s. s_job s = jid \<and> s_state s = Pending) (shards st)) of
        [] \<Rightarrow> None | s # _ \<Rightarrow> Some s)"

definition take_lease :: "string \<Rightarrow> rat \<Rightarrow> shard \<Rightarrow> shard" where
  "take_lease wk expiry s = s\<lparr>s_state := Leased, s_lease_worker := Some wk,
     s_lease_exp := Some expiry, s_attempts := s_attempts s + 1\<rparr>"

text \<open>The left join: the requests of the shard that have no result row.\<close>

definition unanswered :: "string \<Rightarrow> store \<Rightarrow> request list" where
  "unanswered sid st =
     filter (\<lambda>r. r_shard r = sid \<and> \<not> answered st (r_job r) (r_id r)) (requests st)"

definition claim_txn ::
  "string \<Rightarrow> string \<Rightarrow> rat \<Rightarrow> rat \<Rightarrow> store \<Rightarrow> (string \<times> json list) option \<times> store" where
  "claim_txn jid wk secs now st =
     (case pick_pending jid st of None \<Rightarrow> (None, st)
      | Some s \<Rightarrow>
         (let st1 = st\<lparr>shards := update_where (\<lambda>x. s_id x = s_id s)
                         (take_lease wk (now + secs)) (shards st)\<rparr>;
              pend = unanswered (s_id s) st1
          in (Some (s_id s, map r_payload pend),
              log_event (Shard_leased (s_id s) (length pend)) (Some jid) (Some wk) now st1)))"

definition extend_lease :: "string \<Rightarrow> string \<Rightarrow> rat \<Rightarrow> rat \<Rightarrow> store \<Rightarrow> store" where
  "extend_lease sid wk secs now st =
     st\<lparr>shards := update_where
         (\<lambda>s. s_id s = sid \<and> s_lease_worker s = Some wk \<and> s_state s = Leased)
         (\<lambda>s. s\<lparr>s_lease_exp := Some (now + secs)\<rparr>) (shards st)\<rparr>"

definition mark_done :: "rat \<Rightarrow> shard \<Rightarrow> shard" where
  "mark_done now s = s\<lparr>s_state := Shard_done, s_done_ts := Some now,
     s_lease_worker := None, s_lease_exp := None\<rparr>"

definition finish_shard :: "string \<Rightarrow> string \<Rightarrow> rat \<Rightarrow> store \<Rightarrow> store" where
  "finish_shard sid wk now st =
     log_event (Shard_finished sid) None (Some wk) now
       (st\<lparr>shards := update_where (\<lambda>s. s_id s = sid) (mark_done now) (shards st)\<rparr>)"

definition pending_of :: "string \<Rightarrow> store \<Rightarrow> shard list" where
  "pending_of jid st = filter (\<lambda>s. s_job s = jid \<and> s_state s = Pending) (shards st)"

lemma pick_pending_Some:
  assumes "pick_pending jid st = Some s"
  shows "s \<in> set (shards st)" "s_job s = jid" "s_state s = Pending"
    "\<And>x. x \<in> set (shards st) \<Longrightarrow> s_job x = jid \<Longrightarrow> s_state x = Pending \<Longrightarrow> s_idx s \<le> s_idx x"
proof -
  obtain xs where e: "sort_key s_idx (pending_of jid st) = s # xs"
    using assms by (auto simp: pick_pending_def pending_of_def split: list.splits)
  then have "s \<in> set (sort_key s_idx (pending_of jid st))" by simp
  then show "s \<in> set (shards st)" "s_job s = jid" "s_state s = Pending"
    by (auto simp: pending_of_def)
  have "sorted (map s_idx (s # xs))" using e by (metis sorted_sort_key)
  moreover have "set (s # xs) = set (pending_of jid st)" using e by (metis set_sort)
  ultimately show "s_idx s \<le> s_idx x"
    if "x \<in> set (shards st)" "s_job x = jid" "s_state x = Pending" for x
    using that by (fastforce simp: pending_of_def)
qed

lemma pick_pending_None:
  "pick_pending jid st = None \<longleftrightarrow>
   (\<forall>s \<in> set (shards st). s_job s = jid \<longrightarrow> s_state s \<noteq> Pending)"
proof -
  have "pick_pending jid st = None \<longleftrightarrow> sort_key s_idx (pending_of jid st) = []"
    by (auto simp: pick_pending_def pending_of_def split: list.splits)
  also have "\<dots> \<longleftrightarrow> pending_of jid st = []"
    by (metis set_empty2 set_sort)
  finally show ?thesis by (auto simp: pending_of_def filter_empty_conv)
qed

lemma pending_update_where_less:
  assumes "s \<in> set xs" "s_job s = jid" "s_state s = Pending" "s_id s = sid"
    and "\<And>x. s_state (f x) \<noteq> Pending"
  shows "length (filter (\<lambda>s. s_job s = jid \<and> s_state s = Pending)
            (update_where (\<lambda>x. s_id x = sid) f xs))
       < length (filter (\<lambda>s. s_job s = jid \<and> s_state s = Pending) xs)"
proof -
  have le: "length (filter (\<lambda>s. s_job s = jid \<and> s_state s = Pending)
            (update_where (\<lambda>x. s_id x = sid) f ys))
       \<le> length (filter (\<lambda>s. s_job s = jid \<and> s_state s = Pending) ys)" for ys
    using assms(5) by (induction ys) (auto simp: update_where_def)
  obtain ys zs where xs: "xs = ys @ s # zs" using assms(1) by (meson split_list)
  show ?thesis
    using le [of ys] le [of zs] assms(2-5) unfolding xs
    by (simp add: table_simps) (simp add: update_where_def)
qed

text \<open>
  \<open>claim\<close> leases a shard and, when every request of it is already answered, finishes it and
  tries again. The recursion ends because each round takes one shard of the job out of
  \<open>Pending\<close>.
\<close>

function claim ::
  "string \<Rightarrow> string \<Rightarrow> rat \<Rightarrow> rat \<Rightarrow> store \<Rightarrow> (string \<times> json list) option \<times> store" where
  "claim jid wk secs now st =
     (case claim_txn jid wk secs now st of (None, st1) \<Rightarrow> (None, st1)
      | (Some (sid, reqs), st1) \<Rightarrow>
          if reqs = [] then claim jid wk secs now (finish_shard sid wk now st1)
          else (Some (sid, reqs), st1))"
  by pat_completeness auto
termination
proof (relation "measure (\<lambda>(jid, wk, secs, now, st). length (pending_of jid st))",
    goal_cases)
  case 1
  then show ?case by simp
next
  case (2 jid wk secs now st x z y sid reqs)
  obtain s where s: "pick_pending jid st = Some s" "sid = s_id s"
    "shards z = update_where (\<lambda>x. s_id x = s_id s) (take_lease wk (now + secs)) (shards st)"
    using 2 by (auto simp: claim_txn_def Let_def split: option.splits)
  have "shards (finish_shard sid wk now z) =
      update_where (\<lambda>x. s_id x = sid) (mark_done now \<circ> take_lease wk (now + secs)) (shards st)"
    using s by (auto simp: finish_shard_def update_where_def take_lease_def)
  then show ?case
    using pending_update_where_less [of s "shards st" jid sid
        "mark_done now \<circ> take_lease wk (now + secs)"] pick_pending_Some [OF s(1)] s(2)
    by (simp add: pending_of_def mark_done_def)
qed

declare claim.simps [simp del]

end
