(* ===== verification/Job_Results.thy ===== *)
theory Job_Results
  imports Job_Store
begin

text \<open>
  The second half of \<open>control/db.py\<close>: the results table, keyed by \<open>(job_id, request_id)\<close>
  and upserted, the worker registry, and the two reports computed from them, \<open>status\<close> and
  \<open>ledger\<close>.
\<close>

section \<open>Results\<close>

definition result_key :: "result_row \<Rightarrow> string \<times> string" where
  "result_key r = (o_job r, o_req r)"

text \<open>The \<open>DO UPDATE SET\<close> list: the shard of the first insert is kept.\<close>

definition overwrite_result :: "result_row \<Rightarrow> result_row \<Rightarrow> result_row" where
  "overwrite_result old new = old\<lparr>o_output := o_output new, o_accepted := o_accepted new,
     o_worker := o_worker new, o_ts := o_ts new\<rparr>"

definition put_row :: "result_row \<Rightarrow> store \<Rightarrow> store" where
  "put_row r st = st\<lparr>results := upsert_by result_key overwrite_result r (results st)\<rparr>"

text \<open>One bound row of \<open>executemany\<close>; \<open>json.dumps\<close> of a decoded value loses nothing.\<close>

definition result_of_json ::
  "string \<Rightarrow> string \<Rightarrow> string \<Rightarrow> rat \<Rightarrow> json \<Rightarrow> py_error + result_row" where
  "result_of_json jid sid wk now r =
     (case py_index r ''request_id'' of Inl e \<Rightarrow> Inl e
      | Inr rid \<Rightarrow> (case py_index r ''output'' of Inl e \<Rightarrow> Inl e
      | Inr out \<Rightarrow> (case py_get r ''accepted'' of Inl e \<Rightarrow> Inl e
      | Inr acc \<Rightarrow> (case sql_text rid of Inl e \<Rightarrow> Inl e
      | Inr rid' \<Rightarrow> Inr \<lparr>o_job = jid, o_req = rid', o_shard = sid, o_output = out,
           o_accepted = truthy acc, o_worker = wk, o_ts = now\<rparr>))))"

definition put_results ::
  "string \<Rightarrow> string \<Rightarrow> string \<Rightarrow> json list \<Rightarrow> rat \<Rightarrow> store \<Rightarrow> py_error + nat \<times> store" where
  "put_results jid sid wk rows now st =
     (case seq_map (result_of_json jid sid wk now) rows of Inl e \<Rightarrow> Inl e
      | Inr rs \<Rightarrow> Inr (length rows, fold put_row rs st))"

definition outputs :: "string \<Rightarrow> store \<Rightarrow> (string \<times> json \<times> bool) list" where
  "outputs jid st =
     map (\<lambda>r. (o_req r, o_output r, o_accepted r))
       (sort_key o_req (filter (\<lambda>r. o_job r = jid) (results st)))"

section \<open>Workers\<close>

definition launch_row ::
  "string \<Rightarrow> string \<Rightarrow> string \<Rightarrow> string option \<Rightarrow> string option \<Rightarrow> rat \<Rightarrow> rat \<Rightarrow> worker" where
  "launch_row wid jid prov inst itype price now =
     \<lparr>w_id = wid, w_job = jid, w_provider = prov, w_instance_id = inst,
      w_instance_type = itype, w_price_hr = price, w_state = Starting, w_started_ts = now,
      w_last_seen = Some now, w_stopped_ts = None, w_stop_reason = None\<rparr>"

definition overwrite_worker :: "worker \<Rightarrow> worker \<Rightarrow> worker" where
  "overwrite_worker old new = old\<lparr>w_instance_id := w_instance_id new,
     w_instance_type := w_instance_type new, w_price_hr := w_price_hr new\<rparr>"

definition register_worker ::
  "string \<Rightarrow> string \<Rightarrow> string \<Rightarrow> string option \<Rightarrow> string option \<Rightarrow> rat \<Rightarrow> rat \<Rightarrow> store \<Rightarrow> store"
  where
  "register_worker wid jid prov inst itype price now st =
     log_event (Worker_launched itype price) (Some jid) (Some wid) now
       (st\<lparr>workers := upsert_by w_id overwrite_worker
             (launch_row wid jid prov inst itype price now) (workers st)\<rparr>)"

definition get_worker :: "string \<Rightarrow> store \<Rightarrow> worker option" where
  "get_worker wid st = find (\<lambda>w. w_id w = wid) (workers st)"

definition heartbeat :: "string \<Rightarrow> rat \<Rightarrow> store \<Rightarrow> bool \<times> store" where
  "heartbeat wid now st =
     (let st1 = st\<lparr>workers := update_where (\<lambda>w. w_id w = wid \<and> w_state w \<noteq> Dead)
                (\<lambda>w. w\<lparr>w_last_seen := Some now, w_state := Worker_running\<rparr>) (workers st)\<rparr>
      in (case get_worker wid st1 of None \<Rightarrow> (True, st1)
          | Some w \<Rightarrow> ((case get_job (w_job w) st1 of None \<Rightarrow> False
                       | Some j \<Rightarrow> j_status j \<noteq> Running), st1)))"

definition held_by :: "string \<Rightarrow> shard \<Rightarrow> bool" where
  "held_by wid s \<longleftrightarrow> s_lease_worker s = Some wid \<and> s_state s = Leased"

definition kill_worker :: "string \<Rightarrow> stop_reason \<Rightarrow> rat \<Rightarrow> store \<Rightarrow> nat \<times> store" where
  "kill_worker wid reason now st =
     (let st1 = st\<lparr>workers := update_where (\<lambda>w. w_id w = wid)
            (\<lambda>w. w\<lparr>w_state := Dead, w_stopped_ts := Some now, w_stop_reason := Some reason\<rparr>)
            (workers st)\<rparr>;
          freed = filter (held_by wid) (shards st1);
          st2 = st1\<lparr>shards := update_where (held_by wid) release_lease (shards st1)\<rparr>
      in (length freed,
          log_event (Worker_dead reason (length freed))
            (case freed of [] \<Rightarrow> None | s # _ \<Rightarrow> Some (s_job s)) (Some wid) now st2))"

definition worker_has_lease :: "string \<Rightarrow> store \<Rightarrow> bool" where
  "worker_has_lease wid st \<longleftrightarrow> 0 < length (filter (held_by wid) (shards st))"

definition outstanding :: "string \<Rightarrow> store \<Rightarrow> nat" where
  "outstanding jid st =
     length (filter (\<lambda>s. s_job s = jid \<and> s_state s \<noteq> Shard_done) (shards st))"

definition live_workers :: "string \<Rightarrow> store \<Rightarrow> worker list" where
  "live_workers jid st =
     sort_key w_started_ts (filter (\<lambda>w. w_job w = jid \<and> w_state w \<noteq> Dead) (workers st))"

definition all_workers :: "string \<Rightarrow> store \<Rightarrow> worker list" where
  "all_workers jid st = sort_key w_started_ts (filter (\<lambda>w. w_job w = jid) (workers st))"

section \<open>Status\<close>

record status_report =
  st_status :: job_status
  st_n_requests :: nat
  st_completed :: nat
  st_accepted :: nat
  st_remaining :: int
  st_pending :: nat
  st_leased :: nat
  st_done :: nat
  st_rate_per_s :: rat
  st_eta_s :: "int option"
  st_deadline_ts :: rat
  st_seconds_to_deadline :: int
  st_on_track :: bool
  st_workers_live :: nat

definition n_done :: "string \<Rightarrow> store \<Rightarrow> nat" where
  "n_done jid st = length (filter (\<lambda>r. o_job r = jid) (results st))"

definition n_accepted :: "string \<Rightarrow> store \<Rightarrow> nat" where
  "n_accepted jid st = length (filter (\<lambda>r. o_job r = jid \<and> o_accepted r) (results st))"

definition n_recent :: "string \<Rightarrow> rat \<Rightarrow> store \<Rightarrow> nat" where
  "n_recent jid now st = length (filter (\<lambda>r. o_job r = jid \<and> now - 120 < o_ts r) (results st))"

definition n_shards :: "string \<Rightarrow> shard_state \<Rightarrow> store \<Rightarrow> nat" where
  "n_shards jid q st = length (filter (\<lambda>s. s_job s = jid \<and> s_state s = q) (shards st))"

definition remaining :: "job \<Rightarrow> store \<Rightarrow> int" where
  "remaining j st = int (j_n_requests j) - int (n_done (j_id j) st)"

definition status :: "string \<Rightarrow> rat \<Rightarrow> store \<Rightarrow> status_report option" where
  "status jid now st =
     (case get_job jid st of None \<Rightarrow> None
      | Some j \<Rightarrow>
         (let rate = of_nat (n_recent jid now st) / 120;
              rem = int (j_n_requests j) - int (n_done jid st);
              eta = (if rate > 0 then Some (of_int rem / rate) else None)
          in Some \<lparr>st_status = j_status j, st_n_requests = j_n_requests j,
               st_completed = n_done jid st, st_accepted = n_accepted jid st,
               st_remaining = rem,
               st_pending = n_shards jid Pending st, st_leased = n_shards jid Leased st,
               st_done = n_shards jid Shard_done st,
               st_rate_per_s = py_round_to 3 rate,
               st_eta_s = map_option py_round eta,
               st_deadline_ts = j_deadline_ts j,
               st_seconds_to_deadline = py_round (j_deadline_ts j - now),
               st_on_track = (if rem \<noteq> 0 then
                   (case eta of None \<Rightarrow> False | Some e \<Rightarrow> now + e \<le> j_deadline_ts j) else True),
               st_workers_live = length (live_workers jid st)\<rparr>))"

section \<open>Ledger\<close>

record worker_cost =
  c_worker :: string
  c_price_hr :: rat
  c_wall_h :: rat
  c_billed_h :: rat
  c_cost :: rat
  c_stop_reason :: "stop_reason option"

text \<open>\<open>w["stopped_ts"] or now\<close>, then hours, never negative.\<close>

definition wall_hours :: "rat \<Rightarrow> worker \<Rightarrow> rat" where
  "wall_hours now w =
     (let end' = (case w_stopped_ts w of None \<Rightarrow> now | Some t \<Rightarrow> if t = 0 then now else t)
      in max 0 ((end' - w_started_ts w) / 3600))"

definition billed_hours :: "rat \<Rightarrow> rat" where
  "billed_hours h = of_int (\<lfloor>h * 6\<rfloor> + 1) / 6"

definition worker_cost_of :: "rat \<Rightarrow> worker \<Rightarrow> rat" where
  "worker_cost_of now w = billed_hours (wall_hours now w) * w_price_hr w"

definition cost_row :: "rat \<Rightarrow> worker \<Rightarrow> worker_cost" where
  "cost_row now w =
     \<lparr>c_worker = w_id w, c_price_hr = w_price_hr w,
      c_wall_h = py_round_to 4 (wall_hours now w),
      c_billed_h = py_round_to 4 (billed_hours (wall_hours now w)),
      c_cost = py_round_to 4 (worker_cost_of now w), c_stop_reason = w_stop_reason w\<rparr>"

record ledger_report =
  l_name :: "string option"
  l_workers :: "worker_cost list"
  l_total_cost :: rat
  l_accepted :: nat
  l_cost_per_1k :: "rat option"
  l_cost_per_1m :: "rat option"

definition total_cost :: "string \<Rightarrow> rat \<Rightarrow> store \<Rightarrow> rat" where
  "total_cost jid now st = fold (\<lambda>w t. t + worker_cost_of now w) (all_workers jid st) 0"

definition ledger :: "string \<Rightarrow> rat \<Rightarrow> store \<Rightarrow> ledger_report" where
  "ledger jid now st =
     (let total = total_cost jid now st;
          acc = (case status jid now st of None \<Rightarrow> 0 | Some r \<Rightarrow> st_accepted r)
      in \<lparr>l_name = map_option j_name (get_job jid st),
          l_workers = map (cost_row now) (all_workers jid st),
          l_total_cost = py_round_to 4 total,
          l_accepted = acc,
          l_cost_per_1k = (if acc \<noteq> 0 then Some (py_round_to 6 (total / of_nat acc * 1000)) else None),
          l_cost_per_1m = (if acc \<noteq> 0 then Some (py_round_to 4 (total / of_nat acc * 1000000))
                           else None)\<rparr>)"

text \<open>The latest events of a job and of its workers; a negative \<open>LIMIT\<close> is no limit.\<close>

definition events_of :: "string \<Rightarrow> int \<Rightarrow> store \<Rightarrow> event list" where
  "events_of jid limit st =
     (let ws = map w_id (filter (\<lambda>w. w_job w = jid) (workers st));
          hits = rev (filter (\<lambda>e. e_job e = Some jid \<or>
                    (case e_worker e of None \<Rightarrow> False | Some w \<Rightarrow> w \<in> set ws)) (events_log st))
      in rev (if limit < 0 then hits else take (nat limit) hits))"

end
