(* ===== verification/Job_Invariant.thy ===== *)
theory Job_Invariant
  imports Job_Results
begin

text \<open>
  The store as a state machine: one step per transaction, in any order and from any client.
  \<open>store_ok\<close> is kept by every transaction whatever its arguments; \<open>accounted\<close> (no answered
  work is lost, no shard is closed early) is kept by the transactions of honest clients.
\<close>

section \<open>Transactions\<close>

datatype db_op =
    Op_create string "nat \<Rightarrow> string" string string rat int "json list" json rat
  | Op_reap "rat option" rat
  | Op_claim string string rat rat
  | Op_extend string string rat rat
  | Op_finish string string rat
  | Op_put string string string "json list" rat
  | Op_register string string string "string option" "string option" rat rat
  | Op_heartbeat string rat
  | Op_kill string stop_reason rat
  | Op_status string job_status rat

fun apply_op :: "db_op \<Rightarrow> store \<Rightarrow> py_error + store" where
  "apply_op (Op_create jid ids name model deadline ssize reqs accept now) st =
     create_job jid ids name model deadline ssize reqs accept now st"
| "apply_op (Op_reap arg clock) st = Inr (snd (reap arg clock st))"
| "apply_op (Op_claim jid wk secs now) st = Inr (snd (claim_txn jid wk secs now st))"
| "apply_op (Op_extend sid wk secs now) st = Inr (extend_lease sid wk secs now st)"
| "apply_op (Op_finish sid wk now) st = Inr (finish_shard sid wk now st)"
| "apply_op (Op_put jid sid wk rows now) st =
     (case put_results jid sid wk rows now st of Inl e \<Rightarrow> Inl e | Inr (n, st') \<Rightarrow> Inr st')"
| "apply_op (Op_register wid jid prov inst itype price now) st =
     Inr (register_worker wid jid prov inst itype price now st)"
| "apply_op (Op_heartbeat wid now) st = Inr (snd (heartbeat wid now st))"
| "apply_op (Op_kill wid reason now) st = Inr (snd (kill_worker wid reason now st))"
| "apply_op (Op_status jid s now) st = Inr (set_job_status jid s now st)"

text \<open>
  An honest client asks for shards of positive size, answers requests of the job it names,
  and closes a shard only when every request of it is answered.
\<close>

fun honest :: "db_op \<Rightarrow> store \<Rightarrow> bool" where
  "honest (Op_create jid ids name model deadline ssize reqs accept now) st = (0 < ssize)"
| "honest (Op_finish sid wk now) st = (unanswered sid st = [])"
| "honest (Op_put jid sid wk rows now) st =
     (case seq_map (result_of_json jid sid wk now) rows of Inl e \<Rightarrow> True
      | Inr rs \<Rightarrow> result_key ` set rs \<subseteq> request_key ` set (requests st))"
| "honest _ st = True"

inductive db_step :: "store \<Rightarrow> store \<Rightarrow> bool" where
  db_step: "apply_op op st = Inr st' \<Longrightarrow> db_step st st'"

inductive honest_step :: "store \<Rightarrow> store \<Rightarrow> bool" where
  honest_step: "apply_op op st = Inr st' \<Longrightarrow> honest op st \<Longrightarrow> honest_step st st'"

inductive_cases db_stepE: "db_step st st'"
inductive_cases honest_stepE: "honest_step st st'"

section \<open>The invariants\<close>

definition lease_ok :: "shard \<Rightarrow> bool" where
  "lease_ok s \<longleftrightarrow>
     (s_state s = Leased \<longleftrightarrow> s_lease_worker s \<noteq> None) \<and>
     (s_state s = Leased \<longleftrightarrow> s_lease_exp s \<noteq> None) \<and>
     (s_state s = Shard_done \<longleftrightarrow> s_done_ts s \<noteq> None)"

definition keys_ok :: "store \<Rightarrow> bool" where
  "keys_ok st \<longleftrightarrow> distinct (map j_id (jobs st)) \<and> distinct (map s_id (shards st)) \<and>
     distinct (map request_key (requests st)) \<and> distinct (map result_key (results st)) \<and>
     distinct (map w_id (workers st))"

definition leases_ok :: "store \<Rightarrow> bool" where
  "leases_ok st \<longleftrightarrow> (\<forall>s \<in> set (shards st). lease_ok s)"

definition shard_ref :: "shard \<Rightarrow> string \<times> string" where
  "shard_ref s = (s_id s, s_job s)"

definition refs_ok :: "store \<Rightarrow> bool" where
  "refs_ok st \<longleftrightarrow>
     (\<lambda>r. (r_shard r, r_job r)) ` set (requests st) \<subseteq> shard_ref ` set (shards st) \<and>
     s_job ` set (shards st) \<subseteq> j_id ` set (jobs st)"

definition store_ok :: "store \<Rightarrow> bool" where
  "store_ok st \<longleftrightarrow> keys_ok st \<and> leases_ok st \<and> refs_ok st"

definition closed_answered :: "store \<Rightarrow> bool" where
  "closed_answered st \<longleftrightarrow>
     (\<forall>s \<in> set (shards st). s_state s = Shard_done \<longrightarrow> unanswered (s_id s) st = [])"

definition counts_ok :: "store \<Rightarrow> bool" where
  "counts_ok st \<longleftrightarrow>
     (\<forall>j \<in> set (jobs st). length (filter (\<lambda>r. r_job r = j_id j) (requests st)) = j_n_requests j)"

definition accounted :: "store \<Rightarrow> bool" where
  "accounted st \<longleftrightarrow> closed_answered st \<and> counts_ok st \<and>
     result_key ` set (results st) \<subseteq> request_key ` set (requests st)"

lemmas inv_defs = store_ok_def keys_ok_def leases_ok_def refs_ok_def

section \<open>Row-level facts\<close>

lemma lease_ok_release: "lease_ok s \<Longrightarrow> s_state s \<noteq> Shard_done \<Longrightarrow> lease_ok (release_lease s)"
  by (auto simp: lease_ok_def release_lease_def)

lemma lease_ok_take: "lease_ok s \<Longrightarrow> s_state s \<noteq> Shard_done \<Longrightarrow> lease_ok (take_lease wk e s)"
  by (auto simp: lease_ok_def take_lease_def)

lemma lease_ok_mark_done [simp]: "lease_ok (mark_done t s)"
  by (simp add: lease_ok_def mark_done_def)

lemma row_ids [simp]:
  "s_id (release_lease s) = s_id s" "s_job (release_lease s) = s_job s"
  "s_id (take_lease w e s) = s_id s" "s_job (take_lease w e s) = s_job s"
  "s_id (mark_done t s) = s_id s" "s_job (mark_done t s) = s_job s"
  "s_state (release_lease s) = Pending" "s_state (take_lease w e s) = Leased"
  "s_state (mark_done t s) = Shard_done"
  "release_lease (release_lease s) = release_lease s"
  by (simp_all add: release_lease_def take_lease_def mark_done_def)

lemma distinct_key_eq:
  "distinct (map key xs) \<Longrightarrow> x \<in> set xs \<Longrightarrow> y \<in> set xs \<Longrightarrow> key x = key y \<Longrightarrow> x = y"
  by (metis distinct_map inj_on_eq_iff)

text \<open>Updating the rows with the ids of a selection is updating the selection.\<close>

lemma fold_update_ids:
  assumes "\<And>s. s_id (f s) = s_id s" and "\<And>s. f (f s) = f s"
  shows "fold (\<lambda>r xs. update_where (\<lambda>s. s_id s = s_id r) f xs) rows xs =
         update_where (\<lambda>s. s_id s \<in> s_id ` set rows) f xs"
proof (induction rows arbitrary: xs)
  case Nil
  then show ?case by (simp add: update_where_none)
next
  case (Cons r rows)
  then show ?case using assms by (auto simp: update_where_def)
qed

lemma update_ids_filter:
  assumes "distinct (map s_id xs)"
  shows "update_where (\<lambda>s. s_id s \<in> s_id ` set (filter p xs)) f xs = update_where p f xs"
  using distinct_key_eq [OF assms] by (auto simp: update_where_def)

lemma shards_fold_reap:
  "shards (fold (reap_row clock) rows st) =
   fold (\<lambda>r xs. update_where (\<lambda>s. s_id s = s_id r) release_lease xs) rows (shards st)"
  by (induction rows arbitrary: st) (simp_all add: reap_row_def)

lemma fold_reap_frame [simp]:
  "jobs (fold (reap_row clock) rows st) = jobs st"
  "requests (fold (reap_row clock) rows st) = requests st"
  "results (fold (reap_row clock) rows st) = results st"
  "workers (fold (reap_row clock) rows st) = workers st"
  by (induction rows arbitrary: st) (simp_all add: reap_row_def)

definition reap_time :: "rat option \<Rightarrow> rat \<Rightarrow> rat" where
  "reap_time arg clock = (case arg of None \<Rightarrow> clock | Some t \<Rightarrow> if t = 0 then clock else t)"

lemma reap_shards:
  assumes "distinct (map s_id (shards st))"
  shows "shards (snd (reap arg clock st)) =
    update_where (expired (reap_time arg clock)) release_lease (shards st)"
  using assms
  by (simp add: reap_def Let_def shards_fold_reap fold_update_ids update_ids_filter reap_time_def
      del: set_filter)

lemma reap_frame [simp]:
  "jobs (snd (reap arg clock st)) = jobs st" "requests (snd (reap arg clock st)) = requests st"
  "results (snd (reap arg clock st)) = results st" "workers (snd (reap arg clock st)) = workers st"
  by (simp_all add: reap_def Let_def)

lemma claim_txn_frame [simp]:
  "jobs (snd (claim_txn jid wk secs now st)) = jobs st"
  "requests (snd (claim_txn jid wk secs now st)) = requests st"
  "results (snd (claim_txn jid wk secs now st)) = results st"
  "workers (snd (claim_txn jid wk secs now st)) = workers st"
  by (simp_all add: claim_txn_def Let_def split: option.split)

lemma finish_frame [simp]:
  "jobs (finish_shard sid wk now st) = jobs st" "requests (finish_shard sid wk now st) = requests st"
  "results (finish_shard sid wk now st) = results st"
  "workers (finish_shard sid wk now st) = workers st"
  "shards (finish_shard sid wk now st) =
     update_where (\<lambda>s. s_id s = sid) (mark_done now) (shards st)"
  by (simp_all add: finish_shard_def)

lemma extend_frame [simp]:
  "jobs (extend_lease sid wk secs now st) = jobs st"
  "requests (extend_lease sid wk secs now st) = requests st"
  "results (extend_lease sid wk secs now st) = results st"
  "workers (extend_lease sid wk secs now st) = workers st"
  by (simp_all add: extend_lease_def)

lemma kill_frame [simp]:
  "jobs (snd (kill_worker wid reason now st)) = jobs st"
  "requests (snd (kill_worker wid reason now st)) = requests st"
  "results (snd (kill_worker wid reason now st)) = results st"
  "shards (snd (kill_worker wid reason now st)) =
     update_where (held_by wid) release_lease (shards st)"
  by (simp_all add: kill_worker_def Let_def)

lemma heartbeat_frame [simp]:
  "jobs (snd (heartbeat wid now st)) = jobs st" "requests (snd (heartbeat wid now st)) = requests st"
  "results (snd (heartbeat wid now st)) = results st"
  "shards (snd (heartbeat wid now st)) = shards st"
  by (simp_all add: heartbeat_def Let_def split: option.split)

lemma register_frame [simp]:
  "jobs (register_worker wid jid prov inst itype price now st) = jobs st"
  "requests (register_worker wid jid prov inst itype price now st) = requests st"
  "results (register_worker wid jid prov inst itype price now st) = results st"
  "shards (register_worker wid jid prov inst itype price now st) = shards st"
  by (simp_all add: register_worker_def)

lemma put_row_frame [simp]:
  "jobs (fold put_row rs st) = jobs st" "requests (fold put_row rs st) = requests st"
  "workers (fold put_row rs st) = workers st" "shards (fold put_row rs st) = shards st"
  by (induction rs arbitrary: st) (simp_all add: put_row_def)

lemma set_status_frame [simp]:
  "requests (set_job_status jid s now st) = requests st"
  "results (set_job_status jid s now st) = results st"
  "workers (set_job_status jid s now st) = workers st"
  "shards (set_job_status jid s now st) = shards st"
  by (simp_all add: set_job_status_def)

lemma overwrite_result_key [simp]: "result_key (overwrite_result old new) = result_key old"
  by (simp add: result_key_def overwrite_result_def)

lemma put_rows_distinct:
  "distinct (map result_key (results st)) \<Longrightarrow>
   distinct (map result_key (results (fold put_row rs st)))"
  by (induction rs arbitrary: st) (simp_all add: put_row_def upsert_by_distinct)

lemma put_rows_keys:
  "result_key ` set (results (fold put_row rs st)) =
   result_key ` set rs \<union> result_key ` set (results st)"
  by (induction rs arbitrary: st) (auto simp: put_row_def upsert_by_key_set)

end
