(* ===== verification/Job_Safety.thy ===== *)
theory Job_Safety
  imports Job_Invariant
begin

text \<open>
  The preservation proofs behind the job store's state machine, one lemma per transaction, and
  what they give for every reachable store: each shard is in exactly one place of its life
  cycle, no closed shard hides an unanswered request, and a job with nothing outstanding is
  complete.
\<close>


section \<open>Every transaction keeps the store well formed\<close>

lemma insert_requests_Inr:
  "insert_requests rs tab = Inr tab' \<Longrightarrow> tab' = tab @ rs \<and>
     (distinct (map request_key tab) \<longrightarrow> distinct (map request_key tab'))"
proof (induction rs arbitrary: tab)
  case Nil
  then show ?case by simp
next
  case (Cons r rs)
  then have "request_key r \<notin> request_key ` set tab" "insert_requests rs (tab @ [r]) = Inr tab'"
    by (auto split: if_splits)
  then have "tab' = (tab @ [r]) @ rs"
    and d: "distinct (map request_key (tab @ [r])) \<longrightarrow> distinct (map request_key tab')"
    and n: "request_key r \<notin> request_key ` set tab"
    using Cons.IH by blast+
  moreover have "distinct (map request_key tab) \<longrightarrow> distinct (map request_key (tab @ [r]))"
    using n by auto
  ultimately show ?case by (metis append.assoc append_Cons append_Nil)
qed

definition chunk_rows :: "string \<Rightarrow> (nat \<Rightarrow> string) \<Rightarrow> nat \<Rightarrow> json list list \<Rightarrow> request list list \<Rightarrow> bool" where
  "chunk_rows jid ids i cs rss \<longleftrightarrow> length rss = length cs \<and>
     (\<forall>k < length cs. seq_map (request_row jid (ids (i + k))) (cs ! k) = Inr (rss ! k))"

lemma chunk_rows_Cons:
  "chunk_rows jid ids i (c # cs) (rs # rss) \<longleftrightarrow>
   seq_map (request_row jid (ids i)) c = Inr rs \<and> chunk_rows jid ids (Suc i) cs rss"
  by (auto simp: chunk_rows_def All_less_Suc2)

lemma insert_chunks_Inr:
  assumes "insert_chunks jid ids i cs st = Inr st'"
  shows "\<exists>rss. chunk_rows jid ids i cs rss \<and> requests st' = requests st @ concat rss \<and>
     shards st' = shards st @ map (\<lambda>k. new_shard (ids k) jid k) [i..<i + length cs] \<and>
     jobs st' = jobs st \<and> results st' = results st \<and> workers st' = workers st \<and>
     (distinct (map request_key (requests st)) \<longrightarrow> distinct (map request_key (requests st'))) \<and>
     (distinct (map s_id (shards st)) \<longrightarrow> distinct (map s_id (shards st')))"
  using assms
proof (induction cs arbitrary: i st)
  case Nil
  then show ?case by (auto simp: chunk_rows_def)
next
  case (Cons c cs)
  from Cons.prems obtain rows tab where
    new: "ids i \<notin> s_id ` set (shards st)"
    and rows: "seq_map (request_row jid (ids i)) c = Inr rows"
    and tab: "insert_requests rows (requests st) = Inr tab"
    and rest: "insert_chunks jid ids (Suc i) cs
       (st\<lparr>shards := shards st @ [new_shard (ids i) jid i], requests := tab\<rparr>) = Inr st'"
    by (auto split: if_splits sum.splits)
  let ?st1 = "st\<lparr>shards := shards st @ [new_shard (ids i) jid i], requests := tab\<rparr>"
  from Cons.IH [OF rest] obtain rss where IH: "chunk_rows jid ids (Suc i) cs rss"
    "requests st' = requests ?st1 @ concat rss"
    "shards st' = shards ?st1 @ map (\<lambda>k. new_shard (ids k) jid k) [Suc i..<Suc i + length cs]"
    "jobs st' = jobs ?st1" "results st' = results ?st1" "workers st' = workers ?st1"
    "distinct (map request_key (requests ?st1)) \<longrightarrow> distinct (map request_key (requests st'))"
    "distinct (map s_id (shards ?st1)) \<longrightarrow> distinct (map s_id (shards st'))"
    by blast
  have up: "[i..<i + length (c # cs)] = i # [Suc i..<Suc i + length cs]"
    using upt_conv_Cons [of i "i + length (c # cs)"] by (simp del: upt_Suc)
  have sh: "shards st' = shards st @
      map (\<lambda>k. new_shard (ids k) jid k) [i..<i + length (c # cs)]"
    unfolding up using IH(3) by (simp del: upt_Suc)
  have rq: "requests st' = requests st @ concat (rows # rss)"
    using IH(2) insert_requests_Inr [OF tab] by simp
  have t: "requests ?st1 = tab" by simp
  have d1: "distinct (map request_key (requests st)) \<longrightarrow> distinct (map request_key (requests st'))"
    using IH(7) insert_requests_Inr [OF tab] unfolding t by blast
  have "distinct (map s_id (shards st)) \<longrightarrow> distinct (map s_id (shards ?st1))"
    using new by (auto simp: new_shard_def)
  then have d2: "distinct (map s_id (shards st)) \<longrightarrow> distinct (map s_id (shards st'))"
    using IH(8) by blast
  have "chunk_rows jid ids i (c # cs) (rows # rss)"
    using rows IH(1) by (simp add: chunk_rows_Cons)
  with sh rq d1 d2 IH(4-6) show ?case by (intro exI [of _ "rows # rss"]) simp
qed

lemma request_row_Inr:
  "request_row jid sid r = Inr q \<Longrightarrow> r_job q = jid \<and> r_shard q = sid \<and> r_payload q = r"
  by (auto simp: request_row_def split: sum.splits)

lemma chunk_rows_row:
  assumes "chunk_rows jid ids i cs rss" and "q \<in> set (concat rss)"
  shows "\<exists>k < length cs. r_shard q = ids (i + k) \<and> r_job q = jid"
proof -
  obtain rs where "rs \<in> set rss" "q \<in> set rs" using assms(2) by auto
  then obtain k where k: "k < length cs" "q \<in> set (rss ! k)"
    using assms(1) by (metis chunk_rows_def in_set_conv_nth)
  then have "list_all2 (\<lambda>x y. request_row jid (ids (i + k)) x = Inr y) (cs ! k) (rss ! k)"
    using assms(1) by (simp add: chunk_rows_def seq_map_Inr_iff)
  then obtain x where "request_row jid (ids (i + k)) x = Inr q"
    using k(2) by (auto simp: in_set_conv_nth list_all2_conv_all_nth)
  with k(1) request_row_Inr show ?thesis by blast
qed

lemma create_job_Inr:
  assumes "create_job jid ids name model deadline ssize reqs accept now st = Inr st'"
  obtains cs rss where "job_chunks ssize reqs = Inr cs" "chunk_rows jid ids 0 cs rss"
    "jid \<notin> j_id ` set (jobs st)"
    "jobs st' = jobs st @ [\<lparr>j_id = jid, j_name = name, j_model = model, j_deadline_ts = deadline,
       j_created_ts = now, j_status = Running, j_shard_size = ssize,
       j_n_requests = length reqs, j_accept = accept\<rparr>]"
    "requests st' = requests st @ concat rss"
    "shards st' = shards st @ map (\<lambda>k. new_shard (ids k) jid k) [0..<length cs]"
    "results st' = results st" "workers st' = workers st"
    "distinct (map request_key (requests st)) \<longrightarrow> distinct (map request_key (requests st'))"
    "distinct (map s_id (shards st)) \<longrightarrow> distinct (map s_id (shards st'))"
proof -
  let ?j = "\<lparr>j_id = jid, j_name = name, j_model = model, j_deadline_ts = deadline,
     j_created_ts = now, j_status = Running, j_shard_size = ssize,
     j_n_requests = length reqs, j_accept = accept\<rparr>"
  let ?st0 = "st\<lparr>jobs := jobs st @ [?j]\<rparr>"
  have nj: "jid \<notin> j_id ` set (jobs st)"
    using assms by (simp add: create_job_def split: if_splits)
  obtain cs where cs: "job_chunks ssize reqs = Inr cs"
    using assms nj by (cases "job_chunks ssize reqs") (simp_all add: create_job_def)
  obtain st1 where st1: "insert_chunks jid ids 0 cs ?st0 = Inr st1"
    using assms nj cs by (cases "insert_chunks jid ids 0 cs ?st0") (simp_all add: create_job_def)
  have st': "st' = log_event (Job_created name (length reqs)) (Some jid) None now st1"
    using assms nj cs st1 by (simp add: create_job_def)
  from insert_chunks_Inr [OF st1] obtain rss where "chunk_rows jid ids 0 cs rss"
    "requests st1 = requests ?st0 @ concat rss"
    "shards st1 = shards ?st0 @ map (\<lambda>k. new_shard (ids k) jid k) [0..<0 + length cs]"
    "results st1 = results ?st0" "workers st1 = workers ?st0" "jobs st1 = jobs ?st0"
    "distinct (map request_key (requests ?st0)) \<longrightarrow> distinct (map request_key (requests st1))"
    "distinct (map s_id (shards ?st0)) \<longrightarrow> distinct (map s_id (shards st1))"
    by blast
  with nj cs st' show thesis
    by (intro that [of cs rss]) (simp_all del: upt_Suc distinct_map)
qed

lemma create_store_ok:
  assumes "store_ok st" and "create_job jid ids name model deadline ssize reqs accept now st = Inr st'"
  shows "store_ok st'"
proof -
  from assms(2) obtain cs rss where c: "job_chunks ssize reqs = Inr cs"
    "chunk_rows jid ids 0 cs rss" "jid \<notin> j_id ` set (jobs st)"
    "jobs st' = jobs st @ [\<lparr>j_id = jid, j_name = name, j_model = model, j_deadline_ts = deadline,
       j_created_ts = now, j_status = Running, j_shard_size = ssize,
       j_n_requests = length reqs, j_accept = accept\<rparr>]"
    "requests st' = requests st @ concat rss"
    "shards st' = shards st @ map (\<lambda>k. new_shard (ids k) jid k) [0..<length cs]"
    "results st' = results st" "workers st' = workers st"
    "distinct (map request_key (requests st)) \<longrightarrow> distinct (map request_key (requests st'))"
    "distinct (map s_id (shards st)) \<longrightarrow> distinct (map s_id (shards st'))"
    by (rule create_job_Inr)
  have "keys_ok st'"
    using assms(1) c by (auto simp: inv_defs)
  moreover have "leases_ok st'"
    using assms(1) by (auto simp: inv_defs c(6) lease_ok_def new_shard_def)
  moreover have "(r_shard r, r_job r) \<in> shard_ref ` set (shards st')" if "r \<in> set (requests st')" for r
  proof (cases "r \<in> set (requests st)")
    case True
    then show ?thesis using assms(1) by (auto simp: inv_defs c(6))
  next
    case False
    with that c(5) have "r \<in> set (concat rss)" by auto
    then obtain k where "k < length cs" "r_shard r = ids k" "r_job r = jid"
      using chunk_rows_row [OF c(2)] by auto
    then have "shard_ref (new_shard (ids k) jid k) \<in> shard_ref ` set (shards st')"
      by (intro imageI) (simp add: c(6))
    with \<open>r_shard r = ids k\<close> \<open>r_job r = jid\<close> show ?thesis
      by (simp add: shard_ref_def new_shard_def)
  qed
  moreover have "s_job ` set (shards st') \<subseteq> j_id ` set (jobs st')"
    using assms(1) by (auto simp: inv_defs c(4,6) new_shard_def)
  ultimately show ?thesis by (auto simp: store_ok_def refs_ok_def)
qed

lemma shards_store_ok:
  assumes "store_ok st" and "shards st' = update_where p f (shards st)"
    and "jobs st' = jobs st" "requests st' = requests st" "results st' = results st"
    and "map w_id (workers st') = map w_id (workers st)"
    and "\<And>s. s_id (f s) = s_id s" "\<And>s. s_job (f s) = s_job s"
    and "\<And>s. s \<in> set (shards st) \<Longrightarrow> p s \<Longrightarrow> lease_ok s \<Longrightarrow> lease_ok (f s)"
  shows "store_ok st'"
proof -
  have "map s_id (shards st') = map s_id (shards st)"
    "map s_job (shards st') = map s_job (shards st)"
    "map shard_ref (shards st') = map shard_ref (shards st)"
    unfolding assms(2) using assms(7,8) by (simp_all add: table_simps shard_ref_def)
  moreover from this have "s_job ` set (shards st') = s_job ` set (shards st)"
    "shard_ref ` set (shards st') = shard_ref ` set (shards st)"
    by (metis set_map)+
  moreover have "leases_ok st'"
    using assms(1,9) by (auto simp: inv_defs assms(2) set_update_where)
  ultimately show ?thesis
    using assms(1,3-6) by (simp add: store_ok_def keys_ok_def refs_ok_def)
qed

lemma same_shard:
  "store_ok st \<Longrightarrow> s \<in> set (shards st) \<Longrightarrow> x \<in> set (shards st) \<Longrightarrow> s_id x = s_id s \<Longrightarrow> x = s"
  by (auto simp: store_ok_def keys_ok_def intro: distinct_key_eq)

lemma claim_txn_shards:
  assumes "pick_pending jid st = Some s"
  shows "shards (snd (claim_txn jid wk secs now st)) =
     update_where (\<lambda>x. s_id x = s_id s) (take_lease wk (now + secs)) (shards st)"
  using assms by (simp add: claim_txn_def Let_def)

lemma claim_txn_store_ok:
  assumes "store_ok st"
  shows "store_ok (snd (claim_txn jid wk secs now st))"
proof (cases "pick_pending jid st")
  case None
  then show ?thesis using assms by (simp add: claim_txn_def)
next
  case (Some s)
  note s = pick_pending_Some [OF Some]
  show ?thesis
  proof (rule shards_store_ok [OF assms claim_txn_shards [OF Some]])
    fix x assume "x \<in> set (shards st)" "s_id x = s_id s" "lease_ok x"
    moreover from this have "x = s" using same_shard [OF assms s(1)] by simp
    ultimately show "lease_ok (take_lease wk (now + secs) x)"
      using s(3) by (simp add: lease_ok_take)
  qed simp_all
qed

lemma reap_store_ok:
  assumes "store_ok st" shows "store_ok (snd (reap arg clock st))"
proof (rule shards_store_ok [OF assms reap_shards])
  show "distinct (map s_id (shards st))" using assms by (simp add: inv_defs)
qed (auto simp: expired_def intro!: lease_ok_release)

lemma kill_store_ok:
  assumes "store_ok st" shows "store_ok (snd (kill_worker wid reason now st))"
proof (rule shards_store_ok [OF assms kill_frame(4)])
  show "map w_id (workers (snd (kill_worker wid reason now st))) = map w_id (workers st)"
    by (simp add: kill_worker_def Let_def table_simps)
qed (auto simp: held_by_def intro!: lease_ok_release)

lemma extend_shards: "shards (extend_lease sid wk secs now st) =
    update_where (\<lambda>s. s_id s = sid \<and> s_lease_worker s = Some wk \<and> s_state s = Leased)
      (\<lambda>s. s\<lparr>s_lease_exp := Some (now + secs)\<rparr>) (shards st)"
  by (simp add: extend_lease_def)

lemma extend_store_ok:
  assumes "store_ok st" shows "store_ok (extend_lease sid wk secs now st)"
proof (rule shards_store_ok [OF assms extend_shards])
qed (auto simp: lease_ok_def)

lemma finish_store_ok:
  assumes "store_ok st" shows "store_ok (finish_shard sid wk now st)"
  by (rule shards_store_ok [OF assms finish_frame(5)]) simp_all

lemma put_store_ok:
  "store_ok st \<Longrightarrow> store_ok (fold put_row rs st)"
  by (simp add: inv_defs put_rows_distinct)

lemma register_store_ok:
  "store_ok st \<Longrightarrow> store_ok (register_worker wid jid prov inst itype price now st)"
  by (simp add: inv_defs register_worker_def upsert_by_distinct overwrite_worker_def)

lemma heartbeat_store_ok:
  "store_ok st \<Longrightarrow> store_ok (snd (heartbeat wid now st))"
  by (auto simp: inv_defs heartbeat_def Let_def table_simps split: option.split)

lemma set_status_jobs:
  "map j_id (jobs (set_job_status jid s now st)) = map j_id (jobs st)"
  by (simp add: set_job_status_def table_simps)

lemma set_status_store_ok:
  "store_ok st \<Longrightarrow> store_ok (set_job_status jid s now st)"
  using set_status_jobs [of jid s now st] by (metis (no_types, lifting) inv_defs set_status_frame set_map)

lemma apply_op_store_ok:
  assumes "store_ok st" and "apply_op op st = Inr st'"
  shows "store_ok st'"
  using assms
  by (cases op) (auto simp: put_results_def split: sum.splits
      intro: create_store_ok reap_store_ok claim_txn_store_ok extend_store_ok finish_store_ok
        put_store_ok register_store_ok heartbeat_store_ok kill_store_ok set_status_store_ok)

lemma empty_store_ok [simp]: "store_ok empty_store"
  by (simp add: inv_defs empty_store_def)

section \<open>Honest transactions lose no work\<close>

lemma answered_keys: "answered st j r \<longleftrightarrow> (j, r) \<in> result_key ` set (results st)"
  by (simp add: answered_def result_key_def)

lemma unanswered_Nil:
  "unanswered sid st = [] \<longleftrightarrow>
   (\<forall>r \<in> set (requests st). r_shard r = sid \<longrightarrow> request_key r \<in> result_key ` set (results st))"
  by (auto simp: unanswered_def filter_empty_conv answered_keys request_key_def)

lemma unanswered_cong:
  "requests st' = requests st \<Longrightarrow> results st' = results st \<Longrightarrow> unanswered sid st' = unanswered sid st"
  by (simp add: unanswered_def answered_def)

text \<open>A shard update that closes nothing, or only shards without unanswered requests.\<close>

lemma shards_accounted:
  assumes "accounted st" and "shards st' = update_where p f (shards st)"
    and "jobs st' = jobs st" "requests st' = requests st" "results st' = results st"
    and "\<And>s. s_id (f s) = s_id s"
    and "\<And>s. s \<in> set (shards st) \<Longrightarrow> p s \<Longrightarrow> s_state (f s) = Shard_done \<Longrightarrow>
           s_state s = Shard_done \<or> unanswered (s_id s) st = []"
  shows "accounted st'"
proof -
  note u = unanswered_cong [OF assms(4,5)]
  have "closed_answered st'"
    using assms(1,6,7) by (fastforce simp: accounted_def closed_answered_def assms(2) u set_update_where)
  then show ?thesis
    using assms(1) by (simp add: accounted_def counts_ok_def assms(3-5))
qed

lemma frame_accounted:
  assumes "accounted st" "shards st' = shards st" "requests st' = requests st"
    "results st' = results st"
    "map (\<lambda>j. (j_id j, j_n_requests j)) (jobs st') = map (\<lambda>j. (j_id j, j_n_requests j)) (jobs st)"
  shows "accounted st'"
proof -
  let ?f = "\<lambda>j. (j_id j, j_n_requests j)"
  have eq: "?f ` set (jobs st') = ?f ` set (jobs st)"
    using assms(5) by (metis set_map)
  have "\<exists>y \<in> set (jobs st). j_id y = j_id x \<and> j_n_requests y = j_n_requests x"
    if "x \<in> set (jobs st')" for x
  proof -
    have "?f x \<in> ?f ` set (jobs st)" using that unfolding eq [symmetric] by (rule imageI)
    then show ?thesis by auto
  qed
  then have "counts_ok st'"
    using assms(1) unfolding accounted_def counts_ok_def assms(3) by fastforce
  moreover have "closed_answered st'"
    using assms(1) unanswered_cong [OF assms(3,4)] by (simp add: accounted_def closed_answered_def assms(2))
  ultimately show ?thesis using assms(1) by (simp add: accounted_def assms(3,4))
qed

lemma put_accounted:
  assumes "accounted st" "result_key ` set rs \<subseteq> request_key ` set (requests st)"
  shows "accounted (fold put_row rs st)"
  using assms
  by (auto simp: accounted_def closed_answered_def counts_ok_def unanswered_Nil put_rows_keys)

lemma job_chunks_concat:
  "job_chunks ssize reqs = Inr cs \<Longrightarrow> 0 < ssize \<Longrightarrow> concat cs = reqs"
  by (auto simp: job_chunks_def concat_chunks split: if_splits)

lemma chunk_rows_length:
  assumes "chunk_rows jid ids i cs rss" shows "length (concat rss) = length (concat cs)"
proof -
  have "map length rss = map length cs"
    using assms by (intro nth_equalityI) (auto simp: chunk_rows_def dest: seq_map_length)
  then show ?thesis by (simp add: length_concat)
qed

lemma filter_none: "(\<And>x. x \<in> set xs \<Longrightarrow> \<not> p x) \<Longrightarrow> length (filter p xs) = 0"
  by (simp add: filter_empty_conv)

lemma create_accounted:
  assumes ok: "store_ok st" and acc: "accounted st" and pos: "0 < ssize"
    and cr: "create_job jid ids name model deadline ssize reqs accept now st = Inr st'"
  shows "accounted st'"
proof -
  from cr obtain cs rss where c: "job_chunks ssize reqs = Inr cs"
    "chunk_rows jid ids 0 cs rss" "jid \<notin> j_id ` set (jobs st)"
    "jobs st' = jobs st @ [\<lparr>j_id = jid, j_name = name, j_model = model, j_deadline_ts = deadline,
       j_created_ts = now, j_status = Running, j_shard_size = ssize,
       j_n_requests = length reqs, j_accept = accept\<rparr>]"
    "requests st' = requests st @ concat rss"
    "shards st' = shards st @ map (\<lambda>k. new_shard (ids k) jid k) [0..<length cs]"
    "results st' = results st" "workers st' = workers st"
    "distinct (map request_key (requests st)) \<longrightarrow> distinct (map request_key (requests st'))"
    "distinct (map s_id (shards st)) \<longrightarrow> distinct (map s_id (shards st'))"
    by (rule create_job_Inr)
  have new: "r_job q = jid" "r_shard q \<in> ids ` {..<length cs}" if "q \<in> set (concat rss)" for q
    using chunk_rows_row [OF c(2) that] by auto
  have old_job: "r_job q \<noteq> jid" if "q \<in> set (requests st)" for q
  proof -
    have "(r_shard q, r_job q) \<in> shard_ref ` set (shards st)"
      using ok that by (auto simp: inv_defs)
    then obtain s where "s \<in> set (shards st)" "s_job s = r_job q" by (auto simp: shard_ref_def)
    then have "r_job q \<in> j_id ` set (jobs st)" using ok by (force simp: inv_defs)
    with c(3) show ?thesis by auto
  qed
  have "counts_ok st'"
  proof -
    have "length (filter (\<lambda>r. r_job r = j_id j) (requests st')) = j_n_requests j"
      if "j \<in> set (jobs st)" for j
    proof -
      have "j_id j \<noteq> jid" using c(3) that by auto
      then have "filter (\<lambda>r. r_job r = j_id j) (concat rss) = []"
        using new(1) by (auto simp: filter_empty_conv)
      then show ?thesis
        using acc that by (simp add: c(5) accounted_def counts_ok_def)
    qed
    moreover have "length (filter (\<lambda>r. r_job r = jid) (requests st')) = length reqs"
    proof -
      have "filter (\<lambda>r. r_job r = jid) (requests st) = []"
        using old_job by (simp add: filter_empty_conv)
      moreover have "filter (\<lambda>r. r_job r = jid) (concat rss) = concat rss"
        using new(1) by (auto intro: filter_True)
      ultimately show ?thesis
        using chunk_rows_length [OF c(2)] job_chunks_concat [OF c(1) pos]
        by (simp add: c(5) del: filter_concat)
    qed
    ultimately show ?thesis by (simp add: counts_ok_def c(4))
  qed
  moreover have "closed_answered st'"
  proof -
    have "unanswered (s_id s) st' = []"
      if s: "s \<in> set (shards st')" "s_state s = Shard_done" for s
    proof -
      have old: "s \<in> set (shards st)" using s by (auto simp: c(6) new_shard_def)
      have "distinct (map s_id (shards st @ map (\<lambda>k. new_shard (ids k) jid k) [0..<length cs]))"
        using ok c(6,10) by (simp add: store_ok_def keys_ok_def)
      then have "s_id s \<notin> ids ` {..<length cs}"
        using old by (fastforce simp: new_shard_def)
      then have "\<forall>r \<in> set (concat rss). r_shard r \<noteq> s_id s"
        using new(2) by metis
      then show ?thesis
        using acc old s(2) unfolding accounted_def closed_answered_def unanswered_Nil c(5,7)
        by auto
    qed
    then show ?thesis by (simp add: closed_answered_def)
  qed
  ultimately show ?thesis
    using acc by (auto simp: accounted_def c(5,7))
qed

lemma claim_txn_accounted:
  assumes "accounted st" shows "accounted (snd (claim_txn jid wk secs now st))"
proof (cases "pick_pending jid st")
  case None
  then show ?thesis using assms by (simp add: claim_txn_def)
next
  case (Some s)
  show ?thesis by (rule shards_accounted [OF assms claim_txn_shards [OF Some]]) simp_all
qed

lemma apply_op_accounted:
  assumes ok: "store_ok st" and acc: "accounted st" and "honest op st"
    and "apply_op op st = Inr st'"
  shows "accounted st'"
proof (cases op)
  case (Op_create jid ids name model deadline ssize reqs accept now)
  then show ?thesis using assms by (auto intro: create_accounted)
next
  case (Op_reap arg clock)
  have "accounted (snd (reap arg clock st))"
    using ok by (intro shards_accounted [OF acc reap_shards]) (simp_all add: inv_defs)
  then show ?thesis using assms Op_reap by simp
next
  case (Op_claim jid wk secs now)
  then show ?thesis using assms claim_txn_accounted by auto
next
  case (Op_extend sid wk secs now)
  have "accounted (extend_lease sid wk secs now st)"
    by (rule shards_accounted [OF acc extend_shards]) auto
  then show ?thesis using assms Op_extend by simp
next
  case (Op_finish sid wk now)
  have "accounted (finish_shard sid wk now st)"
    using assms(3) Op_finish by (intro shards_accounted [OF acc finish_frame(5)]) auto
  then show ?thesis using assms Op_finish by simp
next
  case (Op_put jid sid wk rows now)
  then show ?thesis
    using assms by (auto simp: put_results_def split: sum.splits intro: put_accounted)
next
  case (Op_register wid jid prov inst itype price now)
  have "accounted (register_worker wid jid prov inst itype price now st)"
    by (rule frame_accounted [OF acc]) simp_all
  then show ?thesis using assms Op_register by simp
next
  case (Op_heartbeat wid now)
  have "accounted (snd (heartbeat wid now st))" by (rule frame_accounted [OF acc]) simp_all
  then show ?thesis using assms Op_heartbeat by simp
next
  case (Op_kill wid reason now)
  have "accounted (snd (kill_worker wid reason now st))"
    by (rule shards_accounted [OF acc kill_frame(4)]) simp_all
  then show ?thesis using assms Op_kill by simp
next
  case (Op_status jid s now)
  have "accounted (set_job_status jid s now st)"
    by (rule frame_accounted [OF acc]) (simp_all add: set_job_status_def table_simps)
  then show ?thesis using assms Op_status by simp
qed

section \<open>Reachable stores\<close>

interpretation db_machine: transition_system "\<lambda>st. st = empty_store" db_step store_ok
  by unfold_locales (auto elim!: db_stepE intro: apply_op_store_ok)

interpretation honest_machine:
  transition_system "\<lambda>st. st = empty_store" honest_step "\<lambda>st. store_ok st \<and> accounted st"
proof unfold_locales
  show "store_ok st \<and> accounted st" if "st = empty_store" for st
    using that by (simp add: accounted_def closed_answered_def counts_ok_def empty_store_def
        inv_defs)
  show "store_ok t \<and> accounted t" if "store_ok s \<and> accounted s" "honest_step s t" for s t
    using that by (auto elim!: honest_stepE intro: apply_op_store_ok apply_op_accounted)
qed

text \<open>With nothing outstanding, the distinct result keys of a job are its request keys.\<close>

lemma length_filter_keys:
  assumes "distinct (map key xs)"
  shows "length (filter p xs) = card (key ` {x \<in> set xs. p x})"
proof -
  have "distinct (map key (filter p xs))" using assms by (rule distinct_map_filter)
  then show ?thesis by (metis distinct_card length_map set_filter set_map)
qed

lemma all_closed_complete:
  assumes ok: "store_ok st" and acc: "accounted st" and j: "j \<in> set (jobs st)"
    and out: "outstanding (j_id j) st = 0"
  shows "remaining j st = 0"
proof -
  let ?J = "j_id j"
  have closed: "s_state s = Shard_done" if "s \<in> set (shards st)" "s_job s = ?J" for s
    using out that by (auto simp: outstanding_def filter_empty_conv)
  have "request_key r \<in> result_key ` set (results st)"
    if r: "r \<in> set (requests st)" "r_job r = ?J" for r
  proof -
    have "(r_shard r, r_job r) \<in> shard_ref ` set (shards st)"
      using ok r(1) by (auto simp: store_ok_def refs_ok_def)
    then obtain s where s: "s \<in> set (shards st)" "s_id s = r_shard r" "s_job s = ?J"
      using r(2) by (auto simp: shard_ref_def)
    then have "unanswered (s_id s) st = []"
      using acc closed [OF s(1,3)] s(1) unfolding accounted_def closed_answered_def by blast
    then show ?thesis using r s(2) by (simp add: unanswered_Nil)
  qed
  then have "request_key ` {r \<in> set (requests st). r_job r = ?J}
      \<subseteq> result_key ` {o' \<in> set (results st). o_job o' = ?J}"
    by (force simp: request_key_def result_key_def)
  moreover have "result_key ` {o' \<in> set (results st). o_job o' = ?J}
      \<subseteq> request_key ` {r \<in> set (requests st). r_job r = ?J}"
    using acc by (force simp: accounted_def request_key_def result_key_def)
  ultimately have "result_key ` {o' \<in> set (results st). o_job o' = ?J} =
      request_key ` {r \<in> set (requests st). r_job r = ?J}" by blast
  then have "n_done ?J st = length (filter (\<lambda>r. r_job r = ?J) (requests st))"
    using ok by (simp add: n_done_def inv_defs length_filter_keys [of result_key]
        length_filter_keys [of request_key])
  then show ?thesis
    using acc j by (simp add: remaining_def accounted_def counts_ok_def)
qed

end
