(* ===== verification/Job_Claim.thy ===== *)
theory Job_Claim
  imports Job_Safety
begin

text \<open>
  What the operations of the job store promise: \<open>claim\<close> hands out exactly the unanswered
  requests of one pending shard, \<open>put_results\<close> may be repeated, \<open>kill_worker\<close> and
  \<open>reap\<close> return every lease they should and nothing else, \<open>create_job\<close> partitions the
  requests.
\<close>


section \<open>Claiming work\<close>

lemma claim_frame [simp]:
  "jobs (snd (claim jid wk secs now st)) = jobs st"
  "requests (snd (claim jid wk secs now st)) = requests st"
  "results (snd (claim jid wk secs now st)) = results st"
  "workers (snd (claim jid wk secs now st)) = workers st"
proof (induction jid wk secs now st rule: claim.induct)
  case (1 jid wk secs now st)
  obtain res st1 where r: "claim_txn jid wk secs now st = (res, st1)" by fastforce
  have f: "jobs st1 = jobs st" "requests st1 = requests st" "results st1 = results st"
    "workers st1 = workers st"
    using claim_txn_frame [of jid wk secs now st] unfolding r by simp_all
  {
    case 1
    show ?case
      using "1.IH"(1) r f by (subst claim.simps) (auto split: option.splits prod.splits)
  next
    case 2
    show ?case
      using "1.IH"(2) r f by (subst claim.simps) (auto split: option.splits prod.splits)
  next
    case 3
    show ?case
      using "1.IH"(3) r f by (subst claim.simps) (auto split: option.splits prod.splits)
  next
    case 4
    show ?case
      using "1.IH"(4) r f by (subst claim.simps) (auto split: option.splits prod.splits)
  }
qed

lemma claim_txn_result:
  "claim_txn jid wk secs now st = (Some (sid, reqs), st1) \<longleftrightarrow>
   (\<exists>s. pick_pending jid st = Some s \<and> sid = s_id s \<and>
      reqs = map r_payload (unanswered sid st) \<and> st1 = snd (claim_txn jid wk secs now st))"
  by (auto simp: claim_txn_def Let_def unanswered_def answered_def split: option.splits)

lemma claim_txn_NoneD: "claim_txn jid wk secs now st = (None, st1) \<Longrightarrow>
   st1 = st \<and> pick_pending jid st = None"
  by (auto simp: claim_txn_def Let_def split: option.splits)

text \<open>The three outcomes of one round of \<open>claim\<close>.\<close>

lemma claim_cases:
  obtains (empty) "pick_pending jid st = None" "claim jid wk secs now st = (None, st)"
  | (work) s where "pick_pending jid st = Some s" "unanswered (s_id s) st \<noteq> []"
      "claim jid wk secs now st =
         (Some (s_id s, map r_payload (unanswered (s_id s) st)), snd (claim_txn jid wk secs now st))"
  | (answered) s where "pick_pending jid st = Some s" "unanswered (s_id s) st = []"
      "claim jid wk secs now st =
         claim jid wk secs now (finish_shard (s_id s) wk now (snd (claim_txn jid wk secs now st)))"
proof (cases "pick_pending jid st")
  case None
  then show thesis
    by (intro empty) (simp_all add: claim.simps claim_txn_def)
next
  case (Some s)
  then obtain st1 where t: "claim_txn jid wk secs now st =
      (Some (s_id s, map r_payload (unanswered (s_id s) st)), st1)"
    by (auto simp: claim_txn_def Let_def unanswered_def answered_def)
  show thesis
  proof (cases "unanswered (s_id s) st = []")
    case True
    with Some t show thesis by (intro answered) (simp_all add: claim.simps [of jid wk secs now st])
  next
    case False
    with Some t show thesis by (intro work) (simp_all add: claim.simps [of jid wk secs now st])
  qed
qed

lemma claim_induct [case_names empty work answered]:
  assumes "\<And>st. pick_pending jid st = None \<Longrightarrow> claim jid wk secs now st = (None, st) \<Longrightarrow> P st"
    and "\<And>st s. pick_pending jid st = Some s \<Longrightarrow> unanswered (s_id s) st \<noteq> [] \<Longrightarrow>
      claim jid wk secs now st =
        (Some (s_id s, map r_payload (unanswered (s_id s) st)), snd (claim_txn jid wk secs now st))
      \<Longrightarrow> P st"
    and "\<And>st s. pick_pending jid st = Some s \<Longrightarrow> unanswered (s_id s) st = [] \<Longrightarrow>
      claim jid wk secs now st =
        claim jid wk secs now (finish_shard (s_id s) wk now (snd (claim_txn jid wk secs now st)))
      \<Longrightarrow> P (finish_shard (s_id s) wk now (snd (claim_txn jid wk secs now st))) \<Longrightarrow> P st"
  shows "P st"
proof (induction "length (pending_of jid st)" arbitrary: st rule: less_induct)
  case less
  show ?case
  proof (cases rule: claim_cases [of jid st wk secs now])
    case empty
    then show ?thesis by (rule assms(1))
  next
    case (work s)
    then show ?thesis by (rule assms(2))
  next
    case (answered s)
    let ?st2 = "finish_shard (s_id s) wk now (snd (claim_txn jid wk secs now st))"
    have "shards ?st2 = update_where (\<lambda>x. s_id x = s_id s)
        (mark_done now \<circ> take_lease wk (now + secs)) (shards st)"
      using claim_txn_shards [OF answered(1)] by (simp add: update_where_def)
    then have "length (pending_of jid ?st2) < length (pending_of jid st)"
      using pending_update_where_less [of s "shards st" jid "s_id s"
          "mark_done now \<circ> take_lease wk (now + secs)"] pick_pending_Some [OF answered(1)]
      by (simp add: pending_of_def)
    then show ?thesis using less answered assms(3) by blast
  qed
qed

text \<open>The store after a fully answered shard was claimed and closed.\<close>

lemma claim_close_store_ok:
  "store_ok st \<Longrightarrow> store_ok (finish_shard sid wk now (snd (claim_txn jid wk secs now st)))"
  by (intro finish_store_ok claim_txn_store_ok)

lemma claim_close_shards:
  assumes "pick_pending jid st = Some s"
  shows "shards (finish_shard (s_id s) wk now (snd (claim_txn jid wk secs now st))) =
    update_where (\<lambda>x. s_id x = s_id s) (mark_done now \<circ> take_lease wk (now + secs)) (shards st)"
  using claim_txn_shards [OF assms] by (simp add: update_where_def)

lemma unanswered_close [simp]:
  "unanswered sid' (finish_shard sid wk now (snd (claim_txn jid wk secs now st))) = unanswered sid' st"
  by (rule unanswered_cong) simp_all

lemma claim_store_ok: "store_ok st \<Longrightarrow> store_ok (snd (claim jid wk secs now st))"
proof (induction st rule: claim_induct [of jid wk secs now])
  case (work st s)
  then show ?case by (simp add: claim_txn_store_ok)
qed (simp_all add: claim_close_store_ok)

lemma claim_accounted: "accounted st \<Longrightarrow> accounted (snd (claim jid wk secs now st))"
proof (induction st rule: claim_induct [of jid wk secs now])
  case (work st s)
  then show ?case by (simp add: claim_txn_accounted)
next
  case (answered st s)
  have "accounted (finish_shard (s_id s) wk now (snd (claim_txn jid wk secs now st)))"
    using answered(1,2,5)
    by (intro shards_accounted [OF _ claim_close_shards]) (auto dest: pick_pending_Some)
  with answered(3,4) show ?case by simp
qed simp

lemma claim_None: "fst (claim jid wk secs now st) = None \<Longrightarrow>
   pick_pending jid (snd (claim jid wk secs now st)) = None"
  by (induction st rule: claim_induct [of jid wk secs now]) simp_all

text \<open>What \<open>claim\<close> does to each shard row.\<close>

definition claimed_row :: "string \<Rightarrow> string \<Rightarrow> rat \<Rightarrow> (string \<times> json list) option \<Rightarrow> store
    \<Rightarrow> shard \<Rightarrow> shard \<Rightarrow> bool" where
  "claimed_row jid wk expiry res st s s' \<longleftrightarrow> s' = s \<or>
     (s_job s = jid \<and> s_state s = Pending \<and> s_id s' = s_id s \<and> s_job s' = jid \<and>
      (if s_state s' = Shard_done then unanswered (s_id s) st = []
       else s' = take_lease wk expiry s \<and> unanswered (s_id s) st \<noteq> [] \<and>
            res = Some (s_id s, map r_payload (unanswered (s_id s) st))))"

lemma list_all2_update_where:
  "(\<And>x. x \<in> set xs \<Longrightarrow> R x (if p x then f x else x)) \<Longrightarrow> list_all2 R xs (update_where p f xs)"
  by (induction xs) (auto simp: update_where_def)

lemma claim_rows:
  "store_ok st \<Longrightarrow>
   list_all2 (claimed_row jid wk (now + secs) (fst (claim jid wk secs now st)) st)
     (shards st) (shards (snd (claim jid wk secs now st)))"
proof (induction st rule: claim_induct [of jid wk secs now])
  case (empty st)
  then show ?case by (simp add: list_all2_same claimed_row_def)
next
  case (work st s)
  note s = pick_pending_Some [OF work(1)]
  have "claimed_row jid wk (now + secs) (fst (claim jid wk secs now st)) st x
      (if s_id x = s_id s then take_lease wk (now + secs) x else x)"
    if "x \<in> set (shards st)" for x
    using that s work(2,3) same_shard [OF work(4) s(1) that] by (auto simp: claimed_row_def)
  then show ?case
    unfolding work(3) snd_conv claim_txn_shards [OF work(1)]
    by (intro list_all2_update_where) (simp add: work(3))
next
  case (answered st s)
  note s = pick_pending_Some [OF answered(1)]
  let ?st2 = "finish_shard (s_id s) wk now (snd (claim_txn jid wk secs now st))"
  let ?R = "claimed_row jid wk (now + secs) (fst (claim jid wk secs now st))"
  have IH: "list_all2 (?R ?st2) (shards ?st2) (shards (snd (claim jid wk secs now st)))"
    using answered(4) [OF claim_close_store_ok [OF answered(5)]] unfolding answered(3) .
  have "list_all2 (\<lambda>x x'. x' = x \<or> (x = s \<and> x' = mark_done now (take_lease wk (now + secs) x)))
      (shards st) (shards ?st2)"
    unfolding claim_close_shards [OF answered(1)]
    using same_shard [OF answered(5) s(1)] by (intro list_all2_update_where) auto
  then show ?case
    using IH
  proof (rule list_all2_trans [rotated])
    fix a b c
    assume ab: "b = a \<or> (a = s \<and> b = mark_done now (take_lease wk (now + secs) a))"
      and bc: "?R ?st2 b c"
    have u: "unanswered sid ?st2 = unanswered sid st" for sid by simp
    show "?R st a c"
      using ab bc s(2,3) answered(2) unfolding claimed_row_def u by (auto split: if_splits)
  qed
qed

section \<open>Repeating a result post\<close>

text \<open>What a client reads from a result row.\<close>

definition observed :: "result_row \<Rightarrow> (string \<times> string) \<times> json \<times> bool" where
  "observed r = (result_key r, o_output r, o_accepted r)"

definition observe :: "store \<Rightarrow> ((string \<times> string) \<times> json \<times> bool) list" where
  "observe st = map observed (results st)"

text \<open>The value a key ends up with when rows are upserted from left to right.\<close>

definition overwrite_all ::
  "((string \<times> string) \<times> json \<times> bool) list \<Rightarrow> (string \<times> string) \<times> json \<times> bool
     \<Rightarrow> (string \<times> string) \<times> json \<times> bool" where
  "overwrite_all rs x = fold (\<lambda>r x. if fst r = fst x then r else x) rs x"

lemma observed_overwrite:
  "result_key r = result_key x \<Longrightarrow> observed (overwrite_result x r) = observed r"
  by (simp add: observed_def overwrite_result_def result_key_def)

lemma observe_put_row:
  "observe (put_row r st) =
     (if fst (observed r) \<in> fst ` set (observe st)
      then map (\<lambda>x. if fst (observed r) = fst x then observed r else x) (observe st)
      else observe st @ [observed r])"
proof -
  have "fst (observed x) = result_key x" for x by (simp add: observed_def)
  then show ?thesis
    by (auto simp: observe_def put_row_def upsert_by_def image_image observed_overwrite)
qed

lemma observe_put_rows_present:
  "fst ` observed ` set rs \<subseteq> fst ` set (observe st) \<Longrightarrow>
   observe (fold put_row rs st) = map (overwrite_all (map observed rs)) (observe st)"
proof (induction rs arbitrary: st)
  case Nil
  then show ?case by (simp add: overwrite_all_def)
next
  case (Cons r rs)
  then have r: "observe (put_row r st) =
      map (\<lambda>x. if fst (observed r) = fst x then observed r else x) (observe st)"
    by (simp add: observe_put_row)
  have "fst ` set (observe (put_row r st)) = fst ` set (observe st)"
  proof -
    have "map fst (observe (put_row r st)) = map fst (observe st)" unfolding r by simp
    then show ?thesis by (metis set_map)
  qed
  then have "fst ` observed ` set rs \<subseteq> fst ` set (observe (put_row r st))"
    using Cons.prems by simp
  then have "observe (fold put_row rs (put_row r st)) =
      map (overwrite_all (map observed rs)) (observe (put_row r st))"
    by (rule Cons.IH)
  then show ?case by (simp add: r overwrite_all_def)
qed

lemma overwrite_all_snoc:
  "overwrite_all (rs @ [r]) x =
     (let y = overwrite_all rs x in if fst r = fst y then r else y)"
  by (simp add: overwrite_all_def Let_def)

lemma overwrite_all_key [simp]: "fst (overwrite_all rs x) = fst x"
  by (induction rs arbitrary: x) (simp_all add: overwrite_all_def)

lemma observe_put_rows_fixed:
  "x \<in> set (observe (fold put_row rs st)) \<Longrightarrow> overwrite_all (map observed rs) x = x"
proof (induction rs arbitrary: x rule: rev_induct)
  case Nil
  then show ?case by (simp add: overwrite_all_def)
next
  case (snoc r rs)
  let ?t = "fold put_row rs st"
  have x: "x \<in> set (observe (put_row r ?t))" using snoc.prems by simp
  show ?case
  proof (cases "fst (observed r) = fst x")
    case True
    then have "x = observed r"
      using x by (auto simp: observe_put_row image_iff split: if_splits)
    then show ?thesis by (simp add: overwrite_all_snoc Let_def)
  next
    case False
    then have "x \<in> set (observe ?t)"
      using x by (auto simp: observe_put_row split: if_splits)
    then show ?thesis using snoc.IH False by (simp add: overwrite_all_snoc Let_def)
  qed
qed

lemma observe_keys: "fst ` set (observe st) = result_key ` set (results st)"
  by (force simp: observe_def observed_def)

text \<open>A second pass of rows with the same observations changes no observation.\<close>

lemma observe_put_rows_again:
  assumes "map observed rs' = map observed rs"
  shows "observe (fold put_row rs' (fold put_row rs st)) = observe (fold put_row rs st)"
proof -
  have "fst ` observed ` set rs' = fst ` observed ` set rs"
    using assms by (metis set_map)
  also have "\<dots> = result_key ` set rs" by (force simp: observed_def)
  finally have "fst ` observed ` set rs' \<subseteq> fst ` set (observe (fold put_row rs st))"
    unfolding observe_keys put_rows_keys by blast
  then have "observe (fold put_row rs' (fold put_row rs st)) =
      map (overwrite_all (map observed rs)) (observe (fold put_row rs st))"
    using assms by (simp add: observe_put_rows_present)
  also have "\<dots> = observe (fold put_row rs st)"
    by (rule map_idI) (rule observe_put_rows_fixed)
  finally show ?thesis .
qed

lemma seq_map_observed:
  assumes "seq_map (result_of_json jid sid wk now) rows = Inr rs"
    and "seq_map (result_of_json jid sid' wk' now') rows = Inr rs'"
  shows "map observed rs' = map observed rs"
  using assms
proof (induction rows arbitrary: rs rs')
  case (Cons row rows)
  then show ?case
    by (auto simp: result_of_json_def observed_def result_key_def split: sum.splits)
qed simp

lemma put_results_Inr:
  "put_results jid sid wk rows now st = Inr (n, st') \<longleftrightarrow>
   (\<exists>rs. seq_map (result_of_json jid sid wk now) rows = Inr rs \<and> n = length rows \<and>
      st' = fold put_row rs st)"
  by (auto simp: put_results_def split: sum.splits)

lemma insort_key_map:
  "map f (sort_key (k \<circ> f) xs) = sort_key k (map f xs)"
proof (induction xs)
  case (Cons x xs)
  have "map f (insort_key (k \<circ> f) x ys) = insort_key k (f x) (map f ys)" for ys
    by (induction ys) simp_all
  with Cons show ?case by (simp add: comp_def)
qed simp

lemma outputs_observe:
  "outputs jid st = map (\<lambda>x. (snd (fst x), snd x))
     (sort_key (snd \<circ> fst) (filter (\<lambda>x. fst (fst x) = jid) (observe st)))"
proof -
  let ?rows = "filter (\<lambda>r. o_job r = jid) (results st)"
  have "filter (\<lambda>x. fst (fst x) = jid) (observe st) = map observed ?rows"
    by (simp add: observe_def observed_def result_key_def filter_map comp_def)
  moreover have "map observed (sort_key o_req ?rows) = sort_key (snd \<circ> fst) (map observed ?rows)"
    using insort_key_map [of observed "snd \<circ> fst" ?rows]
    by (simp add: comp_def observed_def result_key_def)
  ultimately show ?thesis
    by (simp add: outputs_def observed_def result_key_def comp_def flip: insort_key_map)
qed

lemma n_done_observe: "n_done jid st = length (filter (\<lambda>x. fst (fst x) = jid) (observe st))"
  by (simp add: n_done_def observe_def filter_map comp_def observed_def result_key_def)

lemma n_accepted_observe:
  "n_accepted jid st = length (filter (\<lambda>x. fst (fst x) = jid \<and> snd (snd x)) (observe st))"
  by (simp add: n_accepted_def observe_def filter_map comp_def observed_def result_key_def)

section \<open>Properties\<close>

lemma claim_lowest:
  assumes "store_ok st" "fst (claim jid wk secs now st) = Some (sid, reqs)"
  shows "\<exists>s \<in> set (shards st). s_id s = sid \<and> s_job s = jid \<and> s_state s = Pending \<and>
     take_lease wk (now + secs) s \<in> set (shards (snd (claim jid wk secs now st))) \<and>
     reqs = map r_payload (unanswered sid st) \<and> reqs \<noteq> [] \<and>
     (\<forall>x \<in> set (shards st). s_job x = jid \<longrightarrow> s_state x = Pending \<longrightarrow>
        unanswered (s_id x) st \<noteq> [] \<longrightarrow> s_idx s \<le> s_idx x)"
  using assms
proof (induction st rule: claim_induct [of jid wk secs now])
  case (work st s)
  note s = pick_pending_Some [OF work(1)]
  have "take_lease wk (now + secs) s \<in> set (shards (snd (claim_txn jid wk secs now st)))"
    using s(1) by (auto simp: claim_txn_shards [OF work(1)] set_update_where)
  then show ?case using s work(2,3,5) by (intro bexI [of _ s]) auto
next
  case (answered st s)
  note s = pick_pending_Some [OF answered(1)]
  let ?st2 = "finish_shard (s_id s) wk now (snd (claim_txn jid wk secs now st))"
  have mem: "x \<in> set (shards ?st2) \<and> s_state x = Pending \<longleftrightarrow>
      x \<in> set (shards st) \<and> x \<noteq> s \<and> s_state x = Pending" for x
  proof -
    let ?g = "mark_done now \<circ> take_lease wk (now + secs)"
    have "x \<in> set (shards ?st2) \<longleftrightarrow>
        (\<exists>y \<in> set (shards st). x = (if s_id y = s_id s then ?g y else y))"
      unfolding claim_close_shards [OF answered(1)] set_update_where by blast
    moreover have "s_id y = s_id s \<longleftrightarrow> y = s" if "y \<in> set (shards st)" for y
      using same_shard [OF answered(5) s(1) that] by blast
    moreover have "s_state (?g s) \<noteq> Pending" by simp
    ultimately show ?thesis by metis
  qed
  from answered(4) [OF claim_close_store_ok [OF answered(5)]] answered(6)
  obtain s' where s': "s' \<in> set (shards ?st2)" "s_id s' = sid" "s_job s' = jid" "s_state s' = Pending"
    "take_lease wk (now + secs) s' \<in> set (shards (snd (claim jid wk secs now ?st2)))"
    "reqs = map r_payload (unanswered sid st)" "reqs \<noteq> []"
    "\<forall>x \<in> set (shards ?st2). s_job x = jid \<longrightarrow> s_state x = Pending \<longrightarrow>
        unanswered (s_id x) ?st2 \<noteq> [] \<longrightarrow> s_idx s' \<le> s_idx x"
    unfolding answered(3) by (auto simp only: unanswered_close)
  then have "s' \<in> set (shards st)" using mem by blast
  moreover have "s_idx s' \<le> s_idx x" if "x \<in> set (shards st)" "s_job x = jid"
    "s_state x = Pending" "unanswered (s_id x) st \<noteq> []" for x
    using s'(8) that mem [of x] answered(2) by auto
  ultimately show ?case
    using s' unfolding answered(3) by (intro bexI [of _ s']) auto
qed simp

text \<open>
  C2: \<open>claim\<close> either leases the lowest-index pending shard of the job that still has unanswered
  requests and returns exactly those requests, or returns nothing because no shard of the job is
  pending. Every other shard row is unchanged, except fully answered pending shards of this job,
  which it closes; results and requests are untouched.
\<close>

theorem claim_hands_out_unanswered_work:
  assumes "store_ok st" and "claim jid wk secs now st = (res, st')"
  shows "requests st' = requests st \<and> results st' = results st \<and> store_ok st' \<and>
    list_all2 (claimed_row jid wk (now + secs) res st) (shards st) (shards st') \<and>
    (case res of
       None \<Rightarrow> \<forall>s \<in> set (shards st'). s_job s = jid \<longrightarrow> s_state s \<noteq> Pending
     | Some (sid, reqs) \<Rightarrow>
         (\<exists>s \<in> set (shards st). s_id s = sid \<and> s_job s = jid \<and> s_state s = Pending \<and>
            take_lease wk (now + secs) s \<in> set (shards st') \<and>
            reqs = map r_payload (unanswered sid st) \<and> reqs \<noteq> [] \<and>
            (\<forall>x \<in> set (shards st). s_job x = jid \<longrightarrow> s_state x = Pending \<longrightarrow>
               unanswered (s_id x) st \<noteq> [] \<longrightarrow> s_idx s \<le> s_idx x)))"
proof -
  have e: "res = fst (claim jid wk secs now st)" "st' = snd (claim jid wk secs now st)"
    using assms(2) by simp_all
  have "requests st' = requests st" "results st' = results st" "store_ok st'"
    unfolding e using assms(1) by (simp_all add: claim_store_ok)
  moreover have "list_all2 (claimed_row jid wk (now + secs) res st) (shards st) (shards st')"
    unfolding e by (rule claim_rows [OF assms(1)])
  moreover have "\<forall>s \<in> set (shards st'). s_job s = jid \<longrightarrow> s_state s \<noteq> Pending" if "res = None"
    using claim_None [of jid wk secs now st] that unfolding e by (simp add: pick_pending_None)
  ultimately show ?thesis
    using claim_lowest [OF assms(1), of jid wk secs now] unfolding e
    by (auto split: option.split)
qed

text \<open>A store with one job of three requests in shards of two, for the witnesses.\<close>

definition demo_request :: "string \<Rightarrow> json" where
  "demo_request rid = JObj [(''request_id'', JStr rid), (''prompt'', JStr ''p'')]"

definition demo_ids :: "nat \<Rightarrow> string" where
  "demo_ids i = ''shd_'' @ nat_text i"

definition demo_store :: store where
  "demo_store = (case create_job ''job_a'' demo_ids ''demo'' ''m'' 100 2
       [demo_request ''r0'', demo_request ''r1'', demo_request ''r2''] JNull 1 empty_store of
     Inl e \<Rightarrow> empty_store | Inr st \<Rightarrow> st)"

lemma demo_create: "create_job ''job_a'' demo_ids ''demo'' ''m'' 100 2
    [demo_request ''r0'', demo_request ''r1'', demo_request ''r2''] JNull 1 empty_store
    = Inr demo_store"
  by code_simp

lemma demo_store_ok: "store_ok demo_store"
  using create_store_ok [OF empty_store_ok demo_create] .

lemma claim_hands_out_unanswered_work_witness:
  "store_ok demo_store \<and> fst (claim ''job_a'' ''w-1'' 90 2 demo_store) =
     Some (''shd_0'', [demo_request ''r0'', demo_request ''r1'']) \<and>
   results (snd (claim ''job_a'' ''w-1'' 90 2 demo_store)) = results demo_store"
proof -
  have "results (snd (claim ''job_a'' ''w-1'' 90 2 demo_store)) = results demo_store"
    using claim_hands_out_unanswered_work [OF demo_store_ok surjective_pairing] by blast
  moreover have "fst (claim ''job_a'' ''w-1'' 90 2 demo_store) =
     Some (''shd_0'', [demo_request ''r0'', demo_request ''r1''])" by code_simp
  ultimately show ?thesis using demo_store_ok by simp
qed

text \<open>
  Whatever transactions run, in whatever order and from whatever client, the store stays well
  formed: primary keys are unique, a shard is leased exactly when it names a worker and an expiry,
  done exactly when it has a completion time, and every request and shard refers to existing rows.
\<close>

theorem every_transaction_keeps_store_ok:
  assumes "db_step\<^sup>*\<^sup>* empty_store st"
  shows "store_ok st"
  by (rule db_machine.inv_reachable [OF refl assms])

lemma demo_reachable: "honest_step\<^sup>*\<^sup>* empty_store demo_store"
  by (rule r_into_rtranclp)
     (rule honest_step.intros [of "Op_create ''job_a'' demo_ids ''demo'' ''m'' 100 2
        [demo_request ''r0'', demo_request ''r1'', demo_request ''r2''] JNull 1"],
      simp_all add: demo_create)

lemma every_transaction_keeps_store_ok_witness:
  "db_step\<^sup>*\<^sup>* empty_store demo_store \<and> store_ok demo_store"
proof -
  have "db_step\<^sup>*\<^sup>* empty_store demo_store"
    by (rule r_into_rtranclp)
       (rule db_step.intros [of "Op_create ''job_a'' demo_ids ''demo'' ''m'' 100 2
          [demo_request ''r0'', demo_request ''r1'', demo_request ''r2''] JNull 1"],
        simp add: demo_create)
  with every_transaction_keeps_store_ok [OF this] show ?thesis by simp
qed

text \<open>
  C1: Under any interleaving of the transactions of honest clients, with leases expiring and
  workers dying at any point, no work is lost: a job with no pending and no leased shard has
  nothing remaining and every one of its requests has a result.
\<close>

theorem nothing_outstanding_means_complete:
  assumes "honest_step\<^sup>*\<^sup>* empty_store st" and "j \<in> set (jobs st)"
    and "outstanding (j_id j) st = 0"
  shows "remaining j st = 0 \<and>
    (\<forall>r \<in> set (requests st). r_job r = j_id j \<longrightarrow> answered st (j_id j) (r_id r))"
proof -
  from honest_machine.inv_reachable [OF refl assms(1)]
  have inv: "store_ok st" "accounted st" by simp_all
  have "answered st (j_id j) (r_id r)" if r: "r \<in> set (requests st)" "r_job r = j_id j" for r
  proof -
    have "(r_shard r, r_job r) \<in> shard_ref ` set (shards st)"
      using inv(1) r(1) by (auto simp: store_ok_def refs_ok_def)
    then obtain s where s: "s \<in> set (shards st)" "s_id s = r_shard r" "s_job s = j_id j"
      using r(2) by (auto simp: shard_ref_def)
    then have "unanswered (s_id s) st = []"
      using inv(2) assms(3)
      by (auto simp: accounted_def closed_answered_def outstanding_def filter_empty_conv)
    with r s(2) show ?thesis by (auto simp: unanswered_def filter_empty_conv)
  qed
  then show ?thesis using all_closed_complete [OF inv assms(2,3)] by simp
qed

definition demo_result :: "string \<Rightarrow> json" where
  "demo_result rid =
     JObj [(''request_id'', JStr rid), (''output'', JStr ''ok''), (''accepted'', JBool True)]"

text \<open>
  A run of the demonstration job: its first worker is killed while it holds a lease, the second
  one answers everything.
\<close>

definition demo_ops :: "db_op list" where
  "demo_ops = [Op_claim ''job_a'' ''w-1'' 90 2, Op_kill ''w-1'' No_heartbeat 5,
     Op_claim ''job_a'' ''w-2'' 90 6,
     Op_put ''job_a'' ''shd_0'' ''w-2'' [demo_result ''r0'', demo_result ''r1''] 7,
     Op_finish ''shd_0'' ''w-2'' 8, Op_claim ''job_a'' ''w-2'' 90 9,
     Op_put ''job_a'' ''shd_1'' ''w-2'' [demo_result ''r2''] 10, Op_finish ''shd_1'' ''w-2'' 11]"

fun run_ops :: "db_op list \<Rightarrow> store \<Rightarrow> store option" where
  "run_ops [] st = Some st"
| "run_ops (op # ops) st =
     (if honest op st then (case apply_op op st of Inl e \<Rightarrow> None | Inr st' \<Rightarrow> run_ops ops st')
      else None)"

lemma run_ops_honest: "run_ops ops st = Some st' \<Longrightarrow> honest_step\<^sup>*\<^sup>* st st'"
proof (induction ops arbitrary: st)
  case (Cons op ops)
  then obtain st1 where "honest_step st st1" "run_ops ops st1 = Some st'"
    by (auto split: if_splits sum.splits intro: honest_step.intros)
  with Cons.IH show ?case by (meson converse_rtranclp_into_rtranclp)
qed simp

definition demo_final :: store where
  "demo_final = the (run_ops demo_ops demo_store)"

lemma demo_final_run: "run_ops demo_ops demo_store = Some demo_final"
proof -
  have "run_ops demo_ops demo_store \<noteq> None" by code_simp
  then show ?thesis by (simp add: demo_final_def)
qed

lemma demo_final_facts: "map j_id (jobs demo_final) = [''job_a'']"
  "outstanding ''job_a'' demo_final = 0" "n_done ''job_a'' demo_final = 3"
  by code_simp+

lemma nothing_outstanding_means_complete_witness:
  "honest_step\<^sup>*\<^sup>* empty_store demo_final \<and> outstanding ''job_a'' demo_final = 0 \<and>
   (\<exists>j \<in> set (jobs demo_final). j_id j = ''job_a'' \<and> remaining j demo_final = 0)"
proof -
  have run: "honest_step\<^sup>*\<^sup>* empty_store demo_final"
    using demo_reachable run_ops_honest [OF demo_final_run] by simp
  obtain j where j: "j \<in> set (jobs demo_final)" "j_id j = ''job_a''"
    using demo_final_facts(1) by (cases "jobs demo_final") auto
  have "remaining j demo_final = 0"
    using nothing_outstanding_means_complete [OF run j(1)] demo_final_facts(2) j(2) by simp
  with run j demo_final_facts(2) show ?thesis by blast
qed

text \<open>
  Posting the same result rows again (a retry of a request whose answer was lost, by any
  worker, for any shard and at any later time) changes nothing a reader of the job can observe:
  the outputs of every job, their count and the count of the accepted ones.
\<close>

theorem put_results_repeatable:
  assumes "put_results jid sid wk rows now st = Inr (n, st1)"
    and "put_results jid sid' wk' rows now' st1 = Inr (n', st2)"
  shows "n' = n \<and> outputs j st2 = outputs j st1 \<and> n_done j st2 = n_done j st1 \<and>
    n_accepted j st2 = n_accepted j st1"
proof -
  from assms obtain rs rs' where rs: "seq_map (result_of_json jid sid wk now) rows = Inr rs"
    "seq_map (result_of_json jid sid' wk' now') rows = Inr rs'"
    "st1 = fold put_row rs st" "st2 = fold put_row rs' st1" "n = length rows" "n' = length rows"
    by (auto simp: put_results_Inr)
  have "observe st2 = observe st1"
    unfolding rs(3,4) by (rule observe_put_rows_again [OF seq_map_observed [OF rs(1,2)]])
  then show ?thesis by (simp add: outputs_observe n_done_observe n_accepted_observe rs)
qed

lemma put_results_repeatable_witness:
  "\<exists>st1 st2. put_results ''job_a'' ''shd_0'' ''w-1'' [demo_result ''r0''] 3 demo_store = Inr (1, st1) \<and>
     put_results ''job_a'' ''shd_0'' ''w-2'' [demo_result ''r0''] 9 st1 = Inr (1, st2) \<and>
     n_done ''job_a'' st2 = n_done ''job_a'' st1 \<and> outputs ''job_a'' st1 \<noteq> []"
proof -
  have ex: "\<exists>st'. put_results jid sid wk [demo_result rid] now st = Inr (1, st')"
    for jid sid wk rid now st
    by (simp add: put_results_def result_of_json_def demo_result_def)
  obtain st1 where 1: "put_results ''job_a'' ''shd_0'' ''w-1'' [demo_result ''r0''] 3 demo_store = Inr (1, st1)"
    using ex by blast
  obtain st2 where 2: "put_results ''job_a'' ''shd_0'' ''w-2'' [demo_result ''r0''] 9 st1 = Inr (1, st2)"
    using ex by blast
  have "(case put_results ''job_a'' ''shd_0'' ''w-1'' [demo_result ''r0''] 3 demo_store of
      Inl e \<Rightarrow> False | Inr (n, st) \<Rightarrow> outputs ''job_a'' st \<noteq> [])" by code_simp
  then have "outputs ''job_a'' st1 \<noteq> []" by (simp add: 1)
  then show ?thesis using 1 2 put_results_repeatable [OF 1 2] by blast
qed

text \<open>
  \<open>kill_worker\<close> marks the worker dead and returns at once exactly the shards it held:
  afterwards it holds no lease, is not among the live workers of any job, and every other shard,
  every request and every result is as before; the count returned is the number of shards freed.
\<close>

theorem kill_worker_releases_leases:
  assumes "kill_worker wid reason now st = (n, st')"
  shows "\<not> worker_has_lease wid st' \<and> wid \<notin> w_id ` set (live_workers jid st') \<and>
    n = length (filter (held_by wid) (shards st)) \<and>
    shards st' = map (\<lambda>s. if held_by wid s then release_lease s else s) (shards st) \<and>
    requests st' = requests st \<and> results st' = results st"
proof -
  have st': "st' = snd (kill_worker wid reason now st)" using assms by simp
  have sh: "shards st' = update_where (held_by wid) release_lease (shards st)"
    by (simp add: st')
  have "\<not> held_by wid s" if "s \<in> set (shards st')" for s
    using that unfolding sh by (auto simp: set_update_where held_by_def)
  then have "\<not> worker_has_lease wid st'"
    by (simp add: worker_has_lease_def filter_empty_conv)
  moreover have "wid \<notin> w_id ` set (live_workers jid st')"
  proof -
    let ?f = "\<lambda>w. w\<lparr>w_state := Dead, w_stopped_ts := Some now, w_stop_reason := Some reason\<rparr>"
    have ws: "workers st' = map (\<lambda>w. if w_id w = wid then ?f w else w) (workers st)"
      by (simp add: st' kill_worker_def Let_def update_where_def)
    have "w_state w = Dead" if w: "w \<in> set (workers st')" "w_id w = wid" for w
    proof -
      from w(1) obtain r where "w = (if w_id r = wid then ?f r else r)"
        unfolding ws set_map by (rule imageE)
      with w(2) show ?thesis by (cases "w_id r = wid") simp_all
    qed
    then show ?thesis by (auto simp: live_workers_def)
  qed
  moreover have "n = length (filter (held_by wid) (shards st))"
    using assms by (auto simp: kill_worker_def Let_def)
  moreover have "requests st' = requests st" "results st' = results st" by (simp_all add: st')
  moreover have "shards st' = map (\<lambda>s. if held_by wid s then release_lease s else s) (shards st)"
    using sh by (simp add: update_where_def)
  ultimately show ?thesis by blast
qed

lemma kill_worker_releases_leases_witness:
  "\<exists>st'. kill_worker ''w-1'' No_heartbeat 5 (snd (claim ''job_a'' ''w-1'' 90 2 demo_store)) = (1, st') \<and>
     worker_has_lease ''w-1'' (snd (claim ''job_a'' ''w-1'' 90 2 demo_store)) \<and>
     \<not> worker_has_lease ''w-1'' st'"
proof -
  let ?st = "snd (claim ''job_a'' ''w-1'' 90 2 demo_store)"
  have h: "worker_has_lease ''w-1'' ?st" by code_simp
  have "fst (kill_worker ''w-1'' No_heartbeat 5 ?st) = 1" by code_simp
  then obtain st' where k: "kill_worker ''w-1'' No_heartbeat 5 ?st = (1, st')"
    by (metis prod.collapse)
  with kill_worker_releases_leases [OF k] h show ?thesis by blast
qed

text \<open>
  \<open>reap\<close> returns exactly the expired leases to the pool: afterwards no lease is expired at
  the time it used, shards that are not expired are untouched, and it returns how many were.
\<close>

theorem reap_returns_expired_leases:
  assumes "store_ok st" and "reap arg clock st = (n, st')"
  shows "shards st' = map (\<lambda>s. if expired (reap_time arg clock) s then release_lease s else s) (shards st) \<and>
    (\<forall>s \<in> set (shards st'). \<not> expired (reap_time arg clock) s) \<and>
    n = length (filter (expired (reap_time arg clock)) (shards st)) \<and> store_ok st'"
proof -
  have st': "st' = snd (reap arg clock st)" using assms(2) by simp
  have "distinct (map s_id (shards st))" using assms(1) by (simp add: inv_defs)
  then have sh: "shards st' = update_where (expired (reap_time arg clock)) release_lease (shards st)"
    unfolding st' by (rule reap_shards)
  have "\<forall>s \<in> set (shards st'). \<not> expired (reap_time arg clock) s"
    unfolding sh by (auto simp: set_update_where) (auto simp: expired_def)
  moreover have "n = length (filter (expired (reap_time arg clock)) (shards st))"
    using assms(2) by (auto simp: reap_def Let_def reap_time_def)
  moreover have "store_ok st'" unfolding st' by (rule reap_store_ok [OF assms(1)])
  moreover have "shards st' =
      map (\<lambda>s. if expired (reap_time arg clock) s then release_lease s else s) (shards st)"
    using sh by (simp add: update_where_def)
  ultimately show ?thesis by blast
qed

lemma reap_returns_expired_leases_witness:
  "\<exists>st'. reap None 93 (snd (claim ''job_a'' ''w-1'' 90 2 demo_store)) = (1, st') \<and>
     (\<forall>s \<in> set (shards st'). \<not> expired 93 s)"
proof -
  let ?st = "snd (claim ''job_a'' ''w-1'' 90 2 demo_store)"
  have ok: "store_ok ?st" by (rule claim_store_ok [OF demo_store_ok])
  have "fst (reap None 93 ?st) = 1" by code_simp
  then obtain st' where r: "reap None 93 ?st = (1, st')" by (metis prod.collapse)
  have "\<forall>s \<in> set (shards st'). \<not> expired (reap_time None 93) s"
    using reap_returns_expired_leases [OF ok r] by blast
  then have "\<forall>s \<in> set (shards st'). \<not> expired 93 s"
    unfolding reap_time_def option.case .
  with r show ?thesis by blast
qed

lemma filter_concat_index:
  assumes "\<forall>k < length rss. \<forall>q \<in> set (rss ! k). g q = ids (i + k)"
    and "inj_on ids {i..<i + length rss}" and "k < length rss"
  shows "filter (\<lambda>q. g q = ids (i + k)) (concat rss) = rss ! k"
  using assms
proof (induction rss arbitrary: i k)
  case (Cons rs rss)
  have hd: "\<forall>q \<in> set rs. g q = ids i" using Cons.prems(1) [rule_format, of 0] by simp
  have tl: "\<forall>k < length rss. \<forall>q \<in> set (rss ! k). g q = ids (Suc i + k)"
    using Cons.prems(1) [rule_format, of "Suc k" for k] by simp
  have inj: "inj_on ids {Suc i..<Suc i + length rss}"
    using Cons.prems(2) by (rule inj_on_subset) auto
  show ?case
  proof (cases k)
    case 0
    have "ids (Suc i + m) \<noteq> ids i" if "m < length rss" for m
      using Cons.prems(2) that by (auto dest!: inj_onD [where x = "Suc (i + m)" and y = i])
    then have "g q \<noteq> ids i" if "q \<in> set rs'" "rs' \<in> set rss" for q rs'
      using tl that by (metis in_set_conv_nth)
    then have "\<forall>q \<in> set (concat rss). g q \<noteq> ids i" by auto
    then show ?thesis using hd 0 by (simp add: filter_empty_conv del: filter_concat)
  next
    case (Suc m)
    then have m: "m < length rss" using Cons.prems(3) by simp
    then have "ids (i + k) \<noteq> ids i"
      using Cons.prems(2) Suc by (auto dest!: inj_onD [where x = "Suc (i + m)" and y = i])
    then have "filter (\<lambda>q. g q = ids (i + k)) rs = []" using hd by (simp add: filter_empty_conv)
    then show ?thesis using Cons.IH [OF tl inj m] Suc by simp
  qed
qed simp

lemma chunk_rows_payload:
  assumes "chunk_rows jid ids i cs rss" and "k < length cs"
  shows "map r_payload (rss ! k) = cs ! k" "\<forall>q \<in> set (rss ! k). r_shard q = ids (i + k) \<and> r_job q = jid"
proof -
  have a: "list_all2 (\<lambda>x y. request_row jid (ids (i + k)) x = Inr y) (cs ! k) (rss ! k)"
    using assms by (simp add: chunk_rows_def seq_map_Inr_iff)
  then show "map r_payload (rss ! k) = cs ! k"
    by (induction rule: list_all2_induct) (auto dest: request_row_Inr)
  from a show "\<forall>q \<in> set (rss ! k). r_shard q = ids (i + k) \<and> r_job q = jid"
    by (induction rule: list_all2_induct) (auto dest: request_row_Inr)
qed

text \<open>
  For a positive shard size, \<open>create_job\<close> splits the request list into
  \<open>ceil(n / shard_size)\<close> new pending shards numbered from 0, each holding the next
  \<open>shard_size\<close> requests in order, so that the shards partition the request list.
\<close>

theorem create_job_partitions_requests:
  assumes "store_ok st" and "0 < ssize"
    and "create_job jid ids name model deadline ssize reqs accept now st = Inr st'"
  shows "\<exists>new rs. shards st' = shards st @ new \<and> requests st' = requests st @ rs \<and>
    length new = (length reqs + nat ssize - 1) div nat ssize \<and>
    map s_idx new = [0..<length new] \<and>
    (\<forall>s \<in> set new. s_job s = jid \<and> s_state s = Pending) \<and>
    (\<forall>i < length new. map r_payload (filter (\<lambda>r. r_shard r = s_id (new ! i)) rs)
        = chunks (nat ssize) reqs ! i) \<and>
    map r_payload rs = reqs \<and> (\<forall>r \<in> set rs. r_job r = jid)"
proof -
  from assms(3) obtain cs rss where c: "job_chunks ssize reqs = Inr cs"
    "chunk_rows jid ids 0 cs rss" "jid \<notin> j_id ` set (jobs st)"
    "jobs st' = jobs st @ [\<lparr>j_id = jid, j_name = name, j_model = model, j_deadline_ts = deadline,
       j_created_ts = now, j_status = Running, j_shard_size = ssize,
       j_n_requests = length reqs, j_accept = accept\<rparr>]"
    "requests st' = requests st @ concat rss"
    "shards st' = shards st @ map (\<lambda>k. new_shard (ids k) jid k) [0..<length cs]"
    "results st' = results st" "workers st' = workers st"
    "distinct (map request_key (requests st)) \<longrightarrow> distinct (map request_key (requests st'))"
    "distinct (map s_id (shards st)) \<longrightarrow> distinct (map s_id (shards st'))"
    by (rule create_job_Inr)
  have cs: "cs = chunks (nat ssize) reqs" using c(1) assms(2) by (simp add: job_chunks_def)
  let ?new = "map (\<lambda>k. new_shard (ids k) jid k) [0..<length cs]"
  have "distinct (map s_id (shards st @ ?new))"
    using c(6,10) assms(1) by (simp add: store_ok_def keys_ok_def)
  then have "distinct (map ids [0..<length cs])" by (simp add: comp_def new_shard_def)
  then have inj: "inj_on ids {0..<length cs}" by (simp add: distinct_map)
  have len: "length rss = length cs" using c(2) by (simp add: chunk_rows_def)
  have part: "map r_payload (filter (\<lambda>r. r_shard r = s_id (?new ! i)) (concat rss)) = cs ! i"
    if "i < length cs" for i
  proof -
    have "filter (\<lambda>q. r_shard q = ids (0 + i)) (concat rss) = rss ! i"
      using chunk_rows_payload(2) [OF c(2)] inj len that by (intro filter_concat_index) auto
    then show ?thesis using chunk_rows_payload(1) [OF c(2) that] that
      by (simp add: new_shard_def del: filter_concat)
  qed
  have "map (map r_payload) rss = cs"
    using chunk_rows_payload(1) [OF c(2)] len by (intro nth_equalityI) auto
  then have "map r_payload (concat rss) = concat cs" by (simp add: map_concat)
  then have pay: "map r_payload (concat rss) = reqs" using cs assms(2) by (simp add: concat_chunks)
  have job: "\<forall>r \<in> set (concat rss). r_job r = jid"
    using chunk_rows_row [OF c(2)] by blast
  show ?thesis
  proof (intro exI conjI)
    show "length ?new = (length reqs + nat ssize - 1) div nat ssize"
      using assms(2) by (simp add: cs length_chunks)
    show "\<forall>i < length ?new. map r_payload (filter (\<lambda>r. r_shard r = s_id (?new ! i)) (concat rss))
        = chunks (nat ssize) reqs ! i"
      using part by (simp only: cs length_map length_upt diff_zero) blast
  qed (use c(5,6) pay job in \<open>simp_all add: new_shard_def comp_def map_idI\<close>)
qed

lemma create_job_partitions_requests_witness:
  "store_ok empty_store \<and> (0::int) < 2 \<and>
   (\<exists>new rs. shards demo_store = shards empty_store @ new \<and>
      requests demo_store = requests empty_store @ rs \<and> length new = 2)"
  using create_job_partitions_requests [OF empty_store_ok _ demo_create] empty_store_ok
  by fastforce

section \<open>What a job costs\<close>

lemma billed_hours_bounds: "h < billed_hours h \<and> billed_hours h \<le> h + 1 / 6"
proof -
  have "h * 6 < of_int (\<lfloor>h * 6\<rfloor> + 1)" "of_int \<lfloor>h * 6\<rfloor> \<le> h * 6" by linarith+
  then show ?thesis by (simp add: billed_hours_def field_simps)
qed

lemma total_cost_sum: "total_cost jid now st = sum_list (map (worker_cost_of now) (all_workers jid st))"
proof -
  have "fold (\<lambda>w t. t + worker_cost_of now w) ws x = x + sum_list (map (worker_cost_of now) ws)" for ws x
    by (induction ws arbitrary: x) (simp_all add: add.assoc)
  then show ?thesis by (simp add: total_cost_def)
qed

text \<open>
  The ledger charges every worker for more than its wall-clock time and at most ten minutes
  more than that, so with non-negative prices the total lies between the wall-clock cost and
  the cost of the wall-clock time plus ten minutes per worker.
\<close>

theorem ledger_total_bounds:
  assumes "\<forall>w \<in> set (all_workers jid st). 0 \<le> w_price_hr w"
  shows "(\<Sum>w \<leftarrow> all_workers jid st. wall_hours now w * w_price_hr w) \<le> total_cost jid now st \<and>
    total_cost jid now st \<le> (\<Sum>w \<leftarrow> all_workers jid st. (wall_hours now w + 1 / 6) * w_price_hr w)"
  unfolding total_cost_sum
proof (intro conjI sum_list_mono)
  fix w assume w: "w \<in> set (all_workers jid st)"
  have "wall_hours now w \<le> billed_hours (wall_hours now w)"
    and "billed_hours (wall_hours now w) \<le> wall_hours now w + 1 / 6"
    using billed_hours_bounds [of "wall_hours now w"] by simp_all
  then show "wall_hours now w * w_price_hr w \<le> worker_cost_of now w"
    and "worker_cost_of now w \<le> (wall_hours now w + 1 / 6) * w_price_hr w"
    using assms w by (simp_all add: worker_cost_of_def mult_right_mono)
qed

text \<open>Time that is already a whole number of ten-minute increments is billed one more.\<close>

lemma billed_hours_exact_increment: "billed_hours (1 / 6) = 2 / 6"
  by (simp add: billed_hours_def)

definition demo_billing :: store where
  "demo_billing = register_worker ''w-1'' ''job_a'' ''local'' None (Some ''local-cpu'') (4 / 25) 0 demo_store"

lemma ledger_total_bounds_witness:
  "list_all (\<lambda>w. 0 \<le> w_price_hr w) (all_workers ''job_a'' demo_billing) \<and>
   (\<Sum>w \<leftarrow> all_workers ''job_a'' demo_billing. wall_hours 1800 w * w_price_hr w)
     \<le> total_cost ''job_a'' 1800 demo_billing"
proof -
  have h: "\<forall>w \<in> set (all_workers ''job_a'' demo_billing). 0 \<le> w_price_hr w" by code_simp
  show ?thesis using h ledger_total_bounds [OF h, of 1800] unfolding list_all_iff by blast
qed

end
