(* ===== verification/Job_Api.thy ===== *)
theory Job_Api
  imports Job_Claim
begin

text \<open>
  The HTTP surface of \<open>control/app.py\<close>: each endpoint as a function of the bearer token, the
  decoded body and the store. A refused call returns an error and leaves the store alone. An
  endpoint is a sequence of store transactions, which \<open>handle_runs\<close> makes precise.
\<close>

section \<open>Endpoints\<close>

datatype api_error = Bad_token | No_such_job | Server_error py_error

definition auth :: "string \<Rightarrow> string option \<Rightarrow> bool" where
  "auth token authorization \<longleftrightarrow> authorization = Some (''Bearer '' @ token)"

datatype claim_reply =
    Stop_reply
  | Claim_reply "(string \<times> json list) option" string json nat

definition w_register ::
  "string \<Rightarrow> string \<Rightarrow> string \<Rightarrow> string option \<Rightarrow> string option \<Rightarrow> rat \<Rightarrow> rat \<Rightarrow> store \<Rightarrow> store"
  where
  "w_register wid jid prov inst itype price now st =
     register_worker wid jid prov inst itype price now st"

definition w_heartbeat ::
  "string \<Rightarrow> string option \<Rightarrow> rat \<Rightarrow> rat \<Rightarrow> store \<Rightarrow> bool \<times> store" where
  "w_heartbeat wid shard secs now st =
     (let (stop, st1) = heartbeat wid now st
      in (stop, (case shard of None \<Rightarrow> st1
                 | Some sid \<Rightarrow> if sid = [] then st1 else extend_lease sid wid secs now st1)))"

definition w_claim :: "string \<Rightarrow> string \<Rightarrow> rat \<Rightarrow> rat \<Rightarrow> store \<Rightarrow> claim_reply \<times> store" where
  "w_claim wid jid secs now st =
     (case get_job jid st of None \<Rightarrow> (Stop_reply, st)
      | Some j \<Rightarrow>
         if j_status j \<noteq> Running then (Stop_reply, st)
         else (let (shard, st1) = claim jid wid secs now st
               in (Claim_reply shard (j_model j) (j_accept j) (outstanding jid st1), st1)))"

definition close_if_complete :: "string \<Rightarrow> rat \<Rightarrow> store \<Rightarrow> store" where
  "close_if_complete jid now st =
     (case status jid now st of None \<Rightarrow> st
      | Some r \<Rightarrow> if st_remaining r = 0 \<and> st_status r = Running
                then set_job_status jid Job_done now st else st)"

definition w_results ::
  "string \<Rightarrow> string \<Rightarrow> string \<Rightarrow> json list \<Rightarrow> bool \<Rightarrow> rat \<Rightarrow> rat \<Rightarrow> store \<Rightarrow> py_error + nat \<times> store"
  where
  "w_results wid jid sid rows closing secs now st =
     (case (if rows \<noteq> [] then put_results jid sid wid rows now st else Inr (0, st)) of
        Inl e \<Rightarrow> Inl e
      | Inr (n, st1) \<Rightarrow>
          Inr (n, close_if_complete jid now
            (if closing then finish_shard sid wid now st1
             else extend_lease sid wid secs now st1)))"

definition job_cancel :: "string \<Rightarrow> rat \<Rightarrow> store \<Rightarrow> store" where
  "job_cancel jid now st = set_job_status jid Cancelled now st"

section \<open>Dispatch\<close>

datatype api_call =
    Call_register string string string "string option" "string option" rat
  | Call_heartbeat string "string option"
  | Call_claim string string
  | Call_results string string string "json list" bool
  | Call_new_job string "nat \<Rightarrow> string" string string rat int "json list" json
  | Call_status string
  | Call_output string
  | Call_ledger string
  | Call_events string int
  | Call_cancel string

datatype api_reply =
    Ok_reply
  | Stop_flag bool
  | Claimed claim_reply
  | Stored nat
  | New_job string
  | Status_reply status_report
  | Output_reply "(string \<times> json \<times> bool) list"
  | Ledger_reply ledger_report
  | Events_reply "event list"

text \<open>Every route checks the token first; only \<open>/jobs/{id}\<close> can answer 404.\<close>

fun serve_call :: "rat \<Rightarrow> rat \<Rightarrow> api_call \<Rightarrow> store \<Rightarrow> api_error + api_reply \<times> store" where
  "serve_call secs now (Call_register wid jid prov inst itype price) st =
     Inr (Ok_reply, w_register wid jid prov inst itype price now st)"
| "serve_call secs now (Call_heartbeat wid shard) st =
     (let (stop, st') = w_heartbeat wid shard secs now st in Inr (Stop_flag stop, st'))"
| "serve_call secs now (Call_claim wid jid) st =
     (let (r, st') = w_claim wid jid secs now st in Inr (Claimed r, st'))"
| "serve_call secs now (Call_results wid jid sid rows closing) st =
     (case w_results wid jid sid rows closing secs now st of
        Inl e \<Rightarrow> Inl (Server_error e) | Inr (n, st') \<Rightarrow> Inr (Stored n, st'))"
| "serve_call secs now (Call_new_job jid ids name model deadline ssize reqs accept) st =
     (case create_job jid ids name model deadline ssize reqs accept now st of
        Inl e \<Rightarrow> Inl (Server_error e) | Inr st' \<Rightarrow> Inr (New_job jid, st'))"
| "serve_call secs now (Call_status jid) st =
     (case status jid now st of None \<Rightarrow> Inl No_such_job | Some r \<Rightarrow> Inr (Status_reply r, st))"
| "serve_call secs now (Call_output jid) st = Inr (Output_reply (outputs jid st), st)"
| "serve_call secs now (Call_ledger jid) st = Inr (Ledger_reply (ledger jid now st), st)"
| "serve_call secs now (Call_events jid limit) st = Inr (Events_reply (events_of jid limit st), st)"
| "serve_call secs now (Call_cancel jid) st = Inr (Ok_reply, job_cancel jid now st)"

definition handle ::
  "string \<Rightarrow> string option \<Rightarrow> rat \<Rightarrow> rat \<Rightarrow> api_call \<Rightarrow> store \<Rightarrow> api_error + api_reply \<times> store"
  where
  "handle token authorization secs now call st =
     (if auth token authorization then serve_call secs now call st else Inl Bad_token)"

section \<open>An endpoint is a sequence of transactions\<close>

lemma db_one: "apply_op op st = Inr st' \<Longrightarrow> db_step\<^sup>*\<^sup>* st st'"
  by (blast intro: db_step.intros)

lemma db_ops:
  "db_step\<^sup>*\<^sup>* st (snd (claim_txn jid wk secs now st))"
  "db_step\<^sup>*\<^sup>* st (finish_shard sid wk now st)"
  "db_step\<^sup>*\<^sup>* st (extend_lease sid wk secs now st)"
  "db_step\<^sup>*\<^sup>* st (set_job_status jid s now st)"
  "db_step\<^sup>*\<^sup>* st (register_worker wid jid prov inst itype price now st)"
  "db_step\<^sup>*\<^sup>* st (snd (heartbeat wid now st))"
  "db_step\<^sup>*\<^sup>* st (snd (kill_worker wid reason now st))"
  "db_step\<^sup>*\<^sup>* st (snd (reap arg now st))"
  using db_one [of "Op_claim jid wk secs now"] db_one [of "Op_finish sid wk now"]
    db_one [of "Op_extend sid wk secs now"] db_one [of "Op_status jid s now"]
    db_one [of "Op_register wid jid prov inst itype price now"] db_one [of "Op_heartbeat wid now"]
    db_one [of "Op_kill wid reason now"] db_one [of "Op_reap arg now"]
  by auto

lemma claim_runs: "db_step\<^sup>*\<^sup>* st (snd (claim jid wk secs now st))"
proof (induction st rule: claim_induct [of jid wk secs now])
  case (answered st s)
  have "db_step\<^sup>*\<^sup>* st (finish_shard (s_id s) wk now (snd (claim_txn jid wk secs now st)))"
    by (rule rtranclp_trans [OF db_ops(1) db_ops(2)])
  with answered(3,4) show ?case by simp
qed (auto simp: db_ops(1))

lemma put_runs: "put_results jid sid wk rows now st = Inr (n, st') \<Longrightarrow> db_step\<^sup>*\<^sup>* st st'"
  by (rule db_one [of "Op_put jid sid wk rows now"]) simp

lemma close_runs: "db_step\<^sup>*\<^sup>* st (close_if_complete jid now st)"
  by (auto simp: close_if_complete_def db_ops(4) split: option.split)

lemma results_runs:
  assumes "w_results wid jid sid rows closing secs now st = Inr (n, st')"
  shows "db_step\<^sup>*\<^sup>* st st'"
proof -
  from assms obtain st1 where
    p: "(if rows \<noteq> [] then put_results jid sid wid rows now st else Inr (0, st)) = Inr (n, st1)"
    and 2: "st' = close_if_complete jid now
       (if closing then finish_shard sid wid now st1 else extend_lease sid wid secs now st1)"
    by (auto simp: w_results_def simp del: if_split split: sum.splits)
  from p have 1: "db_step\<^sup>*\<^sup>* st st1" by (auto split: if_splits intro: put_runs)
  have "db_step\<^sup>*\<^sup>* st1
      (if closing then finish_shard sid wid now st1 else extend_lease sid wid secs now st1)"
    by (simp add: db_ops(2,3))
  then show ?thesis unfolding 2 by (meson 1 close_runs rtranclp_trans)
qed

lemma serve_runs:
  assumes "serve_call secs now call st = Inr (reply, st')"
  shows "db_step\<^sup>*\<^sup>* st st'"
proof (cases call)
  case (Call_heartbeat wid shard)
  then show ?thesis
    using assms db_ops(6) [of st wid now] rtranclp_trans [OF db_ops(6) db_ops(3)]
    by (auto simp: w_heartbeat_def Let_def split: prod.splits option.splits if_splits)
      (metis snd_conv)+
next
  case (Call_claim wid jid)
  then show ?thesis
    using assms claim_runs [of st jid wid secs now]
    by (auto simp: w_claim_def Let_def split: prod.splits option.splits if_splits)
next
  case (Call_results wid jid sid rows closing)
  then show ?thesis using assms by (auto split: sum.splits intro: results_runs)
next
  case (Call_new_job jid ids name model deadline ssize reqs accept)
  then show ?thesis
    using assms db_one [of "Op_create jid ids name model deadline ssize reqs accept now"]
    by (auto split: sum.splits)
qed (use assms in \<open>auto simp: w_register_def job_cancel_def db_ops split: option.splits\<close>)



lemma get_job_frame: "jobs st' = jobs st \<Longrightarrow> get_job jid st' = get_job jid st"
  by (simp add: get_job_def)

lemma get_job_set_status:
  "get_job jid (set_job_status jid s now st) = map_option (\<lambda>j. j\<lparr>j_status := s\<rparr>) (get_job jid st)"
proof -
  have "find (\<lambda>j. j_id j = jid) (update_where (\<lambda>j. j_id j = jid) (\<lambda>j. j\<lparr>j_status := s\<rparr>) js)
      = map_option (\<lambda>j. j\<lparr>j_status := s\<rparr>) (find (\<lambda>j. j_id j = jid) js)" for js
    by (induction js) (auto simp: update_where_def)
  then show ?thesis by (simp add: get_job_def set_job_status_def)
qed

lemma get_job_id: "get_job jid st = Some j \<Longrightarrow> j_id j = jid"
  by (auto simp: get_job_def find_Some_iff)

lemma close_if_complete_status:
  assumes "get_job jid st = Some j" "j_status j = Running"
  shows "get_job jid (close_if_complete jid now st) =
    Some (if remaining j st = 0 then j\<lparr>j_status := Job_done\<rparr> else j)"
  using assms get_job_id [OF assms(1)]
  by (auto simp: close_if_complete_def status_def Let_def remaining_def get_job_set_status)

text \<open>
  A result post closes a running job exactly when nothing remains after it: the job becomes
  done if and only if the number of distinct answered requests has reached its request count,
  and any other status is left as it was.
\<close>

theorem results_close_job_iff_complete:
  assumes "w_results wid jid sid rows closing secs now st = Inr (n, st')"
    and "get_job jid st = Some j"
  shows "get_job jid st' = Some
    (if j_status j = Running \<and> remaining j st' = 0 then j\<lparr>j_status := Job_done\<rparr> else j)"
proof -
  from assms(1) obtain st1 where
    p: "(if rows \<noteq> [] then put_results jid sid wid rows now st else Inr (0, st)) = Inr (n, st1)"
    and st': "st' = close_if_complete jid now
       (if closing then finish_shard sid wid now st1 else extend_lease sid wid secs now st1)"
    by (auto simp: w_results_def simp del: if_split split: sum.splits)
  let ?st2 = "if closing then finish_shard sid wid now st1 else extend_lease sid wid secs now st1"
  have "jobs st1 = jobs st" using p by (auto simp: put_results_Inr split: if_splits)
  then have j2: "get_job jid ?st2 = Some j" using assms(2) by (simp add: get_job_def)
  have "results st' = results ?st2" unfolding st' close_if_complete_def
    by (auto split: option.split)
  then have rem: "remaining j st' = remaining j ?st2" by (simp add: remaining_def n_done_def)
  show ?thesis
  proof (cases "j_status j = Running")
    case True
    then show ?thesis using close_if_complete_status [OF j2] rem st' by simp
  next
    case False
    then have "st' = ?st2" using j2 unfolding st'
      by (auto simp: close_if_complete_def status_def Let_def)
    then show ?thesis using j2 False by simp
  qed
qed

lemma results_close_job_iff_complete_witness:
  "\<exists>n st' j. w_results ''w-2'' ''job_a'' ''shd_1'' [demo_result ''r2''] False 90 10 demo_store = Inr (n, st') \<and>
     get_job ''job_a'' demo_store = Some j \<and> remaining j st' = 2 \<and> get_job ''job_a'' st' = Some j"
proof -
  let ?r = "w_results ''w-2'' ''job_a'' ''shd_1'' [demo_result ''r2''] False 90 10 demo_store"
  have "case (?r, get_job ''job_a'' demo_store) of (Inr (n, st'), Some j) \<Rightarrow> remaining j st' = 2 | _ \<Rightarrow> False"
    by code_simp
  then obtain n st' j where r: "?r = Inr (n, st')" "get_job ''job_a'' demo_store = Some j"
    "remaining j st' = 2"
    by (auto split: sum.splits option.splits)
  from results_close_job_iff_complete [OF r(1,2)] r show ?thesis by auto
qed

end
