(* ===== verification/Worker_Agent.thy ===== *)
theory Worker_Agent
  imports Job_Api
begin

text \<open>
  The worker of \<open>worker/agent.py\<close>: the retrying post, the echo engine, the customer's acceptance
  test, and the processing of one claimed shard as the list of result messages it sends. Strings
  hold code points below 256, for which Python's \<open>strip\<close> and \<open>lower\<close> are written out.
  The JSON parser and the vLLM engine are arguments.
\<close>

section \<open>Strings\<close>

definition py_space :: "char \<Rightarrow> bool" where
  "py_space c \<longleftrightarrow> (of_char c :: nat) \<in> {9, 10, 11, 12, 13, 28, 29, 30, 31, 32, 133, 160}"

definition lstrip_by :: "(char \<Rightarrow> bool) \<Rightarrow> string \<Rightarrow> string" where
  "lstrip_by p s = dropWhile p s"

definition strip_by :: "(char \<Rightarrow> bool) \<Rightarrow> string \<Rightarrow> string" where
  "strip_by p s = rev (dropWhile p (rev (dropWhile p s)))"

definition lower_char :: "char \<Rightarrow> char" where
  "lower_char c = (let n = (of_char c :: nat) in
     if 65 \<le> n \<and> n \<le> 90 \<or> 192 \<le> n \<and> n \<le> 222 \<and> n \<noteq> 215 then char_of (n + 32) else c)"

definition py_lower :: "string \<Rightarrow> string" where
  "py_lower s = map lower_char s"

fun is_prefix :: "string \<Rightarrow> string \<Rightarrow> bool" where
  "is_prefix [] t = True"
| "is_prefix (c # s) [] = False"
| "is_prefix (c # s) (d # t) = (c = d \<and> is_prefix s t)"

fun is_substring :: "string \<Rightarrow> string \<Rightarrow> bool" where
  "is_substring s [] = (s = [])"
| "is_substring s (c # t) = (is_prefix s (c # t) \<or> is_substring s t)"

section \<open>The retrying post\<close>

text \<open>
  One attempt either raises (\<open>None\<close>) or returns a status code and a body, whose decoding may
  raise as well. Any answer below 500 ends the loop; after the last attempt the result is the
  empty dictionary.
\<close>

fun post_from :: "(nat \<Rightarrow> (nat \<times> json option) option) \<Rightarrow> nat \<Rightarrow> nat \<Rightarrow> json" where
  "post_from net i 0 = JObj []"
| "post_from net i (Suc k) =
     (case net i of
        Some (code, Some body) \<Rightarrow> if code < 500 then body else post_from net (Suc i) k
      | _ \<Rightarrow> post_from net (Suc i) k)"

definition post :: "(nat \<Rightarrow> (nat \<times> json option) option) \<Rightarrow> nat \<Rightarrow> json" where
  "post net tries = post_from net 0 tries"

definition answers :: "(nat \<times> json option) option \<Rightarrow> bool" where
  "answers a \<longleftrightarrow> (case a of Some (code, Some body) \<Rightarrow> code < 500 | _ \<Rightarrow> False)"

section \<open>Engines\<close>

definition echo_label :: "string \<Rightarrow> string" where
  "echo_label p = [''positive'', ''negative'', ''neutral''] ! (sum_list (map of_char p) mod 3)"

fun echo_one :: "json \<Rightarrow> py_error + string" where
  "echo_one (JStr p) = Inr (echo_label p)"
| "echo_one _ = Inl Type_Error"

definition echo_generate :: "json list \<Rightarrow> py_error + string list" where
  "echo_generate prompts = seq_map echo_one prompts"

section \<open>The acceptance test\<close>

definition get_default :: "json \<Rightarrow> string \<Rightarrow> json \<Rightarrow> py_error + json" where
  "get_default d k v = (case d of
     JObj kvs \<Rightarrow> Inr (case map_of kvs k of None \<Rightarrow> v | Some x \<Rightarrow> x) | _ \<Rightarrow> Inl Attribute_Error)"

fun py_iter :: "json \<Rightarrow> py_error + json list" where
  "py_iter (JArr xs) = Inr xs"
| "py_iter (JStr s) = Inr (map (\<lambda>c. JStr [c]) s)"
| "py_iter (JObj kvs) = Inr (map (\<lambda>kv. JStr (fst kv)) kvs)"
| "py_iter _ = Inl Type_Error"

fun lower_label :: "json \<Rightarrow> py_error + string" where
  "lower_label (JStr s) = Inr (py_lower s)"
| "lower_label _ = Inl Attribute_Error"

text \<open>\<open>k in d\<close> for a decoded document \<open>d\<close>.\<close>

fun py_in :: "json \<Rightarrow> json \<Rightarrow> py_error + bool" where
  "py_in (JArr _) (JObj kvs) = Inl Type_Error"
| "py_in (JObj _) (JObj kvs) = Inl Type_Error"
| "py_in k (JObj kvs) = Inr (\<exists>kv \<in> set kvs. JStr (fst kv) = k)"
| "py_in k (JArr xs) = Inr (k \<in> set xs)"
| "py_in (JStr s) (JStr t) = Inr (is_substring s t)"
| "py_in k _ = Inl Type_Error"

text \<open>\<open>all(k in d for k in keys)\<close> stops at the first false.\<close>

fun all_in :: "json list \<Rightarrow> json \<Rightarrow> py_error + bool" where
  "all_in [] d = Inr True"
| "all_in (k # ks) d = (case py_in k d of Inl e \<Rightarrow> Inl e | Inr False \<Rightarrow> Inr False
     | Inr True \<Rightarrow> all_in ks d)"

type_synonym acceptor = "string \<Rightarrow> py_error + bool"

definition accept_labels :: "string list \<Rightarrow> acceptor" where
  "accept_labels allowed o' =
     Inr (py_lower (strip_by (\<lambda>c. c = CHR ''.'') (strip_by py_space o')) \<in> set allowed)"

definition accept_json_keys :: "(string \<Rightarrow> json option) \<Rightarrow> json \<Rightarrow> acceptor" where
  "accept_json_keys loads keys o' =
     (case loads o' of None \<Rightarrow> Inr False
      | Some d \<Rightarrow> (case py_iter keys of Inl e \<Rightarrow> Inl e | Inr ks \<Rightarrow> all_in ks d))"

definition make_acceptor :: "(string \<Rightarrow> json option) \<Rightarrow> json \<Rightarrow> py_error + acceptor" where
  "make_acceptor loads spec =
     (case get_default (if truthy spec then spec else JObj []) ''type'' (JStr ''any'') of
        Inl e \<Rightarrow> Inl e
      | Inr kind \<Rightarrow>
          if kind = JStr ''labels'' then
            (case get_default spec ''labels'' (JArr []) of Inl e \<Rightarrow> Inl e
             | Inr ls \<Rightarrow> (case py_iter ls of Inl e \<Rightarrow> Inl e
             | Inr xs \<Rightarrow> (case seq_map lower_label xs of Inl e \<Rightarrow> Inl e
             | Inr allowed \<Rightarrow> Inr (accept_labels allowed))))
          else if kind = JStr ''json_keys'' then
            (case get_default spec ''keys'' (JArr []) of Inl e \<Rightarrow> Inl e
             | Inr keys \<Rightarrow> Inr (accept_json_keys loads keys))
          else if kind = JStr ''nonempty'' then Inr (\<lambda>o'. Inr (strip_by py_space o' \<noteq> []))
          else Inr (\<lambda>o'. Inr True))"

section \<open>One shard\<close>

datatype message = Results "json list" | Done

datatype agent_outcome = Completed | Stopped | Crashed py_error

definition result_json :: "acceptor \<Rightarrow> json \<times> string \<Rightarrow> py_error + json" where
  "result_json accept ro =
     (case py_index (fst ro) ''request_id'' of Inl e \<Rightarrow> Inl e
      | Inr rid \<Rightarrow> (case accept (snd ro) of Inl e \<Rightarrow> Inl e
      | Inr ok \<Rightarrow> Inr (JObj [(''request_id'', rid), (''output'', JStr (snd ro)),
           (''accepted'', JBool ok)])))"

definition batch_rows ::
  "(json list \<Rightarrow> py_error + string list) \<Rightarrow> acceptor \<Rightarrow> json list \<Rightarrow> py_error + json list" where
  "batch_rows engine accept batch =
     (case seq_map (\<lambda>r. py_index r ''prompt'') batch of Inl e \<Rightarrow> Inl e
      | Inr prompts \<Rightarrow> (case engine prompts of Inl e \<Rightarrow> Inl e
      | Inr outs \<Rightarrow> seq_map (result_json accept) (zip batch outs)))"

text \<open>
  The loop over the batches. \<open>stop i\<close> says whether the stop event is set when batch \<open>i\<close> is
  about to start; an exception in a batch ends the process with what was posted before it.
\<close>

fun run_batches ::
  "(json list \<Rightarrow> py_error + string list) \<Rightarrow> acceptor \<Rightarrow> (nat \<Rightarrow> bool) \<Rightarrow> nat \<Rightarrow> json list list
     \<Rightarrow> agent_outcome \<times> message list" where
  "run_batches engine accept stop i [] =
     (if stop i then (Stopped, []) else (Completed, [Done]))"
| "run_batches engine accept stop i (b # bs) =
     (if stop i then (Stopped, [])
      else case batch_rows engine accept b of Inl e \<Rightarrow> (Crashed e, [])
      | Inr rows \<Rightarrow> (let (out, ms) = run_batches engine accept stop (Suc i) bs
                    in (out, Results rows # ms)))"

text \<open>\<open>range(0, len(reqs), CHUNK)\<close> is the range of \<open>create_job\<close>, zero and negative steps included.\<close>

definition run_shard ::
  "(json list \<Rightarrow> py_error + string list) \<Rightarrow> acceptor \<Rightarrow> (nat \<Rightarrow> bool) \<Rightarrow> int \<Rightarrow> json list
     \<Rightarrow> agent_outcome \<times> message list" where
  "run_shard engine accept stop chunk reqs =
     (case job_chunks chunk reqs of Inl e \<Rightarrow> (Crashed e, [])
      | Inr batches \<Rightarrow> run_batches engine accept stop 0 batches)"

text \<open>What the control plane does with one message of worker \<open>wk\<close> about shard \<open>sid\<close>.\<close>

fun receive :: "string \<Rightarrow> string \<Rightarrow> string \<Rightarrow> rat \<Rightarrow> rat \<Rightarrow> message \<Rightarrow> store \<Rightarrow> py_error + nat \<times> store" where
  "receive wk jid sid secs now (Results rows) st = w_results wk jid sid rows False secs now st"
| "receive wk jid sid secs now Done st = w_results wk jid sid [] True secs now st"

section \<open>The idle rule of the main loop\<close>

datatype loop_step = Exit_stopped | Exit_all_done | Exit_idle | Wait rat nat | Work string "json list"

text \<open>
  One round of \<open>main\<close> on the decoded claim answer, with the idle counter it carries.
  \<open>None\<close> is an answer without the keys of a claim reply: the empty dictionary of a post that
  gave up, or an error document.
\<close>

definition claim_round :: "nat \<Rightarrow> nat \<Rightarrow> claim_reply option \<Rightarrow> loop_step" where
  "claim_round idle_exits idle got =
     (case got of None \<Rightarrow> Exit_all_done
      | Some Stop_reply \<Rightarrow> Exit_stopped
      | Some (Claim_reply (Some (sid, reqs)) model accept out) \<Rightarrow> Work sid reqs
      | Some (Claim_reply None model accept out) \<Rightarrow>
          if out = 0 then Exit_all_done
          else if idle_exits \<le> Suc idle then Exit_idle
          else Wait (min (5 * of_nat (Suc idle)) 15) (Suc idle))"

section \<open>Posting\<close>

text \<open>
  The retrying post returns the body of the first of its attempts that was answered with a
  status below 500 and a decodable body, and the empty dictionary when no attempt was.
\<close>

theorem post_first_answer:
  "post net tries = (case find answers (map net [0..<tries]) of
     Some (Some (code, Some body)) \<Rightarrow> body | _ \<Rightarrow> JObj [])"
proof -
  have "post_from net b k = (case find answers (map net [b..<b + k]) of
     Some (Some (code, Some body)) \<Rightarrow> body | _ \<Rightarrow> JObj [])" for b k
  proof (induction k arbitrary: b)
    case (Suc k)
    have "[b..<b + Suc k] = b # [Suc b..<Suc b + k]" by (simp add: upt_conv_Cons)
    then show ?case using Suc.IH [of "Suc b"]
      by (auto simp: answers_def split: option.splits)
  qed simp
  from this [of 0 tries] show ?thesis by (simp add: post_def)
qed

section \<open>The messages of one shard\<close>

text \<open>The key a request document or a result document is filed under.\<close>

definition doc_key :: "string \<Rightarrow> json \<Rightarrow> (string \<times> string) option" where
  "doc_key jid r = (case py_index r ''request_id'' of Inl e \<Rightarrow> None
     | Inr v \<Rightarrow> (case sql_text v of Inl e \<Rightarrow> None | Inr rid \<Rightarrow> Some (jid, rid)))"

definition doc_keys :: "string \<Rightarrow> json list \<Rightarrow> (string \<times> string) set" where
  "doc_keys jid rs = {k. Some k \<in> doc_key jid ` set rs}"

lemma doc_keys_simps [simp]:
  "doc_keys jid [] = {}" "doc_keys jid (rs @ rs') = doc_keys jid rs \<union> doc_keys jid rs'"
  by (auto simp: doc_keys_def)

lemma put_results_keys:
  assumes "seq_map (result_of_json jid sid wk now) rows = Inr rs"
  shows "result_key ` set rs = doc_keys jid rows"
  using assms
proof (induction rows arbitrary: rs)
  case (Cons row rows)
  from Cons.prems obtain r rs' where r: "result_of_json jid sid wk now row = Inr r"
    "seq_map (result_of_json jid sid wk now) rows = Inr rs'" "rs = r # rs'"
    by (auto split: sum.splits)
  have "doc_key jid row = Some (result_key r)"
    using r(1) by (auto simp: result_of_json_def doc_key_def result_key_def split: sum.splits)
  then show ?case using Cons.IH [OF r(2)] r(3) by (auto simp: doc_keys_def)
qed simp

lemma batch_rows_keys:
  assumes "batch_rows engine accept batch = Inr rows"
    and "\<And>ps os. engine ps = Inr os \<Longrightarrow> length os = length ps"
  shows "doc_keys jid rows = doc_keys jid batch"
proof -
  from assms(1) obtain ps os where
    ps: "seq_map (\<lambda>r. py_index r ''prompt'') batch = Inr ps" "engine ps = Inr os"
    "seq_map (result_json accept) (zip batch os) = Inr rows"
    by (auto simp: batch_rows_def split: sum.splits)
  have len: "length os = length batch"
    using seq_map_length [OF ps(1)] assms(2) [OF ps(2)] by simp
  have "list_all2 (\<lambda>ro row. doc_key jid row = doc_key jid (fst ro)) (zip batch os) rows"
    using ps(3) unfolding seq_map_Inr_iff
    by (rule list_all2_mono) (auto simp: result_json_def doc_key_def split: sum.splits)
  then have "map (doc_key jid) rows = map (doc_key jid \<circ> fst) (zip batch os)"
    by (induction rule: list_all2_induct) simp_all
  also have "\<dots> = map (doc_key jid) batch" using len by (simp flip: map_map)
  finally show ?thesis unfolding doc_keys_def by (metis set_map)
qed

text \<open>
  A message list is complete for the keys \<open>K\<close> when it answers keys of the job only and says
  \<open>Done\<close> only after every key of \<open>K\<close> was answered.
\<close>

fun msgs_ok :: "string \<Rightarrow> (string \<times> string) set \<Rightarrow> message list \<Rightarrow> (string \<times> string) set \<Rightarrow> bool" where
  "msgs_ok jid P [] K = True"
| "msgs_ok jid P (Results rows # ms) K =
     (doc_keys jid rows \<subseteq> P \<and> msgs_ok jid P ms (K - doc_keys jid rows))"
| "msgs_ok jid P (Done # ms) K = (K = {} \<and> msgs_ok jid P ms K)"

lemma msgs_ok_mono: "msgs_ok jid P ms K \<Longrightarrow> K' \<subseteq> K \<Longrightarrow> msgs_ok jid P ms K'"
  by (induction jid P ms K arbitrary: K' rule: msgs_ok.induct) (auto, metis Diff_mono subset_refl)

lemma msgs_ok_take: "msgs_ok jid P ms K \<Longrightarrow> msgs_ok jid P (take n ms) K"
proof (induction jid P ms K arbitrary: n rule: msgs_ok.induct)
  case (2 jid P rows ms K)
  then show ?case by (cases n) auto
next
  case (3 jid P ms K)
  then show ?case by (cases n) auto
qed simp

lemma run_batches_msgs:
  assumes "\<And>ps os. engine ps = Inr os \<Longrightarrow> length os = length ps"
    and "doc_keys jid (concat bs) \<subseteq> P"
  shows "msgs_ok jid P (snd (run_batches engine accept stop i bs)) (doc_keys jid (concat bs)) \<and>
    (fst (run_batches engine accept stop i bs) = Completed \<longleftrightarrow>
       Done \<in> set (snd (run_batches engine accept stop i bs)))"
  using assms(2)
proof (induction bs arbitrary: i)
  case Nil
  then show ?case by simp
next
  case (Cons b bs)
  show ?case
  proof (cases "stop i")
    case True
    then show ?thesis by simp
  next
    case go: False
    show ?thesis
    proof (cases "batch_rows engine accept b")
      case (Inl e)
      then show ?thesis using go by simp
    next
      case (Inr rows)
      have k: "doc_keys jid rows = doc_keys jid b"
        using batch_rows_keys [OF Inr assms(1)] by simp
      have "msgs_ok jid P (snd (run_batches engine accept stop (Suc i) bs)) (doc_keys jid (concat bs))"
        using Cons by simp
      then have "msgs_ok jid P (snd (run_batches engine accept stop (Suc i) bs))
          (doc_keys jid b \<union> doc_keys jid (concat bs) - doc_keys jid rows)"
        by (rule msgs_ok_mono) (auto simp: k)
      moreover have "(fst (run_batches engine accept stop (Suc i) bs) = Completed) =
          (Done \<in> set (snd (run_batches engine accept stop (Suc i) bs)))"
        using Cons by simp
      ultimately show ?thesis
        using go Inr Cons.prems k
        by (cases "run_batches engine accept stop (Suc i) bs") (simp add: Let_def)
    qed
  qed
qed

section \<open>Payloads name their requests\<close>

definition payload_ok :: "store \<Rightarrow> bool" where
  "payload_ok st \<longleftrightarrow>
     (\<forall>r \<in> set (requests st). request_row (r_job r) (r_shard r) (r_payload r) = Inr r)"

lemma request_row_self:
  "request_row jid sid x = Inr r \<Longrightarrow> request_row (r_job r) (r_shard r) (r_payload r) = Inr r"
  using request_row_Inr [of jid sid x r] by simp

lemma chunk_rows_rows:
  assumes "chunk_rows jid ids i cs rss" and "q \<in> set (concat rss)"
  shows "\<exists>sid x. request_row jid sid x = Inr q"
proof -
  obtain rs where "rs \<in> set rss" "q \<in> set rs" using assms(2) by auto
  then obtain k where k: "k < length cs" "q \<in> set (rss ! k)"
    using assms(1) by (auto simp: chunk_rows_def in_set_conv_nth)
  then have "list_all2 (\<lambda>x y. request_row jid (ids (i + k)) x = Inr y) (cs ! k) (rss ! k)"
    using assms(1) by (simp add: chunk_rows_def seq_map_Inr_iff)
  moreover obtain j where "j < length (rss ! k)" "q = rss ! k ! j"
    using k(2) by (auto simp: in_set_conv_nth)
  ultimately have "request_row jid (ids (i + k)) (cs ! k ! j) = Inr q"
    by (simp add: list_all2_conv_all_nth)
  then show ?thesis by blast
qed

lemma apply_op_requests:
  assumes "apply_op op st = Inr st'"
  shows "\<exists>rs. requests st' = requests st @ rs \<and>
    (\<forall>r \<in> set rs. request_row (r_job r) (r_shard r) (r_payload r) = Inr r) \<and>
    (\<forall>r \<in> set rs. store_ok st \<longrightarrow> r_shard r \<notin> s_id ` set (shards st))"
proof (cases op)
  case (Op_create jid ids name model deadline ssize reqs accept now)
  with assms have "create_job jid ids name model deadline ssize reqs accept now st = Inr st'" by simp
  then obtain cs rss where c: "job_chunks ssize reqs = Inr cs"
    "chunk_rows jid ids 0 cs rss" "jid \<notin> j_id ` set (jobs st)"
    "jobs st' = jobs st @ [\<lparr>j_id = jid, j_name = name, j_model = model, j_deadline_ts = deadline,
       j_created_ts = now, j_status = Running, j_shard_size = ssize,
       j_n_requests = length reqs, j_accept = accept\<rparr>]"
    "requests st' = requests st @ concat rss"
    "shards st' = shards st @ map (\<lambda>k. new_shard (ids k) jid k) [0..<length cs]"
    "results st' = results st" "workers st' = workers st"
    "distinct (map request_key (requests st)) \<longrightarrow> distinct (map request_key (requests st'))"
    "distinct (map s_id (shards st)) \<longrightarrow> distinct (map s_id (shards st'))"
    by (rule create_job_Inr)
  have fresh: "r_shard r \<notin> s_id ` set (shards st)"
    if r: "r \<in> set (concat rss)" and ok: "store_ok st" for r
  proof -
    obtain k where k: "k < length cs" "r_shard r = ids k" using chunk_rows_row [OF c(2) r] by auto
    have "distinct (map s_id (shards st @ map (\<lambda>k. new_shard (ids k) jid k) [0..<length cs]))"
      using ok c(6,10) by (simp add: store_ok_def keys_ok_def)
    then have "set (map s_id (shards st)) \<inter> ids ` {0..<length cs} = {}"
      by (simp add: image_image new_shard_def)
    moreover have "r_shard r \<in> ids ` {0..<length cs}" using k by simp
    ultimately show ?thesis unfolding set_map by blast
  qed
  show ?thesis
    using c(5) chunk_rows_rows [OF c(2)] request_row_self fresh by metis
next
  case (Op_put jid sid wk rows now)
  then show ?thesis using assms by (auto simp: put_results_def split: sum.splits)
qed (use assms in auto)

lemma payload_ok_step:
  assumes "payload_ok st" "apply_op op st = Inr st'" shows "payload_ok st'"
proof -
  obtain rs where "requests st' = requests st @ rs"
    "\<forall>r \<in> set rs. request_row (r_job r) (r_shard r) (r_payload r) = Inr r"
    using apply_op_requests [OF assms(2)] by blast
  then show ?thesis using assms(1) by (auto simp: payload_ok_def)
qed

interpretation payload_machine: transition_system "\<lambda>st. st = empty_store" db_step payload_ok
  by unfold_locales
     (auto simp: payload_ok_def empty_store_def elim!: db_stepE
       dest: payload_ok_step [unfolded payload_ok_def])

lemma honest_db: "honest_step st st' \<Longrightarrow> db_step st st'"
  by (auto elim!: honest_stepE intro: db_step.intros)

lemma honest_db_run: "honest_step\<^sup>*\<^sup>* st st' \<Longrightarrow> db_step\<^sup>*\<^sup>* st st'"
  by (induction rule: rtranclp_induct) (auto intro: rtranclp.rtrancl_into_rtrancl honest_db)

end
