(* ===== verification/Worker_Run.thy ===== *)
theory Worker_Run
  imports Worker_Agent
begin

text \<open>
  A worker and the control plane together: the messages of one claimed shard, received in order
  and interleaved with the transactions of other honest clients. A completed run leaves no request
  of the shard open, a killed one loses nothing; a lost result post breaks the promise.
\<close>

section \<open>A claimed shard, served\<close>

text \<open>
  The control plane receives the messages of one worker about one shard in their order; between
  two of them it may run any transactions of other honest clients.
\<close>

inductive serve :: "string \<Rightarrow> string \<Rightarrow> string \<Rightarrow> store \<Rightarrow> message list \<Rightarrow> store \<Rightarrow> bool"
  for wk jid sid where
  serve_end: "serve wk jid sid st [] st"
| serve_other: "honest_step st st1 \<Longrightarrow> serve wk jid sid st1 ms st' \<Longrightarrow> serve wk jid sid st ms st'"
| serve_message: "receive wk jid sid secs now m st = Inr (n, st1) \<Longrightarrow>
     serve wk jid sid st1 ms st' \<Longrightarrow> serve wk jid sid st (m # ms) st'"

definition open_keys :: "string \<Rightarrow> store \<Rightarrow> (string \<times> string) set" where
  "open_keys sid st = request_key ` set (unanswered sid st)"

lemma open_keys_alt: "open_keys sid st =
  {k. \<exists>r \<in> set (requests st). r_shard r = sid \<and> request_key r = k} - result_key ` set (results st)"
  by (auto simp: open_keys_def unanswered_def answered_keys request_key_def)

lemma open_keys_empty [simp]: "open_keys sid st = {} \<longleftrightarrow> unanswered sid st = []"
  by (simp add: open_keys_def)

lemma apply_op_results:
  assumes "apply_op op st = Inr st'"
  shows "result_key ` set (results st) \<subseteq> result_key ` set (results st')"
proof (cases op)
  case (Op_create jid ids name model deadline ssize reqs accept now)
  with assms have "create_job jid ids name model deadline ssize reqs accept now st = Inr st'" by simp
  then have "results st' = results st" by (rule create_job_Inr)
  then show ?thesis by simp
next
  case (Op_put jid sid wk rows now)
  then show ?thesis using assms by (auto simp: put_results_Inr put_rows_keys split: sum.splits)
qed (use assms in auto)

lemma apply_op_shard_ids:
  assumes "apply_op op st = Inr st'"
  shows "s_id ` set (shards st) \<subseteq> s_id ` set (shards st')"
proof -
  have u: "s_id ` set (update_where p f xs) = s_id ` set xs" if "\<And>s. s_id (f s) = s_id s" for p f xs
  proof -
    have "map s_id (update_where p f xs) = map s_id xs"
      using that by (induction xs) (simp_all add: update_where_def)
    then show ?thesis by (metis set_map)
  qed
  show ?thesis
  proof (cases op)
    case (Op_create jid ids name model deadline ssize reqs accept now)
    with assms have "create_job jid ids name model deadline ssize reqs accept now st = Inr st'" by simp
    then have "\<exists>ss. shards st' = shards st @ ss" by (rule create_job_Inr) blast
    then show ?thesis by auto
  next
    case (Op_reap arg clock)
    have "s_id ` set (shards (fold (reap_row clk) rows st)) = s_id ` set (shards st)" for clk rows
      by (induction rows arbitrary: st) (simp_all add: reap_row_def u)
    then show ?thesis using assms Op_reap by (auto simp: reap_def Let_def)
  next
    case (Op_claim jid wk secs now)
    then show ?thesis using assms
      by (auto simp: claim_txn_def Let_def u split: option.splits)
  next
    case (Op_put jid sid wk rows now)
    then show ?thesis using assms by (auto simp: put_results_Inr split: sum.splits)
  qed (use assms in \<open>auto simp: u extend_lease_def\<close>)
qed

lemma apply_op_open_keys:
  assumes ok: "store_ok st" and op: "apply_op op st = Inr st'" and sid: "sid \<in> s_id ` set (shards st)"
  shows "open_keys sid st' \<subseteq> open_keys sid st"
    and "request_key ` set (requests st) \<subseteq> request_key ` set (requests st')"
proof -
  obtain rs where rs: "requests st' = requests st @ rs"
    "\<forall>r \<in> set rs. store_ok st \<longrightarrow> r_shard r \<notin> s_id ` set (shards st)"
    using apply_op_requests [OF op] by blast
  then have "r_shard r \<noteq> sid" if "r \<in> set rs" for r using ok sid that by blast
  then show "open_keys sid st' \<subseteq> open_keys sid st"
    unfolding open_keys_alt rs(1) using apply_op_results [OF op] by auto
  show "request_key ` set (requests st) \<subseteq> request_key ` set (requests st')"
    by (auto simp: rs(1))
qed

text \<open>What the messages rely on at any moment: everything they answer is a request.\<close>

definition ready :: "string \<Rightarrow> (string \<times> string) set \<Rightarrow> (string \<times> string) set \<Rightarrow> store \<Rightarrow> bool" where
  "ready sid P K st \<longleftrightarrow> store_ok st \<and> accounted st \<and> sid \<in> s_id ` set (shards st) \<and>
     P \<subseteq> request_key ` set (requests st) \<and> open_keys sid st \<subseteq> K"

lemma ready_step:
  assumes "ready sid P K st" and "honest_step st st'" shows "ready sid P K st'"
proof -
  obtain op where "apply_op op st = Inr st'" "honest op st" using assms(2) by (auto elim: honest_stepE)
  note op = this
  have r: "store_ok st" "accounted st" "sid \<in> s_id ` set (shards st)"
    "P \<subseteq> request_key ` set (requests st)" "open_keys sid st \<subseteq> K"
    using assms(1) by (simp_all add: ready_def)
  show ?thesis unfolding ready_def
  proof (intro conjI)
    show "store_ok st'" by (rule apply_op_store_ok [OF r(1) op(1)])
    show "accounted st'" by (rule apply_op_accounted [OF r(1,2) op(2,1)])
    show "sid \<in> s_id ` set (shards st')" using r(3) apply_op_shard_ids [OF op(1)] by (rule rev_subsetD)
    show "P \<subseteq> request_key ` set (requests st')"
      using r(4) apply_op_open_keys(2) [OF r(1) op(1) r(3)] by (rule subset_trans)
    show "open_keys sid st' \<subseteq> K"
      using apply_op_open_keys(1) [OF r(1) op(1) r(3)] r(5) by (rule subset_trans)
  qed
qed

lemma ready_run: "honest_step\<^sup>*\<^sup>* st st' \<Longrightarrow> ready sid P K st \<Longrightarrow> ready sid P K st'"
  by (induction rule: rtranclp_induct) (auto intro: ready_step)

lemma honest_one: "apply_op op st = Inr st' \<Longrightarrow> honest op st \<Longrightarrow> honest_step\<^sup>*\<^sup>* st st'"
  by (blast intro: honest_step.intros)

lemma honest_close: "honest_step\<^sup>*\<^sup>* st (close_if_complete jid now st)"
  using honest_one [of "Op_status jid Job_done now" st]
  by (auto simp: close_if_complete_def split: option.split)

lemma honest_extend: "honest_step\<^sup>*\<^sup>* st (extend_lease sid wk secs now st)"
  using honest_one [of "Op_extend sid wk secs now" st] by simp

lemma receive_results:
  assumes r: "ready sid P K st" and "doc_keys jid rows \<subseteq> P"
    and "receive wk jid sid secs now (Results rows) st = Inr (n, st')"
  shows "ready sid P (K - doc_keys jid rows) st'"
proof -
  from assms(3) obtain st1 where
    p: "(if rows \<noteq> [] then put_results jid sid wk rows now st else Inr (0, st)) = Inr (n, st1)"
    and e: "st' = close_if_complete jid now (extend_lease sid wk secs now st1)"
    by (auto simp: w_results_def simp del: if_split split: sum.splits)
  have "ready sid P (K - doc_keys jid rows) st1"
  proof (cases "rows = []")
    case True
    then show ?thesis using p r by simp
  next
    case False
    then have put: "put_results jid sid wk rows now st = Inr (n, st1)" using p by simp
    then obtain rs where rs: "seq_map (result_of_json jid sid wk now) rows = Inr rs"
      "st1 = fold put_row rs st" by (auto simp: put_results_Inr)
    note k = put_results_keys [OF rs(1)]
    have "honest (Op_put jid sid wk rows now) st"
      using rs(1) k assms(2) r by (auto simp: ready_def)
    with put have "ready sid P K st1"
      using ready_step [OF r honest_step.intros [of "Op_put jid sid wk rows now"]] by simp
    moreover have "doc_keys jid rows \<subseteq> result_key ` set (results st1)"
      by (simp add: rs(2) put_rows_keys k)
    ultimately show ?thesis by (auto simp: ready_def open_keys_alt)
  qed
  then show ?thesis unfolding e by (meson ready_run honest_extend honest_close)
qed

lemma receive_done:
  assumes r: "ready sid P {} st" and "receive wk jid sid secs now Done st = Inr (n, st')"
  shows "ready sid P {} st'"
proof -
  have e: "st' = close_if_complete jid now (finish_shard sid wk now st)"
    using assms(2) by (simp add: w_results_def)
  have "honest_step\<^sup>*\<^sup>* st (finish_shard sid wk now st)"
    using r honest_one [of "Op_finish sid wk now" st] by (simp add: ready_def)
  then show ?thesis unfolding e by (meson r ready_run honest_close)
qed

lemma serve_closed:
  assumes "serve wk jid sid st ms st'" and "ready sid P {} st" and "msgs_ok jid P ms {}"
  shows "ready sid P {} st'"
  using assms
proof (induction rule: serve.induct)
  case (serve_other st st1 ms st')
  then show ?case by (simp add: ready_step)
next
  case (serve_message secs now m st n st1 ms st')
  show ?case
  proof (cases m)
    case (Results rows)
    then have "doc_keys jid rows \<subseteq> P" "msgs_ok jid P ms {}" using serve_message.prems by simp_all
    with serve_message Results receive_results [of sid P "{}" st jid rows wk secs now n st1]
    show ?thesis by simp
  next
    case Done
    with serve_message receive_done [of sid P st wk jid secs now n st1] show ?thesis by simp
  qed
qed

lemma serve_ready:
  assumes "serve wk jid sid st ms st'" and "ready sid P K st" and "msgs_ok jid P ms K"
  shows "\<exists>K'. ready sid P K' st' \<and> (Done \<in> set ms \<longrightarrow> K' = {})"
  using assms
proof (induction arbitrary: K rule: serve.induct)
  case (serve_end st)
  then show ?case by auto
next
  case (serve_other st st1 ms st')
  then show ?case by (meson ready_step)
next
  case (serve_message secs now m st n st1 ms st')
  show ?case
  proof (cases m)
    case (Results rows)
    then have "doc_keys jid rows \<subseteq> P" and m: "msgs_ok jid P ms (K - doc_keys jid rows)"
      using serve_message.prems by simp_all
    then have "ready sid P (K - doc_keys jid rows) st1"
      using receive_results [of sid P K st jid rows wk secs now n st1] serve_message Results by simp
    from serve_message.IH [OF this m] show ?thesis by (simp add: Results)
  next
    case Done
    then have "ready sid P {} st1" "msgs_ok jid P ms {}"
      using serve_message receive_done [of sid P st wk jid secs now n st1] Done by auto
    with serve_closed [OF serve_message.hyps(2)] show ?thesis by blast
  qed
qed


text \<open>What a claim hands out are the open requests of its shard.\<close>

lemma claim_ready:
  assumes "store_ok st" "accounted st" "payload_ok st"
    and "claim jid wk secs now st = (Some (sid, reqs), st1)"
  shows "ready sid (request_key ` set (requests st)) (doc_keys jid reqs) st1"
    and "doc_keys jid reqs \<subseteq> request_key ` set (requests st)"
proof -
  have c: "requests st1 = requests st" "results st1 = results st" "store_ok st1"
    using claim_frame [of jid wk secs now st] claim_store_ok [OF assms(1), of jid wk secs now]
      assms(4) by simp_all
  obtain s where s: "s \<in> set (shards st)" "s_id s = sid" "s_job s = jid"
    and t: "take_lease wk (now + secs) s \<in> set (shards st1)"
    and reqs: "reqs = map r_payload (unanswered sid st)"
    using claim_lowest [OF assms(1), of jid wk secs now] assms(4) by auto
  have key: "doc_key jid (r_payload r) = Some (request_key r)" if r: "r \<in> set (unanswered sid st)" for r
  proof -
    have r': "r \<in> set (requests st)" "r_shard r = sid" using r by (auto simp: unanswered_def)
    have "(r_shard r, r_job r) \<in> shard_ref ` set (shards st)"
      using assms(1) r'(1) by (auto simp: store_ok_def refs_ok_def)
    then obtain s' where s': "s' \<in> set (shards st)" "s_id s' = sid" "s_job s' = r_job r"
      using r'(2) by (auto simp: shard_ref_def)
    have "s' = s"
      using distinct_key_eq [OF _ s'(1) s(1), of s_id] assms(1) s(2) s'(2) by (simp add: store_ok_def keys_ok_def)
    then have "r_job r = jid" using s(3) s'(3) by simp
    moreover have "request_row (r_job r) (r_shard r) (r_payload r) = Inr r"
      using assms(3) r'(1) by (simp add: payload_ok_def)
    ultimately show ?thesis
      by (auto simp: request_row_def doc_key_def request_key_def split: sum.splits)
        (metis request.select_convs(2))
  qed
  have "doc_key jid ` set reqs = Some ` open_keys sid st"
    using key by (auto simp: reqs open_keys_def image_image intro!: image_eqI)
  then have k: "doc_keys jid reqs = open_keys sid st" by (auto simp: doc_keys_def)
  have u: "open_keys sid st1 = open_keys sid st" using c by (simp add: open_keys_alt)
  have "accounted st1" using claim_accounted [OF assms(2), of jid wk secs now] assms(4) by simp
  moreover have "sid \<in> s_id ` set (shards st1)" using imageI [OF t, of s_id] s(2) by simp
  ultimately show "ready sid (request_key ` set (requests st)) (doc_keys jid reqs) st1"
    using c by (simp add: ready_def k u)
  show "doc_keys jid reqs \<subseteq> request_key ` set (requests st)"
    unfolding k open_keys_alt by blast
qed


lemma Inr_pair: "\<not> isl x \<Longrightarrow> x = Inr (fst (projr x), snd (projr x))"
  by (cases x) simp_all

text \<open>
  C3: A worker that claims a shard, works through it in batches and posts its messages loses
  nothing and closes nothing early. Whatever other honest clients do in between, and wherever the
  worker is killed (after any number \<open>k\<close> of its messages were received), the store stays well
  formed and every answer stays accounted for; when all messages of a completed run were received,
  no request of the shard is left open.
\<close>

theorem worker_completes_shard:
  assumes "honest_step\<^sup>*\<^sup>* empty_store st"
    and "claim jid wk secs now st = (Some (sid, reqs), st1)"
    and "\<And>ps os. engine ps = Inr os \<Longrightarrow> length os = length ps" and "0 < chunk"
    and "run_shard engine accept stop chunk reqs = (out, ms)"
    and "serve wk jid sid st1 (take k ms) st'"
  shows "store_ok st' \<and> accounted st' \<and>
    (out = Completed \<longrightarrow> length ms \<le> k \<longrightarrow> unanswered sid st' = [])"
proof -
  note inv = honest_machine.inv_reachable [OF refl assms(1)]
    payload_machine.inv_reachable [OF refl honest_db_run [OF assms(1)]]
  let ?P = "request_key ` set (requests st)"
  have r: "ready sid ?P (doc_keys jid reqs) st1" "doc_keys jid reqs \<subseteq> ?P"
    using claim_ready [OF _ _ inv(2) assms(2)] inv(1) by blast+
  obtain bs where bs: "job_chunks chunk reqs = Inr bs" using assms(4) by (simp add: job_chunks_def)
  have "concat bs = reqs" by (rule job_chunks_concat [OF bs assms(4)])
  then have m: "msgs_ok jid ?P ms (doc_keys jid reqs)" "out = Completed \<longleftrightarrow> Done \<in> set ms"
    using run_batches_msgs [of engine jid bs ?P accept stop 0] assms(3,5) r(2) bs
    by (auto simp: run_shard_def)
  obtain K where K: "ready sid ?P K st'" "Done \<in> set (take k ms) \<longrightarrow> K = {}"
    using serve_ready [OF assms(6) r(1) msgs_ok_take [OF m(1)]] by blast
  then show ?thesis using m(2) by (auto simp: ready_def)
qed

lemma worker_completes_shard_witness:
  "\<exists>st1 st' ms. claim ''job_a'' ''w-1'' 90 2 demo_store =
      (Some (''shd_0'', [demo_request ''r0'', demo_request ''r1'']), st1) \<and>
    length ms = 3 \<and> serve ''w-1'' ''job_a'' ''shd_0'' st1 ms st' \<and> unanswered ''shd_0'' st' = []"
proof -
  let ?st1 = "snd (claim ''job_a'' ''w-1'' 90 2 demo_store)"
  let ?ms = "snd (run_shard echo_generate (\<lambda>o'. Inr True) (\<lambda>i. False) 1
               [demo_request ''r0'', demo_request ''r1''])"
  have claim: "claim ''job_a'' ''w-1'' 90 2 demo_store =
      (Some (''shd_0'', [demo_request ''r0'', demo_request ''r1'']), ?st1)"
  proof -
    have "fst (claim ''job_a'' ''w-1'' 90 2 demo_store) =
      Some (''shd_0'', [demo_request ''r0'', demo_request ''r1''])" by code_simp
    then show ?thesis by (metis prod.collapse)
  qed
  have run: "run_shard echo_generate (\<lambda>o'. Inr True) (\<lambda>i. False) 1
      [demo_request ''r0'', demo_request ''r1''] = (Completed, ?ms)" and len: "length ?ms = 3"
    by code_simp+
  have eng: "\<And>ps os. echo_generate ps = Inr os \<Longrightarrow> length os = length ps"
    by (auto simp: echo_generate_def dest: seq_map_length)
  have ms: "?ms = [?ms ! 0, ?ms ! 1, ?ms ! 2]" using len
    by (intro nth_equalityI) (auto simp: less_Suc_eq eval_nat_numeral)
  let ?rc = "receive ''w-1'' ''job_a'' ''shd_0'' 90"
  let ?s1 = "snd (projr (?rc 3 (?ms ! 0) ?st1))" let ?s2 = "snd (projr (?rc 4 (?ms ! 1) ?s1))"
  have "\<not> isl (?rc 3 (?ms ! 0) ?st1) \<and> \<not> isl (?rc 4 (?ms ! 1) ?s1) \<and> \<not> isl (?rc 5 (?ms ! 2) ?s2)"
    by code_simp
  then have "\<not> isl (?rc 3 (?ms ! 0) ?st1)" "\<not> isl (?rc 4 (?ms ! 1) ?s1)" "\<not> isl (?rc 5 (?ms ! 2) ?s2)"
    by blast+
  note r = this [THEN Inr_pair]
  let ?s3 = "snd (projr (?rc 5 (?ms ! 2) ?s2))"
  have serve: "serve ''w-1'' ''job_a'' ''shd_0'' ?st1 ?ms ?s3"
    using serve_message [OF r(1) serve_message [OF r(2) serve_message [OF r(3) serve_end]]] ms
    by metis
  have "unanswered ''shd_0'' ?s3 = []"
    using worker_completes_shard [OF demo_reachable claim eng _ run, of 3 ?s3] serve len by simp
  with claim len serve show ?thesis by blast
qed

text \<open>A run in which one result post is lost.\<close>

definition lost_ops :: "db_op list" where
  "lost_ops = [Op_claim ''job_a'' ''w-2'' 90 6,
     Op_put ''job_a'' ''shd_0'' ''w-2'' [demo_result ''r0'', demo_result ''r1''] 7,
     Op_finish ''shd_0'' ''w-2'' 8, Op_claim ''job_a'' ''w-2'' 90 9]"

definition lost_store :: store where
  "lost_store = the (run_ops lost_ops demo_store)"


end
