(* ===== verification/Providers.thy ===== *)
theory Providers
  imports Worker_Run
begin

text \<open>
  The machine providers of \<open>providers/\<close>. A provider is a record of operations on its own
  state; an operation that raises returns no result. \<open>LocalProvider\<close> runs workers as processes
  of this host (its state includes the process table), \<open>VerdaProvider\<close> rents instances through a
  third-party client, whose operations are arguments. The contract both the controller and the
  operator rely on is the locale \<open>machine_provider\<close>.
\<close>

section \<open>The provider interface\<close>

record launched =
  h_worker_id :: string
  h_instance_id :: "string option"
  h_instance_type :: string
  h_price_hr :: rat

record 'p provider =
  p_name :: string
  p_prepare :: "string \<Rightarrow> 'p \<Rightarrow> 'p option"
  p_launch :: "string \<Rightarrow> 'p \<Rightarrow> launched option \<times> 'p"
  p_kill :: "string \<Rightarrow> string option \<Rightarrow> 'p \<Rightarrow> 'p"
  p_capacity :: "'p \<Rightarrow> bool"
  p_spot :: "'p \<Rightarrow> bool option"
  p_set_spot :: "bool \<Rightarrow> 'p \<Rightarrow> 'p"

type_synonym env = "string \<Rightarrow> string option"

section \<open>Local processes\<close>

text \<open>
  \<open>os_procs\<close> is the process table: the live processes with their environment. \<open>l_supply\<close> are the
  identifiers \<open>uuid4\<close> and the process ids the host hands out next; an empty supply is a
  \<open>Popen\<close> that raises.
\<close>

record local_provider =
  l_ctl_url :: string
  l_token :: string
  l_engine :: string
  l_model :: string
  l_price :: "rat \<times> string"
  l_python_path :: string
  l_environ :: env
  l_procs :: "(string \<times> nat) list"
  os_procs :: "(nat \<times> env) list"
  l_supply :: "(string \<times> nat) list"

definition local_env :: "local_provider \<Rightarrow> string \<Rightarrow> string \<Rightarrow> env" where
  "local_env p jid worker = (l_environ p)
     (''FB_URL'' \<mapsto> l_ctl_url p, ''FB_TOKEN'' \<mapsto> l_token p, ''FB_JOB'' \<mapsto> jid,
      ''FB_WORKER_ID'' \<mapsto> worker, ''FB_ENGINE'' \<mapsto> l_engine p, ''FB_MODEL'' \<mapsto> l_model p,
      ''FB_PROVIDER'' \<mapsto> ''local'', ''FB_PRICE_HR'' \<mapsto> snd (l_price p),
      ''FB_INSTANCE_TYPE'' \<mapsto> ''local-cpu'', ''PYTHONPATH'' \<mapsto> l_python_path p)"

definition local_launch :: "string \<Rightarrow> local_provider \<Rightarrow> launched option \<times> local_provider" where
  "local_launch jid p =
     (case l_supply p of [] \<Rightarrow> (None, p)
      | (u, pid) # rest \<Rightarrow>
          (let worker = ''w-'' @ u
           in (Some \<lparr>h_worker_id = worker, h_instance_id = Some (nat_text pid),
                  h_instance_type = ''local-cpu'', h_price_hr = fst (l_price p)\<rparr>,
               p\<lparr>l_procs := (worker, pid) # filter (\<lambda>q. fst q \<noteq> worker) (l_procs p),
                 os_procs := (pid, local_env p jid worker) # os_procs p, l_supply := rest\<rparr>)))"

text \<open>\<open>poll() is None\<close>: the process this object started has not exited.\<close>

definition runs_as :: "string \<Rightarrow> nat \<times> env \<Rightarrow> bool" where
  "runs_as worker q \<longleftrightarrow> snd q ''FB_WORKER_ID'' = Some worker"

definition still_running :: "string \<Rightarrow> nat \<Rightarrow> local_provider \<Rightarrow> bool" where
  "still_running worker pid p \<longleftrightarrow> (\<exists>q \<in> set (os_procs p). fst q = pid \<and> runs_as worker q)"

definition sigkill :: "nat \<Rightarrow> local_provider \<Rightarrow> local_provider" where
  "sigkill pid p = p\<lparr>os_procs := filter (\<lambda>q. fst q \<noteq> pid) (os_procs p)\<rparr>"

text \<open>
  \<open>int(instance_id)\<close> on the decimal text of a process id; any other text raises and is ignored.
\<close>

definition pid_of :: "string \<Rightarrow> nat option" where
  "pid_of s = (if s \<noteq> [] \<and> (\<forall>c \<in> set s. is_digit c) then Some (digits_value s) else None)"

definition local_kill :: "string \<Rightarrow> string option \<Rightarrow> local_provider \<Rightarrow> local_provider" where
  "local_kill worker inst p =
     (let p1 = p\<lparr>l_procs := filter (\<lambda>q. fst q \<noteq> worker) (l_procs p)\<rparr>;
          by_inst = (case inst of None \<Rightarrow> p1
            | Some s \<Rightarrow> (case pid_of s of None \<Rightarrow> p1 | Some pid \<Rightarrow> sigkill pid p1))
      in (case map_of (l_procs p) worker of None \<Rightarrow> by_inst
          | Some pid \<Rightarrow> if still_running worker pid p then sigkill pid p1 else by_inst))"

definition local_ops :: "local_provider provider" where
  "local_ops = \<lparr>p_name = ''local'', p_prepare = (\<lambda>jid p. Some p), p_launch = local_launch,
     p_kill = local_kill, p_capacity = (\<lambda>p. True), p_spot = (\<lambda>p. None),
     p_set_spot = (\<lambda>b p. p)\<rparr>"

section \<open>Rented instances\<close>

text \<open>The operations of the third-party client, on its own state.\<close>

record 'c verda_client =
  vc_available :: "string \<Rightarrow> bool \<Rightarrow> string \<Rightarrow> 'c \<Rightarrow> bool option"
  vc_script :: "string \<Rightarrow> string \<Rightarrow> 'c \<Rightarrow> (string \<times> 'c) option"
  vc_create :: "string \<Rightarrow> string \<Rightarrow> string \<Rightarrow> string \<Rightarrow> string list \<Rightarrow> string \<Rightarrow> string \<Rightarrow> bool
      \<Rightarrow> 'c \<Rightarrow> (string \<times> rat option \<times> 'c) option"
  vc_delete :: "string \<Rightarrow> 'c \<Rightarrow> 'c option"

record 'c verda_provider =
  v_cloud :: 'c
  v_ctl_url :: string
  v_token :: string
  v_instance_type :: string
  v_model :: string
  v_engine :: string
  v_location :: string
  v_image :: string
  v_spot :: bool
  v_ssh_keys :: "string list"
  v_script_id :: "string option"
  v_price_hr :: rat

text \<open>\<open>str.replace\<close>: every non-overlapping occurrence, from the left; \<open>old\<close> is not empty.\<close>

function py_replace :: "string \<Rightarrow> string \<Rightarrow> string \<Rightarrow> string" where
  "py_replace old new s =
     (case s of [] \<Rightarrow> []
      | c # t \<Rightarrow>
         if old \<noteq> [] \<and> is_prefix old s then new @ py_replace old new (drop (length old) s)
         else c # py_replace old new t)"
  by pat_completeness auto
termination
  by (relation "measure (\<lambda>(old, new, s). length s)") auto

declare py_replace.simps [simp del]

text \<open>The startup script of an instance, line by line.\<close>

definition bootstrap_lines :: "string list" where \<open>
  bootstrap_lines = [
    ''#!/bin/bash'',
    ''set -euxo pipefail'',
    ''export DEBIAN_FRONTEND=noninteractive'',
    [],
    ''# Injected by the controller, one script per job.'',
    ''export FB_URL="__FB_URL__"'',
    ''export FB_TOKEN="__FB_TOKEN__"'',
    ''export FB_JOB="__FB_JOB__"'',
    ''export FB_MODEL="__FB_MODEL__"'',
    ''export FB_ENGINE="__FB_ENGINE__"'',
    ''export FB_PROVIDER="verda"'',
    ''export FB_PRICE_HR="__FB_PRICE_HR__"'',
    ''export FB_INSTANCE_TYPE="__FB_INSTANCE_TYPE__"'',
    ''# The controller sets the hostname to the worker id, so the box knows its name.'',
    ''export FB_WORKER_ID="$(hostname)"'',
    [],
    ''mkdir -p /opt/fb && cd /opt/fb'',
    ''curl -fsSL "$FB_URL/agent.py" -o agent.py || true'',
    ''if [ ! -s agent.py ]; then'',
    ''  echo "control plane did not serve agent.py; falling back to pip payload"'',
    ''  exit 1'',
    ''fi'',
    [],
    ''pip install --no-cache-dir requests >/dev/null'',
    ''if [ "$FB_ENGINE" = "vllm" ]; then'',
    ''  pip install --no-cache-dir vllm >/dev/null'',
    ''fi'',
    [],
    ''# Run under systemd so a crash restarts rather than idling a paid GPU.'',
    ''cat >/etc/systemd/system/fb-agent.service <<EOF'',
    ''[Unit]'',
    ''Description=firmbatch agent'',
    ''[Service]'',
    ''Type=simple'',
    ''WorkingDirectory=/opt/fb'',
    ''Environment=FB_URL=$FB_URL'',
    ''Environment=FB_TOKEN=$FB_TOKEN'',
    ''Environment=FB_JOB=$FB_JOB'',
    ''Environment=FB_MODEL=$FB_MODEL'',
    ''Environment=FB_ENGINE=$FB_ENGINE'',
    ''Environment=FB_PROVIDER=verda'',
    ''Environment=FB_PRICE_HR=$FB_PRICE_HR'',
    ''Environment=FB_INSTANCE_TYPE=$FB_INSTANCE_TYPE'',
    ''Environment=FB_WORKER_ID=$FB_WORKER_ID'',
    ''ExecStart=/usr/bin/python3 /opt/fb/agent.py'',
    ''Restart=always'',
    ''RestartSec=5'',
    ''[Install]'',
    ''WantedBy=multi-user.target'',
    ''EOF'',
    ''systemctl daemon-reload'',
    ''systemctl enable --now fb-agent''] \<close>

definition bootstrap :: string where
  "bootstrap = concat (map (\<lambda>l. l @ [CHR 10]) bootstrap_lines)"

definition fill_template :: "(rat \<Rightarrow> string) \<Rightarrow> string \<Rightarrow> 'c verda_provider \<Rightarrow> string \<Rightarrow> string" where
  "fill_template rat_text jid p body =
     py_replace ''__FB_INSTANCE_TYPE__'' (v_instance_type p)
      (py_replace ''__FB_PRICE_HR__'' (rat_text (v_price_hr p))
       (py_replace ''__FB_ENGINE__'' (v_engine p)
        (py_replace ''__FB_MODEL__'' (v_model p)
         (py_replace ''__FB_JOB__'' jid
          (py_replace ''__FB_TOKEN__'' (v_token p)
           (py_replace ''__FB_URL__'' (v_ctl_url p) body))))))"

definition verda_prepare ::
  "(rat \<Rightarrow> string) \<Rightarrow> 'c verda_client \<Rightarrow> string \<Rightarrow> 'c verda_provider \<Rightarrow> 'c verda_provider option" where
  "verda_prepare rat_text cl jid p =
     (case vc_script cl (''fb-'' @ jid) (fill_template rat_text jid p bootstrap) (v_cloud p) of
        None \<Rightarrow> None
      | Some (sid, c) \<Rightarrow> Some (p\<lparr>v_cloud := c, v_script_id := Some sid\<rparr>))"

definition verda_capacity :: "'c verda_client \<Rightarrow> 'c verda_provider \<Rightarrow> bool" where
  "verda_capacity cl p =
     (case vc_available cl (v_instance_type p) (v_spot p) (v_location p) (v_cloud p) of
        None \<Rightarrow> True | Some b \<Rightarrow> b)"

definition verda_create ::
  "'c verda_client \<Rightarrow> string \<Rightarrow> string \<Rightarrow> 'c verda_provider \<Rightarrow> launched option \<times> 'c verda_provider" where
  "verda_create cl worker jid p =
     (case v_script_id p of None \<Rightarrow> (None, p)
      | Some script \<Rightarrow>
         (case vc_create cl (v_instance_type p) (v_image p) worker (''firmbatch '' @ jid)
            (v_ssh_keys p) (v_location p) script (v_spot p) (v_cloud p) of None \<Rightarrow> (None, p)
          | Some (inst, price, c) \<Rightarrow>
             (let pr = (case price of None \<Rightarrow> 0 | Some x \<Rightarrow> x)
              in (Some \<lparr>h_worker_id = worker, h_instance_id = Some inst,
                     h_instance_type = v_instance_type p, h_price_hr = pr\<rparr>,
                  p\<lparr>v_cloud := c, v_price_hr := pr\<rparr>))))"

definition verda_launch ::
  "(rat \<Rightarrow> string) \<Rightarrow> 'c verda_client \<Rightarrow> string \<Rightarrow> string \<Rightarrow> 'c verda_provider
     \<Rightarrow> launched option \<times> 'c verda_provider" where
  "verda_launch rat_text cl u jid p =
     (if v_script_id p = None \<or> v_script_id p = Some [] then
        (case verda_prepare rat_text cl jid p of None \<Rightarrow> (None, p)
         | Some p1 \<Rightarrow> verda_create cl (''w-'' @ u) jid p1)
      else verda_create cl (''w-'' @ u) jid p)"

definition verda_kill ::
  "'c verda_client \<Rightarrow> string \<Rightarrow> string option \<Rightarrow> 'c verda_provider \<Rightarrow> 'c verda_provider" where
  "verda_kill cl worker inst p =
     (case inst of None \<Rightarrow> p
      | Some i \<Rightarrow> if i = [] then p
          else (case vc_delete cl i (v_cloud p) of None \<Rightarrow> p | Some c \<Rightarrow> p\<lparr>v_cloud := c\<rparr>))"

section \<open>What an agent registers about itself\<close>

text \<open>
  \<open>main\<close> of \<open>worker/agent.py\<close> first posts its registration, read from its environment. The
  endpoint passes it to \<open>register_worker\<close>.
\<close>

definition env_or :: "env \<Rightarrow> string \<Rightarrow> string \<Rightarrow> string" where
  "env_or e k d = (case e k of None \<Rightarrow> d | Some v \<Rightarrow> v)"

definition agent_register :: "(string \<Rightarrow> rat) \<Rightarrow> string \<Rightarrow> env \<Rightarrow> string \<Rightarrow> rat \<Rightarrow> store \<Rightarrow> store" where
  "agent_register to_float host e jid now st =
     w_register (case e ''FB_WORKER_ID'' of None \<Rightarrow> host | Some w \<Rightarrow> if w = [] then host else w)
       jid (env_or e ''FB_PROVIDER'' ''unknown'') (e ''FB_INSTANCE_ID'')
       (Some (env_or e ''FB_INSTANCE_TYPE'' ''unknown''))
       (to_float (env_or e ''FB_PRICE_HR'' ''0'')) now st"

end
