(* ===== verification/Deadline_Controller.thy ===== *)
theory Deadline_Controller
  imports Providers "HOL-Library.Product_Lexorder"
begin

text \<open>
  \<open>controller.py\<close>: the greedy loop that compares the measured rate with the one the deadline
  needs, and launches or releases machines. One round is \<open>tick\<close>; \<open>run_ticks\<close> is the loop, with
  the transactions of the rest of the system between the rounds; \<open>run\<close> adds the preparation and
  the final shutdown, which runs however the loop ended.
\<close>

record controller_config =
  buffer_frac :: rat
  worker_stale :: rat
  launch_per_tick :: int
  max_workers :: int
  min_workers :: int
  firm_switch :: bool

section \<open>Machines leaving\<close>

text \<open>Marks the row dead, frees its leases, and stops the machine; a failing stop is only printed.\<close>

definition stop_machine ::
  "'p provider \<Rightarrow> stop_reason \<Rightarrow> rat \<Rightarrow> worker \<Rightarrow> store \<times> 'p \<Rightarrow> store \<times> 'p" where
  "stop_machine P reason now w sp =
     (snd (kill_worker (w_id w) reason now (fst sp)),
      p_kill P (w_id w) (w_instance_id w) (snd sp))"

definition stale :: "rat \<Rightarrow> rat \<Rightarrow> worker \<Rightarrow> bool" where
  "stale limit now w \<longleftrightarrow>
     (case w_last_seen w of None \<Rightarrow> False | Some t \<Rightarrow> t \<noteq> 0 \<and> limit < now - t)"

definition retire_stale ::
  "controller_config \<Rightarrow> 'p provider \<Rightarrow> string \<Rightarrow> rat \<Rightarrow> store \<times> 'p \<Rightarrow> store \<times> 'p" where
  "retire_stale cfg P jid now sp =
     fold (\<lambda>w sp. if stale (worker_stale cfg) now w then stop_machine P No_heartbeat now w sp else sp)
       (live_workers jid (fst sp)) sp"

section \<open>How many machines\<close>

definition need_rate :: "controller_config \<Rightarrow> rat \<Rightarrow> rat \<Rightarrow> status_report \<Rightarrow> rat" where
  "need_rate cfg window time_left st =
     of_int (st_remaining st) / max 1 (time_left - buffer_frac cfg * window)"

definition wanted :: "controller_config \<Rightarrow> rat \<Rightarrow> rat \<Rightarrow> status_report \<Rightarrow> nat \<Rightarrow> int" where
  "wanted cfg window time_left st n_live =
     (let want =
        (if st_rate_per_s st > 0 \<and> n_live > 0 then
           (let per_worker = st_rate_per_s st / of_nat n_live
            in if per_worker > 0 then \<lceil>need_rate cfg window time_left st / per_worker\<rceil>
               else int n_live + 1)
         else max (min_workers cfg) (int n_live))
      in max (min_workers cfg) (min (max_workers cfg) want))"

section \<open>Launching and releasing\<close>

fun launch_some ::
  "'p provider \<Rightarrow> string \<Rightarrow> rat \<Rightarrow> nat \<Rightarrow> nat \<times> store \<times> 'p \<Rightarrow> nat \<times> store \<times> 'p" where
  "launch_some P jid now 0 s = s"
| "launch_some P jid now (Suc k) (n, st, p) =
     (case p_launch P jid p of
        (None, p') \<Rightarrow> (n, st, p')
      | (Some h, p') \<Rightarrow> launch_some P jid now k
          (Suc n, register_worker (h_worker_id h) jid (p_name P) (h_instance_id h)
             (Some (h_instance_type h)) (h_price_hr h) now st, p'))"

text \<open>Idle machines first, then the most recently started.\<close>

definition release_order :: "store \<Rightarrow> worker list \<Rightarrow> worker list" where
  "release_order st live =
     sort_key (\<lambda>w. (worker_has_lease (w_id w) st, - w_started_ts w)) live"

definition release_some ::
  "'p provider \<Rightarrow> rat \<Rightarrow> nat \<Rightarrow> worker list \<Rightarrow> store \<times> 'p \<Rightarrow> store \<times> 'p" where
  "release_some P now k live sp =
     fold (stop_machine P Scaled_down now) (take k (release_order (fst sp) live)) sp"

definition endgame :: "controller_config \<Rightarrow> 'p provider \<Rightarrow> rat \<Rightarrow> rat \<Rightarrow> 'p \<Rightarrow> 'p" where
  "endgame cfg P window time_left p =
     (if firm_switch cfg \<and> time_left < buffer_frac cfg * window then
        (case p_spot P p of Some True \<Rightarrow> p_set_spot P False p | _ \<Rightarrow> p)
      else p)"

section \<open>One round\<close>

datatype 's tick_result = Finished 's | Continue 's | Failed py_error 's

text \<open>
  The state of the loop is the number of launches, the store and the provider. \<open>clock\<close> gives the
  time \<open>reap\<close> and \<open>status\<close> read, \<open>now\<close> the time read after them. A status of a job that is gone
  raises when it is indexed, after the stale machines were retired.
\<close>

definition tick ::
  "controller_config \<Rightarrow> 'p provider \<Rightarrow> string \<Rightarrow> rat \<Rightarrow> rat \<Rightarrow> rat \<Rightarrow> rat
     \<Rightarrow> nat \<times> store \<times> 'p \<Rightarrow> (nat \<times> store \<times> 'p) tick_result" where
  "tick cfg P jid deadline window clock now s =
     (case s of (n, st0, p0) \<Rightarrow>
        (let st1 = snd (reap None clock st0);
             report = status jid clock st1;
             (st2, p2) = retire_stale cfg P jid now (st1, p0)
         in (case report of None \<Rightarrow> Failed Type_Error (n, st2, p2)
             | Some r \<Rightarrow>
                if st_status r \<noteq> Running \<or> st_remaining r = 0 then Finished (n, st2, p2)
                else
                  (let live = live_workers jid st2;
                       n_live = length live;
                       time_left = deadline - now;
                       want = wanted cfg window time_left r n_live;
                       p3 = endgame cfg P window time_left p2
                   in if int n_live < want \<and> p_capacity P p3 then
                        Continue (launch_some P jid now
                          (nat (min (want - int n_live) (launch_per_tick cfg))) (n, st2, p3))
                      else if want < int n_live then
                        (let (st4, p4) =
                           release_some P now (nat (int n_live - want)) live (st2, p3)
                         in Continue (n, st4, p4))
                      else Continue (n, st2, p3)))))"

section \<open>The loop\<close>

text \<open>
  What happens between two rounds: the other transactions of the store, and the machines'
  own life; then the two clock readings of the round. The list ends where the operator interrupts.
\<close>

record 'p round =
  between :: "store \<times> 'p \<Rightarrow> store \<times> 'p"
  r_clock :: rat
  r_now :: rat

fun run_ticks ::
  "controller_config \<Rightarrow> 'p provider \<Rightarrow> string \<Rightarrow> rat \<Rightarrow> rat \<Rightarrow> 'p round list \<Rightarrow> nat \<times> store \<times> 'p
     \<Rightarrow> (nat \<times> store \<times> 'p) tick_result" where
  "run_ticks cfg P jid deadline window [] s = Continue s"
| "run_ticks cfg P jid deadline window (r # rs) (n, st, p) =
     (case tick cfg P jid deadline window (r_clock r) (r_now r) (n, between r (st, p)) of
        Continue s \<Rightarrow> run_ticks cfg P jid deadline window rs s
      | res \<Rightarrow> res)"

definition shutdown :: "'p provider \<Rightarrow> string \<Rightarrow> rat \<Rightarrow> store \<times> 'p \<Rightarrow> store \<times> 'p" where
  "shutdown P jid now sp =
     fold (stop_machine P Job_complete now) (live_workers jid (fst sp)) sp"

fun tick_state :: "'s tick_result \<Rightarrow> 's" where
  "tick_state (Finished s) = s" | "tick_state (Continue s) = s" | "tick_state (Failed e s) = s"

text \<open>\<open>None\<close> is the exit before the loop: no such job, or a preparation that failed.\<close>

definition run ::
  "controller_config \<Rightarrow> 'p provider \<Rightarrow> string \<Rightarrow> rat \<Rightarrow> 'p round list \<Rightarrow> rat \<Rightarrow> store \<times> 'p
     \<Rightarrow> (nat \<times> store \<times> 'p) option" where
  "run cfg P jid start rs stop sp =
     (case get_job jid (fst sp) of None \<Rightarrow> None
      | Some job \<Rightarrow>
         (case p_prepare P jid (snd sp) of None \<Rightarrow> None
          | Some p \<Rightarrow>
             (case tick_state (run_ticks cfg P jid (j_deadline_ts job)
                (max 1 (j_deadline_ts job - start)) rs (0, fst sp, p)) of
                (n, st', p') \<Rightarrow> Some (n, shutdown P jid stop (st', p')))))"

section \<open>Stopping machines\<close>

lemma stop_machine_fst:
  "fst (fold (stop_machine P reason now) ws sp) =
   fold (\<lambda>w st. snd (kill_worker (w_id w) reason now st)) ws (fst sp)"
  by (induction ws arbitrary: sp) (simp_all add: stop_machine_def)

lemma kill_live:
  "live_workers jid (snd (kill_worker wid reason now st)) =
   filter (\<lambda>w. w_id w \<noteq> wid) (live_workers jid st)"
proof -
  have kf: "filter (\<lambda>w. w_job w = jid \<and> w_state w \<noteq> Dead)
      (update_where (\<lambda>w. w_id w = wid) (\<lambda>w. w\<lparr>w_state := Dead, w_stopped_ts := Some now,
         w_stop_reason := Some reason\<rparr>) ws)
    = filter (\<lambda>w. w_id w \<noteq> wid) (filter (\<lambda>w. w_job w = jid \<and> w_state w \<noteq> Dead) ws)" for ws
    by (induction ws) (auto simp: update_where_def)
  show ?thesis
    unfolding live_workers_def filter_sort kf [symmetric] by (simp add: kill_worker_def Let_def)
qed

lemma kills_live:
  "live_workers jid (fold (\<lambda>w st. snd (kill_worker (w_id w) reason now st)) ws st) =
   filter (\<lambda>w. w_id w \<notin> w_id ` set ws) (live_workers jid st)"
  by (induction ws arbitrary: st) (simp_all add: kill_live conj_commute)

lemma kills_store_ok:
  "store_ok st \<Longrightarrow> store_ok (fold (\<lambda>w st. snd (kill_worker (w_id w) reason now st)) ws st)"
  by (induction ws arbitrary: st) (simp_all add: kill_store_ok)

lemma kills_runs: "db_step\<^sup>*\<^sup>* st (fold (\<lambda>w st. snd (kill_worker (w_id w) reason now st)) ws st)"
  by (induction ws arbitrary: st) (auto intro: rtranclp_trans [OF db_ops(7)])

definition held_by_any :: "worker list \<Rightarrow> shard \<Rightarrow> bool" where
  "held_by_any ws s \<longleftrightarrow> (\<exists>w \<in> set ws. held_by (w_id w) s)"

lemma kills_shards:
  "shards (fold (\<lambda>w st. snd (kill_worker (w_id w) reason now st)) ws st) =
   update_where (held_by_any ws) release_lease (shards st)"
proof (induction ws arbitrary: st)
  case Nil
  then show ?case by (simp add: held_by_any_def update_where_def)
next
  case (Cons w ws)
  have "update_where (held_by_any ws) release_lease (update_where (held_by (w_id w)) release_lease xs)
      = update_where (held_by_any (w # ws)) release_lease xs" for xs
    by (induction xs) (auto simp: update_where_def held_by_any_def held_by_def release_lease_def)
  then show ?case by (simp add: Cons)
qed

lemma live_ids: "w \<in> set (live_workers jid st) \<longleftrightarrow> w \<in> set (workers st) \<and> w_job w = jid \<and> w_state w \<noteq> Dead"
  by (auto simp: live_workers_def)

lemma live_distinct: "store_ok st \<Longrightarrow> distinct (map w_id (live_workers jid st))"
proof -
  assume "store_ok st"
  then have "distinct (map w_id (workers st))" by (simp add: store_ok_def keys_ok_def)
  then have "distinct (map w_id (filter p (workers st)))" for p by (rule distinct_map_filter)
  then show ?thesis unfolding live_workers_def distinct_map
    by (simp add: distinct_sort)
qed

section \<open>Releasing\<close>

lemma release_order_set [simp]: "set (release_order st live) = set live"
  by (simp add: release_order_def)

text \<open>
  Releasing \<open>k\<close> machines of a job stops exactly \<open>k\<close> of its live workers, and a worker that
  holds a lease is stopped only when every worker kept holds one too. The shards leased to the
  stopped workers are pending again, and no other shard changes.
\<close>

theorem release_spares_busy_workers:
  assumes "store_ok st" and "live = live_workers jid st" and "k \<le> length live"
    and "release_some P now k live (st, p) = (st', p')"
  shows "length (live_workers jid st') = length live - k \<and>
    set (live_workers jid st') \<subseteq> set live \<and> store_ok st' \<and>
    (\<forall>w \<in> set live. w \<notin> set (live_workers jid st') \<longrightarrow> worker_has_lease (w_id w) st \<longrightarrow>
       (\<forall>w' \<in> set (live_workers jid st'). worker_has_lease (w_id w') st)) \<and>
    shards st' = update_where
      (held_by_any (filter (\<lambda>w. w \<notin> set (live_workers jid st')) live)) release_lease (shards st)"
proof -
  let ?o = "release_order st live"
  have st': "st' = fold (\<lambda>w st. snd (kill_worker (w_id w) Scaled_down now st)) (take k ?o) st"
    using stop_machine_fst [of P Scaled_down now "take k ?o" "(st, p)"] assms(4)
    by (simp add: release_some_def)
  have dl: "distinct (map w_id live)" using live_distinct [OF assms(1)] assms(2) by simp
  have do: "distinct (map w_id ?o)" using dl by (simp add: release_order_def distinct_map)
  have live': "live_workers jid st' = filter (\<lambda>w. w_id w \<notin> w_id ` set (take k ?o)) live"
    unfolding st' kills_live assms(2) [symmetric] ..
  have split: "w \<in> set (live_workers jid st') \<longleftrightarrow> w \<in> set (drop k ?o)" for w
  proof -
    have "distinct (map w_id (take k ?o) @ map w_id (drop k ?o))"
      using do by (simp flip: map_append)
    moreover have "set live = set (take k ?o) \<union> set (drop k ?o)"
      by (metis append_take_drop_id release_order_set set_append)
    ultimately show ?thesis unfolding live' by (auto simp del: map_append)
  qed
  have dist': "distinct (live_workers jid st')" "distinct (drop k ?o)"
    using dl do unfolding live' by (auto simp: distinct_map)
  have "set (live_workers jid st') = set (drop k ?o)" using split by blast
  then have "length (live_workers jid st') = length (drop k ?o)"
    using dist' by (metis distinct_card)
  moreover have "length ?o = length live" by (simp add: release_order_def)
  ultimately have 1: "length (live_workers jid st') = length live - k" by simp
  have 2: "set (live_workers jid st') \<subseteq> set live" by (auto simp: live')
  have 3: "store_ok st'" unfolding st' by (rule kills_store_ok [OF assms(1)])
  have 4: "worker_has_lease (w_id w') st"
    if "w \<in> set live" "w \<notin> set (live_workers jid st')" "worker_has_lease (w_id w) st"
      "w' \<in> set (live_workers jid st')" for w w'
  proof -
    have "w \<in> set (take k ?o)" using that(1,2) split
      by (metis append_take_drop_id Un_iff release_order_set set_append)
    moreover have "w' \<in> set (drop k ?o)" using that(4) split by blast
    moreover have "sorted (map (\<lambda>w. (worker_has_lease (w_id w) st, - w_started_ts w)) ?o)"
      unfolding release_order_def by simp
    then have "sorted (map (\<lambda>w. (worker_has_lease (w_id w) st, - w_started_ts w)) (take k ?o @ drop k ?o))"
      by simp
    ultimately have "(worker_has_lease (w_id w) st, - w_started_ts w) \<le>
        (worker_has_lease (w_id w') st, - w_started_ts w')"
      unfolding map_append sorted_append by auto
    then show ?thesis using that(3) by (auto simp: less_eq_prod_def)
  qed
  have tk: "set (take k ?o) = set (filter (\<lambda>w. w \<notin> set (live_workers jid st')) live)"
  proof -
    have "set (take k ?o) \<inter> set (drop k ?o) = {}"
      using do by (intro set_take_disj_set_drop_if_distinct) (simp_all add: distinct_map)
    moreover have "set live = set (take k ?o) \<union> set (drop k ?o)"
      by (metis append_take_drop_id release_order_set set_append)
    moreover have "set (live_workers jid st') = set (drop k ?o)" using split by blast
    ultimately show ?thesis unfolding set_filter by blast
  qed
  have "held_by_any (take k ?o) = held_by_any (filter (\<lambda>w. w \<notin> set (live_workers jid st')) live)"
    by (rule ext) (simp only: held_by_any_def tk)
  then have 5: "shards st' = update_where
      (held_by_any (filter (\<lambda>w. w \<notin> set (live_workers jid st')) live)) release_lease (shards st)"
    unfolding st' kills_shards by presburger
  show ?thesis by (rule conjI [OF 1 conjI [OF 2 conjI [OF 3 conjI [OF _ 5]]]]) (intro ballI impI, rule 4)
qed


section \<open>The number of machines\<close>

text \<open>
  C35: The number of machines asked for is within the operator's bounds. Once a rate was measured it
  is the least number within the bounds whose rate, at the measured rate per worker, finishes what
  remains in the usable part of the window.
\<close>

theorem wanted_meets_rate:
  assumes "min_workers cfg \<le> max_workers cfg"
    and "want = wanted cfg window time_left st n_live"
  shows "min_workers cfg \<le> want \<and> want \<le> max_workers cfg \<and>
    (0 < st_rate_per_s st \<and> 0 < n_live \<longrightarrow>
      (want < max_workers cfg \<longrightarrow>
         need_rate cfg window time_left st \<le> of_int want * (st_rate_per_s st / of_nat n_live)) \<and>
      (min_workers cfg < want \<longrightarrow>
         of_int (want - 1) * (st_rate_per_s st / of_nat n_live) < need_rate cfg window time_left st))"
proof -
  let ?per = "st_rate_per_s st / of_nat n_live"
  let ?need = "need_rate cfg window time_left st"
  have b: "min_workers cfg \<le> want" "want \<le> max_workers cfg"
    using assms by (auto simp: wanted_def)
  have "(want < max_workers cfg \<longrightarrow> ?need \<le> of_int want * ?per) \<and>
      (min_workers cfg < want \<longrightarrow> of_int (want - 1) * ?per < ?need)"
    if m: "0 < st_rate_per_s st" "0 < n_live"
  proof -
    have per: "0 < ?per" using m by simp
    have w: "want = max (min_workers cfg) (min (max_workers cfg) \<lceil>?need / ?per\<rceil>)"
      using assms(2) m per by (simp add: wanted_def)
    have up: "?need \<le> of_int n * ?per" if "\<lceil>?need / ?per\<rceil> \<le> n" for n
    proof -
      have "?need / ?per \<le> of_int n" using that by (simp add: ceiling_le_iff)
      then show ?thesis using per pos_divide_le_eq by blast
    qed
    have low: "of_int (n - 1) * ?per < ?need" if "n \<le> \<lceil>?need / ?per\<rceil>" for n
    proof -
      have "of_int (n - 1) < ?need / ?per" using that by linarith
      then show ?thesis using per pos_less_divide_eq by blast
    qed
    show ?thesis using w up [of want] low [of want] by (auto simp: min_def max_def split: if_splits)
  qed
  with b show ?thesis by blast
qed

definition demo_config :: controller_config where
  "demo_config = \<lparr>buffer_frac = 1 / 5, worker_stale = 75, launch_per_tick = 2, max_workers = 8,
     min_workers = 1, firm_switch = True\<rparr>"

definition demo_report :: status_report where
  "demo_report = \<lparr>st_status = Running, st_n_requests = 1000, st_completed = 100, st_accepted = 90,
     st_remaining = 900, st_pending = 9, st_leased = 0, st_done = 1, st_rate_per_s = 1,
     st_eta_s = Some 900, st_deadline_ts = 700, st_seconds_to_deadline = 600, st_on_track = False,
     st_workers_live = 2\<rparr>"

lemma wanted_meets_rate_witness:
  "wanted demo_config 700 600 demo_report 2 = 4 \<and>
   need_rate demo_config 700 600 demo_report \<le> 4 * (1 / 2) \<and>
   3 * (1 / 2) < need_rate demo_config 700 600 demo_report"
proof -
  have w: "wanted demo_config 700 600 demo_report 2 = 4" by code_simp
  have r: "st_rate_per_s demo_report = 1" by (simp add: demo_report_def)
  show ?thesis
    using wanted_meets_rate [of demo_config 4 700 600 demo_report 2] w r
    by (simp add: demo_config_def)
qed

section \<open>One round\<close>

lemma store_frame [simp]:
  "live_workers jid (snd (reap a t st)) = live_workers jid st"
  by (simp add: live_workers_def)

lemma retire_fold:
  "fst (fold (\<lambda>w sp. if stale l now w then stop_machine P reason now w sp else sp) ws sp) =
   fold (\<lambda>w st. snd (kill_worker (w_id w) reason now st)) (filter (stale l now) ws) (fst sp)"
  by (induction ws arbitrary: sp) (simp_all add: stop_machine_def)

lemma retire_fst:
  "fst (retire_stale cfg P jid now sp) =
   fold (\<lambda>w st. snd (kill_worker (w_id w) No_heartbeat now st))
     (filter (stale (worker_stale cfg) now) (live_workers jid (fst sp))) (fst sp)"
  by (simp add: retire_stale_def retire_fold)

lemma retire_live:
  assumes "w \<in> set (live_workers jid (fst (retire_stale cfg P jid now sp)))"
  shows "\<not> stale (worker_stale cfg) now w" "w \<in> set (live_workers jid (fst sp))"
  using assms by (auto simp: retire_fst kills_live)

lemma register_rows:
  assumes "live = filter (\<lambda>w. w_job w = jid \<and> w_state w \<noteq> Dead)
    (upsert_by w_id overwrite_worker (launch_row wid jid' prov inst itype price now) ws)"
  shows "length live \<le> Suc (length (filter (\<lambda>w. w_job w = jid \<and> w_state w \<noteq> Dead) ws))"
    and "w \<in> set live \<Longrightarrow> w_last_seen w = Some now \<or>
      (\<exists>w' \<in> set ws. w_job w' = jid \<and> w_state w' \<noteq> Dead \<and> w_last_seen w = w_last_seen w')"
proof -
  have m: "filter (\<lambda>w. w_job w = jid \<and> w_state w \<noteq> Dead)
      (map (\<lambda>x. if p x then overwrite_worker x r else x) xs)
    = map (\<lambda>x. if p x then overwrite_worker x r else x)
        (filter (\<lambda>w. w_job w = jid \<and> w_state w \<noteq> Dead) xs)" for p r xs
    by (induction xs) (simp_all add: overwrite_worker_def)
  show "length live \<le> Suc (length (filter (\<lambda>w. w_job w = jid \<and> w_state w \<noteq> Dead) ws))"
    by (simp add: assms upsert_by_def m del: filter_map)
  show "w \<in> set live \<Longrightarrow> w_last_seen w = Some now \<or>
      (\<exists>w' \<in> set ws. w_job w' = jid \<and> w_state w' \<noteq> Dead \<and> w_last_seen w = w_last_seen w')"
    unfolding assms
    by (auto simp: upsert_by_def overwrite_worker_def launch_row_def split: if_splits)
qed

lemma register_live:
  "length (live_workers jid (register_worker wid jid' prov inst itype price now st)) \<le>
     Suc (length (live_workers jid st))"
  "w \<in> set (live_workers jid (register_worker wid jid' prov inst itype price now st)) \<Longrightarrow>
     w_last_seen w = Some now \<or> (\<exists>w' \<in> set (live_workers jid st). w_last_seen w = w_last_seen w')"
  using register_rows [OF refl, where ?jid = jid and ?wid = wid and ?jid' = jid' and ?prov = prov
    and ?inst = inst and ?itype = itype and ?price = price and ?now = now and ?ws = "workers st"]
  by (auto simp: live_workers_def register_worker_def)

lemma stale_cong: "w_last_seen w = w_last_seen w' \<Longrightarrow> stale l now w = stale l now w'"
  by (simp add: stale_def)

text \<open>What a sequence of launches does to the store and to the count.\<close>

lemma launch_some_safe:
  assumes "launch_some P jid now k (n, st, p) = (n', st', p')" and "0 \<le> l"
    and "\<forall>w \<in> set (live_workers jid st). \<not> stale l now w"
  shows "db_step\<^sup>*\<^sup>* st st' \<and> n \<le> n' \<and> n' \<le> n + k \<and>
    length (live_workers jid st') \<le> length (live_workers jid st) + k \<and>
    (\<forall>w \<in> set (live_workers jid st'). \<not> stale l now w)"
  using assms(1,3)
proof (induction k arbitrary: n st p)
  case (Suc k)
  show ?case
  proof (cases "p_launch P jid p")
    case (Pair h p1)
    show ?thesis
    proof (cases h)
      case None
      then show ?thesis using Suc.prems Pair by simp
    next
      case (Some h)
      let ?st1 = "register_worker (h_worker_id h) jid (p_name P) (h_instance_id h)
             (Some (h_instance_type h)) (h_price_hr h) now st"
      have l: "launch_some P jid now k (Suc n, ?st1, p1) = (n', st', p')"
        using Suc.prems(1) Pair Some by simp
      have fresh: "\<not> stale l now w" if "w \<in> set (live_workers jid ?st1)" for w
        using register_live(2) [OF that] Suc.prems(2) assms(2)
        by (auto simp: stale_def dest: stale_cong)
      have "length (live_workers jid ?st1) \<le> Suc (length (live_workers jid st))"
        by (rule register_live(1))
      moreover have "db_step\<^sup>*\<^sup>* st ?st1" by (rule db_ops(5))
      ultimately show ?thesis using Suc.IH [OF l] fresh by (auto intro: rtranclp_trans)
    qed
  qed
qed simp

text \<open>The three ways a round ends.\<close>

lemma tick_cases:
  assumes "tick_state (tick cfg P jid deadline window clock now (n, st, p)) = (n', st', p')"
    and "retire_stale cfg P jid now (snd (reap None clock st), p) = (st2, p2)"
  obtains (rest) "n' = n" "st' = st2"
  | (up) want k p3 where "k = nat (min (want - int (length (live_workers jid st2))) (launch_per_tick cfg))"
      "int (length (live_workers jid st2)) < want" "want \<le> max (min_workers cfg) (max_workers cfg)"
      "launch_some P jid now k (n, st2, p3) = (n', st', p')"
  | (down) k p3 where "n' = n" "(st', p') = release_some P now k (live_workers jid st2) (st2, p3)"
proof (cases "status jid clock (snd (reap None clock st))")
  case None
  then show thesis using assms by (intro rest) (simp_all add: tick_def Let_def)
next
  case (Some r)
  show thesis
  proof (cases "st_status r \<noteq> Running \<or> st_remaining r = 0")
    case True
    then show thesis using assms Some by (intro rest) (simp_all add: tick_def Let_def)
  next
    case False
    let ?n = "length (live_workers jid st2)"
    let ?want = "wanted cfg window (deadline - now) r ?n"
    let ?p3 = "endgame cfg P window (deadline - now) p2"
    have mx: "?want \<le> max (min_workers cfg) (max_workers cfg)" by (auto simp: wanted_def Let_def)
    consider "int ?n < ?want \<and> p_capacity P ?p3"
      | "\<not> (int ?n < ?want \<and> p_capacity P ?p3)" "?want < int ?n"
      | "\<not> (int ?n < ?want \<and> p_capacity P ?p3)" "\<not> ?want < int ?n" by blast
    then show thesis
    proof cases
      case 1
      then have "launch_some P jid now (nat (min (?want - int ?n) (launch_per_tick cfg))) (n, st2, ?p3)
          = (n', st', p')"
        using assms Some False by (simp add: tick_def Let_def)
      then show thesis using 1 by (intro up [OF refl _ mx]) simp_all
    next
      case 2
      then show thesis using assms Some False
        by (intro down [of "nat (int ?n - ?want)" ?p3])
          (auto simp: tick_def Let_def split: prod.splits)
    next
      case 3
      then show thesis using assms Some False
        by (intro rest) (auto simp: tick_def Let_def)
    qed
  qed
qed

text \<open>
  C29: One round of the controller only runs transactions of the store; after it no live worker of
  the job has been silent for longer than the limit, at most \<open>launch_per_tick\<close> machines were
  launched, and the fleet did not grow beyond the maximum (or beyond what it was already).
\<close>

theorem tick_safe:
  assumes "store_ok st" and "0 \<le> worker_stale cfg"
    and "tick_state (tick cfg P jid deadline window clock now (n, st, p)) = (n', st', p')"
  shows "db_step\<^sup>*\<^sup>* st st' \<and> store_ok st' \<and>
    (\<forall>w \<in> set (live_workers jid st'). \<not> stale (worker_stale cfg) now w) \<and>
    n \<le> n' \<and> int n' - int n \<le> max 0 (launch_per_tick cfg) \<and>
    int (length (live_workers jid st')) \<le>
      max (int (length (live_workers jid st))) (max (min_workers cfg) (max_workers cfg))"
proof -
  let ?st1 = "snd (reap None clock st)"
  obtain st2 p2 where r: "retire_stale cfg P jid now (?st1, p) = (st2, p2)" by fastforce
  have st2: "st2 = fold (\<lambda>w st. snd (kill_worker (w_id w) No_heartbeat now st))
     (filter (stale (worker_stale cfg) now) (live_workers jid ?st1)) ?st1"
    using retire_fst [of cfg P jid now "(?st1, p)"] r by simp
  have run2: "db_step\<^sup>*\<^sup>* st st2" unfolding st2 by (rule rtranclp_trans [OF db_ops(8) kills_runs])
  have fresh2: "\<forall>w \<in> set (live_workers jid st2). \<not> stale (worker_stale cfg) now w"
    using retire_live(1) [of _ jid cfg P now "(?st1, p)"] r by simp
  have len2: "length (live_workers jid st2) \<le> length (live_workers jid st)"
    unfolding st2 kills_live by simp
  have ok: "store_ok st'" if "db_step\<^sup>*\<^sup>* st st'" by (rule db_machine.inv_run [OF that assms(1)])
  let ?live = "live_workers jid st2"
  from assms(3) r show ?thesis
  proof (cases rule: tick_cases)
    case rest
    then show ?thesis using run2 fresh2 len2 ok by auto
  next
    case (up want k p3)
    have s: "db_step\<^sup>*\<^sup>* st2 st' \<and> n \<le> n' \<and> n' \<le> n + k \<and>
        length (live_workers jid st') \<le> length ?live + k \<and>
        (\<forall>w \<in> set (live_workers jid st'). \<not> stale (worker_stale cfg) now w)"
      by (rule launch_some_safe [OF up(4) assms(2) fresh2])
    have run: "db_step\<^sup>*\<^sup>* st st'" using run2 s by (meson rtranclp_trans)
    show ?thesis using s ok [OF run] run up(1-3) by auto
  next
    case (down k p3)
    have st': "st' = fold (\<lambda>w st. snd (kill_worker (w_id w) Scaled_down now st))
       (take k (release_order st2 ?live)) st2"
      using stop_machine_fst [of P Scaled_down now "take k (release_order st2 ?live)" "(st2, p3)"]
        down(2) by (metis fst_conv release_some_def)
    have run: "db_step\<^sup>*\<^sup>* st st'" unfolding st' by (rule rtranclp_trans [OF run2 kills_runs])
    have "length (live_workers jid st') \<le> length ?live" unfolding st' kills_live by simp
    moreover have "set (live_workers jid st') \<subseteq> set ?live" unfolding st' kills_live by auto
    ultimately show ?thesis using fresh2 len2 run ok [OF run] down(1) by auto
  qed
qed

section \<open>A demonstration fleet\<close>

definition fleet_ops :: "db_op list" where
  "fleet_ops = [Op_register ''w-1'' ''job_a'' ''local'' (Some ''101'') (Some ''local-cpu'') (4/25) 2,
     Op_register ''w-2'' ''job_a'' ''local'' (Some ''102'') (Some ''local-cpu'') (4/25) 3,
     Op_register ''w-3'' ''job_a'' ''local'' (Some ''103'') (Some ''local-cpu'') (4/25) 4,
     Op_claim ''job_a'' ''w-3'' 90 5]"

definition fleet_store :: store where
  "fleet_store = the (run_ops fleet_ops demo_store)"

lemma fleet_reachable: "honest_step\<^sup>*\<^sup>* empty_store fleet_store"
proof -
  have "run_ops fleet_ops demo_store \<noteq> None" by code_simp
  then have "run_ops fleet_ops demo_store = Some fleet_store" by (simp add: fleet_store_def)
  then show ?thesis using run_ops_honest demo_reachable by (meson rtranclp_trans)
qed

lemma fleet_ok: "store_ok fleet_store"
  using honest_machine.inv_reachable [OF refl fleet_reachable] by simp

definition demo_local :: local_provider where
  "demo_local = \<lparr>l_ctl_url = ''http://127.0.0.1:8080'', l_token = ''t'', l_engine = ''echo'',
     l_model = ''m'', l_price = (4/25, ''0.16''), l_python_path = ''/opt'',
     l_environ = Map.empty, l_procs = [], os_procs = [], l_supply = [(''ab'', 101), (''cd'', 102)]\<rparr>"

lemma release_spares_busy_workers_witness:
  "\<exists>live st' p'. live = live_workers ''job_a'' fleet_store \<and> map w_id live = [''w-1'', ''w-2'', ''w-3''] \<and>
     release_some local_ops 50 1 live (fleet_store, demo_local) = (st', p') \<and>
     length (live_workers ''job_a'' st') = 2 \<and> store_ok st'"
proof -
  let ?live = "live_workers ''job_a'' fleet_store"
  have ids: "map w_id ?live = [''w-1'', ''w-2'', ''w-3'']" by code_simp
  then have len: "length ?live = 3" by (metis length_map length_Cons list.size(3) numeral_3_eq_3)
  obtain st' p' where r: "release_some local_ops 50 1 ?live (fleet_store, demo_local) = (st', p')"
    by fastforce
  have "1 \<le> length ?live" using len by simp
  note x = release_spares_busy_workers [OF fleet_ok refl this r]
  have two: "length (live_workers ''job_a'' st') = 2" using conjunct1 [OF x] len by simp
  have ok: "store_ok st'" by (rule conjunct1 [OF conjunct2 [OF conjunct2 [OF x]]])
  show ?thesis by (rule exI [of _ ?live], rule exI [of _ st'], rule exI [of _ p'])
    (intro conjI refl ids r two ok)
qed

lemma tick_safe_witness:
  "\<exists>n' st' p'. tick_state (tick demo_config local_ops ''job_a'' 100 99 6 7 (3, fleet_store, demo_local)) =
     (n', st', p') \<and> store_ok st' \<and> 3 \<le> n' \<and> n' \<le> 5"
proof -
  obtain n' st' p' where
    t: "tick_state (tick demo_config local_ops ''job_a'' 100 99 6 7 (3, fleet_store, demo_local)) = (n', st', p')"
    by (metis prod_cases3)
  have c: "0 \<le> worker_stale demo_config" "launch_per_tick demo_config = 2" by (simp_all add: demo_config_def)
  from tick_safe [OF fleet_ok c(1) t] c(2) t show ?thesis by auto
qed

section \<open>The contract of a provider\<close>

text \<open>
  \<open>running p w\<close>: a machine of worker \<open>w\<close> runs. \<open>known p w i\<close>: the instance id \<open>i\<close> recorded for
  \<open>w\<close> leads to every machine of \<open>w\<close>. Stopping a known worker stops its machines, and stopping
  anyone starts none and loses track of nothing.
\<close>

locale machine_provider =
  fixes kill :: "string \<Rightarrow> string option \<Rightarrow> 'p \<Rightarrow> 'p"
    and running :: "'p \<Rightarrow> string \<Rightarrow> bool"
    and known :: "'p \<Rightarrow> string \<Rightarrow> string option \<Rightarrow> bool"
  assumes kill_stops: "known p w i \<Longrightarrow> \<not> running (kill w i p) w"
    and kill_starts_none: "running (kill w i p) v \<Longrightarrow> running p v"
    and kill_known: "known p v j \<Longrightarrow> known (kill w i p) v j"
begin

lemma kill_all_starts_none:
  "running (fold (\<lambda>(w, i). kill w i) ws p) v \<Longrightarrow> running p v"
  by (induction ws arbitrary: p) (auto dest: kill_starts_none)

lemma kill_all_stops:
  assumes "\<And>w i. (w, i) \<in> set ws \<Longrightarrow> known p w i" and "(w, i) \<in> set ws"
  shows "\<not> running (fold (\<lambda>(w, i). kill w i) ws p) w"
  using assms
proof (induction ws arbitrary: p)
  case (Cons x ws)
  obtain v j where x: "x = (v, j)" by fastforce
  show ?case
  proof (cases "(w, i) = x")
    case True
    then have "known p w i" using Cons.prems(1) by simp
    then have "\<not> running (kill w i p) w" by (rule kill_stops)
    then show ?thesis using True kill_all_starts_none by (auto simp: x)
  next
    case False
    then show ?thesis using Cons.IH [of "kill v j p"] Cons.prems x by (auto intro: kill_known)
  qed
qed simp

end

definition local_running :: "local_provider \<Rightarrow> string \<Rightarrow> bool" where
  "local_running p w \<longleftrightarrow> (\<exists>q \<in> set (os_procs p). runs_as w q)"

text \<open>Each process of \<open>w\<close> has the recorded process id, or the one this object started.\<close>

definition local_known :: "local_provider \<Rightarrow> string \<Rightarrow> string option \<Rightarrow> bool" where
  "local_known p w i \<longleftrightarrow> (\<exists>pid. i = Some (nat_text pid) \<and>
     (\<forall>q \<in> set (os_procs p). runs_as w q \<longrightarrow> fst q = pid))"

lemma pid_of_nat_text [simp]: "pid_of (nat_text n) = Some n"
  using nat_text_digits [of _ n] by (simp add: pid_of_def nat_text_roundtrip)

lemma local_kill_procs:
  "set (os_procs (local_kill w i p)) \<subseteq> set (os_procs p)"
  by (auto simp: local_kill_def sigkill_def Let_def split: option.splits if_splits)

interpretation local_machines: machine_provider local_kill local_running local_known
proof unfold_locales
  show "\<not> local_running (local_kill w i p) w" if k: "local_known p w i" for p w i
  proof -
    obtain pid where i: "i = Some (nat_text pid)" and
      all: "\<And>q. q \<in> set (os_procs p) \<Longrightarrow> runs_as w q \<Longrightarrow> fst q = pid"
      using k by (auto simp: local_known_def)
    have "fst q \<noteq> pid" if q: "q \<in> set (os_procs (local_kill w i p))" "runs_as w q" for q
      using q all i
      by (fastforce simp: local_kill_def sigkill_def Let_def still_running_def
          split: option.splits if_splits)
    moreover have "fst q = pid" if "q \<in> set (os_procs (local_kill w i p))" "runs_as w q" for q
      using all [OF subsetD [OF local_kill_procs that(1)] that(2)] .
    ultimately show ?thesis unfolding local_running_def by blast
  qed
  show "local_running (local_kill w i p) v \<Longrightarrow> local_running p v" for w i p v
    using local_kill_procs [of w i p] by (auto simp: local_running_def)
  show "local_known p v j \<Longrightarrow> local_known (local_kill w i p) v j" for p v j w i
    using local_kill_procs [of w i p] by (auto simp: local_known_def)
qed


section \<open>The whole run\<close>

lemma stop_machine_snd:
  "snd (fold (stop_machine P reason now) ws sp) =
   fold (\<lambda>(w, i). p_kill P w i) (map (\<lambda>w. (w_id w, w_instance_id w)) ws) (snd sp)"
  by (induction ws arbitrary: sp) (simp_all add: stop_machine_def)

lemma shutdown_fst:
  "fst (shutdown P jid now sp) =
   fold (\<lambda>w st. snd (kill_worker (w_id w) Job_complete now st)) (live_workers jid (fst sp)) (fst sp)"
  by (simp add: shutdown_def stop_machine_fst)

lemma shutdown_snd:
  "snd (shutdown P jid now sp) = fold (\<lambda>(w, i). p_kill P w i)
     (map (\<lambda>w. (w_id w, w_instance_id w)) (live_workers jid (fst sp))) (snd sp)"
  by (simp add: shutdown_def stop_machine_snd)



section \<open>Where the contract is broken\<close>

lemma find_upsert:
  "find (\<lambda>w. w_id w = w_id r) (upsert_by w_id overwrite_worker r ws) =
   Some (case find (\<lambda>w. w_id w = w_id r) ws of None \<Rightarrow> r | Some w \<Rightarrow> overwrite_worker w r)"
proof (induction ws)
  case Nil
  then show ?case by (simp add: upsert_by_def)
next
  case (Cons w ws)
  have "find (\<lambda>w. w_id w = w_id r) (map (\<lambda>x. if w_id x = w_id r then overwrite_worker x r else x) xs)
      = map_option (\<lambda>w. overwrite_worker w r) (find (\<lambda>w. w_id w = w_id r) xs)" for xs
    by (induction xs) (simp_all add: overwrite_worker_def)
  with Cons show ?case
    by (auto simp: upsert_by_def overwrite_worker_def split: option.splits if_splits)
qed

text \<open>
  The registration an agent sends when it starts erases what the controller recorded about its
  machine: no provider sets \<open>FB_INSTANCE_ID\<close>, so the row of the worker loses its instance id, and
  stopping the worker afterwards does not delete the rented instance.
\<close>

theorem registration_loses_instance:
  assumes "e ''FB_WORKER_ID'' = Some wid" and "wid \<noteq> []" and "e ''FB_INSTANCE_ID'' = None"
  shows "\<exists>w. get_worker wid (agent_register to_float host e jid now st) = Some w \<and>
    w_instance_id w = None \<and> verda_kill cl wid (w_instance_id w) p = p"
proof -
  have "w_instance_id (overwrite_worker w (launch_row wid jid prov None itype price now)) = None" for w prov itype price
    by (simp add: overwrite_worker_def launch_row_def)
  then show ?thesis
    using assms find_upsert [of "launch_row wid jid (env_or e ''FB_PROVIDER'' ''unknown'') None
        (Some (env_or e ''FB_INSTANCE_TYPE'' ''unknown'')) (to_float (env_or e ''FB_PRICE_HR'' ''0'')) now"
        "workers st"]
    by (simp add: agent_register_def w_register_def register_worker_def get_worker_def
        launch_row_def verda_kill_def split: option.splits)
qed

lemma registration_loses_instance_witness:
  "map w_instance_id (workers fleet_store) = [Some ''101'', Some ''102'', Some ''103''] \<and>
   (\<exists>w. get_worker ''w-1'' (agent_register (\<lambda>s. 0) ''h'' (local_env demo_local ''job_a'' ''w-1'')
       ''job_a'' 6 fleet_store) = Some w \<and> w_instance_id w = None)"
proof -
  have e: "local_env demo_local ''job_a'' ''w-1'' ''FB_WORKER_ID'' = Some ''w-1''"
    "local_env demo_local ''job_a'' ''w-1'' ''FB_INSTANCE_ID'' = None" by code_simp+
  have "map w_instance_id (workers fleet_store) = [Some ''101'', Some ''102'', Some ''103'']"
    by code_simp
  with registration_loses_instance [OF e(1) _ e(2)] show ?thesis by blast
qed

text \<open>
  Stopping a local worker that already exited signals whatever process has its process id now:
  when the host gave the id to another program, that program is killed.
\<close>

theorem exited_worker_kills_stranger:
  assumes "os_procs p = q # rest" and "\<not> runs_as w q" and "\<forall>q' \<in> set rest. \<not> runs_as w q'"
  shows "q \<notin> set (os_procs (local_kill w (Some (nat_text (fst q))) p))"
proof -
  have "\<not> still_running w pid p" for pid using assms by (auto simp: still_running_def)
  then show ?thesis
    by (auto simp: local_kill_def sigkill_def Let_def split: option.splits)
qed

lemma exited_worker_kills_stranger_witness:
  "os_procs (local_kill ''w-1'' (Some (nat_text 7)) (demo_local\<lparr>os_procs := [(7, Map.empty)]\<rparr>)) = []"
proof -
  let ?p = "demo_local\<lparr>os_procs := [(7, Map.empty)]\<rparr>"
  have "(7, Map.empty) \<notin> set (os_procs (local_kill ''w-1'' (Some (nat_text 7)) ?p))"
    using exited_worker_kills_stranger [of ?p "(7, Map.empty)" "[]" "''w-1''"]
    by (simp add: runs_as_def)
  then show ?thesis
    using local_kill_procs [of "''w-1''" "Some (nat_text 7)" "demo_local\<lparr>os_procs := [(7, Map.empty)]\<rparr>"]
    by (cases "os_procs (local_kill ''w-1'' (Some (nat_text 7)) (demo_local\<lparr>os_procs := [(7, Map.empty)]\<rparr>))") auto
qed

end
