(* ===== verification/Operator_Cli.thy ===== *)
theory Operator_Cli
  imports Deadline_Controller
begin

text \<open>
  The operator commands of \<open>fb.py\<close> that decide something: the deadline argument, the choice of the
  job, \<open>submit\<close> and \<open>chaos\<close>. The JSON parser, \<open>float\<close> and \<open>random.sample\<close> are arguments. The
  printing commands (\<open>watch\<close>, \<open>report\<close>, \<open>probe\<close>) only format what the store reports.
\<close>

section \<open>Arguments\<close>

datatype cli_error = System_exit string | Raised py_error

fun unit_seconds :: "char \<Rightarrow> nat option" where
  "unit_seconds c = (if c = CHR ''s'' then Some 1 else if c = CHR ''m'' then Some 60
     else if c = CHR ''h'' then Some 3600 else None)"

text \<open>The full match of \<open>\+(\d+)([smh])\<close>, as the seconds it stands for.\<close>

definition relative_deadline :: "string \<Rightarrow> nat option" where
  "relative_deadline s =
     (case s of [] \<Rightarrow> None
      | c # t \<Rightarrow>
          if c = CHR ''+'' \<and> 2 \<le> length t \<and> (\<forall>d \<in> set (butlast t). is_digit d) then
            map_option (\<lambda>k. digits_value (butlast t) * k) (unit_seconds (last t))
          else None)"

definition parse_deadline ::
  "(string \<Rightarrow> rat option) \<Rightarrow> rat \<Rightarrow> string \<Rightarrow> cli_error + rat" where
  "parse_deadline to_float now s =
     (case relative_deadline (strip_by py_space s) of
        Some k \<Rightarrow> Inr (now + of_nat k)
      | None \<Rightarrow> (case to_float s of None \<Rightarrow> Inl (Raised Value_Error) | Some t \<Rightarrow> Inr t))"

definition resolve :: "string option \<Rightarrow> store \<Rightarrow> cli_error + string" where
  "resolve job st =
     (case (if job = None \<or> job = Some [] then latest_job st else job) of
        None \<Rightarrow> Inl (System_exit ''no jobs yet'')
      | Some j \<Rightarrow> if j = [] then Inl (System_exit ''no jobs yet'') else Inr j)"

section \<open>Submitting\<close>

text \<open>\<open>f"r{i:06d}"\<close>.\<close>

definition default_id :: "nat \<Rightarrow> string" where
  "default_id i = CHR ''r'' # replicate (6 - length (nat_text i)) (CHR ''0'') @ nat_text i"

fun set_default :: "string \<Rightarrow> json \<Rightarrow> json \<Rightarrow> py_error + json" where
  "set_default k v (JObj kvs) =
     Inr (JObj (if map_of kvs k = None then kvs @ [(k, v)] else kvs))"
| "set_default k v _ = Inl Attribute_Error"

definition name_requests :: "json list \<Rightarrow> py_error + json list" where
  "name_requests reqs =
     seq_map (\<lambda>(i, r). set_default ''request_id'' (JStr (default_id i)) r)
       (zip [0..<length reqs] reqs)"

text \<open>The decoded lines of the file that are not blank, and the decoded \<open>--accept\<close> argument.\<close>

definition cmd_submit ::
  "(string \<Rightarrow> rat option) \<Rightarrow> rat \<Rightarrow> string \<Rightarrow> (nat \<Rightarrow> string) \<Rightarrow> string \<Rightarrow> string \<Rightarrow> string \<Rightarrow> int
     \<Rightarrow> json list \<Rightarrow> json option \<Rightarrow> store \<Rightarrow> cli_error + (nat \<times> int) \<times> store" where
  "cmd_submit to_float now jid ids name model deadline ssize reqs accept st =
     (case name_requests reqs of Inl e \<Rightarrow> Inl (Raised e)
      | Inr rs \<Rightarrow>
         (case parse_deadline to_float now deadline of Inl e \<Rightarrow> Inl e
          | Inr t \<Rightarrow>
             (case create_job jid ids name model t ssize rs
                (case accept of None \<Rightarrow> JObj [(''type'', JStr ''nonempty'')] | Some a \<Rightarrow> a) now st of
                Inl e \<Rightarrow> Inl (Raised e)
              | Inr st' \<Rightarrow> Inr ((length rs, - (- int (length rs) div ssize)), st'))))"

section \<open>Chaos\<close>

text \<open>
  \<open>cmd_chaos\<close> stops the machines of some live workers and leaves the store alone. The local
  provider it makes is a new object: it started no process itself.
\<close>

definition chaos_local :: "local_provider \<Rightarrow> local_provider" where
  "chaos_local host = host\<lparr>l_ctl_url := [], l_token := [], l_engine := ''echo'',
     l_model := ''echo-model'', l_procs := []\<rparr>"

definition chaos_kill :: "worker \<Rightarrow> local_provider \<Rightarrow> local_provider" where
  "chaos_kill w host =
     (if w_provider w = ''local'' then local_kill (w_id w) (w_instance_id w) (chaos_local host)
      else host)"

definition cmd_chaos ::
  "(nat \<Rightarrow> worker list \<Rightarrow> worker list) \<Rightarrow> int \<Rightarrow> string \<Rightarrow> store \<Rightarrow> local_provider
     \<Rightarrow> cli_error + local_provider" where
  "cmd_chaos sample n jid st host =
     (let live = live_workers jid st
      in if live = [] then Inr host
         else if n < 0 then Inl (Raised Value_Error)
         else Inr (fold chaos_kill (sample (nat (min n (int (length live)))) live) host))"


section \<open>Properties\<close>

lemma ceiling_shards:
  assumes "0 < k" shows "- (- int n div int k) = int ((n + k - 1) div k)"
proof -
  define q r where "q = (n + k - 1) div k" and "r = (n + k - 1) mod k"
  have q: "n + k - 1 = k * q + r" "r < k" using assms by (simp_all add: q_def r_def)
  then have "int n + int k - 1 = int k * int q + int r"
    using assms by (metis One_nat_def Suc_leI int_ops(2) int_ops(6) of_nat_add of_nat_diff of_nat_mult
        trans_le_add2)
  then have "- int n = int k * (- int q) + (int k - 1 - int r)" by (simp add: algebra_simps)
  moreover have "0 \<le> int k - 1 - int r" "int k - 1 - int r < int k" using q(2) by linarith+
  ultimately have "- int n div int k = - int q" by (rule int_div_pos_eq)
  then show ?thesis by (simp add: q_def)
qed

text \<open>
  Submitting a file with a positive shard size prints the number of requests of the file and
  exactly the number of shards it created, and names every request.
\<close>

theorem submit_reports_shards:
  assumes "store_ok st" and "0 < ssize"
    and "cmd_submit to_float now jid ids name model deadline ssize reqs accept st = Inr ((n, k), st')"
  shows "n = length reqs \<and> k = int (length (filter (\<lambda>s. s_job s = jid) (shards st'))) \<and>
    length (filter (\<lambda>r. r_job r = jid) (requests st')) = n \<and> store_ok st'"
proof -
  obtain rs t acc where rs: "name_requests reqs = Inr rs"
    and cj: "create_job jid ids name model t ssize rs acc now st = Inr st'"
    and k: "n = length rs" "k = - (- int (length rs) div ssize)"
    using assms(3) by (auto simp: cmd_submit_def split: sum.splits)
  have n: "n = length reqs" using seq_map_length [OF rs [unfolded name_requests_def]] k(1) by simp
  obtain cs rss where c: "job_chunks ssize rs = Inr cs"
    "chunk_rows jid ids 0 cs rss" "jid \<notin> j_id ` set (jobs st)"
    "jobs st' = jobs st @ [\<lparr>j_id = jid, j_name = name, j_model = model,
        j_deadline_ts = t, j_created_ts = now, j_status = Running, j_shard_size = ssize,
        j_n_requests = length rs, j_accept = acc\<rparr>]"
    "requests st' = requests st @ concat rss"
    "shards st' = shards st @ map (\<lambda>k. new_shard (ids k) jid k) [0..<length cs]"
    using cj by (rule create_job_Inr) blast
  have ref: "s_job s \<noteq> jid" if "s \<in> set (shards st)" for s
    using assms(1) c(3) that by (auto simp: store_ok_def refs_ok_def)
  then have "filter (\<lambda>s. s_job s = jid) (shards st) = []" by (auto simp: filter_empty_conv)
  moreover have "filter (\<lambda>s. s_job s = jid) (map (\<lambda>k. new_shard (ids k) jid k) xs)
      = map (\<lambda>k. new_shard (ids k) jid k) xs" for xs
    by (induction xs) (simp_all add: new_shard_def)
  ultimately have 1: "length (filter (\<lambda>s. s_job s = jid) (shards st')) = length cs"
    by (simp add: c(6) del: filter_map)
  have "length cs = (length rs + nat ssize - 1) div nat ssize"
    using c(1) assms(2) length_chunks [of "nat ssize" rs] by (auto simp: job_chunks_def split: if_splits)
  then have 2: "k = int (length cs)"
    using ceiling_shards [of "nat ssize" "length rs"] assms(2) k(2) by simp
  have ok: "store_ok st'" by (rule create_store_ok [OF assms(1) cj])
  have "r_job r \<noteq> jid" if "r \<in> set (requests st)" for r
  proof -
    have "(r_shard r, r_job r) \<in> shard_ref ` set (shards st)"
      using assms(1) that by (auto simp: store_ok_def refs_ok_def)
    then obtain s where "s \<in> set (shards st)" "s_job s = r_job r" by (auto simp: shard_ref_def)
    then show ?thesis using ref by metis
  qed
  then have "filter (\<lambda>r. r_job r = jid) (requests st) = []" by (auto simp: filter_empty_conv)
  moreover have "filter (\<lambda>r. r_job r = jid) (concat rss) = concat rss"
    using chunk_rows_row [OF c(2)] by (intro filter_True) blast
  ultimately have "length (filter (\<lambda>r. r_job r = jid) (requests st')) = length rs"
    using chunk_rows_length [OF c(2)] job_chunks_concat [OF c(1) assms(2)]
    by (simp add: c(5) del: filter_concat)
  with 1 2 n k(1) ok show ?thesis by simp
qed

lemma submit_reports_shards_witness:
  "\<exists>k st'. cmd_submit (\<lambda>s. None) 5 ''job_b'' (\<lambda>i. ''b'' @ nat_text i) ''n'' ''m'' ''+5m'' 2
      [JObj [], JObj [(''request_id'', JStr ''x'')], JObj [(''request_id'', JStr ''y'')]] None empty_store = Inr ((3, k), st') \<and>
    k = 2 \<and> k = int (length (filter (\<lambda>s. s_job s = ''job_b'') (shards st')))"
proof -
  let ?r = "cmd_submit (\<lambda>s. None) 5 ''job_b'' (\<lambda>i. ''b'' @ nat_text i) ''n'' ''m'' ''+5m'' 2
      [JObj [], JObj [(''request_id'', JStr ''x'')], JObj [(''request_id'', JStr ''y'')]] None empty_store"
  have "\<not> isl ?r \<and> fst (projr ?r) = (3, 2)" by code_simp
  then obtain st' where r: "?r = Inr ((3, 2), st')" by (cases ?r) auto
  from submit_reports_shards [OF empty_store_ok _ r] r show ?thesis by auto
qed

text \<open>
  The chaos command does not touch a local worker that has registered itself: its row has lost
  the instance id, and the fresh provider object started no process, so nothing is signalled.
\<close>

theorem chaos_spares_registered:
  assumes "\<forall>w \<in> set (live_workers jid st). w_instance_id w = None"
    and "\<And>k ws. set (sample k ws) \<subseteq> set ws"
    and "cmd_chaos sample n jid st host = Inr host'"
  shows "os_procs host' = os_procs host"
proof -
  have "os_procs (fold chaos_kill ws host) = os_procs host"
    if "\<forall>w \<in> set ws. w_instance_id w = None" for ws host
    using that
    by (induction ws arbitrary: host) (simp_all add: chaos_kill_def chaos_local_def local_kill_def)
  then show ?thesis using assms
    unfolding cmd_chaos_def Let_def by (metis (no_types, lifting) subsetD sum.distinct(1) sum.inject(2))
qed

lemma chaos_spares_registered_witness:
  "\<exists>host'. cmd_chaos take 2 ''job_a''
      (register_worker ''w-1'' ''job_a'' ''local'' None (Some ''local-cpu'') 0 2 demo_store)
      (demo_local\<lparr>os_procs := [(101, local_env demo_local ''job_a'' ''w-1'')]\<rparr>) = Inr host' \<and>
    length (os_procs host') = 1"
proof -
  let ?st = "register_worker ''w-1'' ''job_a'' ''local'' None (Some ''local-cpu'') 0 2 demo_store"
  let ?h = "demo_local\<lparr>os_procs := [(101, local_env demo_local ''job_a'' ''w-1'')]\<rparr>"
  have ids: "map w_instance_id (live_workers ''job_a'' ?st) = [None]" by code_simp
  then have none: "\<forall>w \<in> set (live_workers ''job_a'' ?st). w_instance_id w = None"
    by (cases "live_workers ''job_a'' ?st") auto
  obtain host' where r: "cmd_chaos take 2 ''job_a'' ?st ?h = Inr host'"
    by (cases "live_workers ''job_a'' ?st = []") (simp_all add: cmd_chaos_def Let_def)
  have "os_procs host' = os_procs ?h"
    by (rule chaos_spares_registered [OF none _ r]) (rule set_take_subset)
  with r show ?thesis by simp
qed

end
