(* ===== verification/Secret_Shapes.thy ===== *)
theory Secret_Shapes
  imports Fb_Prelude
begin

text \<open>
  \<open>control_plane/security/secrets.py\<close>: the formats of the secrets the control plane mints, the
  shape test \<open>looks_like_secret\<close> that every boundary runs before it looks at a value, with its two
  folds and its seven patterns, and the printable references to secrets kept elsewhere. The
  resolvers and encryptors behind the references are backends and are not modelled.
\<close>

section \<open>Text and patterns\<close>

text \<open>Python text as a list of code points; \<open>cps\<close> reads an ASCII literal.\<close>

type_synonym utext = "int list"

definition cps :: "string \<Rightarrow> utext" where
  "cps s = map of_char s"

text \<open>
  The regular expressions of the module, all of whose repetitions are of a character class.
  \<open>rx_ends r s\<close> lists what is left of \<open>s\<close> after each way \<open>r\<close> matches a prefix of it.
\<close>

datatype rx =
    Cls "int \<Rightarrow> bool"
  | Many "int \<Rightarrow> bool"
  | Times nat "int \<Rightarrow> bool"
  | UpTo nat "int \<Rightarrow> bool"
  | Lit utext
  | Opt rx
  | Seq rx rx
  | Alt rx rx
  | Not_next "int \<Rightarrow> bool"

fun many_ends :: "(int \<Rightarrow> bool) \<Rightarrow> utext \<Rightarrow> utext list" where
  "many_ends p [] = [[]]"
| "many_ends p (c # s) = (c # s) # (if p c then many_ends p s else [])"

fun upto_ends :: "nat \<Rightarrow> (int \<Rightarrow> bool) \<Rightarrow> utext \<Rightarrow> utext list" where
  "upto_ends 0 p s = [s]"
| "upto_ends (Suc n) p [] = [[]]"
| "upto_ends (Suc n) p (c # s) = (c # s) # (if p c then upto_ends n p s else [])"

primrec rx_ends :: "rx \<Rightarrow> utext \<Rightarrow> utext list" where
  "rx_ends (Cls p) s = (case s of [] \<Rightarrow> [] | c # t \<Rightarrow> if p c then [t] else [])"
| "rx_ends (Many p) s = many_ends p s"
| "rx_ends (Times n p) s =
     (if n \<le> length s \<and> list_all p (take n s) then [drop n s] else [])"
| "rx_ends (UpTo n p) s = upto_ends n p s"
| "rx_ends (Lit t) s = (if take (length t) s = t then [drop (length t) s] else [])"
| "rx_ends (Opt r) s = s # rx_ends r s"
| "rx_ends (Seq r q) s = concat (map (rx_ends q) (rx_ends r s))"
| "rx_ends (Alt r q) s = rx_ends r s @ rx_ends q s"
| "rx_ends (Not_next p) s = (case s of [] \<Rightarrow> [s] | c # t \<Rightarrow> if p c then [] else [s])"

definition full_match :: "rx \<Rightarrow> utext \<Rightarrow> bool" where
  "full_match r s \<longleftrightarrow> [] \<in> set (rx_ends r s)"

definition between_cps :: "int \<Rightarrow> int \<Rightarrow> int \<Rightarrow> bool" where
  "between_cps a b c \<longleftrightarrow> a \<le> c \<and> c \<le> b"

definition lower_alpha :: "int \<Rightarrow> bool" where "lower_alpha = between_cps 97 122"
definition upper_alpha :: "int \<Rightarrow> bool" where "upper_alpha = between_cps 65 90"
definition ascii_digit :: "int \<Rightarrow> bool" where "ascii_digit = between_cps 48 57"

definition word_char :: "int \<Rightarrow> bool" where
  "word_char c \<longleftrightarrow> ascii_digit c \<or> lower_alpha c \<or> c = 95"

section \<open>Well-formed credentials\<close>

text \<open>\<open>[A-Za-z0-9_-]\<close>.\<close>

definition url_safe :: "int \<Rightarrow> bool" where
  "url_safe c \<longleftrightarrow> upper_alpha c \<or> lower_alpha c \<or> ascii_digit c \<or> c = 95 \<or> c = 45"

definition bearer_credential_regex :: rx where
  "bearer_credential_regex = Seq (Lit (cps ''fbk_'')) (Times 43 url_safe)"

definition is_well_formed_credential :: "utext \<Rightarrow> bool" where
  "is_well_formed_credential v \<longleftrightarrow> full_match bearer_credential_regex v"

datatype identity_kind = Session | Csrf | Email_verification | Account_recovery | Invitation

fun identity_secret_prefix :: "identity_kind \<Rightarrow> string" where
  "identity_secret_prefix Session = ''fbs_''"
| "identity_secret_prefix Csrf = ''fbc_''"
| "identity_secret_prefix Email_verification = ''fbv_''"
| "identity_secret_prefix Account_recovery = ''fbr_''"
| "identity_secret_prefix Invitation = ''fbi_''"

definition is_well_formed_identity_secret :: "utext \<Rightarrow> identity_kind \<Rightarrow> bool" where
  "is_well_formed_identity_secret v k \<longleftrightarrow>
     full_match (Seq (Lit (cps (identity_secret_prefix k))) (Times 43 url_safe)) v"

section \<open>Normalisation\<close>

definition whitespace_code_points :: "int list" where
  "whitespace_code_points = [0x09, 0x0A, 0x0B, 0x0C, 0x0D, 0x1C, 0x1D, 0x1E, 0x1F, 0x20, 0x85, 0xA0,
     0x1680, 0x2000, 0x2001, 0x2002, 0x2003, 0x2004, 0x2005, 0x2006, 0x2007, 0x2008, 0x2009, 0x200A,
     0x2028, 0x2029, 0x202F, 0x205F, 0x3000]"

definition fold_space :: "int \<Rightarrow> int" where
  "fold_space c = (if c \<in> set whitespace_code_points then 32 else c)"

definition fold_case :: "int \<Rightarrow> int" where
  "fold_case c = (if upper_alpha c then c + 32 else c)"

definition normalize_whitespace :: "utext \<Rightarrow> utext" where
  "normalize_whitespace v = map fold_space v"

definition fold_ascii_case :: "utext \<Rightarrow> utext" where
  "fold_ascii_case v = map fold_case v"

definition normalize_for_shape_scan :: "utext \<Rightarrow> utext" where
  "normalize_for_shape_scan v = fold_ascii_case (normalize_whitespace v)"

section \<open>The shapes\<close>

record shape =
  shape_name :: string
  at_start :: bool
  after_boundary :: bool
  shape_rx :: rx

definition lit :: "string \<Rightarrow> rx" where "lit s = Lit (cps s)"

definition seqs :: "rx list \<Rightarrow> rx" where
  "seqs rs = fold (\<lambda>r acc. Seq acc r) (tl rs) (hd rs)"

definition spaces :: rx where "spaces = Many (\<lambda>c. c = 32)"
definition non_space :: rx where "non_space = Cls (\<lambda>c. c \<noteq> 32)"

text \<open>\<open>[a-z0-9_-]\<close> of the scanned text.\<close>

definition scanned_safe :: "int \<Rightarrow> bool" where
  "scanned_safe c \<longleftrightarrow> lower_alpha c \<or> ascii_digit c \<or> c = 95 \<or> c = 45"

definition many1 :: "(int \<Rightarrow> bool) \<Rightarrow> rx" where "many1 p = Seq (Cls p) (Many p)"

definition secret_shape_patterns :: "shape list" where
  "secret_shape_patterns =
   [\<lparr>shape_name = ''a Firmbatch bearer credential'', at_start = False, after_boundary = False,
     shape_rx = Seq (lit ''fbk_'') (Times 43 scanned_safe)\<rparr>,
    \<lparr>shape_name = ''a PEM-encoded key block'', at_start = False, after_boundary = False,
     shape_rx = seqs [lit ''-----begin '', Many (\<lambda>c. lower_alpha c \<or> c = 32),
       lit ''private key-----'']\<rparr>,
    \<lparr>shape_name = ''an HTTP authorization header value'', at_start = True, after_boundary = False,
     shape_rx = seqs [spaces, Alt (lit ''bearer'') (lit ''basic''), many1 (\<lambda>c. c = 32), non_space]\<rparr>,
    \<lparr>shape_name = ''a database URL carrying a password'', at_start = True, after_boundary = False,
     shape_rx = seqs [Cls lower_alpha,
       Many (\<lambda>c. lower_alpha c \<or> ascii_digit c \<or> c = 43 \<or> c = 46 \<or> c = 45), lit ''://'',
       many1 (\<lambda>c. c \<noteq> 47 \<and> c \<noteq> 32 \<and> c \<noteq> 58 \<and> c \<noteq> 64), lit '':'',
       many1 (\<lambda>c. c \<noteq> 47 \<and> c \<noteq> 32 \<and> c \<noteq> 64), lit ''@'']\<rparr>,
    \<lparr>shape_name = ''an AWS access key id'', at_start = False, after_boundary = True,
     shape_rx = seqs [Alt (lit ''akia'') (lit ''asia''),
       Times 16 (\<lambda>c. ascii_digit c \<or> lower_alpha c), Not_next word_char]\<rparr>,
    \<lparr>shape_name = ''a private key or token assignment'', at_start = False, after_boundary = True,
     shape_rx = seqs [Alt (Alt (lit ''secret'') (lit ''password'')) (Alt (lit ''token'')
         (seqs [lit ''api'', Opt (Cls (\<lambda>c. c = 95 \<or> c = 45)), lit ''key''])),
       spaces, Cls (\<lambda>c. c = 61 \<or> c = 58), spaces, non_space]\<rparr>,
    \<lparr>shape_name = ''a Firmbatch session, CSRF, verification, recovery or invitation secret'',
     at_start = False, after_boundary = False,
     shape_rx = seqs [lit ''fb'', Cls (\<lambda>c. c \<in> set (cps ''cirsv'')), lit ''_'',
       Times 43 scanned_safe]\<rparr>]"

text \<open>\<open>re.search\<close>: the character before the current position decides the boundary.\<close>

fun search_from :: "shape \<Rightarrow> int option \<Rightarrow> utext \<Rightarrow> bool" where
  "search_from sh prev s =
     (((\<not> after_boundary sh \<or> (case prev of None \<Rightarrow> True | Some c \<Rightarrow> \<not> word_char c)) \<and>
        rx_ends (shape_rx sh) s \<noteq> []) \<or>
      (\<not> at_start sh \<and> (case s of [] \<Rightarrow> False | c # t \<Rightarrow> search_from sh (Some c) t)))"

declare search_from.simps [simp del]

definition looks_like_secret :: "utext \<Rightarrow> string option" where
  "looks_like_secret v =
     map_option shape_name
       (find (\<lambda>sh. search_from sh None (normalize_for_shape_scan v)) secret_shape_patterns)"

section \<open>References\<close>

datatype secret_error = Looks_like string | Not_acceptable

definition reference_char :: "int \<Rightarrow> bool" where
  "reference_char c \<longleftrightarrow> upper_alpha c \<or> lower_alpha c \<or> ascii_digit c"

definition reference_name :: rx where
  "reference_name = Seq (Cls reference_char)
     (UpTo 255 (\<lambda>c. reference_char c \<or> c = 47 \<or> c = 95 \<or> c = 46 \<or> c = 45))"

definition reference_version :: rx where
  "reference_version = Seq (Cls reference_char)
     (UpTo 127 (\<lambda>c. reference_char c \<or> c = 95 \<or> c = 46 \<or> c = 58 \<or> c = 45))"

definition require_reference_field :: "rx \<Rightarrow> utext \<Rightarrow> secret_error + utext" where
  "require_reference_field r v =
     (case looks_like_secret v of Some sh \<Rightarrow> Inl (Looks_like sh)
      | None \<Rightarrow> if full_match r v then Inr v else Inl Not_acceptable)"

datatype secret_backend = Aws_secrets_manager | In_memory

record secret_reference =
  sr_backend :: secret_backend
  sr_name :: utext
  sr_version :: "utext option"

definition make_reference ::
  "secret_backend \<Rightarrow> utext \<Rightarrow> utext option \<Rightarrow> secret_error + secret_reference" where
  "make_reference b name version =
     (case require_reference_field reference_name name of Inl e \<Rightarrow> Inl e
      | Inr n \<Rightarrow>
         (case version of None \<Rightarrow> Inr \<lparr>sr_backend = b, sr_name = n, sr_version = None\<rparr>
          | Some v \<Rightarrow>
             (case require_reference_field reference_version v of Inl e \<Rightarrow> Inl e
              | Inr v' \<Rightarrow> Inr \<lparr>sr_backend = b, sr_name = n, sr_version = Some v'\<rparr>)))"

section \<open>Facts about the matcher\<close>

lemma search_from_append:
  assumes "\<not> at_start sh" "\<not> after_boundary sh" "rx_ends (shape_rx sh) v \<noteq> []"
  shows "search_from sh prev (u @ v)"
  using assms by (induction u arbitrary: prev) (auto simp: search_from.simps)

lemma looks_found:
  assumes "sh \<in> set secret_shape_patterns" "search_from sh None (normalize_for_shape_scan v)"
  shows "looks_like_secret v \<noteq> None"
  using assms by (auto simp: looks_like_secret_def find_None_iff)

lemma Times_ends:
  "length s = n \<Longrightarrow> list_all p s \<Longrightarrow> rx_ends (Times n p) (s @ t) = [t]"
  by simp

lemma Lit_ends [simp]: "rx_ends (Lit t) (t @ s) = [s]"
  by simp

lemma many_ends_drop: "list_all p u \<Longrightarrow> v \<in> set (many_ends p (u @ v))"
proof (induction u)
  case Nil
  then show ?case by (cases v) auto
qed simp

lemma normalize_append:
  "normalize_for_shape_scan (u @ v) = normalize_for_shape_scan u @ normalize_for_shape_scan v"
  by (simp add: normalize_for_shape_scan_def normalize_whitespace_def fold_ascii_case_def)

text \<open>The character-wise normalisation.\<close>

definition normal_char :: "int \<Rightarrow> int" where
  "normal_char c = fold_case (fold_space c)"

lemma normalize_map: "normalize_for_shape_scan v = map normal_char v"
  by (simp add: normalize_for_shape_scan_def normalize_whitespace_def fold_ascii_case_def
      normal_char_def)

lemma url_safe_not_space: "url_safe c \<Longrightarrow> fold_space c = c"
  by (auto simp: url_safe_def fold_space_def whitespace_code_points_def upper_alpha_def
      lower_alpha_def ascii_digit_def between_cps_def)

lemma normal_url_safe: "url_safe c \<Longrightarrow> scanned_safe (normal_char c)"
  by (auto simp: normal_char_def url_safe_not_space fold_case_def scanned_safe_def url_safe_def
      upper_alpha_def lower_alpha_def ascii_digit_def between_cps_def)

lemma full_match_prefixed:
  "full_match (Seq (Lit p) (Times n f)) v \<longleftrightarrow>
   (\<exists>t. v = p @ t \<and> length t = n \<and> list_all f t)"
proof
  assume "full_match (Seq (Lit p) (Times n f)) v"
  then have a: "take (length p) v = p" "[] \<in> set (rx_ends (Times n f) (drop (length p) v))"
    by (auto simp: full_match_def split: if_splits)
  then have "n = length (drop (length p) v)" "list_all f (drop (length p) v)"
    by (auto split: if_splits)
  then show "\<exists>t. v = p @ t \<and> length t = n \<and> list_all f t"
    using a(1) by (metis append_take_drop_id)
next
  assume "\<exists>t. v = p @ t \<and> length t = n \<and> list_all f t"
  then obtain t where "v = p @ t" "length t = n" "list_all f t" by blast
  then show "full_match (Seq (Lit p) (Times n f)) v" by (simp add: full_match_def)
qed

section \<open>Properties\<close>

text \<open>
  Folding whitespace and folding case commute, and scanning a normalised text again changes
  nothing: the pipeline is one character map that reaches a fixed point after one pass.
\<close>

theorem normalisation_order_irrelevant:
  "normalize_for_shape_scan v = normalize_whitespace (fold_ascii_case v) \<and>
   normalize_for_shape_scan (normalize_for_shape_scan v) = normalize_for_shape_scan v"
proof -
  have c: "fold_case (fold_space x) = fold_space (fold_case x)" for x
    by (auto simp: fold_space_def fold_case_def whitespace_code_points_def upper_alpha_def
        between_cps_def)
  have i: "normal_char (normal_char x) = normal_char x" for x
  proof -
    have f: "fold_space (fold_space y) = fold_space y" "fold_case (fold_case y) = fold_case y" for y
      by (simp_all add: fold_space_def whitespace_code_points_def fold_case_def upper_alpha_def
          between_cps_def)
    show ?thesis unfolding normal_char_def by (simp only: c f)
  qed
  show ?thesis
    by (simp add: normalize_map i normalize_whitespace_def fold_ascii_case_def)
      (simp add: normal_char_def c)
qed


lemma normal_tail:
  assumes "length t = 43" "list_all url_safe t"
  shows "rx_ends (Times 43 scanned_safe) (map normal_char t @ r) = [r]"
  using assms by (intro Times_ends) (auto simp: list_all_iff normal_url_safe)

text \<open>The three patterns the properties below point at.\<close>

lemma normal_mem:
  assumes "length t = 43" "list_all url_safe t"
  shows "r \<in> set (rx_ends (Times 43 scanned_safe) (map normal_char t @ r))"
  unfolding normal_tail [OF assms] by simp

lemma shape_0: "secret_shape_patterns ! 0 \<in> set secret_shape_patterns"
  "\<not> at_start (secret_shape_patterns ! 0)" "\<not> after_boundary (secret_shape_patterns ! 0)"
  "shape_rx (secret_shape_patterns ! 0) = Seq (Lit (cps ''fbk_'')) (Times 43 scanned_safe)"
  by (simp_all add: secret_shape_patterns_def lit_def)

lemma shape_6: "secret_shape_patterns ! 6 \<in> set secret_shape_patterns"
  "\<not> at_start (secret_shape_patterns ! 6)" "\<not> after_boundary (secret_shape_patterns ! 6)"
  "shape_rx (secret_shape_patterns ! 6) = Seq (Seq (Seq (Lit (cps ''fb''))
     (Cls (\<lambda>c. c \<in> set (cps ''cirsv'')))) (Lit (cps ''_''))) (Times 43 scanned_safe)"
  by (simp_all add: secret_shape_patterns_def lit_def seqs_def)

lemma shape_2: "secret_shape_patterns ! 2 \<in> set secret_shape_patterns"
  "at_start (secret_shape_patterns ! 2)" "\<not> after_boundary (secret_shape_patterns ! 2)"
  "shape_rx (secret_shape_patterns ! 2) = Seq (Seq (Seq spaces (Alt (lit ''bearer'') (lit ''basic'')))
      (many1 (\<lambda>c. c = 32))) non_space"
  by (simp_all add: secret_shape_patterns_def seqs_def)

lemma prefixed_recognised:
  assumes "sh \<in> set secret_shape_patterns" "\<not> at_start sh" "\<not> after_boundary sh"
    and "\<And>r. rx_ends (shape_rx sh) (normalize_for_shape_scan (p @ t) @ r) \<noteq> []"
  shows "looks_like_secret (u @ (p @ t) @ w) \<noteq> None"
proof (rule looks_found [OF assms(1)])
  show "search_from sh None (normalize_for_shape_scan (u @ (p @ t) @ w))"
    unfolding normalize_append [of u] normalize_append [of "p @ t"]
    by (rule search_from_append [OF assms(2,3,4)])
qed

lemma Lit_mem: "s \<in> set (rx_ends (Lit t) (t @ s))"
  unfolding Lit_ends by simp

lemma Cls_mem: "p c \<Longrightarrow> s \<in> set (rx_ends (Cls p) (c # s))"
  by simp

lemma mem_not_Nil: "x \<in> set xs \<Longrightarrow> xs \<noteq> []"
  by auto

lemma mem_seq: "t \<in> set (rx_ends r s) \<Longrightarrow> w \<in> set (rx_ends q t) \<Longrightarrow> w \<in> set (rx_ends (Seq r q) s)"
  by auto

text \<open>
  C30: Wherever a well-formed bearer credential stands in a text, and whatever surrounds it, the
  shape test reports a secret.
\<close>

theorem embedded_credential_recognised:
  assumes "is_well_formed_credential c"
  shows "looks_like_secret (u @ c @ w) \<noteq> None"
proof -
  obtain t where t: "c = cps ''fbk_'' @ t" "length t = 43" "list_all url_safe t"
    using assms unfolding is_well_formed_credential_def bearer_credential_regex_def
      full_match_prefixed by blast
  have "normalize_for_shape_scan (cps ''fbk_'') = cps ''fbk_''" by code_simp
  then have n: "normalize_for_shape_scan (cps ''fbk_'' @ t) = cps ''fbk_'' @ map normal_char t"
    unfolding normalize_append by (simp add: normalize_map)
  show ?thesis unfolding t(1)
  proof (rule prefixed_recognised [OF shape_0(1-3)])
    fix r
    show "rx_ends (shape_rx (secret_shape_patterns ! 0))
        (normalize_for_shape_scan (cps ''fbk_'' @ t) @ r) \<noteq> []"
      unfolding shape_0(4) n append_assoc by (rule mem_not_Nil [OF mem_seq [OF Lit_mem normal_mem [OF t(2,3)]]])
  qed
qed

definition demo_credential :: utext where
  "demo_credential = cps (''fbk_'' @ replicate 43 (CHR ''A''))"

lemma embedded_credential_recognised_witness:
  "is_well_formed_credential demo_credential \<and>
   looks_like_secret (cps ''see '' @ demo_credential @ cps ''!'') \<noteq> None"
proof -
  have "is_well_formed_credential demo_credential" by code_simp
  with embedded_credential_recognised [OF this] show ?thesis by blast
qed

text \<open>
  The five identity secrets and the bearer credential are pairwise distinct formats: no text
  is well formed as two kinds, or as an identity secret and a bearer credential. Each identity
  secret is recognised wherever it stands, like the credential.
\<close>

theorem identity_secrets_distinct:
  assumes "is_well_formed_identity_secret v k"
  shows "\<not> is_well_formed_credential v \<and>
    (is_well_formed_identity_secret v k' \<longrightarrow> k' = k) \<and> looks_like_secret (u @ v @ w) \<noteq> None"
proof -
  obtain t where t: "v = cps (identity_secret_prefix k) @ t" "length t = 43" "list_all url_safe t"
    using assms unfolding is_well_formed_identity_secret_def full_match_prefixed by blast
  have "\<not> is_well_formed_credential v"
    unfolding is_well_formed_credential_def bearer_credential_regex_def full_match_prefixed t(1)
    by (cases k) (auto simp: cps_def)
  moreover have "k' = k" if "is_well_formed_identity_secret v k'"
    using that unfolding is_well_formed_identity_secret_def full_match_prefixed t(1)
    by (cases k; cases k') (auto simp: cps_def)
  moreover have "looks_like_secret (u @ v @ w) \<noteq> None"
  proof -
    have "normalize_for_shape_scan (cps (identity_secret_prefix k)) = cps (identity_secret_prefix k)"
    proof -
      have "map fold_case (map fold_space (cps (identity_secret_prefix k))) = cps (identity_secret_prefix k)"
        by (cases k; hypsubst; code_simp)
      then show ?thesis
        by (simp only: normalize_for_shape_scan_def fold_ascii_case_def normalize_whitespace_def)
    qed
    then have n: "normalize_for_shape_scan (cps (identity_secret_prefix k) @ t) =
        cps (identity_secret_prefix k) @ map normal_char t"
      unfolding normalize_append by (simp add: normalize_map)
    obtain x where x: "cps (identity_secret_prefix k) = cps ''fb'' @ x # cps ''_''"
      "x \<in> set (cps ''cirsv'')"
      by (cases k) (simp_all add: cps_def)
    show ?thesis unfolding t(1)
    proof (rule prefixed_recognised [OF shape_6(1-3)])
      fix r
      have "map normal_char t @ r \<in> set (rx_ends (Seq (Seq (Lit (cps ''fb''))
          (Cls (\<lambda>c. c \<in> set (cps ''cirsv'')))) (Lit (cps ''_'')))
          (cps (identity_secret_prefix k) @ map normal_char t @ r))"
        unfolding x(1) append_assoc append_Cons
        by (rule mem_seq [where t = "cps ''_'' @ map normal_char t @ r"],
            rule mem_seq [where t = "x # cps ''_'' @ map normal_char t @ r"])
          (rule Lit_mem, rule Cls_mem, rule x(2), rule Lit_mem)
      then show "rx_ends (shape_rx (secret_shape_patterns ! 6))
          (normalize_for_shape_scan (cps (identity_secret_prefix k) @ t) @ r) \<noteq> []"
        unfolding shape_6(4) n append_assoc by (rule mem_not_Nil [OF mem_seq [OF _ normal_mem [OF t(2,3)]]])
    qed
  qed
  ultimately show ?thesis by blast
qed

lemma identity_secrets_distinct_witness:
  "\<not> is_well_formed_credential (cps (''fbs_'' @ replicate 43 (CHR ''z''))) \<and>
   is_well_formed_identity_secret (cps (''fbs_'' @ replicate 43 (CHR ''z''))) Session"
proof -
  have "is_well_formed_identity_secret (cps (''fbs_'' @ replicate 43 (CHR ''z''))) Session"
    by code_simp
  with identity_secrets_distinct [OF this] show ?thesis by blast
qed

text \<open>
  An HTTP authorization header is recognised in any spelling: with any of the enumerated white
  space before the scheme and after it, in any ASCII case, as soon as something follows.
\<close>

theorem authorization_header_recognised:
  assumes "set a \<subseteq> set whitespace_code_points" and "set b \<subseteq> set whitespace_code_points" "b \<noteq> []"
    and "fold_ascii_case m \<in> {cps ''bearer'', cps ''basic''}"
    and "c \<notin> set whitespace_code_points"
  shows "looks_like_secret (a @ m @ b @ c # rest) \<noteq> None"
proof -
  let ?n = normalize_for_shape_scan
  have sp: "?n xs = replicate (length xs) 32" if "set xs \<subseteq> set whitespace_code_points" for xs
  proof -
    have "normal_char x = 32" if "x \<in> set xs" for x
    proof -
      have "fold_space x = 32" using that \<open>set xs \<subseteq> set whitespace_code_points\<close>
        by (auto simp: fold_space_def)
      then show ?thesis by (simp add: normal_char_def fold_case_def upper_alpha_def between_cps_def)
    qed
    then have "map normal_char xs = map (\<lambda>_. 32) xs" by simp
    then show ?thesis unfolding normalize_map by (simp only: map_replicate_const)
  qed
  have m: "?n m = fold_ascii_case m"
  proof -
    have "fold_space x = x" if "x \<in> set m" for x
    proof -
      have "fold_case x \<in> set (cps ''bearer'') \<union> set (cps ''basic'')"
      proof -
        have "fold_case x \<in> set (fold_ascii_case m)" using that by (simp add: fold_ascii_case_def)
        then show ?thesis using assms(4) by (metis Un_iff insertE singletonD)
      qed
      then show ?thesis
        by (auto simp: cps_def fold_case_def fold_space_def whitespace_code_points_def
            upper_alpha_def between_cps_def split: if_splits)
    qed
    then show ?thesis by (simp add: normalize_map fold_ascii_case_def normal_char_def)
  qed
  have c: "normal_char c \<noteq> 32"
    using assms(5) by (auto simp: normal_char_def fold_space_def fold_case_def upper_alpha_def
        between_cps_def whitespace_code_points_def)
  obtain k where k: "length b = Suc k" using assms(3) by (cases b) auto
  let ?s4 = "normal_char c # ?n rest"
  let ?s3 = "replicate k 32 @ ?s4" let ?s2 = "32 # ?s3" let ?s1 = "fold_ascii_case m @ ?s2"
  have whole: "?n (a @ m @ b @ c # rest) = replicate (length a) 32 @ ?s1"
    unfolding normalize_append m sp [OF assms(1)] using normalize_append [of b "c # rest"]
    by (simp add: sp [OF assms(2)] k) (simp add: normalize_map)
  have 1: "?s1 \<in> set (rx_ends spaces (replicate (length a) 32 @ ?s1))"
    unfolding spaces_def rx_ends.simps(2) by (rule many_ends_drop) (simp add: list_all_iff)
  have 2: "?s2 \<in> set (rx_ends (Alt (lit ''bearer'') (lit ''basic'')) ?s1)"
    using assms(4) unfolding lit_def rx_ends.simps(8) by (metis Lit_ends Un_iff insertE list.set_intros(1) set_append singletonD)
  have 3: "?s4 \<in> set (rx_ends (many1 (\<lambda>c. c = 32)) ?s2)"
    using many_ends_drop [of "\<lambda>c. c = 32" "replicate k 32" ?s4] by (simp add: many1_def list_all_iff)
  have 4: "?n rest \<in> set (rx_ends non_space ?s4)" using c by (simp add: non_space_def)
  have "?n rest \<in> set (rx_ends (shape_rx (secret_shape_patterns ! 2)) (replicate (length a) 32 @ ?s1))"
    unfolding shape_2(4) by (rule mem_seq [OF mem_seq [OF mem_seq [OF 1 2] 3] 4])
  then have "rx_ends (shape_rx (secret_shape_patterns ! 2)) (?n (a @ m @ b @ c # rest)) \<noteq> []"
    unfolding whole by force
  then have "search_from (secret_shape_patterns ! 2) None (?n (a @ m @ b @ c # rest))"
    using shape_2(3) by (subst search_from.simps) simp
  then show ?thesis by (rule looks_found [OF shape_2(1)])
qed

lemma authorization_header_recognised_witness:
  "looks_like_secret ([0xA0] @ cps ''BeArEr'' @ [0x2003, 9] @ (120 :: int) # []) \<noteq> None"
  by (rule authorization_header_recognised) (code_simp | simp add: whitespace_code_points_def)+

text \<open>
  A reference that was constructed is printable: neither its name nor its version has the shape
  of a secret, and both match their identifier patterns.
\<close>

theorem reference_is_printable:
  assumes "make_reference b n v = Inr r"
  shows "looks_like_secret (sr_name r) = None \<and> full_match reference_name (sr_name r) \<and>
    (case sr_version r of None \<Rightarrow> True
     | Some x \<Rightarrow> looks_like_secret x = None \<and> full_match reference_version x) \<and>
    sr_name r = n \<and> sr_version r = v"
  using assms
  by (auto simp: make_reference_def require_reference_field_def split: option.splits sum.splits if_splits)

lemma reference_is_printable_witness:
  "\<exists>r. make_reference Aws_secrets_manager (cps ''prod/key'') None = Inr r \<and>
     full_match reference_name (sr_name r)"
proof -
  have "\<not> isl (make_reference Aws_secrets_manager (cps ''prod/key'') None)" by code_simp
  then obtain r where r: "make_reference Aws_secrets_manager (cps ''prod/key'') None = Inr r"
    by (cases "make_reference Aws_secrets_manager (cps ''prod/key'') None") auto
  from reference_is_printable [OF r] r show ?thesis by blast
qed

end
