(* ===== verification/Scope_Catalogue.thy ===== *)
theory Scope_Catalogue
  imports Secret_Shapes
begin

text \<open>
  \<open>control_plane/security/authorization.py\<close> and \<open>permissions.py\<close>: the closed scope catalogue with
  the rule of every table, the membership roles with their permissions, and the functions that
  normalise a requested scope set or refuse it. Values are the plain texts PostgreSQL stores.
\<close>

section \<open>Scopes\<close>

datatype scope =
    Tenant_read | Tenant_provision | Workspace_read | Workspace_write
  | Mutation_execute | Audit_read | Credential_manage

fun scope_value :: "scope \<Rightarrow> string" where
  "scope_value Tenant_read = ''tenant:read''"
| "scope_value Tenant_provision = ''tenant:provision''"
| "scope_value Workspace_read = ''workspace:read''"
| "scope_value Workspace_write = ''workspace:write''"
| "scope_value Mutation_execute = ''mutation:execute''"
| "scope_value Audit_read = ''audit:read''"
| "scope_value Credential_manage = ''credential:manage''"

definition all_scopes :: "scope list" where
  "all_scopes = [Tenant_read, Tenant_provision, Workspace_read, Workspace_write, Mutation_execute,
     Audit_read, Credential_manage]"

lemma all_scopes: "s \<in> set all_scopes"
  by (cases s) (simp_all add: all_scopes_def)

lemma scope_value_inj: "scope_value s = scope_value t \<longleftrightarrow> s = t"
  by (cases s; cases t) simp_all

text \<open>Scopes are ordered by the text they are stored as.\<close>

instantiation scope :: linorder
begin

definition less_eq_scope :: "scope \<Rightarrow> scope \<Rightarrow> bool" where
  "less_eq_scope s t \<longleftrightarrow> scope_value s \<le> scope_value t"

definition less_scope :: "scope \<Rightarrow> scope \<Rightarrow> bool" where
  "less_scope s t \<longleftrightarrow> scope_value s < scope_value t"

instance
  by standard (auto simp: less_eq_scope_def less_scope_def scope_value_inj less_le)

end

definition cps_value :: "scope \<Rightarrow> utext" where
  "cps_value s = cps (scope_value s)"

text \<open>\<open>tuple(sorted(set(...)))\<close>.\<close>

definition canonical :: "'a::linorder list \<Rightarrow> 'a list" where
  "canonical xs = sorted_list_of_set (set xs)"

definition known_scopes :: "string list" where
  "known_scopes = sort (map scope_value all_scopes)"

definition max_scopes_per_binding :: nat where
  "max_scopes_per_binding = 16"

definition reserved_non_customer_domains :: "string list" where
  "reserved_non_customer_domains = [''operator'', ''supplier'', ''provider'', ''routing'',
     ''settlement'', ''certification'', ''capacity'', ''ledger'', ''internal'', ''admin'']"

definition delegable_scopes :: "string list" where
  "delegable_scopes = filter (\<lambda>v. v \<noteq> scope_value Tenant_provision) known_scopes"

definition lifecycle_eligible_scopes :: "string list" where
  "lifecycle_eligible_scopes = filter (\<lambda>v. v \<noteq> scope_value Tenant_provision) known_scopes"

section \<open>Resource rules\<close>

datatype rule_kind = Customer | Framework | Lifecycle | Protected

datatype scope_source = Catalogue | Definition | No_source

record resource_rule =
  rule_table :: string
  rule_kind :: rule_kind
  tenant_column :: "string option"
  rule_read :: "scope list option"
  rule_write :: "scope list option"
  append_only :: bool
  scope_source :: scope_source

definition protected_rule :: "string \<Rightarrow> resource_rule" where
  "protected_rule t = \<lparr>rule_table = t, rule_kind = Protected, tenant_column = None,
     rule_read = None, rule_write = None, append_only = False, scope_source = No_source\<rparr>"

definition resource_rules :: "resource_rule list" where
  "resource_rules =
   [\<lparr>rule_table = ''tenants'', rule_kind = Customer, tenant_column = Some ''id'',
     rule_read = Some [Tenant_read, Tenant_provision], rule_write = Some [Tenant_provision],
     append_only = False, scope_source = Catalogue\<rparr>,
    \<lparr>rule_table = ''workspaces'', rule_kind = Customer, tenant_column = Some ''tenant_id'',
     rule_read = Some [Workspace_read], rule_write = Some [Workspace_write],
     append_only = False, scope_source = Catalogue\<rparr>,
    \<lparr>rule_table = ''workspace_preferences'', rule_kind = Customer, tenant_column = Some ''tenant_id'',
     rule_read = Some [Workspace_read], rule_write = Some [Workspace_write],
     append_only = False, scope_source = Catalogue\<rparr>,
    \<lparr>rule_table = ''idempotency_records'', rule_kind = Framework, tenant_column = Some ''tenant_id'',
     rule_read = Some [Mutation_execute], rule_write = Some [Mutation_execute],
     append_only = True, scope_source = Catalogue\<rparr>,
    \<lparr>rule_table = ''outbox_events'', rule_kind = Framework, tenant_column = Some ''tenant_id'',
     rule_read = Some [Mutation_execute], rule_write = Some [Mutation_execute],
     append_only = True, scope_source = Catalogue\<rparr>,
    \<lparr>rule_table = ''audit_events'', rule_kind = Framework, tenant_column = Some ''tenant_id'',
     rule_read = Some [Audit_read], rule_write = Some [],
     append_only = True, scope_source = Catalogue\<rparr>,
    protected_rule ''auth_bindings'', protected_rule ''auth_transaction_context'',
    protected_rule ''lifecycle_machines'', protected_rule ''lifecycle_states'',
    protected_rule ''lifecycle_transition_edges'',
    \<lparr>rule_table = ''lifecycle_instances'', rule_kind = Lifecycle, tenant_column = Some ''tenant_id'',
     rule_read = None, rule_write = None, append_only = False, scope_source = Definition\<rparr>,
    \<lparr>rule_table = ''lifecycle_transitions'', rule_kind = Lifecycle, tenant_column = Some ''tenant_id'',
     rule_read = None, rule_write = None, append_only = True, scope_source = Definition\<rparr>,
    protected_rule ''lifecycle_claim_provenance'', protected_rule ''accounts'',
    protected_rule ''account_passwords'', protected_rule ''account_tokens'',
    protected_rule ''memberships'', protected_rule ''workspace_directory'',
    protected_rule ''browser_sessions'', protected_rule ''workspace_invitations'',
    protected_rule ''account_idempotency_records'',
    protected_rule ''identity_transaction_context'',
    protected_rule ''identity_expected_workspace'']"

definition rules_by_table :: "string \<Rightarrow> resource_rule option" where
  "rules_by_table t = find (\<lambda>r. rule_table r = t) resource_rules"

definition protected_tables :: "string list" where
  "protected_tables = map rule_table (filter (\<lambda>r. rule_kind r = Protected) resource_rules)"

definition definition_scoped_tables :: "string list" where
  "definition_scoped_tables =
     map rule_table (filter (\<lambda>r. scope_source r = Definition) resource_rules)"

section \<open>Normalising a scope set\<close>

text \<open>
  A refusal names the rule and the position. A requested value is a text or a value of another type.
\<close>

datatype requested = Text_value utext | Other_value

datatype scope_error =
    Scope_looks_like nat string
  | Scope_not_text nat
  | Scope_unknown nat
  | Scope_not_permitted nat
  | Too_many_scopes nat
  | Unknown_role
  | Missing_context scope
  | Missing_scope scope

definition known_text :: "utext \<Rightarrow> string option" where
  "known_text v = find (\<lambda>s. cps s = v) known_scopes"

fun scope_items :: "nat \<Rightarrow> requested list \<Rightarrow> scope_error + string list" where
  "scope_items i [] = Inr []"
| "scope_items i (Other_value # vs) = Inl (Scope_not_text i)"
| "scope_items i (Text_value v # vs) =
     (case looks_like_secret v of Some sh \<Rightarrow> Inl (Scope_looks_like i sh)
      | None \<Rightarrow> (case known_text v of None \<Rightarrow> Inl (Scope_unknown i)
        | Some s \<Rightarrow> (case scope_items (Suc i) vs of Inl e \<Rightarrow> Inl e | Inr out \<Rightarrow> Inr (s # out))))"

definition scope_values :: "requested list \<Rightarrow> scope_error + string list" where
  "scope_values vs =
     (case scope_items 0 vs of Inl e \<Rightarrow> Inl e
      | Inr out \<Rightarrow> if length out > max_scopes_per_binding then Inl (Too_many_scopes (length out))
          else Inr (canonical out))"

text \<open>A context is the scope set it carries.\<close>

definition require_scope :: "string set option \<Rightarrow> scope \<Rightarrow> scope_error + unit" where
  "require_scope context s =
     (case context of None \<Rightarrow> Inl (Missing_context s)
      | Some held \<Rightarrow> if scope_value s \<in> held then Inr () else Inl (Missing_scope s))"

section \<open>Roles\<close>

datatype membership_role = Owner | Admin | Member | Viewer

fun role_value :: "membership_role \<Rightarrow> string" where
  "role_value Owner = ''owner''" | "role_value Admin = ''admin''"
| "role_value Member = ''member''" | "role_value Viewer = ''viewer''"

datatype membership_permission = Membership_read | Membership_manage | Credential_issue

fun permission_value :: "membership_permission \<Rightarrow> string" where
  "permission_value Membership_read = ''membership:read''"
| "permission_value Membership_manage = ''membership:manage''"
| "permission_value Credential_issue = ''credential:issue''"

definition membership_roles :: "string list" where
  "membership_roles = sort (map role_value [Owner, Admin, Member, Viewer])"

definition membership_permissions :: "string list" where
  "membership_permissions =
     sort (map permission_value [Membership_read, Membership_manage, Credential_issue])"

definition api_issuable_scopes :: "string list" where
  "api_issuable_scopes = filter (\<lambda>s. s \<noteq> scope_value Credential_manage) delegable_scopes"

definition viewer_permissions :: "string list" where
  "viewer_permissions = [permission_value Membership_read, scope_value Tenant_read,
     scope_value Workspace_read]"

definition member_permissions :: "string list" where
  "member_permissions = viewer_permissions @ [permission_value Credential_issue,
     scope_value Mutation_execute, scope_value Workspace_write]"

definition admin_permissions :: "string list" where
  "admin_permissions = member_permissions @ [scope_value Audit_read,
     permission_value Membership_manage]"

definition role_permissions :: "(string \<times> string list) list" where
  "role_permissions =
     [(role_value Viewer, canonical viewer_permissions),
      (role_value Member, canonical member_permissions),
      (role_value Admin, canonical admin_permissions),
      (role_value Owner, canonical admin_permissions)]"

definition managing_roles :: "string list" where
  "managing_roles =
     map fst (filter (\<lambda>(r, ps). permission_value Membership_manage \<in> set ps) role_permissions)"

definition effective_permissions :: "string \<Rightarrow> scope_error + string list" where
  "effective_permissions role =
     (case map_of role_permissions role of None \<Rightarrow> Inl Unknown_role | Some ps \<Rightarrow> Inr ps)"

definition issuable_scopes_for :: "string \<Rightarrow> scope_error + string list" where
  "issuable_scopes_for role =
     (case effective_permissions role of Inl e \<Rightarrow> Inl e
      | Inr held \<Rightarrow> Inr (filter (\<lambda>s. s \<in> set held) api_issuable_scopes))"

fun api_items :: "string list \<Rightarrow> nat \<Rightarrow> requested list \<Rightarrow> scope_error + string list" where
  "api_items permitted i [] = Inr []"
| "api_items permitted i (Other_value # vs) = Inl (Scope_unknown i)"
| "api_items permitted i (Text_value v # vs) =
     (case looks_like_secret v of Some sh \<Rightarrow> Inl (Scope_looks_like i sh)
      | None \<Rightarrow> (case known_text v of None \<Rightarrow> Inl (Scope_unknown i)
        | Some s \<Rightarrow> if s \<notin> set permitted then Inl (Scope_not_permitted i)
            else (case api_items permitted (Suc i) vs of Inl e \<Rightarrow> Inl e
              | Inr out \<Rightarrow> Inr (s # out))))"

definition api_scopes_within :: "string \<Rightarrow> requested list \<Rightarrow> scope_error + string list" where
  "api_scopes_within role vs =
     (case issuable_scopes_for role of Inl e \<Rightarrow> Inl e
      | Inr permitted \<Rightarrow>
          (case api_items permitted 0 vs of Inl e \<Rightarrow> Inl e | Inr out \<Rightarrow> Inr (canonical out)))"


section \<open>Properties\<close>

lemma known_text_Some: "known_text v = Some s \<longleftrightarrow> v = cps s \<and> s \<in> set known_scopes"
proof -
  have inj: "inj cps" by (rule injI) (auto simp: cps_def inj_def dest: map_injective [rotated])
  then have "known_text (cps s) = Some s" if "s \<in> set known_scopes" for s
  proof -
    have "find (\<lambda>t. cps t = cps s) xs = Some s" if "s \<in> set xs" for xs
      using that inj by (induction xs) (auto simp: inj_def)
    then show ?thesis using that by (simp add: known_text_def)
  qed
  then show ?thesis by (auto simp: known_text_def find_Some_iff)
qed

lemma membership_not_scope: "set membership_permissions \<inter> set known_scopes = {}"
proof -
  have "list_all (\<lambda>p. p \<notin> set known_scopes) membership_permissions" by code_simp
  then show ?thesis unfolding list_all_iff by blast
qed

lemma known_not_secret: "s \<in> set known_scopes \<Longrightarrow> looks_like_secret (cps s) = None"
proof -
  have "list_all (\<lambda>s. looks_like_secret (cps s) = None) known_scopes" by code_simp
  then show "s \<in> set known_scopes \<Longrightarrow> looks_like_secret (cps s) = None" by (simp add: list_all_iff)
qed

lemma scope_items_Inr:
  "scope_items i vs = Inr ss \<longleftrightarrow> vs = map (Text_value \<circ> cps) ss \<and> set ss \<subseteq> set known_scopes"
proof (induction i vs arbitrary: ss rule: scope_items.induct)
  case (3 i v vs)
  have "scope_items i (Text_value v # vs) = Inr ss \<longleftrightarrow>
      (\<exists>s ss'. ss = s # ss' \<and> looks_like_secret v = None \<and> known_text v = Some s \<and>
         scope_items (Suc i) vs = Inr ss')"
    by (auto split: option.splits sum.splits)
  also have "\<dots> \<longleftrightarrow> (\<exists>s ss'. ss = s # ss' \<and> v = cps s \<and> s \<in> set known_scopes \<and>
       vs = map (Text_value \<circ> cps) ss' \<and> set ss' \<subseteq> set known_scopes)"
  proof -
    have ih: "scope_items (Suc i) vs = Inr ss' \<longleftrightarrow> vs = map (Text_value \<circ> cps) ss' \<and> set ss' \<subseteq> set known_scopes"
      if "looks_like_secret v = None" "known_text v = Some s" for s ss'
      by (rule "3.IH" [OF that])
    have "looks_like_secret v = None \<and> known_text v = Some s \<and> scope_items (Suc i) vs = Inr ss' \<longleftrightarrow>
        v = cps s \<and> s \<in> set known_scopes \<and> vs = map (Text_value \<circ> cps) ss' \<and>
        set ss' \<subseteq> set known_scopes" for s ss'
      using ih [of s ss'] known_not_secret [of s] known_text_Some [of v s]
      by (cases "known_text v = Some s") auto
    then show ?thesis by simp
  qed
  finally show ?case by (cases ss) auto
qed (auto simp: eq_commute [of "[]"])

lemma canonical_set [simp]: "set (canonical xs) = set xs"
  by (simp add: canonical_def)

lemma canonical_sorted: "sorted (canonical xs)" "distinct (canonical xs)"
  by (simp_all add: canonical_def)

lemma canonical_idem [simp]: "canonical (canonical xs) = canonical xs"
  by (simp add: canonical_def)

lemma canonical_length: "length (canonical xs) \<le> length xs"
  by (simp add: canonical_def sorted_list_of_set.length_sorted_key_list_of_set card_length)

text \<open>
  A scope set is accepted exactly when it has at most sixteen entries and each is the text of a
  scope of the closed catalogue; the answer is then the sorted set of them. An accepted set is
  accepted again with the same answer.
\<close>

theorem scope_values_closed:
  "(scope_values vs = Inr out \<longleftrightarrow>
     (\<exists>ss. vs = map (Text_value \<circ> cps) ss \<and> set ss \<subseteq> set known_scopes \<and>
        length ss \<le> max_scopes_per_binding \<and> out = canonical ss)) \<and>
   (scope_values vs \<noteq> Inr out \<or> scope_values (map (Text_value \<circ> cps) out) = Inr out)"
proof -
  have iff: "scope_values vs = Inr out \<longleftrightarrow>
     (\<exists>ss. vs = map (Text_value \<circ> cps) ss \<and> set ss \<subseteq> set known_scopes \<and>
        length ss \<le> max_scopes_per_binding \<and> out = canonical ss)" for vs out
  proof -
    have "scope_values vs = Inr out \<longleftrightarrow> (\<exists>ss. scope_items 0 vs = Inr ss \<and>
        length ss \<le> max_scopes_per_binding \<and> out = canonical ss)"
      by (auto simp: scope_values_def split: sum.splits)
    then show ?thesis by (simp add: scope_items_Inr conj_assoc)
  qed
  have "scope_values (map (Text_value \<circ> cps) out) = Inr out" if acc: "scope_values vs = Inr out"
  proof -
    obtain ss where ss: "set ss \<subseteq> set known_scopes" "length ss \<le> max_scopes_per_binding"
      "out = canonical ss" using iff [THEN iffD1, OF acc] by blast
    have "length out \<le> max_scopes_per_binding"
      using ss(2,3) canonical_length [of ss] by simp
    then show ?thesis unfolding iff using ss(1,3) by (intro exI [of _ out]) simp
  qed
  then show ?thesis by (intro conjI iff) blast
qed

lemma scope_values_closed_witness:
  "scope_values [Text_value (cps ''workspace:read''), Text_value (cps ''audit:read'')] =
     Inr [''audit:read'', ''workspace:read'']"
proof -
  have k: "set [''workspace:read'', ''audit:read''] \<subseteq> set known_scopes"
    "[''audit:read'', ''workspace:read''] = canonical [''workspace:read'', ''audit:read'']"
    "length [''workspace:read'', ''audit:read''] \<le> max_scopes_per_binding" by code_simp+
  have e: "[Text_value (cps ''workspace:read''), Text_value (cps ''audit:read'')] =
      map (Text_value \<circ> cps) [''workspace:read'', ''audit:read'']" by (simp only: list.map comp_apply)
  show ?thesis
    by (rule conjunct1 [OF scope_values_closed, THEN iffD2])
      (rule exI [of _ "[''workspace:read'', ''audit:read'']"], intro conjI e k)
qed

text \<open>
  The roles form a chain: a viewer may do less than a member, a member less than an admin, and
  an owner exactly what an admin may. No role carries the scope that mints untied credentials or
  the one that provisions tenants, the membership permissions are outside the scope catalogue, and
  exactly the owner and the admin manage members.
\<close>

theorem roles_form_chain:
  "\<exists>v m a. effective_permissions ''viewer'' = Inr v \<and> effective_permissions ''member'' = Inr m \<and>
     effective_permissions ''admin'' = Inr a \<and> effective_permissions ''owner'' = Inr a \<and>
     set v \<subset> set m \<and> set m \<subset> set a \<and>
     scope_value Credential_manage \<notin> set a \<and> scope_value Tenant_provision \<notin> set a \<and>
     set membership_permissions \<inter> set known_scopes = {} \<and>
     set managing_roles = {''owner'', ''admin''}"
proof -
  have e: "effective_permissions ''viewer'' = Inr (canonical viewer_permissions)"
    "effective_permissions ''member'' = Inr (canonical member_permissions)"
    "effective_permissions ''admin'' = Inr (canonical admin_permissions)"
    "effective_permissions ''owner'' = Inr (canonical admin_permissions)"
    unfolding effective_permissions_def role_permissions_def role_value.simps map_of.simps fst_conv snd_conv
    by (simp_all only: fun_upd_apply list.inject char.inject simp_thms if_True if_False option.case list.distinct)
  have "set (canonical viewer_permissions) \<subset> set (canonical member_permissions)"
    "set (canonical member_permissions) \<subset> set (canonical admin_permissions)"
    by code_simp+
  moreover note membership_not_scope
  moreover have "set managing_roles = {''owner'', ''admin''}"
    by (auto simp: managing_roles_def role_permissions_def viewer_permissions_def
        member_permissions_def admin_permissions_def)
  moreover have "scope_value Credential_manage \<notin> set (canonical admin_permissions)"
    "scope_value Tenant_provision \<notin> set (canonical admin_permissions)"
    by (simp_all add: viewer_permissions_def member_permissions_def admin_permissions_def)
  ultimately show ?thesis using e by blast
qed

lemma api_items_Inr:
  "api_items permitted i vs = Inr out \<Longrightarrow> set out \<subseteq> set permitted"
  by (induction permitted i vs arbitrary: out rule: api_items.induct)
    (fastforce split: option.splits sum.splits if_splits)+

text \<open>
  A credential issued by a member carries at most what the member may do: every scope of an
  accepted request is a permission of the role, is in the catalogue, and is neither the minting nor
  the provisioning scope nor a membership permission.
\<close>

theorem issued_scopes_bounded:
  assumes "api_scopes_within role vs = Inr out"
  shows "\<exists>held. effective_permissions role = Inr held \<and> set out \<subseteq> set held \<and>
    set out \<subseteq> set known_scopes - {scope_value Credential_manage, scope_value Tenant_provision} \<and>
    set out \<inter> set membership_permissions = {} \<and> sorted out \<and> distinct out"
proof -
  obtain held out' where h: "effective_permissions role = Inr held"
    "api_items (filter (\<lambda>s. s \<in> set held) api_issuable_scopes) 0 vs = Inr out'" "out = canonical out'"
    using assms by (auto simp: api_scopes_within_def issuable_scopes_for_def split: sum.splits)
  have "set out \<subseteq> set (filter (\<lambda>s. s \<in> set held) api_issuable_scopes)"
    using api_items_Inr [OF h(2)] h(3) by simp
  moreover note membership_not_scope
  ultimately show ?thesis
    using h(1,3) canonical_sorted [of out'] by (auto simp: api_issuable_scopes_def delegable_scopes_def)
qed

lemma issued_scopes_bounded_witness:
  "\<exists>out. api_scopes_within ''viewer'' [Text_value (cps ''workspace:read'')] = Inr out \<and>
     set out \<subseteq> set known_scopes"
proof -
  have "\<not> isl (api_scopes_within ''viewer'' [Text_value (cps ''workspace:read'')])" by code_simp
  then obtain out where r: "api_scopes_within ''viewer'' [Text_value (cps ''workspace:read'')] = Inr out"
    by (cases "api_scopes_within ''viewer'' [Text_value (cps ''workspace:read'')]") auto
  from issued_scopes_bounded [OF r] r show ?thesis by blast
qed

text \<open>
  The catalogue states one rule per table. A rule of the catalogue kind names its tenant column
  and its scopes, a lifecycle rule names its column and leaves the scopes to the machine
  definition, a protected rule names nothing, and no scope belongs to a reserved domain.
\<close>

theorem catalogue_consistent:
  "distinct (map rule_table resource_rules) \<and>
   list_all (\<lambda>r. case scope_source r of
       Catalogue \<Rightarrow> tenant_column r \<noteq> None \<and> rule_read r \<noteq> None \<and> rule_write r \<noteq> None \<and>
         rule_kind r \<in> {Customer, Framework}
     | Definition \<Rightarrow> tenant_column r \<noteq> None \<and> rule_read r = None \<and> rule_write r = None \<and>
         rule_kind r = Lifecycle
     | No_source \<Rightarrow> tenant_column r = None \<and> rule_read r = None \<and> rule_write r = None \<and>
         rule_kind r = Protected) resource_rules \<and>
   definition_scoped_tables = [''lifecycle_instances'', ''lifecycle_transitions''] \<and>
   list_all (\<lambda>v. takeWhile (\<lambda>c. c \<noteq> CHR '':'') v \<notin> set reserved_non_customer_domains) known_scopes"
proof (intro conjI)
  show "distinct (map rule_table resource_rules)" by code_simp
  show "list_all (\<lambda>r. case scope_source r of
       Catalogue \<Rightarrow> tenant_column r \<noteq> None \<and> rule_read r \<noteq> None \<and> rule_write r \<noteq> None \<and>
         rule_kind r \<in> {Customer, Framework}
     | Definition \<Rightarrow> tenant_column r \<noteq> None \<and> rule_read r = None \<and> rule_write r = None \<and>
         rule_kind r = Lifecycle
     | No_source \<Rightarrow> tenant_column r = None \<and> rule_read r = None \<and> rule_write r = None \<and>
         rule_kind r = Protected) resource_rules"
    by (simp add: resource_rules_def protected_rule_def)
  show "definition_scoped_tables = [''lifecycle_instances'', ''lifecycle_transitions'']" by code_simp
  show "list_all (\<lambda>v. takeWhile (\<lambda>c. c \<noteq> CHR '':'') v \<notin> set reserved_non_customer_domains) known_scopes"
    by code_simp
qed

end
