(* ===== verification/Metadata_Policy.thy ===== *)
theory Metadata_Policy
  imports Scope_Catalogue
begin

text \<open>
  \<open>control_plane/db/metadata.py\<close>, the one policy of every bounded JSON column, with the canonical
  rendering it is measured on, and the boundary half of \<open>db/audit.py\<close>. The policy is a loop that
  stops at the first offence and names its position; \<open>metadata_policy_declarative\<close> shows it is the
  order-free predicate it means to be.
\<close>

section \<open>Values\<close>

text \<open>
  A Python value as the policy sees it. A UUID stands for its canonical text, a secret object is a
  \<open>Secret\<close> or an \<open>EncryptedValue\<close>, and everything no rule accepts is \<open>V_other\<close>. Numbers are
  rationals; how a finite float prints is an argument.
\<close>

datatype py_value =
    V_none | V_bool bool | V_int int | V_float rat | V_nonfinite
  | V_text utext | V_uuid utext | V_bytes | V_secret_object
  | V_seq "py_value list" | V_map "(py_value \<times> py_value) list" | V_other

fun value_shape :: "py_value \<Rightarrow> string option" where
  "value_shape V_secret_object = Some ''a secret value object''"
| "value_shape (V_text v) = looks_like_secret v"
| "value_shape _ = None"

definition max_metadata_document_bytes :: nat where "max_metadata_document_bytes = 2048"
definition max_metadata_keys :: nat where "max_metadata_keys = 32"
definition max_metadata_string_length :: nat where "max_metadata_string_length = 256"
definition max_metadata_sequence_length :: nat where "max_metadata_sequence_length = 16"

definition name_char :: "int \<Rightarrow> bool" where
  "name_char c \<longleftrightarrow> lower_alpha c \<or> ascii_digit c \<or> c = 95"

text \<open>\<open>^[a-z][a-z0-9_]{0,62}$\<close>, for metadata keys and for simple names.\<close>

definition metadata_key_regex :: rx where
  "metadata_key_regex = Seq (Cls lower_alpha) (UpTo 62 name_char)"

definition denied_metadata_keys :: "string list" where
  "denied_metadata_keys =
    [''payload'', ''raw_payload'', ''payload_bytes'', ''body'', ''request_body'', ''response_body'',
     ''content'', ''blob'', ''bytes'', ''data'', ''text'', ''input'', ''input_text'', ''input_bytes'',
     ''output'', ''output_text'', ''output_bytes'', ''prompt'', ''prompt_text'', ''completion'',
     ''completion_text'', ''message'', ''messages'', ''ciphertext'', ''plaintext'', ''password'',
     ''passwd'', ''secret'', ''client_secret'', ''secret_key'', ''private_key'', ''api_key'',
     ''apikey'', ''access_key'', ''token'', ''access_token'', ''refresh_token'', ''bearer_token'',
     ''session_token'', ''auth_token'', ''id_token'', ''credential'', ''credentials'',
     ''authorization'', ''auth'', ''cookie'', ''connection_string'', ''database_url'', ''dsn'']"

section \<open>Rendering\<close>

datatype meta_scalar = M_null | M_bool bool | M_int int | M_float rat | M_text utext

datatype meta_item = Scalar meta_scalar | Sequence "meta_scalar list"

type_synonym document = "(utext \<times> meta_item) list"

definition hex_digit :: "int \<Rightarrow> int" where
  "hex_digit n = (if n < 10 then 48 + n else 87 + n)"

text \<open>The escapes of \<open>json.dumps(ensure_ascii=False)\<close>.\<close>

definition json_escape :: "int \<Rightarrow> utext" where
  "json_escape c =
     (if c = 34 then [92, 34] else if c = 92 then [92, 92]
      else if c = 10 then [92, 110] else if c = 13 then [92, 114] else if c = 9 then [92, 116]
      else if c = 12 then [92, 102] else if c = 8 then [92, 98]
      else if c < 32 then [92, 117, 48, 48, hex_digit (c div 16), hex_digit (c mod 16)]
      else [c])"

definition json_quote :: "utext \<Rightarrow> utext" where
  "json_quote v = [34] @ concat (map json_escape v) @ [34]"

definition comma_join :: "utext list \<Rightarrow> utext" where
  "comma_join xs = concat (map (\<lambda>(i, x). if i = 0 then x else 44 # x) (zip [0..<length xs] xs))"

fun scalar_json :: "(rat \<Rightarrow> utext) \<Rightarrow> meta_scalar \<Rightarrow> utext" where
  "scalar_json ft M_null = cps ''null''"
| "scalar_json ft (M_bool b) = cps (if b then ''true'' else ''false'')"
| "scalar_json ft (M_int i) = cps (int_text i)"
| "scalar_json ft (M_float x) = ft x"
| "scalar_json ft (M_text v) = json_quote v"

fun item_json :: "(rat \<Rightarrow> utext) \<Rightarrow> meta_item \<Rightarrow> utext" where
  "item_json ft (Scalar v) = scalar_json ft v"
| "item_json ft (Sequence vs) = [91] @ comma_join (map (scalar_json ft) vs) @ [93]"

definition canonical_json :: "(rat \<Rightarrow> utext) \<Rightarrow> document \<Rightarrow> utext" where
  "canonical_json ft d =
     [123] @ comma_join (map (\<lambda>(k, v). json_quote k @ [58] @ item_json ft v) (sort_key fst d)) @ [125]"

text \<open>The bytes of a code point in UTF-8; a surrogate cannot be encoded.\<close>

definition utf8_width :: "int \<Rightarrow> nat option" where
  "utf8_width c =
     (if c < 0x80 then Some 1 else if c < 0x800 then Some 2
      else if 0xD800 \<le> c \<and> c \<le> 0xDFFF then None
      else if c < 0x10000 then Some 3 else Some 4)"

fun utf8_length :: "utext \<Rightarrow> nat option" where
  "utf8_length [] = Some 0"
| "utf8_length (c # s) = (case utf8_width c of None \<Rightarrow> None
     | Some n \<Rightarrow> map_option ((+) n) (utf8_length s))"

section \<open>The policy\<close>

text \<open>A refusal names the rule and the position; \<open>Cannot_encode\<close> is the encoder's own error.\<close>

datatype metadata_error =
    Not_a_mapping | Too_many_keys
  | Key_shape nat string | Key_format nat | Key_denied nat
  | Sequence_too_long nat
  | Scalar_shape nat "nat option" string | Scalar_bytes nat "nat option"
  | Scalar_type nat "nat option" | Scalar_too_long nat "nat option"
  | Scalar_nonfinite nat "nat option"
  | Document_too_large | Cannot_encode

definition check_key :: "nat \<Rightarrow> py_value \<Rightarrow> metadata_error + utext" where
  "check_key i key =
     (case value_shape key of Some sh \<Rightarrow> Inl (Key_shape i sh)
      | None \<Rightarrow> (case key of
          V_text k \<Rightarrow>
            if \<not> full_match metadata_key_regex k then Inl (Key_format i)
            else if k \<in> cps ` set denied_metadata_keys then Inl (Key_denied i)
            else Inr k
        | _ \<Rightarrow> Inl (Key_format i)))"

definition check_scalar :: "nat \<Rightarrow> nat option \<Rightarrow> py_value \<Rightarrow> metadata_error + meta_scalar" where
  "check_scalar i item v =
     (case value_shape v of Some sh \<Rightarrow> Inl (Scalar_shape i item sh)
      | None \<Rightarrow> (case v of
          V_bytes \<Rightarrow> Inl (Scalar_bytes i item)
        | V_text t \<Rightarrow> if length t > max_metadata_string_length then Inl (Scalar_too_long i item)
            else Inr (M_text t)
        | V_nonfinite \<Rightarrow> Inl (Scalar_nonfinite i item)
        | V_none \<Rightarrow> Inr M_null
        | V_bool b \<Rightarrow> Inr (M_bool b)
        | V_int n \<Rightarrow> Inr (M_int n)
        | V_float x \<Rightarrow> Inr (M_float x)
        | V_uuid u \<Rightarrow> Inr (M_text u)
        | _ \<Rightarrow> Inl (Scalar_type i item)))"

definition check_item :: "nat \<Rightarrow> py_value \<Rightarrow> metadata_error + meta_item" where
  "check_item i v =
     (case v of
        V_seq vs \<Rightarrow>
          if length vs > max_metadata_sequence_length then Inl (Sequence_too_long i)
          else (case seq_map (\<lambda>(p, e). check_scalar i (Some p) e) (zip [0..<length vs] vs) of
                  Inl e \<Rightarrow> Inl e | Inr ss \<Rightarrow> Inr (Sequence ss))
      | _ \<Rightarrow> (case check_scalar i None v of Inl e \<Rightarrow> Inl e | Inr s \<Rightarrow> Inr (Scalar s)))"

definition check_entry :: "nat \<times> py_value \<times> py_value \<Rightarrow> metadata_error + utext \<times> meta_item" where
  "check_entry e =
     (case e of (i, key, v) \<Rightarrow>
        (case check_key i key of Inl e \<Rightarrow> Inl e
         | Inr k \<Rightarrow> (case check_item i v of Inl e \<Rightarrow> Inl e | Inr it \<Rightarrow> Inr (k, it))))"

definition validated_metadata :: "(rat \<Rightarrow> utext) \<Rightarrow> py_value \<Rightarrow> metadata_error + document" where
  "validated_metadata ft v =
     (case v of
        V_map kvs \<Rightarrow>
          if length kvs > max_metadata_keys then Inl Too_many_keys
          else (case seq_map check_entry (zip [0..<length kvs] kvs) of Inl e \<Rightarrow> Inl e
            | Inr out \<Rightarrow> (case utf8_length (canonical_json ft out) of None \<Rightarrow> Inl Cannot_encode
              | Some n \<Rightarrow> if n > max_metadata_document_bytes then Inl Document_too_large
                  else Inr out))
      | _ \<Rightarrow> Inl Not_a_mapping)"

section \<open>Audit events at the boundary\<close>

definition dotted_part :: rx where
  "dotted_part = Seq (Cls lower_alpha) (Many name_char)"

text \<open>
  \<open>^[a-z][a-z0-9_]*(\.[a-z][a-z0-9_]*)+$\<close>: the parts between the dots, at least two of them.
\<close>

fun split_dots :: "utext \<Rightarrow> utext list" where
  "split_dots [] = [[]]"
| "split_dots (c # s) =
     (if c = 46 then [] # split_dots s
      else (case split_dots s of [] \<Rightarrow> [[c]] | p # ps \<Rightarrow> (c # p) # ps))"

definition dotted_name :: "utext \<Rightarrow> bool" where
  "dotted_name v \<longleftrightarrow> 2 \<le> length (split_dots v) \<and> list_all (full_match dotted_part) (split_dots v)"

definition audit_outcomes :: "string list" where
  "audit_outcomes = [''attempted'', ''succeeded'', ''failed'', ''denied'']"

record audit_spec =
  au_action :: py_value
  au_resource_type :: py_value
  au_outcome :: py_value
  au_resource_id :: py_value
  au_correlation_id :: py_value
  au_details :: py_value

datatype audit_error =
    No_transaction
  | Name_shape string string | Name_format string
  | Outcome_shape string | Outcome_unknown
  | Not_a_uuid string
  | Bad_details metadata_error
  | No_context

definition require_audit_name :: "(utext \<Rightarrow> bool) \<Rightarrow> string \<Rightarrow> py_value \<Rightarrow> audit_error + utext" where
  "require_audit_name p what v =
     (case value_shape v of Some sh \<Rightarrow> Inl (Name_shape what sh)
      | None \<Rightarrow> (case v of V_text t \<Rightarrow> if p t then Inr t else Inl (Name_format what)
                 | _ \<Rightarrow> Inl (Name_format what)))"

definition require_outcome :: "py_value \<Rightarrow> audit_error + utext" where
  "require_outcome v =
     (case value_shape v of Some sh \<Rightarrow> Inl (Outcome_shape sh)
      | None \<Rightarrow> (case v of V_text t \<Rightarrow> if t \<in> cps ` set audit_outcomes then Inr t else Inl Outcome_unknown
                 | _ \<Rightarrow> Inl Outcome_unknown))"

definition require_optional_uuid :: "string \<Rightarrow> py_value \<Rightarrow> audit_error + utext option" where
  "require_optional_uuid what v =
     (case v of V_none \<Rightarrow> Inr None | V_uuid u \<Rightarrow> Inr (Some u) | _ \<Rightarrow> Inl (Not_a_uuid what))"

record audit_args =
  aa_action :: utext
  aa_outcome :: utext
  aa_resource_type :: utext
  aa_resource_id :: "utext option"
  aa_correlation_id :: "utext option"
  aa_details :: utext

text \<open>
  The arguments \<open>append_audit_event\<close> passes to the database function: neither tenant nor actor nor
  time is among them.
\<close>

definition append_audit_event ::
  "(rat \<Rightarrow> utext) \<Rightarrow> bool \<Rightarrow> bool \<Rightarrow> audit_spec \<Rightarrow> audit_error + audit_args" where
  "append_audit_event ft in_transaction authenticated ev =
     (if \<not> in_transaction then Inl No_transaction
      else case require_audit_name dotted_name ''action'' (au_action ev) of Inl e \<Rightarrow> Inl e
      | Inr action \<Rightarrow> (case require_audit_name (full_match metadata_key_regex) ''resource type''
          (au_resource_type ev) of Inl e \<Rightarrow> Inl e
      | Inr rtype \<Rightarrow> (case require_outcome (au_outcome ev) of Inl e \<Rightarrow> Inl e
      | Inr outcome \<Rightarrow> (case require_optional_uuid ''resource id'' (au_resource_id ev) of Inl e \<Rightarrow> Inl e
      | Inr rid \<Rightarrow> (case require_optional_uuid ''correlation id'' (au_correlation_id ev) of Inl e \<Rightarrow> Inl e
      | Inr cid \<Rightarrow> (case validated_metadata ft (au_details ev) of Inl e \<Rightarrow> Inl (Bad_details e)
      | Inr details \<Rightarrow>
          if \<not> authenticated then Inl No_context
          else Inr \<lparr>aa_action = action, aa_outcome = outcome, aa_resource_type = rtype,
            aa_resource_id = rid, aa_correlation_id = cid,
            aa_details = canonical_json ft details\<rparr>))))))"


section \<open>Properties\<close>

text \<open>The policy stated as a predicate, with no order of checks and no positions.\<close>

fun scalar_ok :: "py_value \<Rightarrow> bool" where
  "scalar_ok (V_text t) \<longleftrightarrow> looks_like_secret t = None \<and> length t \<le> max_metadata_string_length"
| "scalar_ok V_none = True" | "scalar_ok (V_bool b) = True" | "scalar_ok (V_int n) = True"
| "scalar_ok (V_float x) = True" | "scalar_ok (V_uuid u) = True"
| "scalar_ok _ = False"

fun item_ok :: "py_value \<Rightarrow> bool" where
  "item_ok (V_seq vs) \<longleftrightarrow> length vs \<le> max_metadata_sequence_length \<and> list_all scalar_ok vs"
| "item_ok v \<longleftrightarrow> scalar_ok v"

fun key_ok :: "py_value \<Rightarrow> bool" where
  "key_ok (V_text k) \<longleftrightarrow> looks_like_secret k = None \<and> full_match metadata_key_regex k \<and>
     k \<notin> cps ` set denied_metadata_keys"
| "key_ok _ = False"

fun render_scalar :: "py_value \<Rightarrow> meta_scalar" where
  "render_scalar (V_text t) = M_text t" | "render_scalar (V_uuid u) = M_text u"
| "render_scalar (V_bool b) = M_bool b" | "render_scalar (V_int n) = M_int n"
| "render_scalar (V_float x) = M_float x" | "render_scalar _ = M_null"

fun render_item :: "py_value \<Rightarrow> meta_item" where
  "render_item (V_seq vs) = Sequence (map render_scalar vs)"
| "render_item v = Scalar (render_scalar v)"

fun key_text :: "py_value \<Rightarrow> utext" where
  "key_text (V_text k) = k" | "key_text _ = []"

lemma bind_Inr:
  "(case r of Inl e \<Rightarrow> Inl (h e) | Inr x \<Rightarrow> f x) = Inr y \<longleftrightarrow> (\<exists>x. r = Inr x \<and> f x = Inr y)"
  by (cases r) auto

lemma check_scalar_Inr: "check_scalar i p v = Inr s \<longleftrightarrow> scalar_ok v \<and> s = render_scalar v"
  by (cases v) (auto simp: check_scalar_def split: option.splits)

lemma check_key_Inr: "check_key i v = Inr k \<longleftrightarrow> key_ok v \<and> k = key_text v"
  by (cases v) (auto simp: check_key_def split: option.splits if_splits)

lemma seq_map_indexed:
  assumes "\<And>i x y. f (i, x) = Inr y \<longleftrightarrow> P x \<and> y = g x"
  shows "seq_map f (zip [0..<length xs] xs) = Inr ys \<longleftrightarrow> list_all P xs \<and> ys = map g xs"
proof -
  have "seq_map f (zip is xs) = Inr ys \<longleftrightarrow> list_all P xs \<and> ys = map g xs"
    if "length is = length xs" for "is"
    using that
  proof (induction "is" xs arbitrary: ys rule: list_induct2)
    case (Cons i "is" x xs)
    have "seq_map f (zip (i # is) (x # xs)) = Inr ys \<longleftrightarrow>
        (\<exists>y ys'. ys = y # ys' \<and> f (i, x) = Inr y \<and> seq_map f (zip is xs) = Inr ys')"
      by (auto split: sum.splits)
    then show ?case unfolding Cons.IH assms by auto
  qed auto
  then show ?thesis by simp
qed

lemma check_item_Inr: "check_item i v = Inr it \<longleftrightarrow> item_ok v \<and> it = render_item v"
proof (cases v)
  case (V_seq vs)
  have "seq_map (\<lambda>(p, e). check_scalar i (Some p) e) (zip [0..<length vs] vs) = Inr ss \<longleftrightarrow>
      list_all scalar_ok vs \<and> ss = map render_scalar vs" for ss
    by (rule seq_map_indexed) (simp add: check_scalar_Inr)
  then show ?thesis using V_seq by (auto simp: check_item_def bind_Inr)
qed (auto simp: check_item_def bind_Inr check_scalar_Inr)

lemma validated_metadata_Inr:
  "validated_metadata ft v = Inr out \<longleftrightarrow>
   (\<exists>kvs n. v = V_map kvs \<and> length kvs \<le> max_metadata_keys \<and>
      list_all (\<lambda>(k, x). key_ok k \<and> item_ok x) kvs \<and>
      out = map (\<lambda>(k, x). (key_text k, render_item x)) kvs \<and>
      utf8_length (canonical_json ft out) = Some n \<and> n \<le> max_metadata_document_bytes)"
proof (cases v)
  case (V_map kvs)
  have entry: "check_entry (i, kx) = Inr y \<longleftrightarrow>
      (case kx of (k, x) \<Rightarrow> key_ok k \<and> item_ok x) \<and> y = (case kx of (k, x) \<Rightarrow> (key_text k, render_item x))"
    for i kx y
    by (cases kx) (auto simp: check_entry_def bind_Inr check_key_Inr check_item_Inr)
  have "seq_map check_entry (zip [0..<length kvs] kvs) = Inr ys \<longleftrightarrow>
      list_all (\<lambda>(k, x). key_ok k \<and> item_ok x) kvs \<and>
      ys = map (\<lambda>(k, x). (key_text k, render_item x)) kvs" for ys
    by (rule seq_map_indexed, rule entry)
  then show ?thesis using V_map
    by (auto simp: validated_metadata_def split: sum.splits option.splits)
qed (simp_all add: validated_metadata_def)

text \<open>
  A document is stored exactly when it is a mapping of at most 32 entries, each of whose keys
  is an identifier that neither has a secret's shape nor names content, and each of whose values is
  a bounded scalar without a secret's shape or a short list of them, and its canonical rendering
  can be encoded within the byte limit. What is stored is the document itself, identifiers rendered.
\<close>

theorem metadata_policy_declarative:
  "validated_metadata ft v = Inr out \<longleftrightarrow>
   (\<exists>kvs n. v = V_map kvs \<and> length kvs \<le> max_metadata_keys \<and>
      list_all (\<lambda>(k, x). key_ok k \<and> item_ok x) kvs \<and>
      out = map (\<lambda>(k, x). (key_text k, render_item x)) kvs \<and>
      utf8_length (canonical_json ft out) = Some n \<and> n \<le> max_metadata_document_bytes)"
  by (rule validated_metadata_Inr)

lemma sort_key_unique:
  fixes xs ys :: "('k::linorder \<times> 'v) list"
  assumes "set xs = set ys" "distinct (map fst xs)" "distinct (map fst ys)"
  shows "sort_key fst xs = sort_key fst ys"
proof -
  have "map fst (sort_key fst xs) = map fst (sort_key fst ys)"
    using assms by (intro sorted_distinct_set_unique) (simp_all add: distinct_map)
  moreover have "inj_on fst (set xs)" using assms(2) by (simp add: distinct_map)
  ultimately show ?thesis
    using assms(1) by (intro map_inj_on [of fst]) simp_all
qed

text \<open>
  The canonical rendering does not depend on the order a document's entries were written in:
  two documents with the same entries render, and so are fingerprinted, the same.
\<close>

theorem canonical_rendering:
  assumes "set d = set d'" and "distinct (map fst d)" and "distinct (map fst d')"
  shows "canonical_json ft d = canonical_json ft d'"
  unfolding canonical_json_def by (simp only: sort_key_unique [OF assms])

lemma canonical_rendering_witness:
  "canonical_json (\<lambda>x. []) [(cps ''b'', Scalar M_null), (cps ''a'', Scalar (M_bool True))] =
   canonical_json (\<lambda>x. []) [(cps ''a'', Scalar (M_bool True)), (cps ''b'', Scalar M_null)]"
  by (rule canonical_rendering) (auto simp: cps_def)

text \<open>
  An audit event that reaches the database was stated inside an open transaction with an
  authenticated context, its names match their grammar, its outcome is one of the four words, its
  details pass the metadata policy, and none of its names has the shape of a secret.
\<close>

theorem audit_event_checked:
  assumes "append_audit_event ft in_transaction authenticated ev = Inr a"
  shows "in_transaction \<and> authenticated \<and> dotted_name (aa_action a) \<and>
    full_match metadata_key_regex (aa_resource_type a) \<and> aa_outcome a \<in> cps ` set audit_outcomes \<and>
    looks_like_secret (aa_action a) = None \<and> looks_like_secret (aa_resource_type a) = None \<and>
    (\<exists>d. validated_metadata ft (au_details ev) = Inr d \<and> aa_details a = canonical_json ft d)"
  using assms
  by (auto simp: append_audit_event_def require_audit_name_def require_outcome_def
      split: if_splits sum.splits option.splits py_value.splits)

definition demo_event :: audit_spec where
  "demo_event = \<lparr>au_action = V_text (cps ''workspace.create''), au_resource_type = V_text (cps ''workspace''),
     au_outcome = V_text (cps ''succeeded''), au_resource_id = V_none, au_correlation_id = V_none,
     au_details = V_map [(V_text (cps ''shards''), V_int 3)]\<rparr>"

lemma audit_event_checked_witness:
  "\<exists>a. append_audit_event (\<lambda>x. []) True True demo_event = Inr a \<and> dotted_name (aa_action a)"
proof -
  have "\<not> isl (append_audit_event (\<lambda>x. []) True True demo_event)" by code_simp
  then obtain a where a: "append_audit_event (\<lambda>x. []) True True demo_event = Inr a"
    by (cases "append_audit_event (\<lambda>x. []) True True demo_event") auto
  from audit_event_checked [OF a] a show ?thesis by blast
qed

section \<open>The database half\<close>

text \<open>
  \<open>firmbatch.audit_require_acceptable_details\<close> of migration \<open>0003\<close>, on a \<open>jsonb\<close> value. The size
  of its text form is an argument: PostgreSQL renders it, with spaces.
\<close>

datatype jsonb =
    J_null | J_bool bool | J_number rat | J_string utext
  | J_array "jsonb list" | J_object "(utext \<times> jsonb) list"

definition max_metadata_bytes :: nat where "max_metadata_bytes = 4096"

datatype details_error =
    D_not_object | D_too_many_keys
  | D_key_shape nat string | D_key_format nat | D_key_denied nat
  | D_nested nat "nat option" | D_array_too_long nat
  | D_shape nat "nat option" string | D_too_long nat "nat option"
  | D_too_large

definition sql_check_string :: "nat \<Rightarrow> nat option \<Rightarrow> utext \<Rightarrow> details_error + unit" where
  "sql_check_string i p v =
     (case looks_like_secret v of Some sh \<Rightarrow> Inl (D_shape i p sh)
      | None \<Rightarrow> if length v > max_metadata_string_length then Inl (D_too_long i p) else Inr ())"

definition sql_check_entry :: "nat \<Rightarrow> nat \<times> jsonb \<Rightarrow> details_error + unit" where
  "sql_check_entry i pe =
     (case snd pe of
        J_object kvs \<Rightarrow> Inl (D_nested i (Some (fst pe)))
      | J_array es \<Rightarrow> Inl (D_nested i (Some (fst pe)))
      | J_string v \<Rightarrow> sql_check_string i (Some (fst pe)) v
      | _ \<Rightarrow> Inr ())"

definition sql_check_value :: "nat \<Rightarrow> jsonb \<Rightarrow> details_error + unit" where
  "sql_check_value i v =
     (case v of
        J_object kvs \<Rightarrow> Inl (D_nested i None)
      | J_array es \<Rightarrow>
          if length es > max_metadata_sequence_length then Inl (D_array_too_long i)
          else (case seq_map (sql_check_entry i) (zip [0..<length es] es) of
                  Inl e \<Rightarrow> Inl e | Inr us \<Rightarrow> Inr ())
      | J_string s \<Rightarrow> sql_check_string i None s
      | _ \<Rightarrow> Inr ())"

definition sql_check_key :: "nat \<Rightarrow> utext \<Rightarrow> details_error + unit" where
  "sql_check_key i k =
     (case looks_like_secret k of Some sh \<Rightarrow> Inl (D_key_shape i sh)
      | None \<Rightarrow>
          if \<not> full_match metadata_key_regex k then Inl (D_key_format i)
          else if k \<in> cps ` set denied_metadata_keys then Inl (D_key_denied i)
          else Inr ())"

definition sql_check_member :: "nat \<times> utext \<times> jsonb \<Rightarrow> details_error + unit" where
  "sql_check_member m =
     (case m of (i, k, v) \<Rightarrow>
        (case sql_check_key i k of Inl e \<Rightarrow> Inl e | Inr u \<Rightarrow> sql_check_value i v))"

definition audit_require_acceptable_details ::
  "(jsonb \<Rightarrow> nat) \<Rightarrow> jsonb option \<Rightarrow> details_error + unit" where
  "audit_require_acceptable_details octets d =
     (case d of None \<Rightarrow> Inr ()
      | Some (J_object kvs) \<Rightarrow>
          if length kvs > max_metadata_keys then Inl D_too_many_keys
          else (case seq_map sql_check_member (zip [0..<length kvs] kvs) of Inl e \<Rightarrow> Inl e
            | Inr us \<Rightarrow> if octets (J_object kvs) > max_metadata_bytes then Inl D_too_large else Inr ())
      | Some _ \<Rightarrow> Inl D_not_object)"

text \<open>The Python value a \<open>jsonb\<close> value stands for.\<close>

fun py_of_jsonb :: "jsonb \<Rightarrow> py_value" where
  "py_of_jsonb J_null = V_none"
| "py_of_jsonb (J_bool b) = V_bool b"
| "py_of_jsonb (J_number x) = V_float x"
| "py_of_jsonb (J_string v) = V_text v"
| "py_of_jsonb (J_array es) = V_seq (map py_of_jsonb es)"
| "py_of_jsonb (J_object kvs) = V_map (map (\<lambda>(k, v). (V_text k, py_of_jsonb v)) kvs)"

lemma sql_check_string_Inr:
  "sql_check_string i p v = Inr u \<longleftrightarrow> looks_like_secret v = None \<and> length v \<le> max_metadata_string_length"
  by (auto simp: sql_check_string_def split: option.splits)

lemma sql_check_entry_Inr: "sql_check_entry i (p, e) = Inr u \<longleftrightarrow> scalar_ok (py_of_jsonb e) \<and> u = ()"
  by (cases e) (auto simp: sql_check_entry_def sql_check_string_Inr)

lemma sql_check_value_Inr: "sql_check_value i v = Inr u \<longleftrightarrow> item_ok (py_of_jsonb v)"
proof (cases v)
  case (J_array es)
  have "seq_map (sql_check_entry i) (zip [0..<length es] es) = Inr us \<longleftrightarrow>
      list_all (\<lambda>e. scalar_ok (py_of_jsonb e)) es \<and> us = map (\<lambda>_. ()) es" for us
    by (rule seq_map_indexed) (rule sql_check_entry_Inr)
  then show ?thesis using J_array
    by (simp add: sql_check_value_def bind_Inr list.pred_map comp_def)
qed (auto simp: sql_check_value_def sql_check_string_Inr)

lemma sql_check_key_Inr: "sql_check_key i k = Inr u \<longleftrightarrow> key_ok (V_text k)"
  by (auto simp: sql_check_key_def split: option.splits)

lemma acceptable_details_Inr:
  "audit_require_acceptable_details octets d = Inr () \<longleftrightarrow>
   (case d of None \<Rightarrow> True
    | Some v \<Rightarrow> (\<exists>kvs. py_of_jsonb v = V_map kvs \<and> length kvs \<le> max_metadata_keys \<and>
        list_all (\<lambda>(k, x). key_ok k \<and> item_ok x) kvs) \<and> octets v \<le> max_metadata_bytes)"
proof (cases d)
  case (Some v)
  show ?thesis
  proof (cases v)
    case (J_object kvs)
    have member: "sql_check_member (i, kx) = Inr u \<longleftrightarrow>
        (case kx of (k, x) \<Rightarrow> key_ok (V_text k) \<and> item_ok (py_of_jsonb x)) \<and> u = (\<lambda>_. ()) kx"
      for i kx u
      by (cases kx) (auto simp: sql_check_member_def bind_Inr sql_check_key_Inr sql_check_value_Inr)
    have "seq_map sql_check_member (zip [0..<length kvs] kvs) = Inr us \<longleftrightarrow>
        list_all (\<lambda>(k, x). key_ok (V_text k) \<and> item_ok (py_of_jsonb x)) kvs \<and> us = map (\<lambda>_. ()) kvs" for us
      by (rule seq_map_indexed, rule member)
    then show ?thesis using Some J_object
      by (simp add: audit_require_acceptable_details_def bind_Inr list.pred_map comp_def split_def)
  qed (simp_all add: Some audit_require_acceptable_details_def)
qed (simp add: audit_require_acceptable_details_def)


end
