(* ===== verification/Lifecycle_Definition.thy ===== *)
theory Lifecycle_Definition
  imports Metadata_Policy
begin

text \<open>
  Lifecycle machine definitions: their validation in \<open>db/lifecycle.py\<close>, the three protected
  tables with the triggers and constraints of migration \<open>0004\<close> that bind every writer, and the
  registration that builds a definition and publishes it. A machine version is sealed once
  published; \<open>definition_machine\<close> carries that through every sequence of statements.
\<close>

section \<open>Definitions\<close>

definition max_lifecycle_states :: nat where "max_lifecycle_states = 64"
definition max_lifecycle_transitions :: nat where "max_lifecycle_transitions = 512"
definition max_lifecycle_reason_length :: nat where "max_lifecycle_reason_length = 200"

text \<open>What a caller passes as a \<open>LifecycleDefinition\<close>, and the definition once checked.\<close>

record raw_definition =
  raw_machine_key :: py_value
  raw_version :: py_value
  raw_initial :: py_value
  raw_states :: "py_value list"
  raw_terminal :: "py_value list"
  raw_transitions :: "py_value list"
  raw_read_scope :: py_value
  raw_create_scope :: py_value
  raw_transition_scope :: py_value

record lifecycle_definition =
  ld_machine_key :: utext
  ld_version :: int
  ld_initial :: utext
  ld_states :: "utext list"
  ld_terminal :: "utext list"
  ld_transitions :: "(utext \<times> utext) list"
  ld_read_scope :: string
  ld_create_scope :: string
  ld_transition_scope :: string

datatype name_role =
    Machine_key | State_name | Initial_state | Terminal_state | Edge_source | Edge_target
  | Expected_state | Target_state

datatype scope_role = Read_capability | Create_capability | Transition_capability

datatype definition_error =
    Name_looks_like name_role "nat option" string
  | Name_malformed name_role "nat option"
  | Version_not_integer | Version_not_positive
  | No_states | Too_many_states | Repeated_state
  | Initial_undeclared
  | Terminal_undeclared nat | Repeated_terminal
  | Too_many_edges | Edge_not_pair nat
  | Source_undeclared nat | Target_undeclared nat | Leaves_terminal nat | Repeated_edge nat
  | Scope_shape scope_role string | Scope_type scope_role | Scope_ineligible scope_role
  | Autocommit_connection | Already_registered | Integer_out_of_range
  | Definition_refused

text \<open>\<open>LIFECYCLE_NAME_REGEX\<close> is \<open>SIMPLE_NAME_REGEX\<close>.\<close>

definition require_name :: "name_role \<Rightarrow> nat option \<Rightarrow> py_value \<Rightarrow> definition_error + utext" where
  "require_name what i v =
     (case value_shape v of Some sh \<Rightarrow> Inl (Name_looks_like what i sh)
      | None \<Rightarrow> (case v of
          V_text t \<Rightarrow> if full_match metadata_key_regex t then Inr t else Inl (Name_malformed what i)
        | _ \<Rightarrow> Inl (Name_malformed what i)))"

definition require_scope_value :: "scope_role \<Rightarrow> py_value \<Rightarrow> definition_error + string" where
  "require_scope_value what v =
     (case value_shape v of Some sh \<Rightarrow> Inl (Scope_shape what sh)
      | None \<Rightarrow> (case v of
          V_text t \<Rightarrow> (case find (\<lambda>s. cps s = t) lifecycle_eligible_scopes of
             None \<Rightarrow> Inl (Scope_ineligible what) | Some s \<Rightarrow> Inr s)
        | _ \<Rightarrow> Inl (Scope_type what)))"

definition require_version :: "py_value \<Rightarrow> definition_error + int" where
  "require_version v =
     (case v of V_int n \<Rightarrow> if n < 1 then Inl Version_not_positive else Inr n
      | _ \<Rightarrow> Inl Version_not_integer)"

definition require_states :: "py_value list \<Rightarrow> definition_error + utext list" where
  "require_states vs =
     (if vs = [] then Inl No_states
      else if length vs > max_lifecycle_states then Inl Too_many_states
      else case seq_map (\<lambda>(i, v). require_name State_name (Some i) v) (zip [0..<length vs] vs) of
        Inl e \<Rightarrow> Inl e
      | Inr states \<Rightarrow> if distinct states then Inr states else Inl Repeated_state)"

definition require_initial :: "utext list \<Rightarrow> py_value \<Rightarrow> definition_error + utext" where
  "require_initial known v =
     (case require_name Initial_state None v of Inl e \<Rightarrow> Inl e
      | Inr s \<Rightarrow> if s \<in> set known then Inr s else Inl Initial_undeclared)"

definition require_terminal :: "utext list \<Rightarrow> py_value list \<Rightarrow> definition_error + utext list" where
  "require_terminal known vs =
     (case seq_map (\<lambda>(i, v). case require_name Terminal_state (Some i) v of Inl e \<Rightarrow> Inl e
          | Inr s \<Rightarrow> if s \<in> set known then Inr s else Inl (Terminal_undeclared i))
        (zip [0..<length vs] vs) of Inl e \<Rightarrow> Inl e
      | Inr ts \<Rightarrow> if distinct ts then Inr ts else Inl Repeated_terminal)"

text \<open>One edge: its shape, its two names, then the graph rules.\<close>

definition require_edge ::
  "utext list \<Rightarrow> utext list \<Rightarrow> nat \<Rightarrow> py_value \<Rightarrow> definition_error + utext \<times> utext" where
  "require_edge known terminal i v =
     (case v of
        V_seq [a, b] \<Rightarrow>
          (case require_name Edge_source (Some i) a of Inl e \<Rightarrow> Inl e
           | Inr s \<Rightarrow> (case require_name Edge_target (Some i) b of Inl e \<Rightarrow> Inl e
           | Inr t \<Rightarrow>
               if s \<notin> set known then Inl (Source_undeclared i)
               else if t \<notin> set known then Inl (Target_undeclared i)
               else if s \<in> set terminal then Inl (Leaves_terminal i)
               else Inr (s, t)))
      | _ \<Rightarrow> Inl (Edge_not_pair i))"

fun require_edges ::
  "utext list \<Rightarrow> utext list \<Rightarrow> nat \<Rightarrow> (utext \<times> utext) list \<Rightarrow> py_value list
     \<Rightarrow> definition_error + (utext \<times> utext) list" where
  "require_edges known terminal i seen [] = Inr []"
| "require_edges known terminal i seen (v # vs) =
     (case require_edge known terminal i v of Inl e \<Rightarrow> Inl e
      | Inr e \<Rightarrow> if e \<in> set seen then Inl (Repeated_edge i)
          else (case require_edges known terminal (Suc i) (e # seen) vs of Inl e \<Rightarrow> Inl e
            | Inr es \<Rightarrow> Inr (e # es)))"

definition validated_lifecycle_definition ::
  "raw_definition \<Rightarrow> definition_error + lifecycle_definition" where
  "validated_lifecycle_definition d =
     (case require_name Machine_key None (raw_machine_key d) of Inl e \<Rightarrow> Inl e
      | Inr key \<Rightarrow> (case require_version (raw_version d) of Inl e \<Rightarrow> Inl e
      | Inr version \<Rightarrow> (case require_states (raw_states d) of Inl e \<Rightarrow> Inl e
      | Inr states \<Rightarrow> (case require_initial states (raw_initial d) of Inl e \<Rightarrow> Inl e
      | Inr initial \<Rightarrow> (case require_terminal states (raw_terminal d) of Inl e \<Rightarrow> Inl e
      | Inr terminal \<Rightarrow>
         (if length (raw_transitions d) > max_lifecycle_transitions then Inl Too_many_edges
          else case require_edges states terminal 0 [] (raw_transitions d) of Inl e \<Rightarrow> Inl e
          | Inr edges \<Rightarrow> (case require_scope_value Read_capability (raw_read_scope d) of Inl e \<Rightarrow> Inl e
          | Inr rs \<Rightarrow> (case require_scope_value Create_capability (raw_create_scope d) of Inl e \<Rightarrow> Inl e
          | Inr cs \<Rightarrow> (case require_scope_value Transition_capability (raw_transition_scope d) of
              Inl e \<Rightarrow> Inl e
            | Inr ts \<Rightarrow> Inr \<lparr>ld_machine_key = key, ld_version = version, ld_initial = initial,
                ld_states = states, ld_terminal = terminal, ld_transitions = edges,
                ld_read_scope = rs, ld_create_scope = cs, ld_transition_scope = ts\<rparr>)))))))))"

section \<open>The protected tables\<close>

text \<open>Each row carries the transaction that inserted it, PostgreSQL's \<open>xmin\<close>.\<close>

type_synonym machine_id = "utext \<times> int"

record machine_row =
  mr_id :: machine_id
  mr_read_scope :: string
  mr_create_scope :: string
  mr_transition_scope :: string
  mr_created_at :: rat
  mr_published_at :: "rat option"
  mr_xmin :: nat

record state_row =
  sr_machine :: machine_id
  sr_state :: utext
  sr_is_initial :: bool
  sr_is_terminal :: bool
  sr_xmin :: nat

record edge_row =
  er_machine :: machine_id
  er_from :: utext
  er_to :: utext
  er_xmin :: nat

record definitions =
  machines :: "machine_row list"
  states :: "state_row list"
  edges :: "edge_row list"

definition no_definitions :: definitions where
  "no_definitions = \<lparr>machines = [], states = [], edges = []\<rparr>"

definition find_machine :: "machine_id \<Rightarrow> definitions \<Rightarrow> machine_row option" where
  "find_machine m d = find (\<lambda>r. mr_id r = m) (machines d)"

definition published :: "machine_id \<Rightarrow> definitions \<Rightarrow> bool" where
  "published m d \<longleftrightarrow> (case find_machine m d of None \<Rightarrow> False | Some r \<Rightarrow> mr_published_at r \<noteq> None)"

section \<open>The readers\<close>

datatype capability = Read | Create | Transition

definition lifecycle_required_scope :: "definitions \<Rightarrow> machine_id \<Rightarrow> capability \<Rightarrow> string option" where
  "lifecycle_required_scope d m c =
     (case find_machine m d of None \<Rightarrow> None
      | Some r \<Rightarrow> if mr_published_at r = None then None
          else Some (case c of Read \<Rightarrow> mr_read_scope r | Create \<Rightarrow> mr_create_scope r
            | Transition \<Rightarrow> mr_transition_scope r))"

definition states_of :: "machine_id \<Rightarrow> definitions \<Rightarrow> state_row list" where
  "states_of m d = filter (\<lambda>s. sr_machine s = m) (states d)"

definition edges_of :: "machine_id \<Rightarrow> definitions \<Rightarrow> edge_row list" where
  "edges_of m d = filter (\<lambda>e. er_machine e = m) (edges d)"

definition lifecycle_initial_state :: "definitions \<Rightarrow> machine_id \<Rightarrow> utext option" where
  "lifecycle_initial_state d m =
     (if published m d then map_option sr_state (find sr_is_initial (states_of m d)) else None)"

definition lifecycle_state_is_terminal :: "definitions \<Rightarrow> machine_id \<Rightarrow> utext \<Rightarrow> bool" where
  "lifecycle_state_is_terminal d m s \<longleftrightarrow> published m d \<and>
     (\<exists>r \<in> set (states_of m d). sr_state r = s \<and> sr_is_terminal r)"

definition lifecycle_edge_exists :: "definitions \<Rightarrow> machine_id \<Rightarrow> utext \<Rightarrow> utext \<Rightarrow> bool" where
  "lifecycle_edge_exists d m a b \<longleftrightarrow> published m d \<and>
     (\<exists>r \<in> set (edges_of m d). er_from r = a \<and> er_to r = b)"

section \<open>Statements on the tables\<close>

text \<open>
  Each statement runs its \<open>BEFORE\<close> triggers in name order and then the constraints of the table.
  \<open>None\<close> is an \<open>INSERT ... ON CONFLICT DO NOTHING\<close> that found the row.
\<close>

definition name_ok :: "utext \<Rightarrow> bool" where
  "name_ok s \<longleftrightarrow> full_match metadata_key_regex s"

definition scope_ok :: "string \<Rightarrow> bool" where
  "scope_ok s \<longleftrightarrow> s \<in> set lifecycle_eligible_scopes"

text \<open>A version is an \<open>integer\<close> column; Python's integers are not bounded.\<close>

definition max_sql_integer :: int where "max_sql_integer = 2147483647"

definition insert_machine ::
  "machine_row \<Rightarrow> definitions \<Rightarrow> definition_error + definitions option" where
  "insert_machine r d =
     (if snd (mr_id r) > max_sql_integer then Inl Integer_out_of_range
      else if mr_published_at r \<noteq> None then Inl Definition_refused
      else if \<not> name_ok (fst (mr_id r)) \<or> snd (mr_id r) < 1 \<or> \<not> scope_ok (mr_read_scope r) \<or>
         \<not> scope_ok (mr_create_scope r) \<or> \<not> scope_ok (mr_transition_scope r) then Inl Definition_refused
      else if find_machine (mr_id r) d \<noteq> None then Inr None
      else Inr (Some (d\<lparr>machines := machines d @ [r]\<rparr>)))"

text \<open>\<open>lifecycle_definition_rows_before_insert\<close>: only a draft gains states or edges.\<close>

definition draft :: "machine_id \<Rightarrow> definitions \<Rightarrow> bool" where
  "draft m d \<longleftrightarrow> (case find_machine m d of None \<Rightarrow> False | Some r \<Rightarrow> mr_published_at r = None)"

definition insert_state :: "state_row \<Rightarrow> definitions \<Rightarrow> definition_error + definitions" where
  "insert_state r d =
     (if \<not> draft (sr_machine r) d then Inl Definition_refused
      else if \<not> name_ok (sr_state r) then Inl Definition_refused
      else if \<exists>s \<in> set (states_of (sr_machine r) d). sr_state s = sr_state r then Inl Definition_refused
      else if sr_is_initial r \<and> (\<exists>s \<in> set (states_of (sr_machine r) d). sr_is_initial s)
        then Inl Definition_refused
      else Inr (d\<lparr>states := states d @ [r]\<rparr>))"

text \<open>\<open>lifecycle_edges_check_source\<close> reads the state table without asking for publication.\<close>

definition insert_edge :: "edge_row \<Rightarrow> definitions \<Rightarrow> definition_error + definitions" where
  "insert_edge r d =
     (if \<not> draft (er_machine r) d then Inl Definition_refused
      else if \<exists>s \<in> set (states_of (er_machine r) d). sr_state s = er_from r \<and> sr_is_terminal s
        then Inl Definition_refused
      else if \<exists>e \<in> set (edges_of (er_machine r) d). er_from e = er_from r \<and> er_to e = er_to r
        then Inl Definition_refused
      else if er_from r \<notin> sr_state ` set (states_of (er_machine r) d) \<or>
              er_to r \<notin> sr_state ` set (states_of (er_machine r) d) then Inl Definition_refused
      else Inr (d\<lparr>edges := edges d @ [r]\<rparr>))"

text \<open>
  \<open>lifecycle_machines_before_update\<close>: the one legal update publishes a draft whose rows were all
  written by this transaction and whose graph is complete.
\<close>

definition update_machine ::
  "nat \<Rightarrow> rat \<Rightarrow> machine_id \<Rightarrow> machine_row \<Rightarrow> definitions \<Rightarrow> definition_error + definitions" where
  "update_machine xid now m new d =
     (case find_machine m d of None \<Rightarrow> Inr d
      | Some old \<Rightarrow>
         (let ss = states_of m d; es = edges_of m d
          in if mr_published_at old \<noteq> None \<or> mr_published_at new = None \<or> mr_id new \<noteq> mr_id old \<or>
               mr_read_scope new \<noteq> mr_read_scope old \<or> mr_create_scope new \<noteq> mr_create_scope old \<or>
               mr_transition_scope new \<noteq> mr_transition_scope old \<or>
               mr_created_at new \<noteq> mr_created_at old then Inl Definition_refused
             else if mr_xmin old \<noteq> xid then Inl Definition_refused
             else if \<exists>s \<in> set ss. sr_xmin s \<noteq> xid then Inl Definition_refused
             else if \<exists>e \<in> set es. er_xmin e \<noteq> xid then Inl Definition_refused
             else if ss = [] then Inl Definition_refused
             else if length (filter sr_is_initial ss) \<noteq> 1 then Inl Definition_refused
             else if \<exists>e \<in> set es. er_from e \<notin> sr_state ` set ss \<or> er_to e \<notin> sr_state ` set ss
               then Inl Definition_refused
             else if \<exists>e \<in> set es. \<exists>s \<in> set ss. sr_state s = er_from e \<and> sr_is_terminal s
               then Inl Definition_refused
             else if \<not> scope_ok (mr_read_scope new) \<or> \<not> scope_ok (mr_create_scope new) \<or>
               \<not> scope_ok (mr_transition_scope new) then Inl Definition_refused
             else Inr (d\<lparr>machines := update_where (\<lambda>r. mr_id r = m)
                 (\<lambda>r. r\<lparr>mr_published_at := Some now\<rparr>) (machines d)\<rparr>)))"

definition publish_lifecycle_machine ::
  "nat \<Rightarrow> rat \<Rightarrow> machine_id \<Rightarrow> definitions \<Rightarrow> definition_error + definitions" where
  "publish_lifecycle_machine xid now m d =
     (case find_machine m d of None \<Rightarrow> Inl Definition_refused
      | Some r \<Rightarrow> if mr_published_at r \<noteq> None then Inl Definition_refused
          else update_machine xid now m (r\<lparr>mr_published_at := Some now\<rparr>) d)"

section \<open>Registration\<close>

fun insert_states :: "state_row list \<Rightarrow> definitions \<Rightarrow> definition_error + definitions" where
  "insert_states [] d = Inr d"
| "insert_states (r # rs) d =
     (case insert_state r d of Inl e \<Rightarrow> Inl e | Inr d' \<Rightarrow> insert_states rs d')"

fun insert_edges :: "edge_row list \<Rightarrow> definitions \<Rightarrow> definition_error + definitions" where
  "insert_edges [] d = Inr d"
| "insert_edges (r # rs) d =
     (case insert_edge r d of Inl e \<Rightarrow> Inl e | Inr d' \<Rightarrow> insert_edges rs d')"

definition machine_row_of :: "nat \<Rightarrow> rat \<Rightarrow> lifecycle_definition \<Rightarrow> machine_row" where
  "machine_row_of xid now c = \<lparr>mr_id = (ld_machine_key c, ld_version c),
     mr_read_scope = ld_read_scope c, mr_create_scope = ld_create_scope c,
     mr_transition_scope = ld_transition_scope c, mr_created_at = now, mr_published_at = None,
     mr_xmin = xid\<rparr>"

definition state_rows_of :: "nat \<Rightarrow> lifecycle_definition \<Rightarrow> state_row list" where
  "state_rows_of xid c = map (\<lambda>s. \<lparr>sr_machine = (ld_machine_key c, ld_version c), sr_state = s,
     sr_is_initial = (s = ld_initial c), sr_is_terminal = (s \<in> set (ld_terminal c)),
     sr_xmin = xid\<rparr>) (ld_states c)"

definition edge_rows_of :: "nat \<Rightarrow> lifecycle_definition \<Rightarrow> edge_row list" where
  "edge_rows_of xid c = map (\<lambda>(a, b). \<lparr>er_machine = (ld_machine_key c, ld_version c),
     er_from = a, er_to = b, er_xmin = xid\<rparr>) (ld_transitions c)"

text \<open>All of it or none: an error leaves the caller's transaction, and with it the tables, undone.\<close>

definition register_lifecycle_definition ::
  "nat \<Rightarrow> rat \<Rightarrow> bool \<Rightarrow> raw_definition \<Rightarrow> definitions \<Rightarrow> definition_error + definitions" where
  "register_lifecycle_definition xid now autocommit raw d =
     (case validated_lifecycle_definition raw of Inl e \<Rightarrow> Inl e
      | Inr c \<Rightarrow>
         (if autocommit then Inl Autocommit_connection
          else case insert_machine (machine_row_of xid now c) d of Inl e \<Rightarrow> Inl e
          | Inr None \<Rightarrow> Inl Already_registered
          | Inr (Some d1) \<Rightarrow>
             (case insert_states (state_rows_of xid c) d1 of Inl e \<Rightarrow> Inl e
              | Inr d2 \<Rightarrow> (case insert_edges (edge_rows_of xid c) d2 of Inl e \<Rightarrow> Inl e
              | Inr d3 \<Rightarrow> publish_lifecycle_machine xid now (ld_machine_key c, ld_version c) d3))))"

section \<open>Validation is exact\<close>

definition good_name :: "utext \<Rightarrow> bool" where
  "good_name s \<longleftrightarrow> looks_like_secret s = None \<and> name_ok s"

text \<open>The declarative reading of the rules.\<close>

definition definition_ok :: "lifecycle_definition \<Rightarrow> bool" where
  "definition_ok c \<longleftrightarrow>
     good_name (ld_machine_key c) \<and> 1 \<le> ld_version c \<and>
     ld_states c \<noteq> [] \<and> length (ld_states c) \<le> max_lifecycle_states \<and>
     list_all good_name (ld_states c) \<and> distinct (ld_states c) \<and>
     ld_initial c \<in> set (ld_states c) \<and>
     set (ld_terminal c) \<subseteq> set (ld_states c) \<and> distinct (ld_terminal c) \<and>
     length (ld_transitions c) \<le> max_lifecycle_transitions \<and> distinct (ld_transitions c) \<and>
     set (ld_transitions c) \<subseteq> (set (ld_states c) - set (ld_terminal c)) \<times> set (ld_states c) \<and>
     scope_ok (ld_read_scope c) \<and> scope_ok (ld_create_scope c) \<and> scope_ok (ld_transition_scope c)"

definition edge_value :: "utext \<times> utext \<Rightarrow> py_value" where
  "edge_value e = V_seq [V_text (fst e), V_text (snd e)]"

definition raw_of :: "lifecycle_definition \<Rightarrow> raw_definition" where
  "raw_of c = \<lparr>raw_machine_key = V_text (ld_machine_key c), raw_version = V_int (ld_version c),
     raw_initial = V_text (ld_initial c), raw_states = map V_text (ld_states c),
     raw_terminal = map V_text (ld_terminal c), raw_transitions = map edge_value (ld_transitions c),
     raw_read_scope = V_text (cps (ld_read_scope c)),
     raw_create_scope = V_text (cps (ld_create_scope c)),
     raw_transition_scope = V_text (cps (ld_transition_scope c))\<rparr>"

lemma require_name_Inr: "require_name w i v = Inr s \<longleftrightarrow> v = V_text s \<and> good_name s"
  by (cases v) (auto simp: require_name_def good_name_def name_ok_def split: option.splits)

lemma require_version_Inr: "require_version v = Inr n \<longleftrightarrow> v = V_int n \<and> 1 \<le> n"
  by (cases v) (auto simp: require_version_def)

lemma cps_inj: "cps s = cps t \<longleftrightarrow> s = t"
  by (auto simp: cps_def inj_def dest: map_injective [rotated])

lemma find_text_Some: "find (\<lambda>s. cps s = t) xs = Some s \<longleftrightarrow> t = cps s \<and> s \<in> set xs"
  by (induction xs) (auto simp: cps_inj)

lemma require_scope_text:
  "require_scope_value w (V_text t) = Inr s \<longleftrightarrow> t = cps s \<and> scope_ok s"
proof (cases "looks_like_secret t")
  case None
  then have "require_scope_value w (V_text t) = Inr s \<longleftrightarrow>
      find (\<lambda>s. cps s = t) lifecycle_eligible_scopes = Some s"
    by (simp add: require_scope_value_def split: option.splits)
  then show ?thesis unfolding find_text_Some scope_ok_def .
next
  case (Some sh)
  then have "t \<noteq> cps s" if "scope_ok s"
    using known_not_secret that by (auto simp: scope_ok_def lifecycle_eligible_scopes_def)
  with Some show ?thesis by (auto simp: require_scope_value_def)
qed

lemma require_scope_Inr: "require_scope_value w v = Inr s \<longleftrightarrow> v = V_text (cps s) \<and> scope_ok s"
proof (cases v)
  case (V_text t) then show ?thesis by (simp add: require_scope_text)
qed (simp_all add: require_scope_value_def)

lemma map_text_iff:
  "list_all (\<lambda>v. \<exists>s. v = V_text s \<and> P s) vs \<and> ys = map key_text vs \<longleftrightarrow>
   vs = map V_text ys \<and> list_all P ys"
proof (induction vs arbitrary: ys)
  case (Cons v vs)
  then show ?case by (cases ys) auto
qed auto

lemma named_list_Inr:
  "seq_map (\<lambda>(i, v). require_name w (Some i) v) (zip [0..<length vs] vs) = Inr ys \<longleftrightarrow>
   vs = map V_text ys \<and> list_all good_name ys"
proof -
  have "seq_map (\<lambda>(i, v). require_name w (Some i) v) (zip [0..<length vs] vs) = Inr ys \<longleftrightarrow>
      list_all (\<lambda>v. \<exists>s. v = V_text s \<and> good_name s) vs \<and> ys = map key_text vs"
    by (rule seq_map_indexed) (auto simp: require_name_Inr)
  then show ?thesis unfolding map_text_iff .
qed

lemma require_states_Inr:
  "require_states vs = Inr ys \<longleftrightarrow> vs = map V_text ys \<and> ys \<noteq> [] \<and>
     length ys \<le> max_lifecycle_states \<and> list_all good_name ys \<and> distinct ys"
  by (auto simp: require_states_def bind_Inr named_list_Inr)

lemma require_initial_Inr:
  "require_initial known v = Inr s \<longleftrightarrow> v = V_text s \<and> good_name s \<and> s \<in> set known"
  by (auto simp: require_initial_def bind_Inr require_name_Inr)

lemma require_terminal_Inr:
  "require_terminal known vs = Inr ys \<longleftrightarrow> vs = map V_text ys \<and>
     list_all (\<lambda>s. good_name s \<and> s \<in> set known) ys \<and> distinct ys"
proof -
  have "seq_map (\<lambda>(i, v). case require_name Terminal_state (Some i) v of Inl e \<Rightarrow> Inl e
        | Inr s \<Rightarrow> if s \<in> set known then Inr s else Inl (Terminal_undeclared i))
      (zip [0..<length vs] vs) = Inr ys \<longleftrightarrow>
      list_all (\<lambda>v. \<exists>s. v = V_text s \<and> good_name s \<and> s \<in> set known) vs \<and> ys = map key_text vs" for ys
    by (rule seq_map_indexed) (auto simp: bind_Inr require_name_Inr)
  then have "seq_map (\<lambda>(i, v). case require_name Terminal_state (Some i) v of Inl e \<Rightarrow> Inl e
        | Inr s \<Rightarrow> if s \<in> set known then Inr s else Inl (Terminal_undeclared i))
      (zip [0..<length vs] vs) = Inr ys \<longleftrightarrow>
      vs = map V_text ys \<and> list_all (\<lambda>s. good_name s \<and> s \<in> set known) ys" for ys
    unfolding map_text_iff .
  then show ?thesis unfolding require_terminal_def bind_Inr by auto
qed

lemma require_edge_Inr:
  "require_edge known terminal i v = Inr e \<longleftrightarrow> v = edge_value e \<and> good_name (fst e) \<and>
     good_name (snd e) \<and> e \<in> (set known - set terminal) \<times> set known"
proof (cases "\<exists>a b. v = V_seq [a, b]")
  case True
  then obtain a b where v: "v = V_seq [a, b]" by blast
  then show ?thesis
    by (cases e) (auto simp: require_edge_def bind_Inr require_name_Inr edge_value_def)
next
  case False
  then show ?thesis
    by (auto simp: require_edge_def edge_value_def split: py_value.splits list.splits)
qed

lemma edge_value_inj: "edge_value e = edge_value e' \<longleftrightarrow> e = e'"
  by (cases e; cases e') (simp add: edge_value_def)

lemma require_edges_Inr:
  "require_edges known terminal i seen vs = Inr es \<longleftrightarrow> vs = map edge_value es \<and>
     list_all (\<lambda>e. good_name (fst e) \<and> good_name (snd e) \<and>
       e \<in> (set known - set terminal) \<times> set known) es \<and> distinct es \<and> set es \<inter> set seen = {}"
proof (induction vs arbitrary: i seen es)
  case (Cons v vs)
  show ?case
  proof (cases es)
    case Nil
    then show ?thesis by (auto simp: bind_Inr split: if_splits)
  next
    case (Cons e fs)
    have "require_edges known terminal i seen (v # vs) = Inr (e # fs) \<longleftrightarrow>
        require_edge known terminal i v = Inr e \<and> e \<notin> set seen \<and>
        require_edges known terminal (Suc i) (e # seen) vs = Inr fs"
      by (auto simp: bind_Inr split: if_splits simp del: split_paired_Ex)
    then show ?thesis
      unfolding Cons require_edge_Inr Cons.IH by auto
  qed
qed auto

lemma validated_definition_ok:
  assumes "validated_lifecycle_definition raw = Inr c"
  shows "raw = raw_of c \<and> definition_ok c"
proof -
  have r: "require_name Machine_key None (raw_machine_key raw) = Inr (ld_machine_key c)"
    "require_version (raw_version raw) = Inr (ld_version c)"
    "require_states (raw_states raw) = Inr (ld_states c)"
    "require_initial (ld_states c) (raw_initial raw) = Inr (ld_initial c)"
    "require_terminal (ld_states c) (raw_terminal raw) = Inr (ld_terminal c)"
    "length (raw_transitions raw) \<le> max_lifecycle_transitions"
    "require_edges (ld_states c) (ld_terminal c) 0 [] (raw_transitions raw) = Inr (ld_transitions c)"
    "require_scope_value Read_capability (raw_read_scope raw) = Inr (ld_read_scope c)"
    "require_scope_value Create_capability (raw_create_scope raw) = Inr (ld_create_scope c)"
    "require_scope_value Transition_capability (raw_transition_scope raw) = Inr (ld_transition_scope c)"
    using assms by (auto simp: validated_lifecycle_definition_def bind_Inr split: if_splits)
  note r = r [unfolded require_name_Inr require_version_Inr require_states_Inr require_initial_Inr
      require_terminal_Inr require_edges_Inr require_scope_Inr]
  have "raw = raw_of c" using r unfolding raw_of_def by (cases raw) simp
  moreover have "definition_ok c" using r unfolding definition_ok_def list_all_iff
    by (auto simp: subset_iff)
  ultimately show "raw = raw_of c \<and> definition_ok c" by blast
qed

lemma validated_raw_of:
  assumes ok: "definition_ok c"
  shows "validated_lifecycle_definition (raw_of c) = Inr c"
proof -
  define raw where raw_def: "raw = raw_of c"
  have a: "raw = raw_of c \<and> definition_ok c" using ok raw_def by simp
  have good: "good_name s" if "s \<in> set (ld_states c)" for s
    using ok that by (auto simp: definition_ok_def list_all_iff)
  have "require_name Machine_key None (raw_machine_key raw) = Inr (ld_machine_key c)"
    "require_version (raw_version raw) = Inr (ld_version c)"
    "require_states (raw_states raw) = Inr (ld_states c)"
    using a unfolding require_name_Inr require_version_Inr require_states_Inr
    by (auto simp: raw_of_def definition_ok_def)
  moreover have "require_initial (ld_states c) (raw_initial raw) = Inr (ld_initial c)"
    "require_terminal (ld_states c) (raw_terminal raw) = Inr (ld_terminal c)"
    using a good unfolding require_initial_Inr require_terminal_Inr list_all_iff
    by (auto simp: raw_of_def definition_ok_def)
  moreover have "\<not> max_lifecycle_transitions < length (raw_transitions raw)"
    "require_edges (ld_states c) (ld_terminal c) 0 [] (raw_transitions raw) = Inr (ld_transitions c)"
    using a good unfolding require_edges_Inr list_all_iff
    by (auto simp: raw_of_def definition_ok_def subset_iff)
  moreover have "require_scope_value Read_capability (raw_read_scope raw) = Inr (ld_read_scope c)"
    "require_scope_value Create_capability (raw_create_scope raw) = Inr (ld_create_scope c)"
    "require_scope_value Transition_capability (raw_transition_scope raw) = Inr (ld_transition_scope c)"
    using a unfolding require_scope_Inr by (auto simp: raw_of_def definition_ok_def)
  ultimately have "validated_lifecycle_definition raw = Inr c"
    by (simp add: validated_lifecycle_definition_def)
  then show ?thesis by (simp add: raw_def)
qed

text \<open>
  C31: The checker of machine definitions accepts exactly the definitions that satisfy the stated
  rules, and returns them unchanged: known states without repetition within the bounds, a declared
  initial state, edges between declared states that are declared once and never leave a terminal
  state, eligible scopes, and names that are identifiers without the shape of a secret.
\<close>

theorem definition_validation_exact:
  "validated_lifecycle_definition raw = Inr c \<longleftrightarrow> raw = raw_of c \<and> definition_ok c"
  using validated_definition_ok [of raw c] validated_raw_of [of c] by blast

section \<open>What the constraints keep\<close>

text \<open>Machine ids are pairs; they are compared whole from here on.\<close>

declare split_paired_All [simp del] split_paired_Ex [simp del]

text \<open>
  Every statement a writer can send. The \<open>..._immutable\<close> triggers refuse a statement that reaches
  a row; one that matches no row changes nothing.
\<close>

datatype def_statement =
    Insert_machine machine_row | Update_machine nat rat machine_id machine_row
  | Delete_machine machine_id
  | Insert_state state_row | Change_state machine_id utext
  | Insert_edge edge_row | Change_edge machine_id utext utext

fun run_statement :: "def_statement \<Rightarrow> definitions \<Rightarrow> definition_error + definitions" where
  "run_statement (Insert_machine r) d =
     (case insert_machine r d of Inl e \<Rightarrow> Inl e | Inr None \<Rightarrow> Inr d | Inr (Some d') \<Rightarrow> Inr d')"
| "run_statement (Update_machine xid now m new) d = update_machine xid now m new d"
| "run_statement (Delete_machine m) d =
     (if find_machine m d = None then Inr d else Inl Definition_refused)"
| "run_statement (Insert_state r) d = insert_state r d"
| "run_statement (Change_state m s) d =
     (if s \<in> sr_state ` set (states_of m d) then Inl Definition_refused else Inr d)"
| "run_statement (Insert_edge r) d = insert_edge r d"
| "run_statement (Change_edge m a b) d =
     (if \<exists>e \<in> set (edges_of m d). er_from e = a \<and> er_to e = b then Inl Definition_refused else Inr d)"

inductive def_step :: "definitions \<Rightarrow> definitions \<Rightarrow> bool" where
  def_step: "run_statement s d = Inr d' \<Longrightarrow> def_step d d'"

text \<open>
  The rows that any sequence of statements leaves: keys are unique, states and edges belong to a
  machine, edges join declared states and never leave a terminal one, and a published machine has
  exactly one initial state.
\<close>

definition one_initial :: "machine_id \<Rightarrow> definitions \<Rightarrow> bool" where
  "one_initial m d \<longleftrightarrow> length (filter sr_is_initial (states_of m d)) = 1"

definition edge_joins :: "definitions \<Rightarrow> edge_row \<Rightarrow> bool" where
  "edge_joins d e \<longleftrightarrow>
     (\<exists>s \<in> set (states_of (er_machine e) d). sr_state s = er_from e \<and> \<not> sr_is_terminal s) \<and>
     (\<exists>s \<in> set (states_of (er_machine e) d). sr_state s = er_to e)"

definition defs_ok :: "definitions \<Rightarrow> bool" where
  "defs_ok d \<longleftrightarrow>
     (\<forall>s \<in> set (states d). find_machine (sr_machine s) d \<noteq> None) \<and>
     (\<forall>e \<in> set (edges d). find_machine (er_machine e) d \<noteq> None) \<and>
     (\<forall>m. distinct (map sr_state (states_of m d))) \<and>
     (\<forall>e \<in> set (edges d). edge_joins d e) \<and>
     (\<forall>m. published m d \<longrightarrow> one_initial m d)"

lemma find_snoc: "find P (xs @ [x]) = (case find P xs of None \<Rightarrow> if P x then Some x else None | Some y \<Rightarrow> Some y)"
  by (induction xs) auto

lemma find_update_where:
  assumes "\<And>r. mr_id (f r) = mr_id r"
  shows "find (\<lambda>r. mr_id r = m) (update_where (\<lambda>r. mr_id r = m') f rows) =
    (if m = m' then map_option f (find (\<lambda>r. mr_id r = m) rows) else find (\<lambda>r. mr_id r = m) rows)"
  using assms by (induction rows) (auto simp: update_where_def)

lemma insert_machine_cases:
  assumes "insert_machine r d = Inr (Some d')"
  shows "d' = d\<lparr>machines := machines d @ [r]\<rparr>" "find_machine (mr_id r) d = None"
    "mr_published_at r = None"
  using assms by (auto simp: insert_machine_def split: if_splits)

lemma insert_state_cases:
  assumes "insert_state r d = Inr d'"
  shows "d' = d\<lparr>states := states d @ [r]\<rparr>" "draft (sr_machine r) d"
    "sr_state r \<notin> sr_state ` set (states_of (sr_machine r) d)"
  using assms by (auto simp: insert_state_def split: if_splits)

lemma insert_edge_cases:
  assumes "insert_edge r d = Inr d'"
  shows "d' = d\<lparr>edges := edges d @ [r]\<rparr>" "draft (er_machine r) d" "edge_joins d r"
  using assms by (auto simp: insert_edge_def edge_joins_def split: if_splits)

lemma update_machine_cases:
  assumes "update_machine xid now m new d = Inr d'"
  shows "d' = d \<and> find_machine m d = None \<or>
    d' = d\<lparr>machines := update_where (\<lambda>r. mr_id r = m) (\<lambda>r. r\<lparr>mr_published_at := Some now\<rparr>)
      (machines d)\<rparr> \<and> draft m d \<and> one_initial m d"
  using assms
  by (auto simp: update_machine_def Let_def draft_def one_initial_def split: option.splits if_splits)

lemma find_after_update:
  "find_machine m (d\<lparr>machines := update_where (\<lambda>r. mr_id r = m') (\<lambda>r. r\<lparr>mr_published_at := Some now\<rparr>)
      (machines d)\<rparr>) =
   (if m = m' then map_option (\<lambda>r. r\<lparr>mr_published_at := Some now\<rparr>) (find_machine m d)
    else find_machine m d)"
  by (simp add: find_machine_def find_update_where)

lemma states_of_simps [simp]:
  "states_of m (d\<lparr>machines := ms\<rparr>) = states_of m d" "states_of m (d\<lparr>edges := es\<rparr>) = states_of m d"
  "states_of m (d\<lparr>states := states d @ [r]\<rparr>) =
    states_of m d @ (if sr_machine r = m then [r] else [])"
  by (simp_all add: states_of_def)

lemma edges_of_simps [simp]:
  "edges_of m (d\<lparr>machines := ms\<rparr>) = edges_of m d" "edges_of m (d\<lparr>states := ss\<rparr>) = edges_of m d"
  "edges_of m (d\<lparr>edges := edges d @ [r]\<rparr>) =
    edges_of m d @ (if er_machine r = m then [r] else [])"
  by (simp_all add: edges_of_def)

lemma find_machine_simps [simp]:
  "find_machine m (d\<lparr>states := ss\<rparr>) = find_machine m d"
  "find_machine m (d\<lparr>edges := es\<rparr>) = find_machine m d"
  "find_machine m (d\<lparr>machines := machines d @ [r]\<rparr>) =
    (case find_machine m d of None \<Rightarrow> if mr_id r = m then Some r else None | Some y \<Rightarrow> Some y)"
  by (simp_all add: find_machine_def find_snoc)

lemma published_draft: "draft m d \<Longrightarrow> \<not> published m d"
  by (auto simp: draft_def published_def split: option.splits)

text \<open>What one statement does to a published machine: nothing.\<close>

lemma run_statement_sealed:
  assumes "run_statement s d = Inr d'" "published m d"
  shows "find_machine m d' = find_machine m d \<and> states_of m d' = states_of m d \<and>
    edges_of m d' = edges_of m d"
proof (cases s)
  case (Insert_machine r)
  show ?thesis
  proof (cases "insert_machine r d = Inr (Some d')")
    case True
    then show ?thesis using insert_machine_cases [OF True] assms (2)
      by (auto simp: published_def split: option.splits)
  next
    case False
    then show ?thesis using assms Insert_machine by (auto split: sum.splits option.splits)
  qed
next
  case (Update_machine xid now m' new)
  then show ?thesis
    using update_machine_cases [of xid now m' new d d'] assms published_draft [of m d]
    by (auto simp: find_after_update)
next
  case (Insert_state r)
  then show ?thesis
    using insert_state_cases [of r d d'] assms published_draft [of m d] by auto
next
  case (Insert_edge r)
  then show ?thesis
    using insert_edge_cases [of r d d'] assms published_draft [of m d] by auto
qed (use assms in \<open>auto split: if_splits\<close>)

text \<open>And the invariant survives each statement.\<close>

lemma edge_joins_states_mono:
  "edge_joins d e \<Longrightarrow> edge_joins (d\<lparr>states := states d @ [r]\<rparr>) e"
  "edge_joins (d\<lparr>machines := ms\<rparr>) e = edge_joins d e"
  "edge_joins (d\<lparr>edges := es\<rparr>) e = edge_joins d e"
  by (auto simp: edge_joins_def)

lemma one_initial_simps [simp]:
  "one_initial m (d\<lparr>machines := ms\<rparr>) = one_initial m d"
  "one_initial m (d\<lparr>edges := es\<rparr>) = one_initial m d"
  by (simp_all add: one_initial_def)

lemma run_statement_ok:
  assumes run: "run_statement s d = Inr d'" and ok: "defs_ok d"
  shows "defs_ok d'"
proof (cases s)
  case (Insert_machine r)
  show ?thesis
  proof (cases "insert_machine r d = Inr (Some d')")
    case True
    from insert_machine_cases [OF True] ok show ?thesis
      by (auto simp: defs_ok_def published_def edge_joins_states_mono split: option.splits)
  next
    case False
    then show ?thesis using run Insert_machine ok by (auto split: sum.splits option.splits)
  qed
next
  case (Update_machine xid now m new)
  then have "update_machine xid now m new d = Inr d'" using run by simp
  from update_machine_cases [OF this] ok show ?thesis
    by (auto simp: defs_ok_def published_def find_after_update edge_joins_states_mono split: if_splits)
next
  case (Insert_state r)
  then have i: "insert_state r d = Inr d'" using run by simp
  note c = insert_state_cases [OF i]
  have "find_machine (sr_machine r) d \<noteq> None" using c (2) by (auto simp: draft_def split: option.splits)
  moreover have "one_initial m d'" if pub: "published m d'" for m
  proof -
    from pub have "published m d" using c (1) by (simp add: published_def)
    then show ?thesis using c (1,2) published_draft [of m d] ok
      by (auto simp: defs_ok_def one_initial_def)
  qed
  ultimately show ?thesis using ok c unfolding defs_ok_def
    by (auto simp: edge_joins_states_mono)
next
  case (Insert_edge r)
  then have i: "insert_edge r d = Inr d'" using run by simp
  note c = insert_edge_cases [OF i]
  have "find_machine (er_machine r) d \<noteq> None" using c (2) by (auto simp: draft_def split: option.splits)
  then show ?thesis using ok c unfolding defs_ok_def
    by (auto simp: edge_joins_states_mono published_def)
qed (use run ok in \<open>auto split: if_splits\<close>)

interpretation definition_machine: transition_system "\<lambda>d. d = no_definitions" def_step defs_ok
proof unfold_locales
  show "defs_ok d" if "d = no_definitions" for d
    using that by (auto simp: defs_ok_def no_definitions_def states_of_def published_def find_machine_def)
  show "defs_ok d'" if "defs_ok d" "def_step d d'" for d d'
    using that by (auto elim!: def_step.cases intro: run_statement_ok)
qed


section \<open>A published version is sealed\<close>

lemma readers_same:
  assumes "find_machine m d' = find_machine m d" "states_of m d' = states_of m d"
    "edges_of m d' = edges_of m d"
  shows "lifecycle_required_scope d' m = lifecycle_required_scope d m"
    "lifecycle_initial_state d' m = lifecycle_initial_state d m"
    "lifecycle_state_is_terminal d' m = lifecycle_state_is_terminal d m"
    "lifecycle_edge_exists d' m = lifecycle_edge_exists d m"
  using assms
  by (auto simp: fun_eq_iff lifecycle_required_scope_def lifecycle_initial_state_def
      lifecycle_state_is_terminal_def lifecycle_edge_exists_def published_def)

lemma def_run_sealed:
  assumes "def_step\<^sup>*\<^sup>* d d'" "published m d"
  shows "find_machine m d' = find_machine m d \<and> states_of m d' = states_of m d \<and>
    edges_of m d' = edges_of m d"
  using assms
proof (induction rule: rtranclp_induct)
  case (step d1 d2)
  then have same: "find_machine m d1 = find_machine m d" "states_of m d1 = states_of m d"
    "edges_of m d1 = edges_of m d" by simp_all
  with step.prems have "published m d1" by (simp add: published_def)
  moreover obtain s where "run_statement s d1 = Inr d2" using step.hyps (2) by (auto elim: def_step.cases)
  ultimately have "find_machine m d2 = find_machine m d1 \<and> states_of m d2 = states_of m d1 \<and>
    edges_of m d2 = edges_of m d1" by (intro run_statement_sealed)
  with same show ?case by simp
qed simp

text \<open>
  C8: A published machine version is sealed. Whatever statements any writer runs afterwards,
  its row, its states and its edges are the ones that were published, and so is every answer of
  the four readers; in every reachable table a published machine has one initial state and its
  edges join declared states and never leave a terminal one.
\<close>

theorem published_machine_sealed:
  assumes reach: "def_step\<^sup>*\<^sup>* no_definitions d" and pub: "published m d"
    and later: "def_step\<^sup>*\<^sup>* d d'"
  shows "find_machine m d' = find_machine m d \<and> states_of m d' = states_of m d \<and>
    edges_of m d' = edges_of m d \<and> one_initial m d' \<and>
    list_all (edge_joins d') (edges_of m d')"
proof -
  have "defs_ok d'" using definition_machine.inv_reachable reach later by (meson rtranclp_trans)
  have "published m d'" using def_run_sealed [OF later pub] pub by (simp add: published_def)
  with \<open>defs_ok d'\<close> have "one_initial m d'" "list_all (edge_joins d') (edges_of m d')"
    by (cases m, auto simp: defs_ok_def list_all_iff edges_of_def)
  then show ?thesis using def_run_sealed [OF later pub] by blast
qed

section \<open>Registration builds the declared machine\<close>

lemma insert_states_ok:
  assumes "draft m d" "\<forall>r \<in> set rs. sr_machine r = m \<and> name_ok (sr_state r)"
    "distinct (map sr_state (states_of m d @ rs))"
    "length (filter sr_is_initial (states_of m d @ rs)) \<le> 1"
  shows "insert_states rs d = Inr (d\<lparr>states := states d @ rs\<rparr>)"
  using assms
proof (induction rs arbitrary: d)
  case (Cons r rs)
  have no_init: "\<not> sr_is_initial s" if "sr_is_initial r" "s \<in> set (states_of m d)" for s
    using Cons.prems (4) that by (auto simp: filter_empty_conv)
  have "sr_state r \<notin> sr_state ` set (states_of m d)" "sr_machine r = m" "name_ok (sr_state r)"
    using Cons.prems (2,3) by auto
  with Cons.prems (1) no_init have one: "insert_state r d = Inr (d\<lparr>states := states d @ [r]\<rparr>)"
    unfolding insert_state_def by (simp add: image_iff) (metis (no_types))
  have "insert_states rs (d\<lparr>states := states d @ [r]\<rparr>) =
      Inr (d\<lparr>states := states d @ [r], states := (states d @ [r]) @ rs\<rparr>)"
    using Cons.IH [of "d\<lparr>states := states d @ [r]\<rparr>"] Cons.prems by (auto simp: draft_def)
  with one show ?case by simp
qed simp

lemma insert_edges_ok:
  assumes "draft m d"
    "\<forall>r \<in> set rs. er_machine r = m \<and> er_from r \<in> sr_state ` set (states_of m d) \<and>
      er_to r \<in> sr_state ` set (states_of m d) \<and>
      (\<forall>s \<in> set (states_of m d). sr_state s = er_from r \<longrightarrow> \<not> sr_is_terminal s)"
    "distinct (map (\<lambda>r. (er_from r, er_to r)) (edges_of m d @ rs))"
  shows "insert_edges rs d = Inr (d\<lparr>edges := edges d @ rs\<rparr>)"
  using assms
proof (induction rs arbitrary: d)
  case (Cons r rs)
  have m: "er_machine r = m" and guards: "draft (er_machine r) d \<noteq> False"
    "(er_from r \<notin> sr_state ` set (states_of (er_machine r) d) \<or>
      er_to r \<notin> sr_state ` set (states_of (er_machine r) d)) = False"
    "(\<exists>s \<in> set (states_of (er_machine r) d). sr_state s = er_from r \<and> sr_is_terminal s) = False"
    using Cons.prems (1,2) by (simp, simp, simp, fastforce)
  have new: "(\<exists>e \<in> set (edges_of (er_machine r) d). er_from e = er_from r \<and> er_to e = er_to r) = False"
  proof -
    have "(er_from r, er_to r) \<notin> (\<lambda>r. (er_from r, er_to r)) ` set (edges_of m d)"
      using Cons.prems (3) by simp
    then show ?thesis unfolding m by (metis (no_types, lifting) image_eqI)
  qed
  have one: "insert_edge r d = Inr (d\<lparr>edges := edges d @ [r]\<rparr>)"
    using guards (1) by (simp only: insert_edge_def guards (2,3) new if_False) simp
  have "insert_edges rs (d\<lparr>edges := edges d @ [r]\<rparr>) =
      Inr (d\<lparr>edges := edges d @ [r], edges := (edges d @ [r]) @ rs\<rparr>)"
    using Cons.IH [of "d\<lparr>edges := edges d @ [r]\<rparr>"] Cons.prems by (auto simp: draft_def)
  with one show ?case by simp
qed simp

lemma filter_eq_single: "distinct xs \<Longrightarrow> x \<in> set xs \<Longrightarrow> filter (\<lambda>y. y = x) xs = [x]"
  by (induction xs) (auto simp: filter_empty_conv)

lemma find_filter: "find P xs = (case filter P xs of [] \<Rightarrow> None | y # ys \<Rightarrow> Some y)"
  by (induction xs) auto

text \<open>
  Registering an acceptable definition of a version that has no row yet succeeds, outside
  autocommit, and from then on the four readers answer with exactly the declared graph: its initial
  state, its terminal states, its edges and its three scopes. A version registered already is refused.
\<close>

theorem registration_builds_the_machine:
  assumes ok: "definition_ok c" and width: "ld_version c \<le> max_sql_integer" and defs: "defs_ok d"
    and m: "m = (ld_machine_key c, ld_version c)" and fresh: "find_machine m d = None"
  shows "\<exists>d'. register_lifecycle_definition xid now False (raw_of c) d = Inr d' \<and>
    lifecycle_initial_state d' m = Some (ld_initial c) \<and>
    lifecycle_state_is_terminal d' m = (\<lambda>s. s \<in> set (ld_terminal c)) \<and>
    lifecycle_edge_exists d' m = (\<lambda>a b. (a, b) \<in> set (ld_transitions c)) \<and>
    lifecycle_required_scope d' m = (\<lambda>k. Some (case k of Read \<Rightarrow> ld_read_scope c
      | Create \<Rightarrow> ld_create_scope c | Transition \<Rightarrow> ld_transition_scope c)) \<and>
    register_lifecycle_definition xid now False (raw_of c) d' = Inl Already_registered"
proof -
  have valid: "validated_lifecycle_definition (raw_of c) = Inr c"
    using ok by (simp add: validated_raw_of)
  define r where "r = machine_row_of xid now c"
  define ss where "ss = state_rows_of xid c"
  define es where "es = edge_rows_of xid c"
  have rows: "mr_id r = m" "mr_published_at r = None" "mr_xmin r = xid" "name_ok (fst m)" "1 \<le> snd m" "snd m \<le> max_sql_integer"
    "scope_ok (mr_read_scope r)" "scope_ok (mr_create_scope r)" "scope_ok (mr_transition_scope r)"
    using ok width by (auto simp: r_def machine_row_of_def m definition_ok_def good_name_def)
  have none: "states_of m d = []" "edges_of m d = []"
    using defs fresh by (auto simp: defs_ok_def states_of_def edges_of_def filter_empty_conv)
  define d1 where "d1 = d\<lparr>machines := machines d @ [r]\<rparr>"
  define d2 where "d2 = d1\<lparr>states := states d1 @ ss\<rparr>"
  define d3 where "d3 = d2\<lparr>edges := edges d2 @ es\<rparr>"
  have s1: "insert_machine r d = Inr (Some d1)"
    using rows fresh by (simp add: insert_machine_def d1_def)
  have d1: "draft m d1" "states_of m d1 = []" "edges_of m d1 = []"
    using rows fresh none by (simp_all add: d1_def draft_def)
  have initial: "map sr_state (filter sr_is_initial ss) = [ld_initial c]"
    using ok filter_eq_single [of "ld_states c" "ld_initial c"]
    by (simp add: ss_def state_rows_of_def filter_map comp_def definition_ok_def)
  have edges_between: "a \<in> set (ld_states c) \<and> a \<notin> set (ld_terminal c) \<and> b \<in> set (ld_states c)"
    if "(a, b) \<in> set (ld_transitions c)" for a b
    using ok that by (auto simp: definition_ok_def)
  have machine_ss: "filter (\<lambda>s. sr_machine s = m) ss = ss"
    by (rule filter_True) (auto simp: ss_def state_rows_of_def m)
  have s2: "insert_states ss d1 = Inr d2"
    unfolding d2_def
  proof (rule insert_states_ok [OF d1 (1)])
    show "\<forall>r \<in> set ss. sr_machine r = m \<and> name_ok (sr_state r)"
      using ok by (auto simp: ss_def state_rows_of_def m definition_ok_def good_name_def list_all_iff)
    have names: "map sr_state ss = ld_states c" by (simp add: ss_def state_rows_of_def comp_def)
    then show "distinct (map sr_state (states_of m d1 @ ss))"
      using ok d1 by (simp add: definition_ok_def)
    show "length (filter sr_is_initial (states_of m d1 @ ss)) \<le> 1" using d1 arg_cong [OF initial, of length] by simp
  qed
  have d2: "draft m d2" "states_of m d2 = ss" "edges_of m d2 = []"
    using d1 machine_ss by (simp_all add: d2_def draft_def states_of_def edges_of_def)
  have s3: "insert_edges es d2 = Inr d3"
    unfolding d3_def
  proof (rule insert_edges_ok [OF d2 (1)])
    have in_ss: "s \<in> sr_state ` set ss" if "s \<in> set (ld_states c)" for s
      using that by (force simp: ss_def state_rows_of_def)
    show "\<forall>r \<in> set es. er_machine r = m \<and> er_from r \<in> sr_state ` set (states_of m d2) \<and>
      er_to r \<in> sr_state ` set (states_of m d2) \<and>
      (\<forall>s \<in> set (states_of m d2). sr_state s = er_from r \<longrightarrow> \<not> sr_is_terminal s)"
      using edges_between in_ss unfolding d2
      by (auto simp: es_def edge_rows_of_def m ss_def state_rows_of_def)
    show "distinct (map (\<lambda>r. (er_from r, er_to r)) (edges_of m d2 @ es))"
      using ok d2 by (simp add: es_def edge_rows_of_def comp_def split_def definition_ok_def)
  qed
  define d4 where "d4 = d3\<lparr>machines := update_where (\<lambda>r. mr_id r = m)
    (\<lambda>r. r\<lparr>mr_published_at := Some now\<rparr>) (machines d3)\<rparr>"
  have machine_es: "filter (\<lambda>e. er_machine e = m) es = es"
    by (rule filter_True) (auto simp: es_def edge_rows_of_def m)
  have d3: "find_machine m d3 = Some r" "states_of m d3 = ss" "edges_of m d3 = es"
    using rows fresh d2 machine_es
    by (simp_all add: d3_def d2_def d1_def edges_of_def states_of_def)
  have names: "sr_state ` set ss = set (ld_states c)"
    by (force simp: ss_def state_rows_of_def)
  have checks: "\<forall>s \<in> set ss. sr_xmin s = xid" "\<forall>e \<in> set es. er_xmin e = xid" "ss \<noteq> []"
    "length (filter sr_is_initial ss) = 1"
    "\<forall>e \<in> set es. er_from e \<in> sr_state ` set ss \<and> er_to e \<in> sr_state ` set ss"
    "\<forall>e \<in> set es. \<forall>s \<in> set ss. sr_state s = er_from e \<longrightarrow> \<not> sr_is_terminal s"
    using edges_between ok arg_cong [OF initial, of length] unfolding names
    by (auto simp: ss_def es_def state_rows_of_def edge_rows_of_def definition_ok_def)
  have s4: "publish_lifecycle_machine xid now m d3 = Inr d4"
    using rows checks unfolding publish_lifecycle_machine_def update_machine_def d3 d4_def Let_def
    by auto
  have reg: "register_lifecycle_definition xid now False (raw_of c) d = Inr d4"
    using s1 s2 s3 s4 valid
    by (simp add: register_lifecycle_definition_def m r_def ss_def es_def)
  have d4: "find_machine m d4 = Some (r\<lparr>mr_published_at := Some now\<rparr>)" "states_of m d4 = ss"
    "edges_of m d4 = es"
    using d3 by (simp_all add: d4_def find_after_update)
  then have pub: "published m d4" by (simp add: published_def)
  have "lifecycle_initial_state d4 m = Some (ld_initial c)"
    using pub initial unfolding lifecycle_initial_state_def d4 find_filter
    by (auto split: list.splits)
  moreover have "lifecycle_state_is_terminal d4 m = (\<lambda>s. s \<in> set (ld_terminal c))"
    using ok pub unfolding lifecycle_state_is_terminal_def fun_eq_iff d4
    by (auto simp: ss_def state_rows_of_def definition_ok_def)
  moreover have "lifecycle_edge_exists d4 m = (\<lambda>a b. (a, b) \<in> set (ld_transitions c))"
    using pub unfolding lifecycle_edge_exists_def fun_eq_iff d4
    by (force simp: es_def edge_rows_of_def)
  moreover have "lifecycle_required_scope d4 m = (\<lambda>k. Some (case k of Read \<Rightarrow> ld_read_scope c
      | Create \<Rightarrow> ld_create_scope c | Transition \<Rightarrow> ld_transition_scope c))"
    by (simp add: lifecycle_required_scope_def fun_eq_iff d4 r_def machine_row_of_def split: capability.split)
  moreover have "register_lifecycle_definition xid now False (raw_of c) d4 = Inl Already_registered"
    using valid rows d4 unfolding register_lifecycle_definition_def
    by (simp add: insert_machine_def flip: r_def)
  ultimately show ?thesis using reg by blast
qed

text \<open>A small machine: a shard is pending, running, then done.\<close>

definition demo_definition :: lifecycle_definition where
  "demo_definition = \<lparr>ld_machine_key = cps ''shard'', ld_version = 1, ld_initial = cps ''pending'',
     ld_states = map cps [''pending'', ''running'', ''finished''], ld_terminal = [cps ''finished''],
     ld_transitions = [(cps ''pending'', cps ''running''), (cps ''running'', cps ''finished''),
       (cps ''running'', cps ''pending'')],
     ld_read_scope = ''workspace:read'', ld_create_scope = ''workspace:write'', ld_transition_scope = ''workspace:write''\<rparr>"

lemma demo_definition_ok: "definition_ok demo_definition"
  unfolding definition_ok_def list_all_iff by code_simp

lemma registration_builds_the_machine_witness:
  "\<exists>d'. register_lifecycle_definition 1 0 False (raw_of demo_definition) no_definitions = Inr d' \<and>
    lifecycle_edge_exists d' (cps ''shard'', 1) (cps ''pending'') (cps ''running'')"
  using registration_builds_the_machine [OF demo_definition_ok _ _ _ , of no_definitions "(cps ''shard'', 1)" 1 0]
    definition_machine.inv_init [OF refl]
  by (auto simp: demo_definition_def no_definitions_def find_machine_def max_sql_integer_def)


section \<open>Registration is a run of statements\<close>

lemma insert_states_run: "insert_states rs d = Inr d' \<Longrightarrow> def_step\<^sup>*\<^sup>* d d'"
proof (induction rs arbitrary: d)
  case (Cons r rs)
  then obtain d1 where i: "insert_state r d = Inr d1" and rest: "insert_states rs d1 = Inr d'"
    by (auto simp: bind_Inr)
  have "def_step d d1" by (rule def_step.intros [of "Insert_state r"]) (simp add: i)
  with Cons.IH [OF rest] show ?case by simp
qed simp

lemma insert_edges_run: "insert_edges rs d = Inr d' \<Longrightarrow> def_step\<^sup>*\<^sup>* d d'"
proof (induction rs arbitrary: d)
  case (Cons r rs)
  then obtain d1 where i: "insert_edge r d = Inr d1" and rest: "insert_edges rs d1 = Inr d'"
    by (auto simp: bind_Inr)
  have "def_step d d1" by (rule def_step.intros [of "Insert_edge r"]) (simp add: i)
  with Cons.IH [OF rest] show ?case by simp
qed simp

lemma registration_run:
  assumes "register_lifecycle_definition xid now autocommit raw d = Inr d'"
  shows "def_step\<^sup>*\<^sup>* d d'"
proof -
  obtain c d1 d2 d3 where m: "insert_machine (machine_row_of xid now c) d = Inr (Some d1)"
    and ss: "insert_states (state_rows_of xid c) d1 = Inr d2"
    and es: "insert_edges (edge_rows_of xid c) d2 = Inr d3"
    and p: "publish_lifecycle_machine xid now (ld_machine_key c, ld_version c) d3 = Inr d'"
    using assms
    by (auto simp: register_lifecycle_definition_def bind_Inr split: if_splits option.splits sum.splits)
  have "def_step d d1" by (rule def_step.intros [of "Insert_machine (machine_row_of xid now c)"]) (simp add: m)
  moreover have "def_step d3 d'"
  proof -
    obtain r where "update_machine xid now (ld_machine_key c, ld_version c) r d3 = Inr d'"
      using p by (auto simp: publish_lifecycle_machine_def split: option.splits if_splits)
    then show ?thesis
      by (intro def_step.intros [of "Update_machine xid now (ld_machine_key c, ld_version c) r"]) simp
  qed
  ultimately show ?thesis
    using insert_states_run [OF ss] insert_edges_run [OF es]
    by (meson converse_rtranclp_into_rtranclp rtranclp.rtrancl_into_rtrancl rtranclp_trans)
qed

definition demo_tables :: definitions where
  "demo_tables = projr (register_lifecycle_definition 1 0 False (raw_of demo_definition) no_definitions)"

lemma demo_registered:
  "register_lifecycle_definition 1 0 False (raw_of demo_definition) no_definitions = Inr demo_tables"
proof -
  have "isl (register_lifecycle_definition 1 0 False (raw_of demo_definition) no_definitions) = False"
    by code_simp
  then show ?thesis by (simp add: demo_tables_def)
qed

lemma demo_published: "published (cps ''shard'', 1) demo_tables"
  by code_simp

lemma published_machine_sealed_witness:
  "list_all (edge_joins demo_tables) (edges_of (cps ''shard'', 1) demo_tables) \<and>
   length (edges_of (cps ''shard'', 1) demo_tables) = 3"
proof
  show "list_all (edge_joins demo_tables) (edges_of (cps ''shard'', 1) demo_tables)"
    using published_machine_sealed [OF registration_run [OF demo_registered] demo_published rtranclp.rtrancl_refl]
    by blast
qed code_simp

end
