(* ===== verification/Lifecycle_Tables.thy ===== *)
theory Lifecycle_Tables
  imports Lifecycle_Definition
begin

text \<open>
  The tenant-owned tables of the lifecycle kernel: rows, the row-level-security predicates of
  migration \<open>0004\<close>, and one statement per table with the triggers, policies and constraints every
  writer crosses (\<open>BEFORE\<close> triggers, then the policy, then the constraints, as PostgreSQL orders them).
\<close>

section \<open>Checks in order\<close>

text \<open>A sequence of checks, each with the error it raises; the first that fails wins.\<close>

fun checked :: "(bool \<times> 'e) list \<Rightarrow> 'a \<Rightarrow> 'e + 'a" where
  "checked [] x = Inr x"
| "checked ((ok, e) # cs) x = (if ok then checked cs x else Inl e)"

lemma checked_Inr [simp]: "checked cs x = Inr y \<longleftrightarrow> list_all fst cs \<and> y = x"
  by (induction cs x rule: checked.induct) auto

section \<open>Contexts and errors\<close>

text \<open>An identifier is PostgreSQL's text of a \<open>uuid\<close>; \<open>gen_random_uuid()\<close> is an argument.\<close>

type_synonym uuid = utext

record auth_context =
  ax_tenant :: "uuid option"
  ax_principal :: "uuid option"
  ax_binding :: "uuid option"
  ax_actor :: string
  ax_scopes :: "string list"

definition auth_has_scope :: "auth_context \<Rightarrow> string option \<Rightarrow> bool" where
  "auth_has_scope cx s \<longleftrightarrow> (case s of None \<Rightarrow> False | Some v \<Rightarrow> v \<in> set (ax_scopes cx))"

definition mutation_scope :: string where
  "mutation_scope = scope_value Mutation_execute"

datatype kernel_error =
    Insufficient_privilege string
  | Invalid_parameter string "string option"
  | Details_refused details_error
  | Not_read_committed
  | Lifecycle_conflict
  | Not_allowed string
  | Definition_unusable string
  | Key_reused
  | No_provenance
  | Link_refused
  | Out_of_range
  | Unique_violation string
  | Check_violation string
  | Foreign_key_violation string

fun sqlstate :: "kernel_error \<Rightarrow> string" where
  "sqlstate (Insufficient_privilege r) = ''42501''"
| "sqlstate (Invalid_parameter r sh) = ''22023''"
| "sqlstate (Details_refused e) = ''22023''"
| "sqlstate Not_read_committed = ''0A000''"
| "sqlstate Lifecycle_conflict = ''FB001''"
| "sqlstate (Not_allowed r) = ''FB002''"
| "sqlstate (Definition_unusable r) = ''FB003''"
| "sqlstate Key_reused = ''FB004''"
| "sqlstate No_provenance = ''FB005''"
| "sqlstate Link_refused = ''FB006''"
| "sqlstate Out_of_range = ''22003''"
| "sqlstate (Unique_violation c) = ''23505''"
| "sqlstate (Check_violation c) = ''23514''"
| "sqlstate (Foreign_key_violation c) = ''23503''"

section \<open>Documents\<close>

text \<open>The platform: \<open>sha256\<close> of a document's text, and the size of that text.\<close>

record 'f platform =
  digest :: "jsonb \<Rightarrow> 'f"
  octets :: "jsonb \<Rightarrow> nat"

text \<open>\<open>_metadata_checks\<close>: a stored document is an object of bounded size.\<close>

definition metadata_checks :: "'f platform \<Rightarrow> jsonb \<Rightarrow> bool" where
  "metadata_checks P d \<longleftrightarrow> (case d of J_object kvs \<Rightarrow> True | _ \<Rightarrow> False) \<and> octets P d \<le> max_metadata_bytes"

section \<open>Rows\<close>

text \<open>The creation times of claims, events and provenance rows are left out: nothing reads them.\<close>

record instance_row =
  in_id :: uuid
  in_tenant :: uuid
  in_machine :: machine_id
  in_state :: utext
  in_revision :: int
  in_created :: rat
  in_updated :: rat

record transition_row =
  tr_id :: uuid
  tr_tenant :: uuid
  tr_instance :: uuid
  tr_machine :: machine_id
  tr_from :: utext
  tr_to :: utext
  tr_from_rev :: int
  tr_to_rev :: int
  tr_actor :: string
  tr_principal :: "uuid option"
  tr_binding :: "uuid option"
  tr_reason :: "utext option"
  tr_details :: jsonb
  tr_at :: rat

record audit_row =
  ae_id :: uuid
  ae_tenant :: uuid
  ae_actor :: string
  ae_principal :: "uuid option"
  ae_binding :: "uuid option"
  ae_action :: utext
  ae_outcome :: utext
  ae_resource_type :: utext
  ae_resource :: "uuid option"
  ae_correlation :: "uuid option"
  ae_details :: jsonb
  ae_tag :: "machine_id option"

record 'f claim_row =
  cl_id :: uuid
  cl_tenant :: uuid
  cl_operation :: utext
  cl_key :: utext
  cl_fingerprint :: 'f
  cl_result :: jsonb
  cl_tag :: "machine_id option"

record outbox_row =
  ob_id :: uuid
  ob_tenant :: uuid
  ob_claim :: "uuid option"
  ob_type :: utext
  ob_aggregate_type :: utext
  ob_aggregate :: uuid
  ob_attributes :: jsonb
  ob_tag :: "machine_id option"

record provenance_row =
  pv_claim :: uuid
  pv_tenant :: uuid
  pv_transition :: uuid
  pv_instance :: uuid
  pv_machine :: machine_id
  pv_from_rev :: int
  pv_to_rev :: int
  pv_event :: uuid

record 'f kernel =
  defs :: definitions
  instances :: "instance_row list"
  transitions :: "transition_row list"
  audits :: "audit_row list"
  claims :: "'f claim_row list"
  outbox :: "outbox_row list"
  provenance :: "provenance_row list"

section \<open>Row security\<close>

definition holds :: "auth_context \<Rightarrow> definitions \<Rightarrow> machine_id \<Rightarrow> capability \<Rightarrow> bool" where
  "holds cx d m c \<longleftrightarrow> auth_has_scope cx (lifecycle_required_scope d m c)"

definition instance_readable :: "auth_context \<Rightarrow> definitions \<Rightarrow> instance_row \<Rightarrow> bool" where
  "instance_readable cx d i \<longleftrightarrow> Some (in_tenant i) = ax_tenant cx \<and> holds cx d (in_machine i) Read"

definition transition_readable :: "auth_context \<Rightarrow> definitions \<Rightarrow> transition_row \<Rightarrow> bool" where
  "transition_readable cx d t \<longleftrightarrow> Some (tr_tenant t) = ax_tenant cx \<and> holds cx d (tr_machine t) Read"

text \<open>\<open>_FRAMEWORK_TAG_READABLE\<close>: a tagged row also needs the machine's read scope.\<close>

definition tag_readable :: "auth_context \<Rightarrow> definitions \<Rightarrow> machine_id option \<Rightarrow> bool" where
  "tag_readable cx d tag \<longleftrightarrow> (case tag of None \<Rightarrow> True | Some m \<Rightarrow> holds cx d m Read)"

definition claim_readable :: "auth_context \<Rightarrow> definitions \<Rightarrow> 'f claim_row \<Rightarrow> bool" where
  "claim_readable cx d r \<longleftrightarrow> Some (cl_tenant r) = ax_tenant cx \<and>
     auth_has_scope cx (Some mutation_scope) \<and> tag_readable cx d (cl_tag r)"

definition outbox_readable :: "auth_context \<Rightarrow> definitions \<Rightarrow> outbox_row \<Rightarrow> bool" where
  "outbox_readable cx d r \<longleftrightarrow> Some (ob_tenant r) = ax_tenant cx \<and>
     auth_has_scope cx (Some mutation_scope) \<and> tag_readable cx d (ob_tag r)"

definition audit_readable :: "auth_context \<Rightarrow> definitions \<Rightarrow> audit_row \<Rightarrow> bool" where
  "audit_readable cx d r \<longleftrightarrow> Some (ae_tenant r) = ax_tenant cx \<and>
     auth_has_scope cx (Some (scope_value Audit_read)) \<and> tag_readable cx d (ae_tag r)"

section \<open>Names\<close>

definition lifecycle_namespace :: utext where "lifecycle_namespace = cps ''lifecycle.''"

definition starts_with :: "utext \<Rightarrow> utext \<Rightarrow> bool" where
  "starts_with s p \<longleftrightarrow> take (length p) s = p"

definition idempotency_key_regex :: rx where
  "idempotency_key_regex =
     (let c = (\<lambda>c. upper_alpha c \<or> lower_alpha c \<or> ascii_digit c \<or>
                c \<in> set (cps ''._:@=+-''))
      in Seq (Times 8 c) (UpTo 192 c))"

section \<open>Statements\<close>

text \<open>
  \<open>insert_instance\<close>: the trigger decides the starting state and overwrites revision and times.
\<close>

definition insert_instance ::
  "auth_context \<Rightarrow> rat \<Rightarrow> instance_row \<Rightarrow> 'f kernel \<Rightarrow> kernel_error + 'f kernel" where
  "insert_instance cx now r k =
     checked [(lifecycle_initial_state (defs k) (in_machine r) \<noteq> None, Definition_unusable ''no initial state''),
         (lifecycle_initial_state (defs k) (in_machine r) = Some (in_state r), Not_allowed ''starts elsewhere''),
         (Some (in_tenant r) = ax_tenant cx \<and> holds cx (defs k) (in_machine r) Create,
            Insufficient_privilege ''row policy''),
         (in_id r \<notin> in_id ` set (instances k), Unique_violation ''pk_lifecycle_instances'')]
       (k\<lparr>instances := instances k @ [r\<lparr>in_revision := 0, in_created := now, in_updated := now\<rparr>]\<rparr>)"

text \<open>\<open>lifecycle_instances_before_update\<close>, which sees the old and the new row of any writer.\<close>

definition instance_before_update ::
  "definitions \<Rightarrow> rat \<Rightarrow> instance_row \<Rightarrow> instance_row \<Rightarrow> kernel_error + instance_row" where
  "instance_before_update d now old new =
     checked [(in_id new = in_id old \<and> in_tenant new = in_tenant old \<and> in_machine new = in_machine old \<and>
           in_created new = in_created old, Not_allowed ''identity''),
         (in_revision new = in_revision old + 1, Not_allowed ''revision''),
         (\<not> lifecycle_state_is_terminal d (in_machine old) (in_state old), Not_allowed ''terminal''),
         (lifecycle_edge_exists d (in_machine old) (in_state old) (in_state new), Not_allowed ''edge'')]
       (new\<lparr>in_updated := now\<rparr>)"

text \<open>
  \<open>UPDATE lifecycle_instances SET ... WHERE ...\<close>: only rows the policies show are updated. The
  count is the number of updated rows.
\<close>

definition amend_row ::
  "auth_context \<Rightarrow> definitions \<Rightarrow> rat \<Rightarrow> (instance_row \<Rightarrow> bool) \<Rightarrow> (instance_row \<Rightarrow> instance_row)
     \<Rightarrow> instance_row \<Rightarrow> kernel_error + instance_row" where
  "amend_row cx d now p f r =
     (if p r \<and> instance_readable cx d r \<and> holds cx d (in_machine r) Transition then
        (if in_revision (f r) > max_sql_integer then Inl Out_of_range
         else instance_before_update d now r (f r))
      else Inr r)"

definition amend_instances ::
  "auth_context \<Rightarrow> rat \<Rightarrow> (instance_row \<Rightarrow> bool) \<Rightarrow> (instance_row \<Rightarrow> instance_row) \<Rightarrow> 'f kernel
     \<Rightarrow> kernel_error + nat \<times> 'f kernel" where
  "amend_instances cx now p f k =
     (case seq_map (amend_row cx (defs k) now p f) (instances k) of Inl e \<Rightarrow> Inl e
      | Inr rows \<Rightarrow> Inr (length (filter (\<lambda>r. p r \<and> instance_readable cx (defs k) r \<and>
            holds cx (defs k) (in_machine r) Transition) (instances k)), k\<lparr>instances := rows\<rparr>))"

definition actor_shape :: "string \<Rightarrow> uuid option \<Rightarrow> uuid option \<Rightarrow> bool" where
  "actor_shape a p b \<longleftrightarrow> (a = ''credential'' \<and> p \<noteq> None \<and> b \<noteq> None) \<or>
     (a = ''provisioning'' \<and> p = None \<and> b = None) \<or>
     (a = ''session'' \<and> p \<noteq> None \<and> b = None)"

definition insert_transition ::
  "'f platform \<Rightarrow> auth_context \<Rightarrow> rat \<Rightarrow> transition_row \<Rightarrow> 'f kernel \<Rightarrow> kernel_error + 'f kernel" where
  "insert_transition P cx now r k =
     checked [(Some (tr_tenant r) = ax_tenant cx \<and> tr_actor r = ax_actor cx \<and>
           tr_principal r = ax_principal cx \<and> tr_binding r = ax_binding cx \<and>
           holds cx (defs k) (tr_machine r) Transition, Insufficient_privilege ''row policy''),
         (0 \<le> tr_from_rev r, Check_violation ''from_revision_not_negative''),
         (tr_to_rev r = tr_from_rev r + 1, Check_violation ''revision_advances_by_one''),
         (actor_shape (tr_actor r) (tr_principal r) (tr_binding r), Check_violation ''actor_shape''),
         (case tr_reason r of None \<Rightarrow> True
            | Some s \<Rightarrow> 1 \<le> length s \<and> length s \<le> max_lifecycle_reason_length, Check_violation ''reason_bounded''),
         (metadata_checks P (tr_details r), Check_violation ''details''),
         (tr_id r \<notin> tr_id ` set (transitions k), Unique_violation ''pk_lifecycle_transitions''),
         (\<not> (\<exists>t \<in> set (transitions k). tr_tenant t = tr_tenant r \<and> tr_instance t = tr_instance r \<and>
             tr_to_rev t = tr_to_rev r), Unique_violation ''uq_lifecycle_transitions_tenant_id_instance_id_to_revision''),
         (\<exists>i \<in> set (instances k). in_id i = tr_instance r \<and> in_tenant i = tr_tenant r \<and>
             in_machine i = tr_machine r, Foreign_key_violation ''instance''),
         (\<exists>e \<in> set (edges_of (tr_machine r) (defs k)). er_from e = tr_from r \<and> er_to e = tr_to r,
            Foreign_key_violation ''edge'')]
       (k\<lparr>transitions := transitions k @ [r\<lparr>tr_at := now\<rparr>]\<rparr>)"

text \<open>
  The three framework tables. \<open>writer\<close> says whether the statement runs as the lifecycle writer
  role: only then may a row carry a machine tag.
\<close>

definition tag_derived :: "bool \<Rightarrow> machine_id option \<Rightarrow> bool" where
  "tag_derived writer tag \<longleftrightarrow> tag = None \<or> writer"

definition tag_exists :: "definitions \<Rightarrow> machine_id option \<Rightarrow> bool" where
  "tag_exists d tag \<longleftrightarrow> (case tag of None \<Rightarrow> True | Some m \<Rightarrow> find_machine m d \<noteq> None)"

definition insert_audit ::
  "'f platform \<Rightarrow> bool \<Rightarrow> auth_context \<Rightarrow> audit_row \<Rightarrow> 'f kernel \<Rightarrow> kernel_error + 'f kernel" where
  "insert_audit P writer cx r k =
     checked [(tag_derived writer (ae_tag r), Insufficient_privilege ''derived tag''),
         (Some (ae_tenant r) = ax_tenant cx \<and> ae_actor r = ax_actor cx \<and>
           ae_principal r = ax_principal cx \<and> ae_binding r = ax_binding cx,
           Insufficient_privilege ''row policy''),
         (dotted_name (ae_action r), Check_violation ''action_format''),
         (name_ok (ae_resource_type r), Check_violation ''resource_type_format''),
         (ae_outcome r \<in> cps ` set audit_outcomes, Check_violation ''outcome_known''),
         (actor_shape (ae_actor r) (ae_principal r) (ae_binding r), Check_violation ''actor_shape''),
         (metadata_checks P (ae_details r), Check_violation ''details''),
         (starts_with (ae_action r) lifecycle_namespace = (ae_tag r \<noteq> None),
            Check_violation ''lifecycle_namespace_reserved''),
         (ae_id r \<notin> ae_id ` set (audits k), Unique_violation ''pk_audit_events''),
         (tag_exists (defs k) (ae_tag r), Foreign_key_violation ''tag'')]
       (k\<lparr>audits := audits k @ [r]\<rparr>)"

definition claim_constraint :: string where
  "claim_constraint = ''uq_idempotency_records_tenant_id_operation_idempotency_key''"

definition insert_claim ::
  "'f platform \<Rightarrow> bool \<Rightarrow> auth_context \<Rightarrow> 'f claim_row \<Rightarrow> 'f kernel \<Rightarrow> kernel_error + 'f kernel" where
  "insert_claim P writer cx r k =
     checked [(tag_derived writer (cl_tag r), Insufficient_privilege ''derived tag''),
         (Some (cl_tenant r) = ax_tenant cx \<and> auth_has_scope cx (Some mutation_scope),
            Insufficient_privilege ''row policy''),
         (dotted_name (cl_operation r), Check_violation ''operation_format''),
         (full_match idempotency_key_regex (cl_key r), Check_violation ''idempotency_key_format''),
         (metadata_checks P (cl_result r), Check_violation ''result''),
         (starts_with (cl_operation r) lifecycle_namespace = (cl_tag r \<noteq> None),
            Check_violation ''lifecycle_namespace_reserved''),
         (cl_id r \<notin> cl_id ` set (claims k), Unique_violation ''pk_idempotency_records''),
         (\<not> (\<exists>c \<in> set (claims k). cl_tenant c = cl_tenant r \<and> cl_operation c = cl_operation r \<and>
             cl_key c = cl_key r), Unique_violation claim_constraint),
         (tag_exists (defs k) (cl_tag r), Foreign_key_violation ''tag'')]
       (k\<lparr>claims := claims k @ [r]\<rparr>)"

text \<open>
  \<open>outbox_events_link_is_authorized\<close>: a generic writer may link an event only to a claim that it can
  read, of its own tenant, untagged and outside the reserved namespace.
\<close>

definition linkable :: "auth_context \<Rightarrow> uuid \<Rightarrow> uuid \<Rightarrow> 'f kernel \<Rightarrow> bool" where
  "linkable cx tenant c k \<longleftrightarrow>
     (\<exists>r \<in> set (claims k). cl_id r = c \<and> claim_readable cx (defs k) r \<and> cl_tenant r = tenant \<and>
        Some (cl_tenant r) = ax_tenant cx \<and> cl_tag r = None \<and>
        \<not> starts_with (cl_operation r) lifecycle_namespace)"

definition insert_outbox ::
  "'f platform \<Rightarrow> bool \<Rightarrow> auth_context \<Rightarrow> outbox_row \<Rightarrow> 'f kernel \<Rightarrow> kernel_error + 'f kernel" where
  "insert_outbox P writer cx r k =
     checked [(tag_derived writer (ob_tag r), Insufficient_privilege ''derived tag''),
         (case ob_claim r of None \<Rightarrow> True | Some c \<Rightarrow> writer \<or> linkable cx (ob_tenant r) c k, Link_refused),
         (Some (ob_tenant r) = ax_tenant cx \<and> auth_has_scope cx (Some mutation_scope),
            Insufficient_privilege ''row policy''),
         (dotted_name (ob_type r), Check_violation ''event_type_format''),
         (name_ok (ob_aggregate_type r), Check_violation ''aggregate_type_format''),
         (metadata_checks P (ob_attributes r), Check_violation ''attributes''),
         (ob_id r \<notin> ob_id ` set (outbox k), Unique_violation ''pk_outbox_events''),
         (case ob_claim r of None \<Rightarrow> True | Some c \<Rightarrow>
            \<not> (\<exists>e \<in> set (outbox k). ob_claim e = Some c \<and> ob_tenant e = ob_tenant r),
            Unique_violation ''uq_outbox_events_tenant_id_idempotency_record_id''),
         (case ob_claim r of None \<Rightarrow> True | Some c \<Rightarrow>
            (\<exists>x \<in> set (claims k). cl_id x = c \<and> cl_tenant x = ob_tenant r), Foreign_key_violation ''claim''),
         (tag_exists (defs k) (ob_tag r), Foreign_key_violation ''tag'')]
       (k\<lparr>outbox := outbox k @ [r]\<rparr>)"

text \<open>\<open>lifecycle_claim_provenance_guard\<close> and the constraints of the relation.\<close>

definition lifecycle_claim_of :: "provenance_row \<Rightarrow> 'f claim_row \<Rightarrow> bool" where
  "lifecycle_claim_of p r \<longleftrightarrow> cl_id r = pv_claim p \<and> cl_tenant r = pv_tenant p \<and>
     cl_tag r = Some (pv_machine p) \<and> starts_with (cl_operation r) lifecycle_namespace"

definition insert_provenance ::
  "bool \<Rightarrow> auth_context \<Rightarrow> provenance_row \<Rightarrow> 'f kernel \<Rightarrow> kernel_error + 'f kernel" where
  "insert_provenance writer cx p k =
     checked [(writer, Insufficient_privilege ''transition boundary''),
         (\<exists>r \<in> set (claims k). claim_readable cx (defs k) r \<and> lifecycle_claim_of p r, No_provenance),
         (0 \<le> pv_from_rev p, Check_violation ''from_revision_not_negative''),
         (pv_to_rev p = pv_from_rev p + 1, Check_violation ''revision_advances_by_one''),
         (pv_claim p \<notin> pv_claim ` set (provenance k), Unique_violation ''pk_lifecycle_claim_provenance''),
         (pv_transition p \<notin> pv_transition ` set (provenance k),
            Unique_violation ''uq_lifecycle_claim_provenance_transition_id''),
         (pv_event p \<notin> pv_event ` set (provenance k),
            Unique_violation ''uq_lifecycle_claim_provenance_event_id''),
         (\<exists>t \<in> set (transitions k). tr_id t = pv_transition p \<and> tr_tenant t = pv_tenant p,
            Foreign_key_violation ''transition''),
         (\<exists>i \<in> set (instances k). in_id i = pv_instance p \<and> in_tenant i = pv_tenant p \<and>
            in_machine i = pv_machine p, Foreign_key_violation ''instance''),
         (\<exists>e \<in> set (outbox k). ob_id e = pv_event p \<and> ob_tenant e = pv_tenant p,
            Foreign_key_violation ''event'')]
       (k\<lparr>provenance := provenance k @ [p]\<rparr>)"

end
