(* ===== verification/Lifecycle_Kernel.thy ===== *)
theory Lifecycle_Kernel
  imports Lifecycle_Tables
begin

text \<open>
  The two entry points of the lifecycle kernel, \<open>create_lifecycle_instance\<close> and
  \<open>transition_lifecycle_instance\<close> of migration \<open>0004\<close>, with the internal functions they call and the
  generic audit append of migration \<open>0003\<close>. A transition takes two states of the database: the one its first statements
  read, and the one its conditional update and all later statements see, since under
  \<open>READ COMMITTED\<close> other transactions may commit between the two. An error rolls everything back.
\<close>

section \<open>Documents\<close>

definition field :: "string \<Rightarrow> jsonb \<Rightarrow> utext \<times> jsonb" where
  "field key v = (cps key, v)"

definition J_text :: "utext option \<Rightarrow> jsonb" where
  "J_text t = (case t of None \<Rightarrow> J_null | Some v \<Rightarrow> J_string v)"

definition J_int :: "int \<Rightarrow> jsonb" where
  "J_int n = J_number (of_int n)"

text \<open>\<open>d -> key\<close>, and the two casts of \<open>d ->> key\<close>.\<close>

definition jsonb_get :: "jsonb \<Rightarrow> string \<Rightarrow> jsonb option" where
  "jsonb_get d key = (case d of J_object kvs \<Rightarrow> map_of kvs (cps key) | _ \<Rightarrow> None)"

definition get_text :: "jsonb \<Rightarrow> string \<Rightarrow> utext option" where
  "get_text d key = (case jsonb_get d key of Some (J_string v) \<Rightarrow> Some v | _ \<Rightarrow> None)"

definition get_int :: "jsonb \<Rightarrow> string \<Rightarrow> int option" where
  "get_int d key = (case jsonb_get d key of Some (J_number x) \<Rightarrow> Some (py_round x) | _ \<Rightarrow> None)"

text \<open>The result of a transition, the replayable document of its claim.\<close>

definition transition_result ::
  "uuid \<Rightarrow> uuid \<Rightarrow> machine_id \<Rightarrow> utext \<Rightarrow> utext \<Rightarrow> int \<Rightarrow> int \<Rightarrow> jsonb" where
  "transition_result tid iid m s t a b = J_object
     [field ''lifecycle_instance_id'' (J_string iid), field ''machine_key'' (J_string (fst m)),
      field ''machine_version'' (J_int (snd m)), field ''from_state'' (J_string s),
      field ''to_state'' (J_string t), field ''from_revision'' (J_int a),
      field ''to_revision'' (J_int b), field ''transition_id'' (J_string tid)]"

section \<open>The request\<close>

text \<open>What a caller passes; a missing argument is SQL's \<open>NULL\<close>.\<close>

record transition_request =
  q_instance :: "uuid option"
  q_expected :: "utext option"
  q_revision :: "int option"
  q_target :: "utext option"
  q_reason :: "utext option"
  q_details :: "jsonb option"
  q_key :: "utext option"

record checked_request =
  rq_instance :: uuid
  rq_expected :: utext
  rq_revision :: int
  rq_target :: utext
  rq_reason :: "utext option"
  rq_details :: jsonb
  rq_key :: "utext option"

definition secret_shape :: "utext option \<Rightarrow> string option" where
  "secret_shape v = (case v of None \<Rightarrow> None | Some t \<Rightarrow> looks_like_secret t)"

definition in_sql_integer :: "int option \<Rightarrow> bool" where
  "in_sql_integer n \<longleftrightarrow> (case n of None \<Rightarrow> True
     | Some i \<Rightarrow> - max_sql_integer - 1 \<le> i \<and> i \<le> max_sql_integer)"

definition at_least :: "int \<Rightarrow> int option \<Rightarrow> bool" where
  "at_least b n \<longleftrightarrow> (case n of None \<Rightarrow> False | Some i \<Rightarrow> b \<le> i)"

definition good_state_name :: "utext option \<Rightarrow> bool" where
  "good_state_name v \<longleftrightarrow> (case v of None \<Rightarrow> False | Some t \<Rightarrow> name_ok t)"

definition empty_object :: jsonb where "empty_object = J_object []"

text \<open>Everything the caller supplied is checked before anything is read or written.\<close>

definition check_request ::
  "'f platform \<Rightarrow> auth_context \<Rightarrow> bool \<Rightarrow> transition_request \<Rightarrow> kernel_error + checked_request" where
  "check_request P cx read_committed q =
     (case audit_require_acceptable_details (octets P) (q_details q) of
        r \<Rightarrow> checked [(in_sql_integer (q_revision q), Out_of_range),
          (ax_tenant cx \<noteq> None, Insufficient_privilege ''context''),
          (auth_has_scope cx (Some mutation_scope), Insufficient_privilege ''mutation:execute''),
          (q_instance q \<noteq> None, Invalid_parameter ''instance'' None),
          (at_least 0 (q_revision q), Invalid_parameter ''revision'' None),
          (secret_shape (q_expected q) = None, Invalid_parameter ''state'' (secret_shape (q_expected q))),
          (secret_shape (q_target q) = None, Invalid_parameter ''state'' (secret_shape (q_target q))),
          (good_state_name (q_expected q) \<and> good_state_name (q_target q), Invalid_parameter ''state'' None),
          (secret_shape (q_reason q) = None, Invalid_parameter ''reason'' (secret_shape (q_reason q))),
          (case q_reason q of None \<Rightarrow> True
             | Some s \<Rightarrow> 1 \<le> length s \<and> length s \<le> max_lifecycle_reason_length,
             Invalid_parameter ''reason'' None),
          (r = Inr (), case r of Inl e \<Rightarrow> Details_refused e | Inr u \<Rightarrow> Lifecycle_conflict),
          (secret_shape (q_key q) = None, Invalid_parameter ''key'' (secret_shape (q_key q))),
          (case q_key q of None \<Rightarrow> True | Some key \<Rightarrow> full_match idempotency_key_regex key,
             Invalid_parameter ''key'' None),
          (q_key q = None \<or> read_committed, Not_read_committed)]
        \<lparr>rq_instance = the (q_instance q), rq_expected = the (q_expected q),
         rq_revision = the (q_revision q), rq_target = the (q_target q), rq_reason = q_reason q,
         rq_details = (case q_details q of None \<Rightarrow> empty_object | Some d \<Rightarrow> d), rq_key = q_key q\<rparr>)"

text \<open>The derived operation: a namespace per machine version.\<close>

definition transition_operation :: "machine_id \<Rightarrow> utext" where
  "transition_operation m = cps ''lifecycle.transition.'' @ fst m @ cps ''.v'' @ cps (int_text (snd m))"

text \<open>\<open>lifecycle_request_fingerprint\<close>: the digest of the request that ran.\<close>

definition request_descriptor :: "uuid \<Rightarrow> utext \<Rightarrow> machine_id \<Rightarrow> checked_request \<Rightarrow> jsonb" where
  "request_descriptor tenant op m rq = J_object
     [field ''tenant'' (J_string tenant), field ''operation'' (J_string op),
      field ''lifecycle_instance_id'' (J_string (rq_instance rq)),
      field ''machine_key'' (J_string (fst m)), field ''machine_version'' (J_int (snd m)),
      field ''expected_state'' (J_string (rq_expected rq)),
      field ''expected_revision'' (J_int (rq_revision rq)),
      field ''target_state'' (J_string (rq_target rq)), field ''reason'' (J_text (rq_reason rq)),
      field ''details'' (rq_details rq)]"

definition lifecycle_request_fingerprint ::
  "'f platform \<Rightarrow> uuid \<Rightarrow> utext \<Rightarrow> machine_id \<Rightarrow> checked_request \<Rightarrow> 'f" where
  "lifecycle_request_fingerprint P tenant op m rq = digest P (request_descriptor tenant op m rq)"

section \<open>Replay\<close>

text \<open>
  The whole chain behind a claim: the provenance row, the transition, the instance and the event,
  each visible to the caller and agreeing with the others and with the stored result.
\<close>

definition transition_behind :: "provenance_row \<Rightarrow> jsonb \<Rightarrow> transition_row \<Rightarrow> bool" where
  "transition_behind p result t \<longleftrightarrow> tr_id t = pv_transition p \<and> tr_tenant t = pv_tenant p \<and>
     tr_instance t = pv_instance p \<and> tr_machine t = pv_machine p \<and>
     tr_from_rev t = pv_from_rev p \<and> tr_to_rev t = pv_to_rev p \<and>
     jsonb_get result ''transition_id'' = Some (J_string (tr_id t)) \<and>
     jsonb_get result ''lifecycle_instance_id'' = Some (J_string (pv_instance p)) \<and>
     jsonb_get result ''machine_key'' = Some (J_string (fst (pv_machine p))) \<and>
     jsonb_get result ''machine_version'' = Some (J_int (snd (pv_machine p))) \<and>
     jsonb_get result ''from_state'' = Some (J_string (tr_from t)) \<and>
     jsonb_get result ''to_state'' = Some (J_string (tr_to t)) \<and>
     jsonb_get result ''from_revision'' = Some (J_int (tr_from_rev t)) \<and>
     jsonb_get result ''to_revision'' = Some (J_int (tr_to_rev t))"

definition instance_behind :: "provenance_row \<Rightarrow> instance_row \<Rightarrow> bool" where
  "instance_behind p i \<longleftrightarrow> in_id i = pv_instance p \<and> in_tenant i = pv_tenant p \<and>
     in_machine i = pv_machine p \<and> pv_to_rev p \<le> in_revision i"

definition event_behind :: "provenance_row \<Rightarrow> outbox_row \<Rightarrow> bool" where
  "event_behind p e \<longleftrightarrow> ob_id e = pv_event p \<and> ob_tenant e = pv_tenant p \<and>
     ob_claim e = Some (pv_claim p) \<and> ob_tag e = Some (pv_machine p)"

definition verified ::
  "auth_context \<Rightarrow> machine_id \<Rightarrow> 'f claim_row \<Rightarrow> 'f kernel \<Rightarrow> provenance_row \<Rightarrow> bool" where
  "verified cx m r k p \<longleftrightarrow> pv_claim p = cl_id r \<and> pv_tenant p = cl_tenant r \<and>
     cl_tag r = Some (pv_machine p) \<and> pv_machine p = m \<and>
     (\<exists>t \<in> set (transitions k). transition_readable cx (defs k) t \<and> transition_behind p (cl_result r) t) \<and>
     (\<exists>i \<in> set (instances k). instance_readable cx (defs k) i \<and> instance_behind p i) \<and>
     (\<exists>e \<in> set (outbox k). outbox_readable cx (defs k) e \<and> event_behind p e)"

definition lifecycle_replay_claim ::
  "auth_context \<Rightarrow> utext \<Rightarrow> utext \<Rightarrow> machine_id \<Rightarrow> 'f \<Rightarrow> 'f kernel
     \<Rightarrow> kernel_error + (uuid \<times> uuid \<times> jsonb) option" where
  "lifecycle_replay_claim cx op key m fp k =
     (case find (\<lambda>r. claim_readable cx (defs k) r \<and> cl_operation r = op \<and> cl_key r = key) (claims k) of
        None \<Rightarrow> Inr None
      | Some r \<Rightarrow> (case find (verified cx m r k) (provenance k) of None \<Rightarrow> Inl No_provenance
        | Some p \<Rightarrow> if cl_fingerprint r \<noteq> fp then Inl Key_reused
            else Inr (Some (cl_id r, pv_event p, cl_result r))))"

section \<open>The lifecycle append of the audit trail\<close>

definition append_lifecycle_audit_event ::
  "'f platform \<Rightarrow> auth_context \<Rightarrow> uuid \<Rightarrow> string \<Rightarrow> string \<Rightarrow> string \<Rightarrow> uuid \<Rightarrow> jsonb \<Rightarrow> machine_id
     \<Rightarrow> 'f kernel \<Rightarrow> kernel_error + 'f kernel" where
  "append_lifecycle_audit_event P cx aid action outcome rtype rid details m k =
     (if ax_tenant cx = None then Inl (Insufficient_privilege ''context'')
      else case audit_require_acceptable_details (octets P) (Some details) of
        Inl e \<Rightarrow> Inl (Details_refused e)
      | Inr u \<Rightarrow> insert_audit P True cx
          \<lparr>ae_id = aid, ae_tenant = the (ax_tenant cx), ae_actor = ax_actor cx,
           ae_principal = ax_principal cx, ae_binding = ax_binding cx, ae_action = cps action,
           ae_outcome = cps outcome, ae_resource_type = cps rtype, ae_resource = Some rid, ae_correlation = None,
           ae_details = details, ae_tag = Some m\<rparr> k)"

text \<open>
  The generic append of migration \<open>0003\<close>, the only way a runtime role reaches the trail: everything
  derived comes from the context, and everything supplied is checked.
\<close>

definition sql_append_audit_event ::
  "'f platform \<Rightarrow> auth_context \<Rightarrow> uuid \<Rightarrow> utext option \<Rightarrow> utext option \<Rightarrow> utext option \<Rightarrow> uuid option
     \<Rightarrow> uuid option \<Rightarrow> jsonb option \<Rightarrow> 'f kernel \<Rightarrow> kernel_error + 'f kernel" where
  "sql_append_audit_event P cx aid action outcome rtype rid corr details k =
     (case audit_require_acceptable_details (octets P) details of r \<Rightarrow>
      (case checked [(ax_tenant cx \<noteq> None, Insufficient_privilege ''context''),
          (secret_shape action = None, Invalid_parameter ''action'' (secret_shape action)),
          (action \<noteq> None \<and> dotted_name (the action), Invalid_parameter ''action'' None),
          (secret_shape rtype = None, Invalid_parameter ''resource type'' (secret_shape rtype)),
          (good_state_name rtype, Invalid_parameter ''resource type'' None),
          (outcome \<noteq> None \<and> the outcome \<in> cps ` set audit_outcomes, Invalid_parameter ''outcome'' None),
          (r = Inr (), case r of Inl e \<Rightarrow> Details_refused e | Inr u \<Rightarrow> Lifecycle_conflict)] () of
         Inl e \<Rightarrow> Inl e
       | Inr u \<Rightarrow> insert_audit P False cx
          \<lparr>ae_id = aid, ae_tenant = the (ax_tenant cx), ae_actor = ax_actor cx,
           ae_principal = ax_principal cx, ae_binding = ax_binding cx, ae_action = the action,
           ae_outcome = the outcome, ae_resource_type = the rtype, ae_resource = rid,
           ae_correlation = corr,
           ae_details = (case details of None \<Rightarrow> empty_object | Some d \<Rightarrow> d), ae_tag = None\<rparr> k))"

section \<open>Creating an instance\<close>

record creation_reply =
  cr_instance :: uuid
  cr_state :: utext
  cr_event :: uuid

definition check_creation ::
  "auth_context \<Rightarrow> utext option \<Rightarrow> int option \<Rightarrow> definitions \<Rightarrow> kernel_error + machine_id" where
  "check_creation cx key version d =
     (let m = (the key, the version)
      in checked [(in_sql_integer version, Out_of_range),
        (ax_tenant cx \<noteq> None, Insufficient_privilege ''context''),
        (secret_shape key = None, Invalid_parameter ''machine key'' (secret_shape key)),
        (good_state_name key, Invalid_parameter ''machine key'' None),
        (at_least 1 version, Invalid_parameter ''machine version'' None),
        (lifecycle_required_scope d m Create \<noteq> None, Definition_unusable ''not registered''),
        (holds cx d m Create, Insufficient_privilege ''create scope''),
        (auth_has_scope cx (Some mutation_scope), Insufficient_privilege ''mutation:execute''),
        (lifecycle_initial_state d m \<noteq> None, Definition_unusable ''no initial state'')] m)"

definition created_details :: "machine_id \<Rightarrow> utext \<Rightarrow> jsonb" where
  "created_details m s = J_object
     [field ''machine_key'' (J_string (fst m)), field ''machine_version'' (J_int (snd m)),
      field ''initial_state'' (J_string s)]"

definition create_lifecycle_instance ::
  "'f platform \<Rightarrow> auth_context \<Rightarrow> utext option \<Rightarrow> int option \<Rightarrow> uuid \<times> uuid \<times> uuid \<Rightarrow> rat
     \<Rightarrow> 'f kernel \<Rightarrow> kernel_error + creation_reply \<times> 'f kernel" where
  "create_lifecycle_instance P cx key version ids now k =
     (case ids of (iid, aid, eid) \<Rightarrow>
      (case check_creation cx key version (defs k) of Inl e \<Rightarrow> Inl e
       | Inr m \<Rightarrow>
        (let tenant = the (ax_tenant cx); s = the (lifecycle_initial_state (defs k) m)
         in case insert_instance cx now \<lparr>in_id = iid, in_tenant = tenant, in_machine = m, in_state = s,
               in_revision = 0, in_created = now, in_updated = now\<rparr> k of Inl e \<Rightarrow> Inl e
         | Inr k1 \<Rightarrow> (case append_lifecycle_audit_event P cx aid ''lifecycle.instance_created'' ''succeeded''
               ''lifecycle_instance'' iid (created_details m s) m k1 of Inl e \<Rightarrow> Inl e
         | Inr k2 \<Rightarrow> (case insert_outbox P True cx \<lparr>ob_id = eid, ob_tenant = tenant, ob_claim = None,
               ob_type = fst m @ cps ''.created'', ob_aggregate_type = fst m, ob_aggregate = iid,
               ob_attributes = J_object [field ''machine_version'' (J_int (snd m)),
                 field ''initial_state'' (J_string s)], ob_tag = Some m\<rparr> k2 of Inl e \<Rightarrow> Inl e
         | Inr k3 \<Rightarrow> Inr (\<lparr>cr_instance = iid, cr_state = s, cr_event = eid\<rparr>, k3))))))"

section \<open>Moving an instance\<close>

record new_ids =
  n_transition :: uuid
  n_audit :: uuid
  n_claim :: uuid
  n_event :: uuid

record transition_reply =
  rp_transition :: "uuid option"
  rp_machine :: machine_id
  rp_from_rev :: "int option"
  rp_to_rev :: "int option"
  rp_event :: uuid
  rp_claim :: "uuid option"
  rp_result :: jsonb
  rp_operation :: "utext option"
  rp_replayed :: bool

definition replayed_reply :: "machine_id \<Rightarrow> uuid \<times> uuid \<times> jsonb \<Rightarrow> transition_reply" where
  "replayed_reply m rep = (case rep of (rid, eid, result) \<Rightarrow>
     \<lparr>rp_transition = get_text result ''transition_id'', rp_machine = m,
      rp_from_rev = get_int result ''from_revision'', rp_to_rev = get_int result ''to_revision'',
      rp_event = eid, rp_claim = Some rid, rp_result = result,
      rp_operation = Some (transition_operation m), rp_replayed = True\<rparr>)"

text \<open>The claim lookup of a keyed request, for the machine its instance pins.\<close>

definition replay ::
  "'f platform \<Rightarrow> auth_context \<Rightarrow> checked_request \<Rightarrow> machine_id \<Rightarrow> 'f kernel
     \<Rightarrow> kernel_error + transition_reply option" where
  "replay P cx rq m k =
     (case rq_key rq of None \<Rightarrow> Inr None
      | Some key \<Rightarrow>
         (let op = transition_operation m
          in case lifecycle_replay_claim cx op key m
               (lifecycle_request_fingerprint P (the (ax_tenant cx)) op m rq) k of
            Inl e \<Rightarrow> Inl e
          | Inr None \<Rightarrow> Inr None
          | Inr (Some rep) \<Rightarrow> Inr (Some (replayed_reply m rep))))"

text \<open>No row matched: a lost identical race replays, everything else is the one conflict.\<close>

definition lost_update ::
  "'f platform \<Rightarrow> auth_context \<Rightarrow> checked_request \<Rightarrow> machine_id \<Rightarrow> 'f kernel
     \<Rightarrow> kernel_error + transition_reply \<times> 'f kernel" where
  "lost_update P cx rq m k =
     (case replay P cx rq m k of Inl e \<Rightarrow> Inl e
      | Inr (Some rep) \<Rightarrow> Inr (rep, k) | Inr None \<Rightarrow> Inl Lifecycle_conflict)"

definition moved_details :: "uuid \<Rightarrow> machine_id \<Rightarrow> checked_request \<Rightarrow> jsonb" where
  "moved_details tid m rq = J_object
     [field ''machine_key'' (J_string (fst m)), field ''machine_version'' (J_int (snd m)),
      field ''from_state'' (J_string (rq_expected rq)), field ''to_state'' (J_string (rq_target rq)),
      field ''from_revision'' (J_int (rq_revision rq)), field ''to_revision'' (J_int (rq_revision rq + 1)),
      field ''transition_id'' (J_string tid)]"

definition new_transition ::
  "auth_context \<Rightarrow> new_ids \<Rightarrow> rat \<Rightarrow> checked_request \<Rightarrow> machine_id \<Rightarrow> transition_row" where
  "new_transition cx ids now rq m = \<lparr>tr_id = n_transition ids, tr_tenant = the (ax_tenant cx),
     tr_instance = rq_instance rq, tr_machine = m, tr_from = rq_expected rq, tr_to = rq_target rq,
     tr_from_rev = rq_revision rq, tr_to_rev = rq_revision rq + 1, tr_actor = ax_actor cx,
     tr_principal = ax_principal cx, tr_binding = ax_binding cx, tr_reason = rq_reason rq,
     tr_details = rq_details rq, tr_at = now\<rparr>"

definition new_result :: "new_ids \<Rightarrow> checked_request \<Rightarrow> machine_id \<Rightarrow> jsonb" where
  "new_result ids rq m = transition_result (n_transition ids) (rq_instance rq) m (rq_expected rq)
     (rq_target rq) (rq_revision rq) (rq_revision rq + 1)"

definition new_claim ::
  "'f platform \<Rightarrow> auth_context \<Rightarrow> new_ids \<Rightarrow> checked_request \<Rightarrow> machine_id \<Rightarrow> utext \<Rightarrow> 'f claim_row" where
  "new_claim P cx ids rq m key =
     (let op = transition_operation m; tenant = the (ax_tenant cx)
      in \<lparr>cl_id = n_claim ids, cl_tenant = tenant, cl_operation = op, cl_key = key,
          cl_fingerprint = lifecycle_request_fingerprint P tenant op m rq,
          cl_result = new_result ids rq m, cl_tag = Some m\<rparr>)"

definition new_event ::
  "auth_context \<Rightarrow> new_ids \<Rightarrow> checked_request \<Rightarrow> machine_id \<Rightarrow> outbox_row" where
  "new_event cx ids rq m = \<lparr>ob_id = n_event ids, ob_tenant = the (ax_tenant cx),
     ob_claim = (if rq_key rq = None then None else Some (n_claim ids)),
     ob_type = fst m @ cps ''.transitioned'', ob_aggregate_type = fst m, ob_aggregate = rq_instance rq,
     ob_attributes = J_object [field ''machine_version'' (J_int (snd m)),
       field ''from_state'' (J_string (rq_expected rq)), field ''to_state'' (J_string (rq_target rq)),
       field ''from_revision'' (J_int (rq_revision rq)),
       field ''to_revision'' (J_int (rq_revision rq + 1)),
       field ''transition_id'' (J_string (n_transition ids))], ob_tag = Some m\<rparr>"

definition new_provenance ::
  "auth_context \<Rightarrow> new_ids \<Rightarrow> checked_request \<Rightarrow> machine_id \<Rightarrow> provenance_row" where
  "new_provenance cx ids rq m = \<lparr>pv_claim = n_claim ids, pv_tenant = the (ax_tenant cx),
     pv_transition = n_transition ids, pv_instance = rq_instance rq, pv_machine = m,
     pv_from_rev = rq_revision rq, pv_to_rev = rq_revision rq + 1, pv_event = n_event ids\<rparr>"

text \<open>The rows of a move, in the order the function writes them.\<close>

definition record_move ::
  "'f platform \<Rightarrow> auth_context \<Rightarrow> new_ids \<Rightarrow> rat \<Rightarrow> checked_request \<Rightarrow> machine_id \<Rightarrow> 'f kernel
     \<Rightarrow> kernel_error + 'f kernel" where
  "record_move P cx ids now rq m k =
     (case insert_transition P cx now (new_transition cx ids now rq m) k of Inl e \<Rightarrow> Inl e
      | Inr k1 \<Rightarrow> (case append_lifecycle_audit_event P cx (n_audit ids) ''lifecycle.transitioned''
          ''succeeded'' ''lifecycle_instance'' (rq_instance rq) (moved_details (n_transition ids) m rq) m k1 of
          Inl e \<Rightarrow> Inl e
      | Inr k2 \<Rightarrow> (case (case rq_key rq of None \<Rightarrow> Inr k2
             | Some key \<Rightarrow> insert_claim P True cx (new_claim P cx ids rq m key) k2) of Inl e \<Rightarrow> Inl e
      | Inr k3 \<Rightarrow> (case insert_outbox P True cx (new_event cx ids rq m) k3 of Inl e \<Rightarrow> Inl e
      | Inr k4 \<Rightarrow> if rq_key rq = None then Inr k4
          else insert_provenance True cx (new_provenance cx ids rq m) k4))))"

text \<open>\<open>EXCEPTION WHEN unique_violation\<close>: only a taken claim is recovered from, by replaying it.\<close>

definition recover ::
  "'f platform \<Rightarrow> auth_context \<Rightarrow> checked_request \<Rightarrow> machine_id \<Rightarrow> 'f kernel \<Rightarrow> kernel_error
     \<Rightarrow> kernel_error + transition_reply \<times> 'f kernel" where
  "recover P cx rq m k e =
     (if rq_key rq = None \<or> e \<noteq> Unique_violation claim_constraint then Inl e
      else case replay P cx rq m k of Inl e' \<Rightarrow> Inl e'
      | Inr None \<Rightarrow> Inl No_provenance | Inr (Some rep) \<Rightarrow> Inr (rep, k))"

definition matches :: "uuid \<Rightarrow> machine_id \<Rightarrow> checked_request \<Rightarrow> instance_row \<Rightarrow> bool" where
  "matches tenant m rq i \<longleftrightarrow> in_id i = rq_instance rq \<and> in_tenant i = tenant \<and> in_machine i = m \<and>
     in_state i = rq_expected rq \<and> in_revision i = rq_revision rq"

definition advance :: "checked_request \<Rightarrow> instance_row \<Rightarrow> instance_row" where
  "advance rq i = i\<lparr>in_state := rq_target rq, in_revision := in_revision i + 1\<rparr>"

definition moved_reply ::
  "auth_context \<Rightarrow> new_ids \<Rightarrow> checked_request \<Rightarrow> machine_id \<Rightarrow> transition_reply" where
  "moved_reply cx ids rq m = \<lparr>rp_transition = Some (n_transition ids), rp_machine = m,
     rp_from_rev = Some (rq_revision rq), rp_to_rev = Some (rq_revision rq + 1), rp_event = n_event ids,
     rp_claim = (if rq_key rq = None then None else Some (n_claim ids)), rp_result = new_result ids rq m,
     rp_operation = (if rq_key rq = None then None else Some (transition_operation m)),
     rp_replayed = False\<rparr>"

text \<open>The compare-and-swap and everything after it, against the database as it is then.\<close>

definition swap_and_record ::
  "'f platform \<Rightarrow> auth_context \<Rightarrow> new_ids \<Rightarrow> rat \<Rightarrow> checked_request \<Rightarrow> machine_id \<Rightarrow> 'f kernel
     \<Rightarrow> kernel_error + transition_reply \<times> 'f kernel" where
  "swap_and_record P cx ids now rq m k =
     (case amend_instances cx now (matches (the (ax_tenant cx)) m rq) (advance rq) k of Inl e \<Rightarrow> Inl e
      | Inr (n, k1) \<Rightarrow>
          (if n = 0 then lost_update P cx rq m k
           else case record_move P cx ids now rq m k1 of Inl e \<Rightarrow> recover P cx rq m k e
           | Inr k2 \<Rightarrow> Inr (moved_reply cx ids rq m, k2)))"

text \<open>The branch for an instance that was found, as the first statements read it.\<close>

definition move_instance ::
  "'f platform \<Rightarrow> auth_context \<Rightarrow> new_ids \<Rightarrow> rat \<Rightarrow> checked_request \<Rightarrow> instance_row \<Rightarrow> 'f kernel
     \<Rightarrow> 'f kernel \<Rightarrow> kernel_error + transition_reply \<times> 'f kernel" where
  "move_instance P cx ids now rq i k1 k =
     (let m = in_machine i; d = defs k1
      in if lifecycle_required_scope d m Transition = None then Inl (Definition_unusable ''not registered'')
      else if \<not> holds cx d m Transition then Inl (Insufficient_privilege ''transition scope'')
      else case replay P cx rq m k1 of Inl e \<Rightarrow> Inl e
      | Inr (Some rep) \<Rightarrow> Inr (rep, k)
      | Inr None \<Rightarrow>
          (if in_state i \<noteq> rq_expected rq \<or> in_revision i \<noteq> rq_revision rq then lost_update P cx rq m k
           else if lifecycle_state_is_terminal d m (in_state i) then Inl (Not_allowed ''terminal'')
           else if \<not> lifecycle_edge_exists d m (in_state i) (rq_target rq) then Inl (Not_allowed ''edge'')
           else swap_and_record P cx ids now rq m k))"

definition transition_lifecycle_instance ::
  "'f platform \<Rightarrow> auth_context \<Rightarrow> bool \<Rightarrow> transition_request \<Rightarrow> new_ids \<Rightarrow> rat \<Rightarrow> 'f kernel
     \<Rightarrow> 'f kernel \<Rightarrow> kernel_error + transition_reply \<times> 'f kernel" where
  "transition_lifecycle_instance P cx read_committed q ids now k1 k =
     (case check_request P cx read_committed q of Inl e \<Rightarrow> Inl e
      | Inr rq \<Rightarrow>
         (case find (\<lambda>i. in_id i = rq_instance rq \<and> instance_readable cx (defs k1) i) (instances k1) of
            None \<Rightarrow> Inl Lifecycle_conflict
          | Some i \<Rightarrow> move_instance P cx ids now rq i k1 k))"

end
