(* ===== verification/Lifecycle_Steps.thy ===== *)
theory Lifecycle_Steps
  imports Lifecycle_Kernel
begin

text \<open>
  The steps of the lifecycle kernel and what one of them does. \<open>kernel_step\<close> is one committed
  transaction of any kind: a registration statement of the schema owner, a creation, a transition
  (whose first reads may come from any other state), or a generic claim, event or audit row. \<open>extends\<close> says how a
  later state relates to an earlier one: definitions are sealed, rows are only appended, and an
  instance only advances.
\<close>

section \<open>Steps\<close>

inductive kernel_step :: "'f platform \<Rightarrow> 'f kernel \<Rightarrow> 'f kernel \<Rightarrow> bool" for P where
  define_step: "def_step (defs k) d \<Longrightarrow> kernel_step P k (k\<lparr>defs := d\<rparr>)"
| create_step: "create_lifecycle_instance P cx key version ids now k = Inr (reply, k') \<Longrightarrow> kernel_step P k k'"
| move_step: "transition_lifecycle_instance P cx rc q ids now k1 k = Inr (reply, k') \<Longrightarrow> kernel_step P k k'"
| claim_step: "insert_claim P False cx r k = Inr k' \<Longrightarrow> kernel_step P k k'"
| event_step: "insert_outbox P False cx e k = Inr k' \<Longrightarrow> kernel_step P k k'"
| audit_step: "sql_append_audit_event P cx aid action outcome rtype rid corr details k = Inr k' \<Longrightarrow> kernel_step P k k'"

definition empty_kernel :: "'f kernel" where
  "empty_kernel = \<lparr>defs = no_definitions, instances = [], transitions = [], audits = [], claims = [],
     outbox = [], provenance = []\<rparr>"

section \<open>What one successful transition does\<close>

lemma check_request_Inr:
  assumes "check_request P cx rc q = Inr rq"
  shows "ax_tenant cx \<noteq> None" "auth_has_scope cx (Some mutation_scope)"
    "q_instance q = Some (rq_instance rq)" "q_expected q = Some (rq_expected rq)"
    "q_revision q = Some (rq_revision rq)" "q_target q = Some (rq_target rq)"
    "rq_key rq = q_key q" "rq_reason rq = q_reason q" "0 \<le> rq_revision rq"
    "name_ok (rq_expected rq)" "name_ok (rq_target rq)"
proof -
  have c: "ax_tenant cx \<noteq> None" "auth_has_scope cx (Some mutation_scope)" "q_instance q \<noteq> None"
    "at_least 0 (q_revision q)" "good_state_name (q_expected q)" "good_state_name (q_target q)"
    and rq: "rq = \<lparr>rq_instance = the (q_instance q), rq_expected = the (q_expected q),
      rq_revision = the (q_revision q), rq_target = the (q_target q), rq_reason = q_reason q,
      rq_details = (case q_details q of None \<Rightarrow> empty_object | Some d \<Rightarrow> d), rq_key = q_key q\<rparr>"
    using assms unfolding check_request_def checked_Inr list.pred_inject fst_conv by blast+
  show "ax_tenant cx \<noteq> None" "auth_has_scope cx (Some mutation_scope)" by (fact c)+
  show "q_instance q = Some (rq_instance rq)" "q_revision q = Some (rq_revision rq)"
    "0 \<le> rq_revision rq" "rq_key rq = q_key q" "rq_reason rq = q_reason q"
    using c rq by (auto simp: at_least_def split: option.splits)
  show "q_expected q = Some (rq_expected rq)" "name_ok (rq_expected rq)"
    using c (5) rq by (auto simp: good_state_name_def split: option.splits)
  show "q_target q = Some (rq_target rq)" "name_ok (rq_target rq)"
    using c (6) rq by (auto simp: good_state_name_def split: option.splits)
qed

lemma find_in: "find p xs = Some x \<Longrightarrow> x \<in> set xs \<and> p x"
  by (auto simp: find_Some_iff)

text \<open>A reply is either a replay, which changes nothing, or the rows of a move.\<close>

lemma lost_update_same: "lost_update P cx rq m k = Inr (reply, k') \<Longrightarrow> k' = k \<and> rp_replayed reply"
  by (auto simp: lost_update_def replay_def replayed_reply_def Let_def split: sum.splits option.splits)

lemma replay_replayed: "replay P cx rq m k = Inr (Some rep) \<Longrightarrow> rp_replayed rep"
  by (auto simp: replay_def replayed_reply_def Let_def split: sum.splits option.splits)

lemma recover_same: "recover P cx rq m k e = Inr (reply, k') \<Longrightarrow> k' = k \<and> rp_replayed reply"
  by (auto simp: recover_def replay_replayed split: sum.splits option.splits if_splits)

lemma swap_cases:
  assumes "swap_and_record P cx ids now rq m k = Inr (reply, k')"
  shows "k' = k \<and> rp_replayed reply \<or>
    (\<exists>n k1. amend_instances cx now (matches (the (ax_tenant cx)) m rq) (advance rq) k = Inr (n, k1) \<and>
      n \<noteq> 0 \<and> record_move P cx ids now rq m k1 = Inr k' \<and> reply = moved_reply cx ids rq m)"
  using assms
  by (auto simp: swap_and_record_def dest: lost_update_same recover_same
      split: sum.splits prod.splits if_splits)

lemma transition_cases:
  assumes "transition_lifecycle_instance P cx rc q ids now k1 k = Inr (reply, k')"
  shows "k' = k \<and> rp_replayed reply \<or>
    (\<exists>rq m n k2. check_request P cx rc q = Inr rq \<and>
      amend_instances cx now (matches (the (ax_tenant cx)) m rq) (advance rq) k = Inr (n, k2) \<and>
      n \<noteq> 0 \<and> record_move P cx ids now rq m k2 = Inr k' \<and> reply = moved_reply cx ids rq m)"
proof -
  obtain rq i where rq: "check_request P cx rc q = Inr rq"
    and i: "move_instance P cx ids now rq i k1 k = Inr (reply, k')"
    using assms by (auto simp: transition_lifecycle_instance_def split: sum.splits option.splits)
  have "k' = k \<and> rp_replayed reply \<or> swap_and_record P cx ids now rq (in_machine i) k = Inr (reply, k')"
    using i by (auto simp: move_instance_def Let_def dest: lost_update_same replay_replayed
        split: if_splits sum.splits option.splits)
  with swap_cases rq show ?thesis by blast
qed


section \<open>The update\<close>

definition visible_match :: "auth_context \<Rightarrow> definitions \<Rightarrow> (instance_row \<Rightarrow> bool) \<Rightarrow> instance_row \<Rightarrow> bool" where
  "visible_match cx d p r \<longleftrightarrow> p r \<and> instance_readable cx d r \<and> holds cx d (in_machine r) Transition"

lemma amend_row_Inr:
  "amend_row cx d now p f r = Inr r' \<longleftrightarrow>
    (if visible_match cx d p r then in_revision (f r) \<le> max_sql_integer \<and>
       instance_before_update d now r (f r) = Inr r' else r' = r)"
  by (auto simp: amend_row_def visible_match_def)

lemma amend_instances_Inr:
  assumes "amend_instances cx now p f k = Inr (n, k')"
  shows "k' = k\<lparr>instances := instances k'\<rparr>"
    "list_all2 (\<lambda>r r'. amend_row cx (defs k) now p f r = Inr r') (instances k) (instances k')"
    "n = length (filter (visible_match cx (defs k) p) (instances k))"
  using assms
  by (auto simp: amend_instances_def visible_match_def [abs_def] seq_map_Inr_iff split: sum.splits)

text \<open>What an update through the trigger does to one row.\<close>

definition advanced :: "definitions \<Rightarrow> instance_row \<Rightarrow> instance_row \<Rightarrow> bool" where
  "advanced d i i' \<longleftrightarrow> in_id i' = in_id i \<and> in_tenant i' = in_tenant i \<and> in_machine i' = in_machine i \<and>
     in_created i' = in_created i \<and> in_revision i' = in_revision i + 1 \<and>
     in_revision i' \<le> max_sql_integer \<and>
     \<not> lifecycle_state_is_terminal d (in_machine i) (in_state i) \<and>
     lifecycle_edge_exists d (in_machine i) (in_state i) (in_state i')"

lemma amend_row_cases:
  assumes "amend_row cx d now p f r = Inr r'"
  shows "r' = r \<and> \<not> visible_match cx d p r \<or> visible_match cx d p r \<and> advanced d r r' \<and>
    in_state r' = in_state (f r)"
  using assms unfolding amend_row_Inr
  by (auto simp: instance_before_update_def advanced_def split: if_splits)

section \<open>The rows of a move\<close>

definition moved_audit ::
  "auth_context \<Rightarrow> new_ids \<Rightarrow> checked_request \<Rightarrow> machine_id \<Rightarrow> audit_row" where
  "moved_audit cx ids rq m = \<lparr>ae_id = n_audit ids, ae_tenant = the (ax_tenant cx), ae_actor = ax_actor cx,
     ae_principal = ax_principal cx, ae_binding = ax_binding cx, ae_action = cps ''lifecycle.transitioned'',
     ae_outcome = cps ''succeeded'', ae_resource_type = cps ''lifecycle_instance'',
     ae_resource = Some (rq_instance rq), ae_correlation = None, ae_details = moved_details (n_transition ids) m rq,
     ae_tag = Some m\<rparr>"

definition written ::
  "'f platform \<Rightarrow> auth_context \<Rightarrow> new_ids \<Rightarrow> rat \<Rightarrow> checked_request \<Rightarrow> machine_id \<Rightarrow> 'f kernel \<Rightarrow> 'f kernel" where
  "written P cx ids now rq m k = k\<lparr>
     transitions := transitions k @ [new_transition cx ids now rq m],
     audits := audits k @ [moved_audit cx ids rq m],
     claims := claims k @ (case rq_key rq of None \<Rightarrow> [] | Some key \<Rightarrow> [new_claim P cx ids rq m key]),
     outbox := outbox k @ [new_event cx ids rq m],
     provenance := provenance k @ (if rq_key rq = None then [] else [new_provenance cx ids rq m])\<rparr>"

lemma insert_transition_Inr:
  assumes "insert_transition P cx now r k = Inr k'"
  shows "k' = k\<lparr>transitions := transitions k @ [r\<lparr>tr_at := now\<rparr>]\<rparr>"
    "tr_id r \<notin> tr_id ` set (transitions k)"
    "\<exists>i \<in> set (instances k). in_id i = tr_instance r \<and> in_tenant i = tr_tenant r \<and> in_machine i = tr_machine r"
    "\<exists>e \<in> set (edges_of (tr_machine r) (defs k)). er_from e = tr_from r \<and> er_to e = tr_to r"
    "holds cx (defs k) (tr_machine r) Transition"
  using assms unfolding insert_transition_def checked_Inr list.pred_inject fst_conv by blast+

lemma append_audit_Inr:
  assumes "append_lifecycle_audit_event P cx aid action outcome rtype rid details m k = Inr k'"
  shows "k' = k\<lparr>audits := audits k @ [\<lparr>ae_id = aid, ae_tenant = the (ax_tenant cx), ae_actor = ax_actor cx,
           ae_principal = ax_principal cx, ae_binding = ax_binding cx, ae_action = cps action,
           ae_outcome = cps outcome, ae_resource_type = cps rtype, ae_resource = Some rid, ae_correlation = None,
           ae_details = details, ae_tag = Some m\<rparr>]\<rparr>"
  using assms by (auto simp: append_lifecycle_audit_event_def insert_audit_def split: if_splits sum.splits)

lemma sql_append_Inr:
  assumes "sql_append_audit_event P cx aid action outcome rtype rid corr details k = Inr k'"
  shows "\<exists>a. k' = k\<lparr>audits := audits k @ [a]\<rparr> \<and> Some (ae_tenant a) = ax_tenant cx \<and> ae_tag a = None"
  using assms unfolding sql_append_audit_event_def bind_Inr insert_audit_def checked_Inr list.pred_inject fst_conv
  by auto

lemma insert_claim_Inr:
  assumes "insert_claim P writer cx r k = Inr k'"
  shows "k' = k\<lparr>claims := claims k @ [r]\<rparr>" "cl_tag r = None \<or> writer"
    "starts_with (cl_operation r) lifecycle_namespace = (cl_tag r \<noteq> None)"
    "cl_id r \<notin> cl_id ` set (claims k)"
    "\<not> (\<exists>c \<in> set (claims k). cl_tenant c = cl_tenant r \<and> cl_operation c = cl_operation r \<and> cl_key c = cl_key r)"
    "tag_exists (defs k) (cl_tag r)"
  using assms unfolding insert_claim_def checked_Inr list.pred_inject fst_conv tag_derived_def by blast+

lemma insert_outbox_Inr:
  assumes "insert_outbox P writer cx r k = Inr k'"
  shows "k' = k\<lparr>outbox := outbox k @ [r]\<rparr>" "ob_tag r = None \<or> writer"
    "case ob_claim r of None \<Rightarrow> True | Some c \<Rightarrow> writer \<or> linkable cx (ob_tenant r) c k"
    "ob_id r \<notin> ob_id ` set (outbox k)"
  using assms unfolding insert_outbox_def checked_Inr list.pred_inject fst_conv tag_derived_def by blast+

lemma insert_provenance_Inr:
  assumes "insert_provenance writer cx p k = Inr k'"
  shows "k' = k\<lparr>provenance := provenance k @ [p]\<rparr>" "writer"
    "pv_claim p \<notin> pv_claim ` set (provenance k)"
    "pv_transition p \<notin> pv_transition ` set (provenance k)"
  using assms unfolding insert_provenance_def checked_Inr list.pred_inject fst_conv by blast+

lemma insert_instance_Inr:
  assumes "insert_instance cx now r k = Inr k'"
  shows "k' = k\<lparr>instances := instances k @ [r\<lparr>in_revision := 0, in_created := now, in_updated := now\<rparr>]\<rparr>"
    "lifecycle_initial_state (defs k) (in_machine r) = Some (in_state r)"
    "in_id r \<notin> in_id ` set (instances k)"
  using assms unfolding insert_instance_def checked_Inr list.pred_inject fst_conv by blast+

lemma new_transition_at [simp]: "new_transition cx ids now rq m\<lparr>tr_at := now\<rparr> = new_transition cx ids now rq m"
  by (simp add: new_transition_def)

lemma record_move_Inr:
  assumes "record_move P cx ids now rq m k = Inr k'"
  shows "k' = written P cx ids now rq m k"
    "n_transition ids \<notin> tr_id ` set (transitions k)"
    "\<exists>i \<in> set (instances k). in_id i = rq_instance rq \<and> in_tenant i = the (ax_tenant cx) \<and> in_machine i = m"
    "rq_key rq = Some key \<Longrightarrow> n_claim ids \<notin> cl_id ` set (claims k) \<and>
       starts_with (transition_operation m) lifecycle_namespace \<and>
       \<not> (\<exists>c \<in> set (claims k). cl_tenant c = the (ax_tenant cx) \<and>
           cl_operation c = transition_operation m \<and> cl_key c = key)"
    "n_event ids \<notin> ob_id ` set (outbox k)"
    "rq_key rq = Some key \<Longrightarrow> n_claim ids \<notin> pv_claim ` set (provenance k)"
proof -
  obtain k1 k2 k3 k4 where
    t: "insert_transition P cx now (new_transition cx ids now rq m) k = Inr k1"
    and a: "append_lifecycle_audit_event P cx (n_audit ids) ''lifecycle.transitioned''
          ''succeeded'' ''lifecycle_instance'' (rq_instance rq) (moved_details (n_transition ids) m rq) m k1 = Inr k2"
    and c: "(case rq_key rq of None \<Rightarrow> Inr k2
             | Some key \<Rightarrow> insert_claim P True cx (new_claim P cx ids rq m key) k2) = Inr k3"
    and e: "insert_outbox P True cx (new_event cx ids rq m) k3 = Inr k4"
    and p: "(if rq_key rq = None then Inr k4
          else insert_provenance True cx (new_provenance cx ids rq m) k4) = Inr k'"
    using assms unfolding record_move_def bind_Inr by blast
  note ts = insert_transition_Inr [OF t] and as = append_audit_Inr [OF a] and es = insert_outbox_Inr [OF e]
  have cs: "k3 = k2\<lparr>claims := claims k2 @ (case rq_key rq of None \<Rightarrow> [] | Some key \<Rightarrow> [new_claim P cx ids rq m key])\<rparr>"
    using c insert_claim_Inr (1) by (auto split: option.splits)
  have ps: "k' = k4\<lparr>provenance := provenance k4 @ (if rq_key rq = None then [] else [new_provenance cx ids rq m])\<rparr>"
    using p insert_provenance_Inr (1) by (auto split: if_splits)
  show "k' = written P cx ids now rq m k"
    using ts (1) as cs es (1) ps by (simp add: written_def moved_audit_def)
  show "n_transition ids \<notin> tr_id ` set (transitions k)" using ts (2) by (simp add: new_transition_def)
  show "\<exists>i \<in> set (instances k). in_id i = rq_instance rq \<and> in_tenant i = the (ax_tenant cx) \<and> in_machine i = m"
    using ts (3) by (simp add: new_transition_def)
  show "n_event ids \<notin> ob_id ` set (outbox k)" using es (4) ts (1) as cs by (simp add: new_event_def)
  assume key: "rq_key rq = Some key"
  from c key have "insert_claim P True cx (new_claim P cx ids rq m key) k2 = Inr k3" by simp
  note insert_claim_Inr [OF this]
  then show "n_claim ids \<notin> cl_id ` set (claims k) \<and>
       starts_with (transition_operation m) lifecycle_namespace \<and>
       \<not> (\<exists>c \<in> set (claims k). cl_tenant c = the (ax_tenant cx) \<and>
           cl_operation c = transition_operation m \<and> cl_key c = key)"
    using ts (1) as by (simp add: new_claim_def Let_def)
  from p key have "insert_provenance True cx (new_provenance cx ids rq m) k4 = Inr k'" by simp
  from insert_provenance_Inr (3) [OF this] show "n_claim ids \<notin> pv_claim ` set (provenance k)"
    using ts (1) as cs es (1) by (simp add: new_provenance_def)
qed


lemma record_move_holds:
  assumes "record_move P cx ids now rq m k = Inr k'"
  shows "holds cx (defs k) m Transition"
proof -
  obtain k1 where "insert_transition P cx now (new_transition cx ids now rq m) k = Inr k1"
    using assms unfolding record_move_def bind_Inr by blast
  from insert_transition_Inr (5) [OF this] show ?thesis by (simp add: new_transition_def)
qed

section \<open>One row moves\<close>

definition moved_row :: "rat \<Rightarrow> checked_request \<Rightarrow> instance_row \<Rightarrow> instance_row" where
  "moved_row now rq i = (advance rq i)\<lparr>in_updated := now\<rparr>"

lemma moved_row_simps [simp]:
  "in_id (moved_row now rq i) = in_id i" "in_tenant (moved_row now rq i) = in_tenant i"
  "in_machine (moved_row now rq i) = in_machine i" "in_created (moved_row now rq i) = in_created i"
  "in_state (moved_row now rq i) = rq_target rq" "in_revision (moved_row now rq i) = in_revision i + 1"
  by (simp_all add: moved_row_def advance_def)

lemma list_all2_map_right: "list_all2 (\<lambda>x y. y = g x) xs ys \<longleftrightarrow> ys = map g xs"
  by (induction xs arbitrary: ys) (auto simp: list_all2_Cons1)

lemma swap_row:
  assumes amend: "amend_instances cx now (matches tenant m rq) (advance rq) k = Inr (n, k2)"
    and n: "n \<noteq> 0" and ids: "distinct (map in_id (instances k))"
  obtains i where "i \<in> set (instances k)" "matches tenant m rq i" "instance_readable cx (defs k) i"
    "advanced (defs k) i (moved_row now rq i)"
    "k2 = k\<lparr>instances := map (\<lambda>r. if in_id r = rq_instance rq then moved_row now rq r else r) (instances k)\<rparr>"
proof -
  note a = amend_instances_Inr [OF amend]
  have "filter (visible_match cx (defs k) (matches tenant m rq)) (instances k) \<noteq> []" using a (3) n by simp
  then obtain i where i: "i \<in> set (instances k)" and vm: "visible_match cx (defs k) (matches tenant m rq) i"
    by (auto simp: filter_empty_conv)
  have rq: "in_id i = rq_instance rq" using vm by (simp add: visible_match_def matches_def)
  have only: "visible_match cx (defs k) (matches tenant m rq) r \<longleftrightarrow> in_id r = rq_instance rq"
    if "r \<in> set (instances k)" for r
  proof
    assume "in_id r = rq_instance rq"
    with rq i that ids have "r = i" by (simp add: distinct_map inj_on_def)
    with vm show "visible_match cx (defs k) (matches tenant m rq) r" by simp
  qed (simp add: visible_match_def matches_def)
  have row: "r' = (if in_id r = rq_instance rq then moved_row now rq r else r)"
    if "r \<in> set (instances k)" "amend_row cx (defs k) now (matches tenant m rq) (advance rq) r = Inr r'" for r r'
    using that only [OF that (1)]
    by (auto simp: amend_row_Inr instance_before_update_def moved_row_def split: if_splits)
  have "list_all2 (\<lambda>r r'. r' = (if in_id r = rq_instance rq then moved_row now rq r else r))
      (instances k) (instances k2)"
    using a (2) row by (auto simp: list_all2_conv_all_nth)
  then have k2: "k2 = k\<lparr>instances := map (\<lambda>r. if in_id r = rq_instance rq then moved_row now rq r else r) (instances k)\<rparr>"
    using a (1) unfolding list_all2_map_right by metis
  obtain j where j: "j < length (instances k)" "instances k ! j = i" using i by (auto simp: in_set_conv_nth)
  have "amend_row cx (defs k) now (matches tenant m rq) (advance rq) i = Inr (instances k2 ! j)"
    using a (2) j by (auto dest: list_all2_nthD)
  moreover have "instances k2 ! j = moved_row now rq i" using k2 j rq by simp
  ultimately have "advanced (defs k) i (moved_row now rq i)"
    using vm amend_row_cases [of cx "defs k" now "matches tenant m rq" "advance rq" i "moved_row now rq i"] by auto
  moreover have "matches tenant m rq i" "instance_readable cx (defs k) i"
    using vm by (simp_all add: visible_match_def)
  ultimately show thesis using that i k2 by blast
qed

text \<open>The whole of a successful transition.\<close>

lemma transition_effect:
  assumes "transition_lifecycle_instance P cx rc q ids now k1 k = Inr (reply, k')"
    and "distinct (map in_id (instances k))" and "\<not> rp_replayed reply"
  obtains rq m i k2 where "check_request P cx rc q = Inr rq" "i \<in> set (instances k)"
    "matches (the (ax_tenant cx)) m rq i" "instance_readable cx (defs k) i"
    "advanced (defs k) i (moved_row now rq i)"
    "k2 = k\<lparr>instances := map (\<lambda>r. if in_id r = rq_instance rq then moved_row now rq r else r) (instances k)\<rparr>"
    "record_move P cx ids now rq m k2 = Inr k'" "reply = moved_reply cx ids rq m"
  using transition_cases [OF assms (1)] assms (2,3) by (blast elim: swap_row)

section \<open>The invariant\<close>

text \<open>A walk along the declared edges, one revision per edge.\<close>

fun walks :: "definitions \<Rightarrow> machine_id \<Rightarrow> utext \<Rightarrow> int \<Rightarrow> transition_row list \<Rightarrow> utext \<Rightarrow> int \<Rightarrow> bool" where
  "walks d m s r [] s' r' \<longleftrightarrow> s' = s \<and> r' = r"
| "walks d m s r (t # ts) s' r' \<longleftrightarrow> tr_machine t = m \<and> tr_from t = s \<and> tr_from_rev t = r \<and>
     tr_to_rev t = r + 1 \<and> lifecycle_edge_exists d m s (tr_to t) \<and> walks d m (tr_to t) (r + 1) ts s' r'"

definition trail :: "uuid \<Rightarrow> 'f kernel \<Rightarrow> transition_row list" where
  "trail i k = filter (\<lambda>t. tr_instance t = i) (transitions k)"

definition on_graph :: "'f kernel \<Rightarrow> instance_row \<Rightarrow> bool" where
  "on_graph k i \<longleftrightarrow> (\<exists>s. lifecycle_initial_state (defs k) (in_machine i) = Some s \<and>
     walks (defs k) (in_machine i) s 0 (trail (in_id i) k) (in_state i) (in_revision i))"

text \<open>The artifacts behind a claim.\<close>

definition backed :: "'f kernel \<Rightarrow> 'f claim_row \<Rightarrow> provenance_row \<Rightarrow> bool" where
  "backed k r p \<longleftrightarrow> pv_claim p = cl_id r \<and> pv_tenant p = cl_tenant r \<and> cl_tag r = Some (pv_machine p) \<and>
     cl_operation r = transition_operation (pv_machine p) \<and>
     (\<exists>t \<in> set (transitions k). transition_behind p (cl_result r) t) \<and>
     (\<exists>i \<in> set (instances k). instance_behind p i) \<and>
     (\<exists>e \<in> set (outbox k). event_behind p e)"

definition claim_key :: "'f claim_row \<Rightarrow> uuid \<times> utext \<times> utext" where
  "claim_key c = (cl_tenant c, cl_operation c, cl_key c)"

definition kernel_ok :: "'f kernel \<Rightarrow> bool" where
  "kernel_ok k \<longleftrightarrow> defs_ok (defs k) \<and> distinct (map in_id (instances k)) \<and>
     distinct (map tr_id (transitions k)) \<and> distinct (map cl_id (claims k)) \<and>
     distinct (map claim_key (claims k)) \<and> distinct (map pv_claim (provenance k)) \<and>
     (\<forall>i \<in> set (instances k). on_graph k i) \<and>
     (\<forall>t \<in> set (transitions k). \<exists>i \<in> set (instances k). in_id i = tr_instance t \<and>
        in_tenant i = tr_tenant t \<and> in_machine i = tr_machine t) \<and>
     (\<forall>c \<in> set (claims k). (cl_tag c \<noteq> None) = starts_with (cl_operation c) lifecycle_namespace) \<and>
     (\<forall>c \<in> set (claims k). cl_tag c \<noteq> None \<longrightarrow> (\<exists>p \<in> set (provenance k). backed k c p)) \<and>
     (\<forall>p \<in> set (provenance k). \<exists>c \<in> set (claims k). cl_id c = pv_claim p)"

lemma walks_snoc:
  "walks d m s r (ts @ [t]) s' r' \<longleftrightarrow> (\<exists>s1 r1. walks d m s r ts s1 r1 \<and> tr_machine t = m \<and> tr_from t = s1 \<and>
     tr_from_rev t = r1 \<and> tr_to_rev t = r1 + 1 \<and> lifecycle_edge_exists d m s1 (tr_to t) \<and>
     s' = tr_to t \<and> r' = r1 + 1)"
  by (induction ts arbitrary: s r) auto

lemma walks_revision: "walks d m s r ts s' r' \<Longrightarrow> r' = r + int (length ts)"
proof (induction ts arbitrary: s r)
  case (Cons t ts)
  then have "walks d m (tr_to t) (r + 1) ts s' r'" by simp
  from Cons.IH [OF this] show ?case by simp
qed simp

lemma walks_edges:
  "lifecycle_edge_exists d' m = lifecycle_edge_exists d m \<Longrightarrow> walks d' m s r ts s' r' = walks d m s r ts s' r'"
  by (induction ts arbitrary: s r) auto


section \<open>Later states\<close>

definition same_machine :: "definitions \<Rightarrow> definitions \<Rightarrow> machine_id \<Rightarrow> bool" where
  "same_machine d d' m \<longleftrightarrow> find_machine m d' = find_machine m d \<and> states_of m d' = states_of m d \<and>
     edges_of m d' = edges_of m d"

definition later_row :: "'f kernel \<Rightarrow> instance_row \<Rightarrow> instance_row \<Rightarrow> bool" where
  "later_row k i i' \<longleftrightarrow> in_id i' = in_id i \<and> in_tenant i' = in_tenant i \<and> in_machine i' = in_machine i \<and>
     in_revision i \<le> in_revision i' \<and>
     (lifecycle_state_is_terminal (defs k) (in_machine i) (in_state i) \<longrightarrow> i' = i)"

definition extends :: "'f kernel \<Rightarrow> 'f kernel \<Rightarrow> bool" where
  "extends k k' \<longleftrightarrow> (\<forall>m. published m (defs k) \<longrightarrow> same_machine (defs k) (defs k') m) \<and>
     (\<forall>i \<in> set (instances k). \<exists>i' \<in> set (instances k'). later_row k i i') \<and>
     (\<exists>ts. transitions k' = transitions k @ ts) \<and> (\<exists>cs. claims k' = claims k @ cs) \<and>
     (\<exists>es. outbox k' = outbox k @ es) \<and> (\<exists>ps. provenance k' = provenance k @ ps) \<and>
     (\<exists>as. audits k' = audits k @ as)"

lemma same_machine_refl [simp]: "same_machine d d m"
  by (simp add: same_machine_def)

lemma later_row_refl [simp]: "later_row k i i"
  by (simp add: later_row_def)

lemma later_rows_refl [simp]: "\<forall>i \<in> S. \<exists>i' \<in> S. later_row k i i'"
  using later_row_refl by blast

lemma extends_refl [simp]: "extends k k"
  by (simp add: extends_def)

lemma same_machine_readers:
  assumes "same_machine d d' m"
  shows "lifecycle_required_scope d' m = lifecycle_required_scope d m"
    "lifecycle_initial_state d' m = lifecycle_initial_state d m"
    "lifecycle_state_is_terminal d' m = lifecycle_state_is_terminal d m"
    "lifecycle_edge_exists d' m = lifecycle_edge_exists d m" "published m d' = published m d"
  using assms readers_same [of m d' d] by (simp_all add: same_machine_def published_def)

lemma terminal_published: "lifecycle_state_is_terminal d m s \<Longrightarrow> published m d"
  by (simp add: lifecycle_state_is_terminal_def)

lemma initial_published: "lifecycle_initial_state d m = Some s \<Longrightarrow> published m d"
  by (simp add: lifecycle_initial_state_def split: if_splits)

lemma later_row_trans:
  assumes "\<And>m. published m (defs k) \<Longrightarrow> same_machine (defs k) (defs k') m"
    "later_row k i i'" "later_row k' i' i''"
  shows "later_row k i i''"
proof -
  have "i'' = i" if t: "lifecycle_state_is_terminal (defs k) (in_machine i) (in_state i)"
  proof -
    have i': "i' = i" using assms (2) t by (simp add: later_row_def)
    have "lifecycle_state_is_terminal (defs k') (in_machine i) (in_state i)"
      using t same_machine_readers (3) [OF assms (1) [OF terminal_published [OF t]]] by simp
    with assms (3) i' show ?thesis by (simp add: later_row_def)
  qed
  then show ?thesis using assms (2,3) by (simp add: later_row_def)
qed

lemma extends_trans:
  assumes "extends k k'" "extends k' k''"
  shows "extends k k''"
proof -
  have pub: "same_machine (defs k) (defs k') m" "same_machine (defs k') (defs k'') m"
    if p: "published m (defs k)" for m
  proof -
    show one: "same_machine (defs k) (defs k') m" using assms (1) p by (simp add: extends_def)
    have "published m (defs k')" using same_machine_readers (5) [OF one] p by simp
    then show "same_machine (defs k') (defs k'') m" using assms (2) by (simp add: extends_def)
  qed
  have "\<exists>i'' \<in> set (instances k''). later_row k i i''" if "i \<in> set (instances k)" for i
    using assms that pub (1) later_row_trans unfolding extends_def by meson
  moreover have "same_machine (defs k) (defs k'') m" if "published m (defs k)" for m
    using pub [OF that] by (simp add: same_machine_def)
  ultimately show ?thesis using assms unfolding extends_def by (metis append.assoc)
qed

lemma advanced_later: "advanced (defs k) i i' \<Longrightarrow> later_row k i i'"
  by (auto simp: advanced_def later_row_def)

lemma define_extends: "def_step (defs k) d \<Longrightarrow> extends k (k\<lparr>defs := d\<rparr>)"
  using def_run_sealed [OF r_into_rtranclp] unfolding extends_def same_machine_def by simp

text \<open>The rows of a creation.\<close>

definition created ::
  "auth_context \<Rightarrow> machine_id \<Rightarrow> utext \<Rightarrow> uuid \<times> uuid \<times> uuid \<Rightarrow> rat \<Rightarrow> 'f kernel \<Rightarrow> 'f kernel" where
  "created cx m s ids now k = (case ids of (iid, aid, eid) \<Rightarrow> k\<lparr>
     instances := instances k @ [\<lparr>in_id = iid, in_tenant = the (ax_tenant cx), in_machine = m, in_state = s,
       in_revision = 0, in_created = now, in_updated = now\<rparr>],
     audits := audits k @ [\<lparr>ae_id = aid, ae_tenant = the (ax_tenant cx), ae_actor = ax_actor cx,
       ae_principal = ax_principal cx, ae_binding = ax_binding cx,
       ae_action = cps ''lifecycle.instance_created'', ae_outcome = cps ''succeeded'',
       ae_resource_type = cps ''lifecycle_instance'', ae_resource = Some iid, ae_correlation = None,
       ae_details = created_details m s, ae_tag = Some m\<rparr>],
     outbox := outbox k @ [\<lparr>ob_id = eid, ob_tenant = the (ax_tenant cx), ob_claim = None,
       ob_type = fst m @ cps ''.created'', ob_aggregate_type = fst m, ob_aggregate = iid,
       ob_attributes = J_object [field ''machine_version'' (J_int (snd m)),
         field ''initial_state'' (J_string s)], ob_tag = Some m\<rparr>]\<rparr>)"

lemma create_Inr:
  assumes "create_lifecycle_instance P cx key version ids now k = Inr (reply, k')"
  shows "\<exists>m s. check_creation cx key version (defs k) = Inr m \<and> lifecycle_initial_state (defs k) m = Some s \<and>
    fst ids \<notin> in_id ` set (instances k) \<and> k' = created cx m s ids now k \<and>
    reply = \<lparr>cr_instance = fst ids, cr_state = s, cr_event = snd (snd ids)\<rparr>"
proof -
  obtain iid aid eid where ids: "ids = (iid, aid, eid)" by (cases ids)
  obtain m where m: "check_creation cx key version (defs k) = Inr m"
    using assms unfolding create_lifecycle_instance_def ids prod.case bind_Inr by blast
  define s where "s = the (lifecycle_initial_state (defs k) m)"
  define ev where "ev = \<lparr>ob_id = eid, ob_tenant = the (ax_tenant cx), ob_claim = None,
       ob_type = fst m @ cps ''.created'', ob_aggregate_type = fst m, ob_aggregate = iid,
       ob_attributes = J_object [field ''machine_version'' (J_int (snd m)),
         field ''initial_state'' (J_string s)], ob_tag = Some m\<rparr>"
  obtain k1 k2 k3 where
    i: "insert_instance cx now \<lparr>in_id = iid, in_tenant = the (ax_tenant cx), in_machine = m, in_state = s,
          in_revision = 0, in_created = now, in_updated = now\<rparr> k = Inr k1"
    and a: "append_lifecycle_audit_event P cx aid ''lifecycle.instance_created'' ''succeeded''
          ''lifecycle_instance'' iid (created_details m s) m k1 = Inr k2"
    and e: "insert_outbox P True cx ev k2 = Inr k3"
    and r: "(\<lparr>cr_instance = iid, cr_state = s, cr_event = eid\<rparr>, k3) = (reply, k')"
    using assms unfolding create_lifecycle_instance_def ids prod.case m sum.case Let_def
      s_def [symmetric] ev_def [symmetric] bind_Inr by (blast dest: sum.inject(2) [THEN iffD1])
  note ins = insert_instance_Inr [OF i] and rows = append_audit_Inr [OF a] insert_outbox_Inr (1) [OF e]
  have "k' = created cx m s ids now k"
    using ins (1) rows r by (simp add: created_def ids ev_def)
  moreover have "lifecycle_initial_state (defs k) m = Some s" using ins (2) by simp
  moreover have "fst ids \<notin> in_id ` set (instances k)" using ins (3) ids by simp
  ultimately show ?thesis using m r ids by auto
qed

lemma created_simps [simp]:
  "defs (created cx m s ids now k) = defs k" "transitions (created cx m s ids now k) = transitions k"
  "claims (created cx m s ids now k) = claims k" "provenance (created cx m s ids now k) = provenance k"
  by (simp_all add: created_def split: prod.splits)

lemma created_instances:
  "instances (created cx m s ids now k) = instances k @ [\<lparr>in_id = fst ids, in_tenant = the (ax_tenant cx),
     in_machine = m, in_state = s, in_revision = 0, in_created = now, in_updated = now\<rparr>]"
  by (simp add: created_def split: prod.splits)

lemma created_extends: "extends k (created cx m s ids now k)"
proof -
  have "\<exists>es. outbox (created cx m s ids now k) = outbox k @ es"
    "\<exists>as. audits (created cx m s ids now k) = audits k @ as"
    by (simp_all add: created_def split: prod.splits)
  then show ?thesis by (auto simp: extends_def created_instances intro: later_row_refl)
qed

lemma written_simps [simp]:
  "defs (written P cx ids now rq m k) = defs k" "instances (written P cx ids now rq m k) = instances k"
  by (simp_all add: written_def)

lemma move_extends:
  assumes t: "transition_lifecycle_instance P cx rc q ids now k1 k = Inr (reply, k')"
    and ids: "distinct (map in_id (instances k))"
  shows "extends k k'"
proof (cases "rp_replayed reply")
  case True
  then show ?thesis using transition_cases [OF t] by (auto simp: moved_reply_def)
next
  case False
  obtain rq m i k2 where
    i: "i \<in> set (instances k)" "matches (the (ax_tenant cx)) m rq i" "advanced (defs k) i (moved_row now rq i)"
    and k2: "k2 = k\<lparr>instances := map (\<lambda>r. if in_id r = rq_instance rq then moved_row now rq r else r) (instances k)\<rparr>"
    and k': "record_move P cx ids now rq m k2 = Inr k'"
    by (rule transition_effect [OF t ids False])
  have same: "r = i" if "r \<in> set (instances k)" "in_id r = rq_instance rq" for r
    using that i (1,2) ids by (simp add: distinct_map inj_on_def matches_def)
  have "\<exists>r' \<in> set (instances k'). later_row k r r'" if r: "r \<in> set (instances k)" for r
  proof (cases "in_id r = rq_instance rq")
    case True
    with r same i (3) have "later_row k r (moved_row now rq r)" by (simp add: advanced_later)
    moreover have "moved_row now rq r \<in> set (instances k')"
      using record_move_Inr (1) [OF k'] k2 r True by force
    ultimately show ?thesis by blast
  next
    case other: False
    have "r \<in> set (instances k')" using record_move_Inr (1) [OF k'] k2 r other by force
    then show ?thesis using later_row_refl by blast
  qed
  then show ?thesis using record_move_Inr (1) [OF k'] k2 by (auto simp: extends_def written_def)
qed

lemma step_extends:
  assumes "kernel_step P k k'" and "distinct (map in_id (instances k))"
  shows "extends k k'"
  using assms
proof cases
  case (claim_step cx r)
  then show ?thesis using insert_claim_Inr (1) [OF claim_step] by (simp add: extends_def)
next
  case (event_step cx e)
  then show ?thesis using insert_outbox_Inr (1) [OF event_step] by (simp add: extends_def)
next
  case (audit_step cx aid action outcome rtype rid corr details)
  obtain a where "k' = k\<lparr>audits := audits k @ [a]\<rparr>" using sql_append_Inr [OF audit_step] by blast
  then show ?thesis by (simp add: extends_def)
next
  case (create_step cx key version ids now reply)
  then show ?thesis using create_Inr [OF create_step] created_extends by metis
next
  case (move_step cx rc q ids now k1 reply)
  then show ?thesis using assms (2) by (rule move_extends)
next
  case (define_step d)
  then show ?thesis by (simp add: define_extends)
qed

end
