(* ===== verification/Lifecycle_Safety.thy ===== *)
theory Lifecycle_Safety
  imports Lifecycle_Steps
begin

text \<open>
  The invariant of the lifecycle kernel is kept by every step: rows keep their identities, every
  instance stands where its history leads on its published graph, and every claim in the reserved
  namespace has its whole chain of artifacts behind it. \<open>run_extends\<close> adds that nothing is lost.
\<close>

section \<open>Preservation\<close>

lemma on_graph_cong:
  assumes "on_graph k i" "same_machine (defs k) (defs k') (in_machine i)"
    "trail (in_id i) k' = trail (in_id i) k"
  shows "on_graph k' i"
  using assms unfolding on_graph_def
  by (auto simp: same_machine_readers [OF assms (2)] walks_edges [OF same_machine_readers (4) [OF assms (2)]])

lemma on_graph_published: "on_graph k i \<Longrightarrow> published (in_machine i) (defs k)"
  by (auto simp: on_graph_def dest: initial_published)

lemma extends_instance:
  assumes "extends k k'" "instance_behind p i" "i \<in> set (instances k)"
  shows "\<exists>i' \<in> set (instances k'). instance_behind p i'"
  using assms unfolding extends_def instance_behind_def later_row_def by (metis order_trans)

lemma backed_extends:
  assumes "extends k k'" "backed k c p"
  shows "backed k' c p"
proof -
  obtain t i e where w: "t \<in> set (transitions k)" "transition_behind p (cl_result c) t"
    "i \<in> set (instances k)" "instance_behind p i" "e \<in> set (outbox k)" "event_behind p e"
    using assms (2) unfolding backed_def by blast
  have "set (transitions k) \<subseteq> set (transitions k')" "set (outbox k) \<subseteq> set (outbox k')"
    using assms (1) unfolding extends_def by (metis set_append sup_ge1)+
  then show ?thesis using assms (2) w extends_instance [OF assms (1) w (4,3)] unfolding backed_def by blast
qed

text \<open>The part of the invariant about claims, and the part about instances, separately.\<close>

definition instances_ok :: "'f kernel \<Rightarrow> bool" where
  "instances_ok k \<longleftrightarrow> distinct (map in_id (instances k)) \<and> distinct (map tr_id (transitions k)) \<and>
     (\<forall>i \<in> set (instances k). on_graph k i) \<and>
     (\<forall>t \<in> set (transitions k). \<exists>i \<in> set (instances k). in_id i = tr_instance t \<and>
        in_tenant i = tr_tenant t \<and> in_machine i = tr_machine t)"

definition claims_ok :: "'f kernel \<Rightarrow> bool" where
  "claims_ok k \<longleftrightarrow> distinct (map cl_id (claims k)) \<and>
     distinct (map claim_key (claims k)) \<and> distinct (map pv_claim (provenance k)) \<and>
     (\<forall>c \<in> set (claims k). (cl_tag c \<noteq> None) = starts_with (cl_operation c) lifecycle_namespace) \<and>
     (\<forall>c \<in> set (claims k). cl_tag c \<noteq> None \<longrightarrow> (\<exists>p \<in> set (provenance k). backed k c p)) \<and>
     (\<forall>p \<in> set (provenance k). \<exists>c \<in> set (claims k). cl_id c = pv_claim p)"

lemma kernel_ok_parts: "kernel_ok k \<longleftrightarrow> defs_ok (defs k) \<and> instances_ok k \<and> claims_ok k"
  unfolding kernel_ok_def instances_ok_def claims_ok_def by blast

text \<open>A step that leaves claims and provenance alone keeps the claims backed.\<close>

lemma claims_ok_frame:
  assumes "claims_ok k" "extends k k'" "claims k' = claims k" "provenance k' = provenance k"
  shows "claims_ok k'"
  using assms(1) backed_extends [OF assms (2)] unfolding claims_ok_def assms (3,4) by blast

lemma instances_ok_frame:
  assumes "instances_ok k" "extends k k'" "instances k' = instances k" "transitions k' = transitions k"
  shows "instances_ok k'"
proof -
  have "on_graph k' i" if "on_graph k i" for i
  proof (rule on_graph_cong [OF that])
    show "same_machine (defs k) (defs k') (in_machine i)"
      using assms (2) on_graph_published [OF that] by (simp add: extends_def)
  qed (simp add: trail_def assms (4))
  with assms show ?thesis unfolding instances_ok_def assms (3,4) by blast
qed

lemma created_instances_ok:
  assumes ok: "instances_ok k" and s: "lifecycle_initial_state (defs k) m = Some s"
    and fresh: "fst ids \<notin> in_id ` set (instances k)"
  shows "instances_ok (created cx m s ids now k)"
proof -
  define r where "r = \<lparr>in_id = fst ids, in_tenant = the (ax_tenant cx),
     in_machine = m, in_state = s, in_revision = 0, in_created = now, in_updated = now\<rparr>"
  have ins: "instances (created cx m s ids now k) = instances k @ [r]" by (simp add: created_instances r_def)
  have "trail (fst ids) k = []"
    using ok fresh unfolding instances_ok_def trail_def filter_empty_conv by (metis image_eqI)
  then have "on_graph (created cx m s ids now k) r"
    using s by (simp add: on_graph_def r_def trail_def)
  moreover have "on_graph (created cx m s ids now k) i" if "on_graph k i" for i
    by (rule on_graph_cong [OF that]) (simp_all add: trail_def)
  moreover have "fst ids = in_id r" by (simp add: r_def)
  ultimately show ?thesis using ok fresh unfolding instances_ok_def ins by auto
qed

lemma claim_ok:
  assumes ok: "claims_ok k" and i: "insert_claim P False cx r k = Inr k'" and ex: "extends k k'"
  shows "claims_ok k'"
proof -
  note c = insert_claim_Inr [OF i]
  have tag: "cl_tag r = None" using c (2) by simp
  have key: "claim_key r \<notin> claim_key ` set (claims k)" using c (5) by (auto simp: claim_key_def)
  have p: "provenance k' = provenance k" "claims k' = claims k @ [r]" using c (1) by simp_all
  have b: "\<exists>p \<in> set (provenance k). backed k' x p" if "x \<in> set (claims k)" "cl_tag x \<noteq> None" for x
    using ok that backed_extends [OF ex] unfolding claims_ok_def by blast
  show ?thesis
    using ok tag key c (3,4) b unfolding claims_ok_def p by auto
qed


section \<open>A move keeps the invariant\<close>

lemma new_transition_simps [simp]:
  "tr_id (new_transition cx ids now rq m) = n_transition ids"
  "tr_tenant (new_transition cx ids now rq m) = the (ax_tenant cx)"
  "tr_instance (new_transition cx ids now rq m) = rq_instance rq"
  "tr_machine (new_transition cx ids now rq m) = m"
  "tr_from (new_transition cx ids now rq m) = rq_expected rq"
  "tr_to (new_transition cx ids now rq m) = rq_target rq"
  "tr_from_rev (new_transition cx ids now rq m) = rq_revision rq"
  "tr_to_rev (new_transition cx ids now rq m) = rq_revision rq + 1"
  by (simp_all add: new_transition_def)

lemma moved_instances_ok:
  assumes ok: "instances_ok k" and i: "i \<in> set (instances k)" "matches tenant m rq i"
    "advanced (defs k) i (moved_row now rq i)"
    and k2: "k2 = k\<lparr>instances := map (\<lambda>r. if in_id r = rq_instance rq then moved_row now rq r else r) (instances k)\<rparr>"
    and k': "record_move P cx ids now rq m k2 = Inr k'"
  shows "instances_ok k'"
proof -
  let ?f = "\<lambda>r. if in_id r = rq_instance rq then moved_row now rq r else r"
  note w = record_move_Inr [OF k']
  have ins: "instances k' = map ?f (instances k)" and defs: "defs k' = defs k"
    and trs: "transitions k' = transitions k @ [new_transition cx ids now rq m]"
    using w (1) k2 by (simp_all add: written_def)
  have ids: "map in_id (instances k') = map in_id (instances k)" unfolding ins by simp
  have rq: "in_id i = rq_instance rq" "in_machine i = m" "in_state i = rq_expected rq" "in_revision i = rq_revision rq"
    using i (2) by (simp_all add: matches_def)
  have same: "r = i" if "r \<in> set (instances k)" "in_id r = rq_instance rq" for r
    using that i (1) rq (1) ok by (simp add: instances_ok_def distinct_map inj_on_def)
  have graph: "on_graph k' (?f r)" if r: "r \<in> set (instances k)" for r
  proof (cases "in_id r = rq_instance rq")
    case True
    then have "r = i" using same r by blast
    have "on_graph k i" using ok i (1) by (simp add: instances_ok_def)
    then obtain s where s: "lifecycle_initial_state (defs k) m = Some s"
      "walks (defs k) m s 0 (trail (rq_instance rq) k) (rq_expected rq) (rq_revision rq)"
      using rq by (auto simp: on_graph_def)
    have "trail (rq_instance rq) k' = trail (rq_instance rq) k @ [new_transition cx ids now rq m]"
      by (simp add: trail_def trs)
    moreover have "lifecycle_edge_exists (defs k) m (rq_expected rq) (rq_target rq)"
      using i (3) rq by (simp add: advanced_def)
    ultimately have "walks (defs k) m s 0 (trail (rq_instance rq) k') (rq_target rq) (rq_revision rq + 1)"
      using s (2) by (simp add: walks_snoc)
    then show ?thesis using s (1) rq \<open>r = i\<close> by (simp add: on_graph_def defs)
  next
    case False
    have "on_graph k r" using ok r by (simp add: instances_ok_def)
    then have "on_graph k' r"
      by (rule on_graph_cong) (use False in \<open>simp_all add: defs trail_def trs\<close>)
    then show ?thesis using False by simp
  qed
  have old: "\<exists>x \<in> set (instances k'). in_id x = tr_instance t \<and> in_tenant x = tr_tenant t \<and> in_machine x = tr_machine t"
    if t: "t \<in> set (transitions k)" for t
  proof -
    obtain x where "x \<in> set (instances k)" "in_id x = tr_instance t" "in_tenant x = tr_tenant t"
      "in_machine x = tr_machine t"
      using bspec [OF conjunct2 [OF conjunct2 [OF conjunct2 [OF ok [unfolded instances_ok_def]]]] t] by blast
    moreover have "?f x \<in> set (instances k')" using calculation (1) unfolding ins by simp
    moreover have "in_id (?f x) = in_id x" "in_tenant (?f x) = in_tenant x" "in_machine (?f x) = in_machine x"
      by simp_all
    ultimately show ?thesis by metis
  qed
  have new: "\<exists>x \<in> set (instances k'). in_id x = rq_instance rq \<and> in_tenant x = the (ax_tenant cx) \<and> in_machine x = m"
    using w (1,3) by simp
  have fresh: "n_transition ids \<notin> tr_id ` set (transitions k)" using w (2) k2 by simp
  have "distinct (map tr_id (transitions k'))" using ok fresh by (simp add: instances_ok_def trs)
  moreover have "distinct (map in_id (instances k'))" unfolding ids using ok by (simp add: instances_ok_def)
  moreover have "\<forall>x \<in> set (instances k'). on_graph k' x"
    unfolding ins set_map using graph by blast
  moreover have "\<forall>t \<in> set (transitions k'). \<exists>x \<in> set (instances k'). in_id x = tr_instance t \<and>
      in_tenant x = tr_tenant t \<and> in_machine x = tr_machine t"
    using old new unfolding trs by simp
  ultimately show ?thesis unfolding instances_ok_def by blast
qed

lemma result_fields [simp]:
  "jsonb_get (transition_result tid iid m s t a b) ''transition_id'' = Some (J_string tid)"
  "jsonb_get (transition_result tid iid m s t a b) ''lifecycle_instance_id'' = Some (J_string iid)"
  "jsonb_get (transition_result tid iid m s t a b) ''machine_key'' = Some (J_string (fst m))"
  "jsonb_get (transition_result tid iid m s t a b) ''machine_version'' = Some (J_int (snd m))"
  "jsonb_get (transition_result tid iid m s t a b) ''from_state'' = Some (J_string s)"
  "jsonb_get (transition_result tid iid m s t a b) ''to_state'' = Some (J_string t)"
  "jsonb_get (transition_result tid iid m s t a b) ''from_revision'' = Some (J_int a)"
  "jsonb_get (transition_result tid iid m s t a b) ''to_revision'' = Some (J_int b)"
  by (simp_all add: jsonb_get_def transition_result_def field_def cps_inj)

lemma new_claim_simps [simp]:
  "cl_id (new_claim P cx ids rq m key) = n_claim ids"
  "cl_tenant (new_claim P cx ids rq m key) = the (ax_tenant cx)"
  "cl_operation (new_claim P cx ids rq m key) = transition_operation m"
  "cl_key (new_claim P cx ids rq m key) = key" "cl_tag (new_claim P cx ids rq m key) = Some m"
  "cl_result (new_claim P cx ids rq m key) = new_result ids rq m"
  "cl_fingerprint (new_claim P cx ids rq m key) =
    lifecycle_request_fingerprint P (the (ax_tenant cx)) (transition_operation m) m rq"
  by (simp_all add: new_claim_def Let_def)

lemma new_claim_backed:
  assumes k': "k' = written P cx ids now rq m k2" and key: "rq_key rq = Some key"
    and i: "i' \<in> set (instances k2)" "in_id i' = rq_instance rq" "in_tenant i' = the (ax_tenant cx)"
      "in_machine i' = m" "in_revision i' = rq_revision rq + 1"
  shows "backed k' (new_claim P cx ids rq m key) (new_provenance cx ids rq m)"
proof -
  let ?p = "new_provenance cx ids rq m"
  have "transition_behind ?p (new_result ids rq m) (new_transition cx ids now rq m)"
    by (simp add: transition_behind_def new_provenance_def new_result_def)
  moreover have "instance_behind ?p i'" using i by (simp add: instance_behind_def new_provenance_def)
  moreover have "event_behind ?p (new_event cx ids rq m)"
    by (simp add: event_behind_def new_provenance_def new_event_def key)
  ultimately show ?thesis using i (1) unfolding backed_def k'
    by (auto simp: written_def new_provenance_def)
qed

lemma moved_claims_ok:
  assumes ok: "claims_ok k" and ex: "extends k k'" and i: "i \<in> set (instances k)"
    "matches (the (ax_tenant cx)) m rq i"
    and k2: "k2 = k\<lparr>instances := map (\<lambda>r. if in_id r = rq_instance rq then moved_row now rq r else r) (instances k)\<rparr>"
    and k': "record_move P cx ids now rq m k2 = Inr k'"
  shows "claims_ok k'"
proof (cases "rq_key rq")
  case None
  with record_move_Inr (1) [OF k'] k2 have "claims k' = claims k" "provenance k' = provenance k"
    by (simp_all add: written_def)
  with ok ex show ?thesis by (rule claims_ok_frame)
next
  case (Some key)
  note w = record_move_Inr [OF k'] and w4 = record_move_Inr (4) [OF k' Some]
    and w6 = record_move_Inr (6) [OF k' Some]
  let ?c = "new_claim P cx ids rq m key" and ?p = "new_provenance cx ids rq m"
  have rows: "claims k' = claims k @ [?c]" "provenance k' = provenance k @ [?p]"
    using w (1) k2 Some by (simp_all add: written_def)
  have "moved_row now rq i \<in> set (instances k2)" using k2 i by (force simp: matches_def)
  from new_claim_backed [OF w (1) Some this] have new: "backed k' ?c ?p"
    using i (2) by (simp add: matches_def)
  have old: "\<exists>p \<in> set (provenance k). backed k' c p" if "c \<in> set (claims k)" "cl_tag c \<noteq> None" for c
    using ok that backed_extends [OF ex] unfolding claims_ok_def by blast
  have key: "claim_key ?c \<notin> claim_key ` set (claims k)" using w4 k2 by (auto simp: claim_key_def)
  have ids: "n_claim ids \<notin> cl_id ` set (claims k)" "n_claim ids \<notin> pv_claim ` set (provenance k)"
    using w4 w6 k2 by simp_all
  have p: "pv_claim ?p = n_claim ids" by (simp add: new_provenance_def)
  show ?thesis
    using ok new old key ids w4 p unfolding claims_ok_def rows by auto
qed

section \<open>Every reachable database\<close>

lemma step_keeps_ok:
  assumes step: "kernel_step P k k'" and ok: "kernel_ok k"
  shows "kernel_ok k'"
proof -
  have parts: "defs_ok (defs k)" "instances_ok k" "claims_ok k" using ok by (simp_all add: kernel_ok_parts)
  have ids: "distinct (map in_id (instances k))" using parts (2) by (simp add: instances_ok_def)
  note ex = step_extends [OF step ids]
  from step show ?thesis
  proof cases
    case (define_step d)
    have "defs_ok (defs k')" using define_step parts (1) definition_machine.inv_step by simp
    then show ?thesis using define_step parts ex
      by (simp add: kernel_ok_parts instances_ok_frame claims_ok_frame)
  next
    case (create_step cx key version ids now reply)
    obtain m s where "lifecycle_initial_state (defs k) m = Some s" "fst ids \<notin> in_id ` set (instances k)"
      "k' = created cx m s ids now k" using create_Inr [OF create_step] by blast
    then show ?thesis using parts ex created_instances_ok
      by (simp add: kernel_ok_parts claims_ok_frame)
  next
    case (move_step cx rc q ids now k1 reply)
    show ?thesis
    proof (cases "rp_replayed reply")
      case True
      then show ?thesis using transition_cases [OF move_step] ok by (auto simp: moved_reply_def)
    next
      case False
      obtain rq m i k2 where
        i: "i \<in> set (instances k)" "matches (the (ax_tenant cx)) m rq i" "advanced (defs k) i (moved_row now rq i)"
        and k2: "k2 = k\<lparr>instances := map (\<lambda>r. if in_id r = rq_instance rq then moved_row now rq r else r) (instances k)\<rparr>"
        and k': "record_move P cx ids now rq m k2 = Inr k'"
        by (rule transition_effect [OF move_step \<open>distinct (map in_id (instances k))\<close> False])
      have "defs k' = defs k" using record_move_Inr (1) [OF k'] k2 by simp
      then show ?thesis using parts moved_instances_ok [OF parts (2) i k2 k']
          moved_claims_ok [OF parts (3) ex i (1,2) k2 k'] by (simp add: kernel_ok_parts)
    qed
  next
    case (claim_step cx r)
    have "k' = k\<lparr>claims := claims k @ [r]\<rparr>" by (rule insert_claim_Inr (1) [OF claim_step])
    then show ?thesis using parts ex claim_ok [OF parts (3) claim_step ex]
      by (simp add: kernel_ok_parts instances_ok_frame)
  next
    case (event_step cx e)
    have "k' = k\<lparr>outbox := outbox k @ [e]\<rparr>" by (rule insert_outbox_Inr (1) [OF event_step])
    then show ?thesis using parts ex by (simp add: kernel_ok_parts instances_ok_frame claims_ok_frame)
  next
    case (audit_step cx aid action outcome rtype rid corr details)
    obtain a where "k' = k\<lparr>audits := audits k @ [a]\<rparr>" using sql_append_Inr [OF audit_step] by blast
    then show ?thesis using parts ex by (simp add: kernel_ok_parts instances_ok_frame claims_ok_frame)
  qed
qed

interpretation kernel_machine: transition_system "\<lambda>k. k = empty_kernel" "kernel_step P" kernel_ok
proof unfold_locales
  show "kernel_ok k" if "k = empty_kernel" for k
    using that definition_machine.inv_init [OF refl] by (simp add: kernel_ok_def empty_kernel_def)
qed (rule step_keeps_ok)

lemma run_extends:
  assumes "(kernel_step P)\<^sup>*\<^sup>* k k'" "kernel_ok k"
  shows "extends k k'"
  using assms
proof (induction rule: rtranclp_induct)
  case (step k1 k2)
  have "kernel_ok k1" using kernel_machine.inv_run [OF step.hyps (1) step.prems] .
  then have "extends k1 k2" using step_extends [OF step.hyps (2)] by (simp add: kernel_ok_def)
  with step.IH [OF step.prems] show ?case by (rule extends_trans)
qed simp

end
