(* ===== verification/Lifecycle_Properties.thy ===== *)
theory Lifecycle_Properties
  imports Lifecycle_Safety
begin

text \<open>
  What the invariant gives for every reachable database: histories, terminal states and the
  compare-and-swap; and a small concrete database, reached by real steps, to apply the theorems to.
\<close>

section \<open>A database to try the theorems on\<close>

definition demo_platform :: "jsonb platform" where
  "demo_platform = \<lparr>digest = (\<lambda>d. d), octets = (\<lambda>d. 100)\<rparr>"

definition demo_context :: auth_context where
  "demo_context = \<lparr>ax_tenant = Some (cps ''tenant-a''), ax_principal = Some (cps ''principal''),
     ax_binding = Some (cps ''binding''), ax_actor = ''credential'',
     ax_scopes = [''mutation:execute'', ''workspace:read'', ''workspace:write'']\<rparr>"

definition demo_start :: "jsonb kernel" where
  "demo_start = empty_kernel\<lparr>defs := demo_tables\<rparr>"

definition demo_created :: "jsonb kernel" where
  "demo_created = snd (projr (create_lifecycle_instance demo_platform demo_context
     (Some (cps ''shard'')) (Some 1) (cps ''i1'', cps ''a1'', cps ''e1'') 5 demo_start))"

definition demo_request :: transition_request where
  "demo_request = \<lparr>q_instance = Some (cps ''i1''), q_expected = Some (cps ''pending''),
     q_revision = Some 0, q_target = Some (cps ''running''), q_reason = None, q_details = None,
     q_key = Some (cps ''retry-0001'')\<rparr>"

definition demo_ids :: new_ids where
  "demo_ids = \<lparr>n_transition = cps ''t1'', n_audit = cps ''a2'', n_claim = cps ''c1'', n_event = cps ''e2''\<rparr>"

definition demo_moved :: "jsonb kernel" where
  "demo_moved = snd (projr (transition_lifecycle_instance demo_platform demo_context True demo_request
     demo_ids 6 demo_created demo_created))"

definition demo_reply :: transition_reply where
  "demo_reply = fst (projr (transition_lifecycle_instance demo_platform demo_context True demo_request
     demo_ids 6 demo_created demo_created))"

lemma demo_created_run:
  "\<exists>r. create_lifecycle_instance demo_platform demo_context
     (Some (cps ''shard'')) (Some 1) (cps ''i1'', cps ''a1'', cps ''e1'') 5 demo_start = Inr (r, demo_created)"
proof -
  have "isl (create_lifecycle_instance demo_platform demo_context
     (Some (cps ''shard'')) (Some 1) (cps ''i1'', cps ''a1'', cps ''e1'') 5 demo_start) = False"
    by code_simp
  then show ?thesis unfolding demo_created_def by (metis sum.collapse(2) prod.collapse)
qed

text \<open>The two databases written out, so that evaluation does not run the functions again.\<close>

lemma demo_initial: "lifecycle_initial_state demo_tables (cps ''shard'', 1) = Some (cps ''pending'')"
  by code_simp

lemma demo_created_eq [code]:
  "demo_created = created demo_context (cps ''shard'', 1) (cps ''pending'')
     (cps ''i1'', cps ''a1'', cps ''e1'') 5 demo_start"
proof -
  obtain r where "create_lifecycle_instance demo_platform demo_context
     (Some (cps ''shard'')) (Some 1) (cps ''i1'', cps ''a1'', cps ''e1'') 5 demo_start = Inr (r, demo_created)"
    using demo_created_run by blast
  from create_Inr [OF this] obtain m s where
    m: "check_creation demo_context (Some (cps ''shard'')) (Some 1) (defs demo_start) = Inr m"
    and s: "lifecycle_initial_state (defs demo_start) m = Some s"
    and eq: "demo_created = created demo_context m s (cps ''i1'', cps ''a1'', cps ''e1'') 5 demo_start"
    by blast
  have "m = (cps ''shard'', 1)" using m unfolding check_creation_def Let_def checked_Inr by simp
  with s have "s = cps ''pending''" using demo_initial by (simp add: demo_start_def)
  with eq \<open>m = _\<close> show ?thesis by simp
qed

lemma demo_moved_run:
  "transition_lifecycle_instance demo_platform demo_context True demo_request
     demo_ids 6 demo_created demo_created = Inr (demo_reply, demo_moved)"
  and demo_not_replayed: "\<not> rp_replayed demo_reply"
proof -
  have "case transition_lifecycle_instance demo_platform demo_context True demo_request
     demo_ids 6 demo_created demo_created of Inl e \<Rightarrow> False | Inr x \<Rightarrow> \<not> rp_replayed (fst x)"
    by code_simp
  then obtain r k where x: "transition_lifecycle_instance demo_platform demo_context True demo_request
     demo_ids 6 demo_created demo_created = Inr (r, k)" and r: "\<not> rp_replayed r"
    by (auto split: sum.splits)
  from x show "transition_lifecycle_instance demo_platform demo_context True demo_request
     demo_ids 6 demo_created demo_created = Inr (demo_reply, demo_moved)"
    by (simp add: demo_reply_def demo_moved_def)
  from x r show "\<not> rp_replayed demo_reply" by (simp add: demo_reply_def)
qed

definition demo_checked :: checked_request where
  "demo_checked = \<lparr>rq_instance = cps ''i1'', rq_expected = cps ''pending'', rq_revision = 0,
     rq_target = cps ''running'', rq_reason = None, rq_details = empty_object, rq_key = Some (cps ''retry-0001'')\<rparr>"

lemma demo_check: "check_request demo_platform demo_context True demo_request = Inr rq \<Longrightarrow> rq = demo_checked"
  unfolding check_request_def checked_Inr by (simp add: demo_request_def demo_checked_def)

lemma demo_moved_eq [code]:
  "demo_moved = written demo_platform demo_context demo_ids 6 demo_checked (cps ''shard'', 1)
     (demo_created\<lparr>instances := map (moved_row 6 demo_checked) (instances demo_created)\<rparr>)"
proof -
  have one: "instances demo_created = [\<lparr>in_id = cps ''i1'', in_tenant = cps ''tenant-a'',
      in_machine = (cps ''shard'', 1), in_state = cps ''pending'', in_revision = 0, in_created = 5, in_updated = 5\<rparr>]"
    by (simp add: demo_created_eq created_instances demo_start_def empty_kernel_def demo_context_def)
  then have ids: "distinct (map in_id (instances demo_created))" by simp
  obtain rq m i where rq: "check_request demo_platform demo_context True demo_request = Inr rq"
    and i: "i \<in> set (instances demo_created)" "matches (the (ax_tenant demo_context)) m rq i"
    and k': "record_move demo_platform demo_context demo_ids 6 rq m (demo_created\<lparr>instances :=
      map (\<lambda>r. if in_id r = rq_instance rq then moved_row 6 rq r else r) (instances demo_created)\<rparr>) = Inr demo_moved"
    by (rule transition_effect [OF demo_moved_run ids demo_not_replayed]) blast
  have "m = (cps ''shard'', 1)" using i one by (simp add: matches_def)
  with record_move_Inr (1) [OF k'] demo_check [OF rq] one show ?thesis by (simp add: demo_checked_def)
qed

lemma define_run: "def_step\<^sup>*\<^sup>* d d' \<Longrightarrow> (kernel_step P)\<^sup>*\<^sup>* (k\<lparr>defs := d\<rparr>) (k\<lparr>defs := d'\<rparr>)"
proof (induction rule: rtranclp_induct)
  case (step d1 d2)
  have "kernel_step P (k\<lparr>defs := d1\<rparr>) (k\<lparr>defs := d1\<rparr>\<lparr>defs := d2\<rparr>)"
    by (rule define_step) (simp add: step.hyps (2))
  with step.IH show ?case by simp
qed simp

lemma demo_start_reachable: "(kernel_step demo_platform)\<^sup>*\<^sup>* empty_kernel demo_start"
  using define_run [OF registration_run [OF demo_registered], of demo_platform empty_kernel]
  by (simp add: demo_start_def empty_kernel_def)

lemma demo_created_reachable: "(kernel_step demo_platform)\<^sup>*\<^sup>* empty_kernel demo_created"
  using demo_start_reachable demo_created_run by (meson create_step rtranclp.rtrancl_into_rtrancl)

lemma demo_moved_reachable: "(kernel_step demo_platform)\<^sup>*\<^sup>* empty_kernel demo_moved"
  using demo_created_reachable move_step [OF demo_moved_run] by (meson rtranclp.rtrancl_into_rtrancl)

section \<open>Instances stay on their graph\<close>

text \<open>
  C10: Under any interleaving of registrations, creations, transitions and generic writes, every
  instance of every tenant stands where its recorded history leads: the history starts in the
  machine's initial state at revision 0, every row of it is a declared edge taken from the state
  and the revision the previous row ended in, and the instance's revision is the number of rows.
\<close>

theorem history_explains_every_instance:
  assumes "(kernel_step P)\<^sup>*\<^sup>* empty_kernel k" and "i \<in> set (instances k)"
  shows "\<exists>s. lifecycle_initial_state (defs k) (in_machine i) = Some s \<and>
    walks (defs k) (in_machine i) s 0 (trail (in_id i) k) (in_state i) (in_revision i) \<and>
    in_revision i = int (length (trail (in_id i) k))"
proof -
  have "on_graph k i"
    using kernel_machine.inv_reachable [OF refl assms (1)] assms (2) by (simp add: kernel_ok_def)
  then show ?thesis unfolding on_graph_def using walks_revision by fastforce
qed

lemma history_explains_every_instance_witness:
  "\<exists>i \<in> set (instances demo_moved). in_revision i = int (length (trail (in_id i) demo_moved)) \<and>
     in_revision i = 1"
proof -
  have "\<exists>i \<in> set (instances demo_moved). in_revision i = 1" by code_simp
  then show ?thesis using history_explains_every_instance [OF demo_moved_reachable] by blast
qed

text \<open>
  C15: A terminal state is final: once an instance stands in a terminal state of its machine, no
  later transaction of any caller changes its row in any way.
\<close>

theorem terminal_state_is_final:
  assumes "(kernel_step P)\<^sup>*\<^sup>* empty_kernel k" and "i \<in> set (instances k)"
    and "lifecycle_state_is_terminal (defs k) (in_machine i) (in_state i)"
    and "(kernel_step P)\<^sup>*\<^sup>* k k'"
  shows "i \<in> set (instances k')"
proof -
  have "kernel_ok k" using kernel_machine.inv_reachable [OF refl assms (1)] .
  then have "extends k k'" by (rule run_extends [OF assms (4)])
  then obtain i' where "i' \<in> set (instances k')" "later_row k i i'"
    using assms (2) by (auto simp: extends_def)
  then show ?thesis using assms (3) by (simp add: later_row_def)
qed

section \<open>The compare-and-swap\<close>

text \<open>
  C11: A transition that is not a replay moved exactly one instance, which the caller may read and
  move, which at the moment of the update stood in the expected state at the expected revision, not
  terminal, along a declared edge; and it wrote every artifact: one history row, one audit event,
  one outbox event, and with a key one claim and its provenance. No other row changed.
\<close>

theorem transition_writes_every_artifact:
  assumes "(kernel_step P)\<^sup>*\<^sup>* empty_kernel k"
    and "transition_lifecycle_instance P cx rc q ids now k1 k = Inr (reply, k')"
    and "\<not> rp_replayed reply"
  shows "\<exists>rq m i. check_request P cx rc q = Inr rq \<and> i \<in> set (instances k) \<and>
    matches (the (ax_tenant cx)) m rq i \<and> instance_readable cx (defs k) i \<and>
    holds cx (defs k) m Transition \<and> advanced (defs k) i (moved_row now rq i) \<and>
    k' = written P cx ids now rq m (k\<lparr>instances :=
      map (\<lambda>r. if in_id r = rq_instance rq then moved_row now rq r else r) (instances k)\<rparr>)"
proof -
  have ids: "distinct (map in_id (instances k))"
    using kernel_machine.inv_reachable [OF refl assms (1)] by (simp add: kernel_ok_def)
  obtain rq m i k2 where c: "check_request P cx rc q = Inr rq" "i \<in> set (instances k)"
    "matches (the (ax_tenant cx)) m rq i" "instance_readable cx (defs k) i"
    "advanced (defs k) i (moved_row now rq i)"
    and k2: "k2 = k\<lparr>instances := map (\<lambda>r. if in_id r = rq_instance rq then moved_row now rq r else r) (instances k)\<rparr>"
    and k': "record_move P cx ids now rq m k2 = Inr k'"
    by (rule transition_effect [OF assms (2) ids assms (3)])
  have "holds cx (defs k) m Transition" using record_move_holds [OF k'] k2 by simp
  then show ?thesis using c record_move_Inr (1) [OF k'] unfolding k2 by blast
qed

lemma transition_writes_every_artifact_witness:
  "\<exists>rq m i. check_request demo_platform demo_context True demo_request = Inr rq \<and>
    demo_moved = written demo_platform demo_context demo_ids 6 rq m (demo_created\<lparr>instances :=
      map (\<lambda>r. if in_id r = rq_instance rq then moved_row 6 rq r else r) (instances demo_created)\<rparr>)"
  using transition_writes_every_artifact [OF demo_created_reachable demo_moved_run demo_not_replayed] by blast

text \<open>
  C12: No lost update: after a transition has moved an instance from a revision, no later transition
  that expects the same revision of the same instance moves it, whoever sends it and whatever it
  read beforehand: it is refused or replays the earlier one.
\<close>

theorem one_winner_per_revision:
  assumes "(kernel_step P)\<^sup>*\<^sup>* empty_kernel k"
    and "transition_lifecycle_instance P cx rc q ids now k1 k = Inr (reply, k')" "\<not> rp_replayed reply"
    and "(kernel_step P)\<^sup>*\<^sup>* k' k2"
    and "transition_lifecycle_instance P cx' rc' q' ids' now' k1' k2 = Inr (reply', k'')"
    and "q_instance q' = q_instance q" "q_revision q' = q_revision q"
  shows "rp_replayed reply' \<and> k'' = k2"
proof (rule ccontr)
  assume n: "\<not> (rp_replayed reply' \<and> k'' = k2)"
  have nr: "\<not> rp_replayed reply'" using transition_cases [OF assms (5)] n by (auto simp: moved_reply_def)
  have ok: "kernel_ok k" using kernel_machine.inv_reachable [OF refl assms (1)] .
  have ok': "kernel_ok k'" using step_keeps_ok [OF move_step [OF assms (2)] ok] .
  have ok2: "kernel_ok k2" using kernel_machine.inv_run [OF assms (4) ok'] .
  have ids: "distinct (map in_id (instances k))" "distinct (map in_id (instances k2))"
    using ok ok2 by (simp_all add: kernel_ok_def)
  obtain rq m i where a: "check_request P cx rc q = Inr rq" "i \<in> set (instances k)"
    "matches (the (ax_tenant cx)) m rq i"
    and k': "record_move P cx ids now rq m (k\<lparr>instances := map (\<lambda>r. if in_id r = rq_instance rq
      then moved_row now rq r else r) (instances k)\<rparr>) = Inr k'"
    by (rule transition_effect [OF assms (2) ids (1) assms (3)]) blast
  obtain rq' m' j where b: "check_request P cx' rc' q' = Inr rq'" "j \<in> set (instances k2)"
    "matches (the (ax_tenant cx')) m' rq' j"
    by (rule transition_effect [OF assms (5) ids (2) nr])
  have same: "rq_instance rq' = rq_instance rq" "rq_revision rq' = rq_revision rq"
    using check_request_Inr (3,5) [OF a (1)] check_request_Inr (3,5) [OF b (1)] assms (6,7) by simp_all
  have "moved_row now rq i \<in> set (instances k')"
    using record_move_Inr (1) [OF k'] a (2,3) by (force simp: matches_def)
  moreover have "extends k' k2" by (rule run_extends [OF assms (4) ok'])
  ultimately obtain i' where i': "i' \<in> set (instances k2)" "in_id i' = in_id i"
    "in_revision i + 1 \<le> in_revision i'"
    unfolding extends_def later_row_def by fastforce
  have "i' = j" using i' (1,2) b (2,3) a (3) same ids (2)
    by (simp add: matches_def distinct_map inj_on_def)
  with i' (3) b (3) a (3) same show False by (simp add: matches_def)
qed

end
