(* ===== verification/Lifecycle_Replay.thy ===== *)
theory Lifecycle_Replay
  imports Lifecycle_Properties
begin

text \<open>
  What a committed transition leaves behind for every later request: an identical retry replays it,
  a different request under its key is refused.
\<close>

section \<open>Finding rows that are unique\<close>

lemma find_the:
  assumes "x \<in> set xs" "p x" "\<And>y. y \<in> set xs \<Longrightarrow> p y \<Longrightarrow> y = x"
  shows "find p xs = Some x"
proof (cases "find p xs")
  case None
  then show ?thesis using assms (1,2) by (simp add: find_None_iff)
next
  case (Some y)
  then show ?thesis using find_in [OF Some] assms (3) by simp
qed

lemma distinct_map_eq: "distinct (map f xs) \<Longrightarrow> x \<in> set xs \<Longrightarrow> y \<in> set xs \<Longrightarrow> f x = f y \<Longrightarrow> x = y"
  by (simp add: distinct_map inj_on_def)

section \<open>Callers with at least the same rights\<close>

definition wider :: "auth_context \<Rightarrow> auth_context \<Rightarrow> bool" where
  "wider cx cx' \<longleftrightarrow> ax_tenant cx' = ax_tenant cx \<and> set (ax_scopes cx) \<subseteq> set (ax_scopes cx')"

lemma wider_refl [simp]: "wider cx cx"
  by (simp add: wider_def)

lemma wider_scope: "wider cx cx' \<Longrightarrow> auth_has_scope cx s \<Longrightarrow> auth_has_scope cx' s"
  by (auto simp: wider_def auth_has_scope_def split: option.splits)

lemma wider_check:
  assumes "check_request P cx rc q = Inr rq" "wider cx cx'"
  shows "check_request P cx' rc q = Inr rq"
proof -
  have "ax_tenant cx' \<noteq> None" "auth_has_scope cx' (Some mutation_scope)"
    using check_request_Inr (1,2) [OF assms (1)] assms (2) wider_scope by (auto simp: wider_def)
  with assms (1) show ?thesis
    unfolding check_request_def checked_Inr list.pred_inject fst_conv by blast
qed

section \<open>The claim of a committed transition\<close>

text \<open>Every later request under the key of the request \<open>rq\<close> gets its reply or is refused.\<close>

definition key_answers ::
  "'f platform \<Rightarrow> auth_context \<Rightarrow> auth_context \<Rightarrow> new_ids \<Rightarrow> checked_request \<Rightarrow> machine_id \<Rightarrow> 'f kernel \<Rightarrow> bool" where
  "key_answers P cx cx' ids rq m l \<longleftrightarrow> (\<forall>rq'. rq_key rq' = rq_key rq \<longrightarrow> replay P cx' rq' m l =
     (if lifecycle_request_fingerprint P (the (ax_tenant cx)) (transition_operation m) m rq' =
         lifecycle_request_fingerprint P (the (ax_tenant cx)) (transition_operation m) m rq
      then Inr (Some (replayed_reply m (n_claim ids, n_event ids, new_result ids rq m)))
      else Inl Key_reused))"

lemma replay_after:
  assumes ok: "kernel_ok k"
    and move: "transition_lifecycle_instance P cx rc q ids now k1 k = Inr (reply, k')" "\<not> rp_replayed reply"
    and key: "q_key q = Some key"
    and run: "(kernel_step P)\<^sup>*\<^sup>* k' l" and w: "wider cx cx'"
  obtains rq m i where "check_request P cx rc q = Inr rq" "reply = moved_reply cx ids rq m"
    "i \<in> set (instances l)" "in_id i = rq_instance rq" "in_machine i = m"
    "instance_readable cx' (defs l) i" "holds cx' (defs l) m Transition"
    "key_answers P cx cx' ids rq m l"
proof -
  have ids: "distinct (map in_id (instances k))" using ok by (simp add: kernel_ok_def)
  obtain rq m i k2 where
    rq: "check_request P cx rc q = Inr rq" and i: "i \<in> set (instances k)" "matches (the (ax_tenant cx)) m rq i"
    and r: "instance_readable cx (defs k) i"
    and k2: "k2 = k\<lparr>instances := map (\<lambda>r. if in_id r = rq_instance rq then moved_row now rq r else r) (instances k)\<rparr>"
    and k': "record_move P cx ids now rq m k2 = Inr k'" and reply: "reply = moved_reply cx ids rq m"
    by (rule transition_effect [OF move (1) ids move (2)])
  let ?c = "new_claim P cx ids rq m key" and ?p = "new_provenance cx ids rq m" and ?i = "moved_row now rq i"
  have rqk: "rq_key rq = Some key" using check_request_Inr (7) [OF rq] key by simp
  note wr = record_move_Inr (1) [OF k']
  have tenant: "ax_tenant cx = Some (the (ax_tenant cx))" using check_request_Inr (1) [OF rq] by simp
  have mi: "in_machine i = m" "in_id i = rq_instance rq" "in_tenant i = the (ax_tenant cx)"
    using i (2) by (simp_all add: matches_def)
  have here: "?i \<in> set (instances k')" "?i \<in> set (instances k2)" using wr k2 i mi by force+
  have rows: "?c \<in> set (claims k')" "?p \<in> set (provenance k')" using wr rqk by (simp_all add: written_def)
  have b: "backed k' ?c ?p"
    using new_claim_backed [OF wr rqk here (2)] i (2) by (simp add: matches_def)
  have ok': "kernel_ok k'" using step_keeps_ok [OF move_step [OF move (1)] ok] .
  have okl: "kernel_ok l" using kernel_machine.inv_run [OF run ok'] .
  have ex: "extends k' l" by (rule run_extends [OF run ok'])
  have bl: "backed l ?c ?p" by (rule backed_extends [OF ex b])
  have rowsl: "?c \<in> set (claims l)" "?p \<in> set (provenance l)"
    using ex rows unfolding extends_def by (metis Un_iff set_append)+
  obtain i' where i': "i' \<in> set (instances l)" "later_row k' ?i i'"
    using ex here (1) unfolding extends_def by blast
  have i'': "in_id i' = rq_instance rq" "in_machine i' = m" "in_tenant i' = the (ax_tenant cx)"
    using i' (2) mi by (simp_all add: later_row_def)
  have defs: "defs k' = defs k" using wr k2 by simp
  have "published m (defs k')"
    using ok i (1) mi (1) defs on_graph_published unfolding kernel_ok_def by metis
  then have "same_machine (defs k') (defs l) m" using ex by (simp add: extends_def)
  then have scope: "lifecycle_required_scope (defs l) m = lifecycle_required_scope (defs k) m"
    using same_machine_readers (1) defs by metis
  have "holds cx (defs k) m Transition" using record_move_holds [OF k'] k2 by simp
  then have ht: "holds cx' (defs l) m Transition" using wider_scope [OF w] by (simp add: holds_def scope)
  have "holds cx (defs k) m Read" using r mi by (simp add: instance_readable_def)
  then have hr: "holds cx' (defs l) m Read" using wider_scope [OF w] by (simp add: holds_def scope)
  have ten': "ax_tenant cx' = Some (the (ax_tenant cx))" using w tenant by (simp add: wider_def)
  have ir: "instance_readable cx' (defs l) i'"
    using ten' hr i'' by (simp add: instance_readable_def)
  have mu: "auth_has_scope cx' (Some mutation_scope)" using wider_scope [OF w check_request_Inr (2) [OF rq]] .
  have cr: "claim_readable cx' (defs l) ?c"
    using mu hr ten' by (simp add: claim_readable_def tag_readable_def)
  have p: "pv_claim ?p = n_claim ids" "pv_tenant ?p = the (ax_tenant cx)" "pv_machine ?p = m" "pv_event ?p = n_event ids"
    by (simp_all add: new_provenance_def)
  have v: "verified cx' m ?c l ?p"
  proof -
    have "transition_readable cx' (defs l) t" if "transition_behind ?p x t" for t x
      using that hr ten' p by (simp add: transition_readable_def transition_behind_def)
    moreover have "instance_readable cx' (defs l) j" if "instance_behind ?p j" for j
      using that hr ten' p by (simp add: instance_readable_def instance_behind_def)
    moreover have "outbox_readable cx' (defs l) e" if "event_behind ?p e" for e
      using that hr ten' mu p by (simp add: outbox_readable_def event_behind_def tag_readable_def)
    ultimately show ?thesis using bl p unfolding verified_def backed_def by fastforce
  qed
  have dist: "distinct (map pv_claim (provenance l))" "distinct (map claim_key (claims l))"
    using okl unfolding kernel_ok_def by blast+
  have fp: "find (verified cx' m ?c l) (provenance l) = Some ?p"
  proof (rule find_the, rule rowsl (2), rule v)
    fix y assume "y \<in> set (provenance l)" "verified cx' m ?c l y"
    then have "pv_claim y = cl_id ?c" unfolding verified_def by blast
    then have "pv_claim y = pv_claim ?p" using p (1) by simp
    then show "y = ?p" using distinct_map_eq [OF dist (1)] \<open>y \<in> set (provenance l)\<close> rowsl (2) by blast
  qed
  have fc: "find (\<lambda>r. claim_readable cx' (defs l) r \<and> cl_operation r = transition_operation m \<and> cl_key r = key)
      (claims l) = Some ?c"
  proof (rule find_the, rule rowsl (1))
    show "claim_readable cx' (defs l) ?c \<and> cl_operation ?c = transition_operation m \<and> cl_key ?c = key"
      using cr by simp
    fix y assume "y \<in> set (claims l)"
      "claim_readable cx' (defs l) y \<and> cl_operation y = transition_operation m \<and> cl_key y = key"
    then have "claim_key y = claim_key ?c" using ten' by (simp add: claim_key_def claim_readable_def)
    then show "y = ?c" using distinct_map_eq [OF dist (2)] \<open>y \<in> set (claims l)\<close> rowsl (1) by blast
  qed
  have "key_answers P cx cx' ids rq m l"
    using fc fp ten' p rqk by (auto simp: key_answers_def replay_def lifecycle_replay_claim_def)
  then show thesis using that rq reply i' (1) i'' (1,2) ir ht by blast
qed

lemma holds_registered: "holds cx d m c \<Longrightarrow> lifecycle_required_scope d m c \<noteq> None"
  by (auto simp: holds_def auth_has_scope_def split: option.splits)

text \<open>The first statements find the instance.\<close>

lemma find_instance:
  assumes "kernel_ok l" "i \<in> set (instances l)" "instance_readable cx (defs l) i"
  shows "find (\<lambda>r. in_id r = in_id i \<and> instance_readable cx (defs l) r) (instances l) = Some i"
proof -
  have "distinct (map in_id (instances l))" using assms (1) unfolding kernel_ok_def by blast
  then show ?thesis using assms (2,3) by (intro find_the) (auto dest: distinct_map_eq)
qed

lemma get_int_J: "jsonb_get d key = Some (J_int n) \<Longrightarrow> get_int d key = Some n"
  by (simp add: get_int_def J_int_def)

lemma get_text_J: "jsonb_get d key = Some (J_string t) \<Longrightarrow> get_text d key = Some t"
  by (simp add: get_text_def)

lemma replayed_is_the_reply:
  assumes "rq_key rq = Some key"
  shows "replayed_reply m (n_claim ids, n_event ids, new_result ids rq m) =
    moved_reply cx ids rq m\<lparr>rp_replayed := True\<rparr>"
  using assms by (simp add: replayed_reply_def moved_reply_def new_result_def get_int_J get_text_J)

section \<open>Exactly once\<close>

text \<open>
  C9: A keyed transition that committed is idempotent for ever: the same request, sent again by
  any caller of the tenant with at least the same scopes, with whatever fresh identifiers, at any
  later time, whatever happened in between, gets the first reply marked as a replay, and nothing
  is written.
\<close>

theorem identical_retry_replays:
  assumes "(kernel_step P)\<^sup>*\<^sup>* empty_kernel k"
    and "transition_lifecycle_instance P cx rc q ids now k1 k = Inr (reply, k')" "\<not> rp_replayed reply"
    and "q_key q = Some key" and "(kernel_step P)\<^sup>*\<^sup>* k' l" and "wider cx cx'"
  shows "transition_lifecycle_instance P cx' rc q ids' now' l l' = Inr (reply\<lparr>rp_replayed := True\<rparr>, l')"
proof -
  have ok: "kernel_ok k" using kernel_machine.inv_reachable [OF refl assms (1)] .
  have okl: "kernel_ok l"
    using kernel_machine.inv_run [OF assms (5) step_keeps_ok [OF move_step [OF assms (2)] ok]] .
  obtain rq m i where rq: "check_request P cx rc q = Inr rq" and reply: "reply = moved_reply cx ids rq m"
    and i: "i \<in> set (instances l)" "in_id i = rq_instance rq" "in_machine i = m"
      "instance_readable cx' (defs l) i" "holds cx' (defs l) m Transition"
    and rep: "key_answers P cx cx' ids rq m l"
    by (rule replay_after [OF ok assms (2-6)])
  have key: "rq_key rq = Some key" using check_request_Inr (7) [OF rq] assms (4) by simp
  have "lifecycle_required_scope (defs l) m Transition \<noteq> None"
    by (rule holds_registered [OF i (5)])
  then have "move_instance P cx' ids' now' rq i l l' = Inr (reply\<lparr>rp_replayed := True\<rparr>, l')"
    using i rep key by (simp add: move_instance_def Let_def key_answers_def reply replayed_is_the_reply [OF key, of _ _ cx])
  then show ?thesis
    using wider_check [OF rq assms (6)] find_instance [OF okl i (1,4)] i (2)
    by (simp add: transition_lifecycle_instance_def)
qed


section \<open>The theorems at a concrete database\<close>

definition retry_ids :: new_ids where
  "retry_ids = \<lparr>n_transition = cps ''t9'', n_audit = cps ''a9'', n_claim = cps ''c9'', n_event = cps ''e9''\<rparr>"

lemma demo_check_Inr: "check_request demo_platform demo_context True demo_request = Inr demo_checked"
proof -
  have "isl (check_request demo_platform demo_context True demo_request) = False" by code_simp
  then show ?thesis using demo_check by (metis sum.collapse(2))
qed

lemma identical_retry_replays_witness:
  "transition_lifecycle_instance demo_platform demo_context True demo_request retry_ids 9 demo_moved demo_moved =
     Inr (demo_reply\<lparr>rp_replayed := True\<rparr>, demo_moved)"
  by (rule identical_retry_replays [OF demo_created_reachable demo_moved_run demo_not_replayed
        _ rtranclp.rtrancl_refl wider_refl]) (simp add: demo_request_def)

definition other_request :: transition_request where
  "other_request = demo_request\<lparr>q_target := Some (cps ''finished'')\<rparr>"

definition other_checked :: checked_request where
  "other_checked = demo_checked\<lparr>rq_target := cps ''finished''\<rparr>"

lemma other_check_Inr: "check_request demo_platform demo_context True other_request = Inr other_checked"
proof -
  have "isl (check_request demo_platform demo_context True other_request) = False" by code_simp
  then obtain rq where rq: "check_request demo_platform demo_context True other_request = Inr rq"
    by (metis sum.collapse(2))
  then have "rq = other_checked" unfolding check_request_def checked_Inr
    by (simp add: other_request_def other_checked_def demo_request_def demo_checked_def)
  with rq show ?thesis by simp
qed


lemma demo_retry:
  "\<exists>r. transition_lifecycle_instance demo_platform demo_context True demo_request retry_ids 9 demo_moved demo_moved =
     Inr (r, demo_moved)"
proof -
  have "isl (transition_lifecycle_instance demo_platform demo_context True demo_request retry_ids 9
     demo_moved demo_moved) = False" by code_simp
  then obtain r k where x: "transition_lifecycle_instance demo_platform demo_context True demo_request
    retry_ids 9 demo_moved demo_moved = Inr (r, k)" by (metis sum.collapse(2) prod.collapse)
  have "case transition_lifecycle_instance demo_platform demo_context True demo_request retry_ids 9
     demo_moved demo_moved of Inl e \<Rightarrow> False | Inr x \<Rightarrow> rp_replayed (fst x)" by code_simp
  with x have "rp_replayed r" by simp
  with x transition_cases [OF x] show ?thesis by (auto simp: moved_reply_def)
qed

lemma one_winner_per_revision_witness:
  "\<exists>r. transition_lifecycle_instance demo_platform demo_context True demo_request retry_ids 9 demo_moved demo_moved =
     Inr (r, demo_moved) \<and> rp_replayed r"
  using demo_retry one_winner_per_revision [OF demo_created_reachable demo_moved_run demo_not_replayed
      rtranclp.rtrancl_refl _ refl refl] by blast

definition finish_request :: transition_request where
  "finish_request = \<lparr>q_instance = Some (cps ''i1''), q_expected = Some (cps ''running''),
     q_revision = Some 1, q_target = Some (cps ''finished''), q_reason = None, q_details = None, q_key = None\<rparr>"

lemma finished_run:
  "\<exists>r k i. transition_lifecycle_instance demo_platform demo_context True finish_request retry_ids 9
     demo_moved demo_moved = Inr (r, k) \<and> i \<in> set (instances k) \<and>
     lifecycle_state_is_terminal (defs k) (in_machine i) (in_state i)"
proof -
  have "case transition_lifecycle_instance demo_platform demo_context True finish_request retry_ids 9
     demo_moved demo_moved of Inl e \<Rightarrow> False | Inr x \<Rightarrow> (\<exists>i \<in> set (instances (snd x)).
       lifecycle_state_is_terminal (defs (snd x)) (in_machine i) (in_state i))" by code_simp
  then show ?thesis by (auto split: sum.splits)
qed

lemma terminal_state_is_final_witness:
  "\<exists>k i. i \<in> set (instances k) \<and> lifecycle_state_is_terminal (defs k) (in_machine i) (in_state i) \<and>
     \<not> (\<exists>k'. (kernel_step demo_platform)\<^sup>*\<^sup>* k k' \<and> i \<notin> set (instances k'))"
proof -
  obtain r k i where m: "transition_lifecycle_instance demo_platform demo_context True finish_request retry_ids 9
     demo_moved demo_moved = Inr (r, k)" and i: "i \<in> set (instances k)"
     "lifecycle_state_is_terminal (defs k) (in_machine i) (in_state i)" using finished_run by blast
  have "(kernel_step demo_platform)\<^sup>*\<^sup>* empty_kernel k"
    using demo_moved_reachable move_step [OF m] by (meson rtranclp.rtrancl_into_rtrancl)
  from terminal_state_is_final [OF this i] i show ?thesis by blast
qed

end
