(* ===== verification/Lifecycle_Isolation.thy ===== *)
theory Lifecycle_Isolation
  imports Lifecycle_Replay
begin

text \<open>
  What the tenant boundary and the reserved namespace give: a caller's request reads only rows the
  policies show it, writes only rows of its own tenant, and no generic writer can forge the
  artifacts of a transition.
\<close>

section \<open>Reads\<close>

text \<open>The database as the row policies show it to a caller.\<close>

definition seen :: "auth_context \<Rightarrow> 'f kernel \<Rightarrow> 'f kernel" where
  "seen cx k = k\<lparr>instances := filter (instance_readable cx (defs k)) (instances k),
     transitions := filter (transition_readable cx (defs k)) (transitions k),
     audits := filter (audit_readable cx (defs k)) (audits k),
     claims := filter (claim_readable cx (defs k)) (claims k),
     outbox := filter (outbox_readable cx (defs k)) (outbox k),
     provenance := filter (\<lambda>p. Some (pv_tenant p) = ax_tenant cx \<and> holds cx (defs k) (pv_machine p) Read) (provenance k)\<rparr>"

lemma find_filter_imp: "(\<And>x. p x \<Longrightarrow> q x) \<Longrightarrow> find p (filter q xs) = find p xs"
  by (induction xs) auto

lemma seen_defs [simp]: "defs (seen cx k) = defs k"
  by (simp add: seen_def)

lemma verified_seen: "verified cx m r (seen cx k) = verified cx m r k"
  by (rule ext) (auto simp: verified_def seen_def)

lemma replay_claim_seen: "lifecycle_replay_claim cx op key m fp (seen cx k) = lifecycle_replay_claim cx op key m fp k"
proof -
  have "find (\<lambda>r. claim_readable cx (defs k) r \<and> cl_operation r = op \<and> cl_key r = key) (claims (seen cx k)) =
      find (\<lambda>r. claim_readable cx (defs k) r \<and> cl_operation r = op \<and> cl_key r = key) (claims k)"
    unfolding seen_def by (simp, rule find_filter_imp) simp
  moreover have "find (verified cx m r k) (provenance (seen cx k)) = find (verified cx m r k) (provenance k)"
    if "claim_readable cx (defs k) r" for r
  proof -
    have "Some (pv_tenant p) = ax_tenant cx \<and> holds cx (defs k) (pv_machine p) Read" if "verified cx m r k p" for p
      using that \<open>claim_readable cx (defs k) r\<close>
      unfolding verified_def claim_readable_def tag_readable_def by auto
    then show ?thesis unfolding seen_def by (simp, intro find_filter_imp) blast
  qed
  ultimately show ?thesis unfolding lifecycle_replay_claim_def seen_defs verified_seen [abs_def]
    by (auto split: option.split dest: find_in)
qed

lemma replay_seen: "replay P cx rq m (seen cx k) = replay P cx rq m k"
  unfolding replay_def replay_claim_seen ..


section \<open>Writes\<close>

text \<open>The rows of every other tenant.\<close>

definition others :: "uuid option \<Rightarrow> 'f kernel \<Rightarrow> 'f kernel" where
  "others t k = k\<lparr>instances := filter (\<lambda>r. Some (in_tenant r) \<noteq> t) (instances k),
     transitions := filter (\<lambda>r. Some (tr_tenant r) \<noteq> t) (transitions k),
     audits := filter (\<lambda>r. Some (ae_tenant r) \<noteq> t) (audits k),
     claims := filter (\<lambda>r. Some (cl_tenant r) \<noteq> t) (claims k),
     outbox := filter (\<lambda>r. Some (ob_tenant r) \<noteq> t) (outbox k),
     provenance := filter (\<lambda>r. Some (pv_tenant r) \<noteq> t) (provenance k)\<rparr>"

lemma others_created: "ax_tenant cx \<noteq> None \<Longrightarrow> others (ax_tenant cx) (created cx m s ids now k) = others (ax_tenant cx) k"
  by (auto simp: others_def created_def split: prod.splits)

lemma check_creation_tenant: "check_creation cx key version d = Inr m \<Longrightarrow> ax_tenant cx \<noteq> None"
  unfolding check_creation_def Let_def checked_Inr list.pred_inject fst_conv by blast

lemma others_written:
  "ax_tenant cx \<noteq> None \<Longrightarrow> others (ax_tenant cx) (written P cx ids now rq m k) = others (ax_tenant cx) k"
  by (auto simp: others_def written_def new_transition_def moved_audit_def new_event_def
      new_provenance_def split: option.splits)

lemma filter_map_same:
  "(\<And>x. x \<in> set xs \<Longrightarrow> p (f x) = p x) \<Longrightarrow> (\<And>x. x \<in> set xs \<Longrightarrow> p x \<Longrightarrow> f x = x) \<Longrightarrow> filter p (map f xs) = filter p xs"
  by (induction xs) auto

text \<open>
  C13: Nothing a tenant's caller does reaches another tenant: after a transition or a creation that
  succeeds, whatever its arguments, every row of every other tenant in every table is what it was,
  and so is every definition.
\<close>

theorem writes_stay_in_the_tenant:
  assumes "(kernel_step P)\<^sup>*\<^sup>* empty_kernel k"
    and "transition_lifecycle_instance P cx rc q ids now k1 k = Inr (reply, k') \<or>
      create_lifecycle_instance P cx key version cids now k = Inr (creply, k')"
  shows "others (ax_tenant cx) k' = others (ax_tenant cx) k"
  using assms (2)
proof
  assume c: "create_lifecycle_instance P cx key version cids now k = Inr (creply, k')"
  obtain m s where "check_creation cx key version (defs k) = Inr m" "k' = created cx m s cids now k"
    using create_Inr [OF c] by blast
  then show ?thesis using others_created check_creation_tenant by metis
next
  assume t: "transition_lifecycle_instance P cx rc q ids now k1 k = Inr (reply, k')"
  have ids: "distinct (map in_id (instances k))"
    using kernel_machine.inv_reachable [OF refl assms (1)] by (simp add: kernel_ok_def)
  show ?thesis
  proof (cases "rp_replayed reply")
    case True
    then show ?thesis using transition_cases [OF t] by (auto simp: moved_reply_def)
  next
    case False
    obtain rq m i k2 where rq: "check_request P cx rc q = Inr rq" and i: "i \<in> set (instances k)"
      "matches (the (ax_tenant cx)) m rq i"
      and k2: "k2 = k\<lparr>instances := map (\<lambda>r. if in_id r = rq_instance rq then moved_row now rq r else r) (instances k)\<rparr>"
      and k': "record_move P cx ids now rq m k2 = Inr k'"
      by (rule transition_effect [OF t ids False])
    have ten: "ax_tenant cx \<noteq> None" by (rule check_request_Inr (1) [OF rq])
    have own: "Some (in_tenant r) = ax_tenant cx" if "r \<in> set (instances k)" "in_id r = rq_instance rq" for r
    proof -
      have "r = i" using distinct_map_eq [OF ids that (1) i (1)] that (2) i (2) by (simp add: matches_def)
      then show ?thesis using i (2) ten by (auto simp: matches_def)
    qed
    have "filter (\<lambda>r. Some (in_tenant r) \<noteq> ax_tenant cx) (instances k2) =
        filter (\<lambda>r. Some (in_tenant r) \<noteq> ax_tenant cx) (instances k)"
      unfolding k2 by (simp, rule filter_map_same) (use own in auto)
    then have "others (ax_tenant cx) k2 = others (ax_tenant cx) k"
      unfolding others_def using k2 by simp
    then show ?thesis by (simp add: record_move_Inr (1) [OF k'] others_written [OF ten])
  qed
qed

lemma writes_stay_in_the_tenant_witness:
  "others (Some (cps ''tenant-a'')) demo_moved = others (Some (cps ''tenant-a'')) demo_created"
  using writes_stay_in_the_tenant [OF demo_created_reachable disjI1, OF demo_moved_run]
  by (simp add: demo_context_def)

section \<open>Artifacts cannot be forged\<close>

text \<open>
  C14: In every reachable database a claim in the reserved namespace \<open>lifecycle.\<close>, whoever wrote it,
  has the whole chain behind it: one provenance row of its tenant and machine, and through it a
  transition, an instance at or past the transition's revision and an outbox event that agree with
  each other and with every field of the stored result.
\<close>

theorem lifecycle_claim_is_backed:
  assumes "(kernel_step P)\<^sup>*\<^sup>* empty_kernel k" and "c \<in> set (claims k)"
    and "starts_with (cl_operation c) lifecycle_namespace"
  shows "\<exists>p. {x \<in> set (provenance k). pv_claim x = cl_id c} = {p} \<and> backed k c p"
proof -
  have ok: "kernel_ok k" using kernel_machine.inv_reachable [OF refl assms (1)] .
  have "cl_tag c \<noteq> None" using ok assms (2,3) unfolding kernel_ok_def by blast
  then obtain p where p: "p \<in> set (provenance k)" "backed k c p"
    using ok assms (2) unfolding kernel_ok_def by blast
  have d: "distinct (map pv_claim (provenance k))" using ok unfolding kernel_ok_def by blast
  have id: "pv_claim p = cl_id c" using p (2) unfolding backed_def by blast
  have "x = p" if "x \<in> set (provenance k)" "pv_claim x = cl_id c" for x
    using distinct_map_eq [OF d that (1) p (1)] that (2) id by simp
  then have "{x \<in> set (provenance k). pv_claim x = cl_id c} = {p}" using p (1) id by blast
  with p (2) show ?thesis by blast
qed

text \<open>An event that belongs to a claim carries the claim's tag: nobody links to a claim of another kind.\<close>

definition event_linked :: "'f kernel \<Rightarrow> outbox_row \<Rightarrow> bool" where
  "event_linked k e \<longleftrightarrow> (case ob_claim e of None \<Rightarrow> True
     | Some c \<Rightarrow> (\<exists>r \<in> set (claims k). cl_id r = c \<and> cl_tenant r = ob_tenant e \<and> cl_tag r = ob_tag e))"

definition links_ok :: "'f kernel \<Rightarrow> bool" where
  "links_ok k \<longleftrightarrow> list_all (event_linked k) (outbox k)"

lemma event_linked_mono:
  "set (claims k) \<subseteq> set (claims k') \<Longrightarrow> event_linked k e \<Longrightarrow> event_linked k' e"
  by (auto simp: event_linked_def split: option.splits)

lemma links_mono:
  assumes "links_ok k" "set (claims k) \<subseteq> set (claims k')" "outbox k' = outbox k @ es" "list_all (event_linked k') es"
  shows "links_ok k'"
  using assms event_linked_mono [OF assms (2)] by (auto simp: links_ok_def list_all_iff)

lemma created_outbox: "\<exists>e. outbox (created cx m s ids now k) = outbox k @ [e] \<and> ob_claim e = None"
  by (simp add: created_def split: prod.splits)

lemma step_keeps_links:
  assumes step: "kernel_step P k k'" and ok: "links_ok k"
  shows "links_ok k'"
  using step
proof cases
  case (define_step d)
  then show ?thesis by (intro links_mono [OF ok, of _ "[]"]) simp_all
next
  case (create_step cx key version ids now reply)
  obtain m s where k': "k' = created cx m s ids now k" using create_Inr [OF create_step] by blast
  obtain e where e: "outbox k' = outbox k @ [e]" "ob_claim e = None" using created_outbox k' by blast
  show ?thesis
    by (rule links_mono [OF ok _ e (1)]) (simp_all add: k' event_linked_def e (2))
next
  case (move_step cx rc q ids now k1 reply)
  from transition_cases [OF move_step] show ?thesis
  proof
    assume "\<exists>rq m n k2. check_request P cx rc q = Inr rq \<and>
      amend_instances cx now (matches (the (ax_tenant cx)) m rq) (advance rq) k = Inr (n, k2) \<and>
      n \<noteq> 0 \<and> record_move P cx ids now rq m k2 = Inr k' \<and> reply = moved_reply cx ids rq m"
    then obtain rq m n k2 where a: "amend_instances cx now (matches (the (ax_tenant cx)) m rq) (advance rq) k = Inr (n, k2)"
      and r: "record_move P cx ids now rq m k2 = Inr k'" by blast
    have same: "claims k2 = claims k" "outbox k2 = outbox k" using amend_instances_Inr (1) [OF a] by (metis kernel.select_convs kernel.update_convs (2) kernel.surjective)+
    show ?thesis
      by (rule links_mono [OF ok, of _ "[new_event cx ids rq m]"])
        (auto simp: record_move_Inr (1) [OF r] written_def same event_linked_def new_event_def)
  qed (use ok in simp)
next
  case (claim_step cx r)
  show ?thesis by (rule links_mono [OF ok, of _ "[]"]) (simp_all add: insert_claim_Inr (1) [OF claim_step] subset_insertI)
next
  case (event_step cx e)
  note e = insert_outbox_Inr [OF event_step]
  have "event_linked k' e" using e (1,2,3)
    by (auto simp: event_linked_def linkable_def split: option.splits)
  then show ?thesis by (intro links_mono [OF ok, of _ "[e]"]) (simp_all add: e (1))
next
  case (audit_step cx aid action outcome rtype rid corr details)
  obtain a where "k' = k\<lparr>audits := audits k @ [a]\<rparr>" using sql_append_Inr [OF audit_step] by blast
  then show ?thesis by (intro links_mono [OF ok, of _ "[]"]) simp_all
qed

interpretation event_links: transition_system "\<lambda>k. k = empty_kernel" "kernel_step P" links_ok
proof unfold_locales
  show "links_ok k" if "k = empty_kernel" for k
    using that by (simp add: links_ok_def empty_kernel_def)
qed (rule step_keeps_links)

text \<open>
  An outbox event cannot be attached to somebody else's mutation: in every reachable database
  an event linked to a claim is of the claim's tenant and carries the claim's machine tag, so a
  generic event is never linked to the claim of a transition, and a lifecycle event never to a
  generic claim.
\<close>

theorem linked_event_matches_its_claim:
  assumes "(kernel_step P)\<^sup>*\<^sup>* empty_kernel k" and "e \<in> set (outbox k)" and "ob_claim e = Some (cl_id c)"
    and "c \<in> set (claims k)"
  shows "ob_tenant e = cl_tenant c \<and> ob_tag e = cl_tag c"
proof -
  have "event_linked k e" using event_links.inv_reachable [OF refl assms (1)] assms (2)
    by (simp add: links_ok_def list_all_iff)
  then obtain r where r: "r \<in> set (claims k)" "cl_id r = cl_id c" "cl_tenant r = ob_tenant e" "cl_tag r = ob_tag e"
    using assms (3) by (auto simp: event_linked_def)
  have "distinct (map cl_id (claims k))"
    using kernel_machine.inv_reachable [OF refl assms (1)] unfolding kernel_ok_def by blast
  then have "r = c" using distinct_map_eq r (1,2) assms (4) by metis
  with r show ?thesis by simp
qed

lemma lifecycle_claim_is_backed_witness:
  "\<exists>c \<in> set (claims demo_moved). \<exists>p. backed demo_moved c p"
proof -
  have "\<exists>c \<in> set (claims demo_moved). starts_with (cl_operation c) lifecycle_namespace" by code_simp
  then show ?thesis using lifecycle_claim_is_backed [OF demo_moved_reachable] by blast
qed

lemma linked_event_matches_its_claim_witness:
  "\<exists>e \<in> set (outbox demo_moved). \<exists>c \<in> set (claims demo_moved). ob_claim e = Some (cl_id c) \<and> ob_tag e = cl_tag c"
proof -
  have "\<exists>e \<in> set (outbox demo_moved). \<exists>c \<in> set (claims demo_moved). ob_claim e = Some (cl_id c)" by code_simp
  then show ?thesis using linked_event_matches_its_claim [OF demo_moved_reachable] by blast
qed

section \<open>One namespace per machine version\<close>

lemma upto_ends_chars: "t \<in> set (upto_ends n p s) \<Longrightarrow> \<exists>u. s = u @ t \<and> list_all p u"
proof (induction n p s rule: upto_ends.induct)
  case (3 n p c s)
  show ?case
  proof (cases "t = c # s")
    case False
    then obtain u where "s = u @ t" "list_all p u" "p c" using 3 by (auto split: if_splits)
    then have "c # s = (c # u) @ t \<and> list_all p (c # u)" by simp
    then show ?thesis by blast
  qed simp
qed simp_all

lemma name_ok_no_dot: "name_ok s \<Longrightarrow> 46 \<notin> set s"
proof -
  assume "name_ok s"
  then obtain c t where s: "s = c # t" "lower_alpha c" "[] \<in> set (upto_ends 62 name_char t)"
    by (auto simp: name_ok_def full_match_def metadata_key_regex_def split: list.splits if_splits)
  then have "list_all name_char t" using upto_ends_chars by fastforce
  then show ?thesis using s (1,2)
    by (auto simp: list_all_iff name_char_def lower_alpha_def ascii_digit_def between_cps_def)
qed

lemma int_text_inj: "int_text a = int_text b \<longleftrightarrow> a = b"
proof
  have minus: "nat_text n \<noteq> CHR ''-'' # s" for n s
    using nat_text_digits [of "CHR ''-''" n] by (auto simp: is_digit_def)
  assume "int_text a = int_text b"
  then show "a = b"
    using minus minus [symmetric]
    by (auto simp: int_text_def nat_text_inj split: if_splits)
qed simp

lemma split_at_dot: "46 \<notin> set a \<Longrightarrow> 46 \<notin> set b \<Longrightarrow> a @ 46 # s = b @ 46 # t \<longleftrightarrow> a = b \<and> s = t"
proof (induction a arbitrary: b)
  case (Cons c a)
  then show ?case by (cases b) auto
qed (auto simp: Cons_eq_append_conv)

text \<open>
  The derived operation names never collide: two machine versions with valid keys have the same
  operation only if they are the same, so a key used for one machine or one version is never read
  as a retry for another.
\<close>

theorem operations_separate_machines:
  assumes "name_ok (fst m)" "name_ok (fst m')"
  shows "transition_operation m = transition_operation m' \<longleftrightarrow> m = m'"
proof -
  have v: "cps ''.v'' = 46 # cps ''v''" by (simp add: cps_def)
  have "transition_operation m = transition_operation m' \<longleftrightarrow>
      fst m = fst m' \<and> cps (int_text (snd m)) = cps (int_text (snd m'))"
    using split_at_dot [OF name_ok_no_dot [OF assms (1)] name_ok_no_dot [OF assms (2)]]
    by (simp add: transition_operation_def v)
  also have "\<dots> \<longleftrightarrow> m = m'" by (auto simp: cps_inj int_text_inj prod_eq_iff)
  finally show ?thesis .
qed

lemma operations_separate_machines_witness:
  "transition_operation (cps ''shard'', 1) \<noteq> transition_operation (cps ''shard'', 12)"
proof -
  have "name_ok (cps ''shard'')" by code_simp
  then show ?thesis using operations_separate_machines [of "(cps ''shard'', 1)" "(cps ''shard'', 12)"] by simp
qed

section \<open>Creation\<close>

text \<open>
  A creation that succeeds adds one instance, of a published machine whose create scope the
  caller holds, in the machine's initial state at revision 0, with one audit event and one outbox
  event tagged with the machine, and touches no other row.
\<close>

theorem creation_starts_the_machine:
  assumes "create_lifecycle_instance P cx key version (iid, aid, eid) now k = Inr (reply, k')"
  shows "\<exists>m s. key = Some (fst m) \<and> version = Some (snd m) \<and> name_ok (fst m) \<and> published m (defs k) \<and>
    holds cx (defs k) m Create \<and> auth_has_scope cx (Some mutation_scope) \<and>
    lifecycle_initial_state (defs k) m = Some s \<and> iid \<notin> in_id ` set (instances k) \<and>
    instances k' = instances k @ [\<lparr>in_id = iid, in_tenant = the (ax_tenant cx), in_machine = m, in_state = s,
      in_revision = 0, in_created = now, in_updated = now\<rparr>] \<and>
    (\<exists>a e. audits k' = audits k @ [a] \<and> ae_tag a = Some m \<and> ae_resource a = Some iid \<and>
      outbox k' = outbox k @ [e] \<and> ob_tag e = Some m \<and> ob_aggregate e = iid \<and> ob_claim e = None) \<and>
    transitions k' = transitions k \<and> claims k' = claims k \<and> provenance k' = provenance k \<and>
    defs k' = defs k \<and> reply = \<lparr>cr_instance = iid, cr_state = s, cr_event = eid\<rparr>"
proof -
  obtain m s where m: "check_creation cx key version (defs k) = Inr m"
    and s: "lifecycle_initial_state (defs k) m = Some s" and new: "iid \<notin> in_id ` set (instances k)"
    and k': "k' = created cx m s (iid, aid, eid) now k"
    and r: "reply = \<lparr>cr_instance = iid, cr_state = s, cr_event = eid\<rparr>"
    using create_Inr [OF assms] by auto
  have c: "good_state_name key" "at_least 1 version" "auth_has_scope cx (Some mutation_scope)"
    "holds cx (defs k) (the key, the version) Create" "m = (the key, the version)"
    using m unfolding check_creation_def Let_def checked_Inr list.pred_inject fst_conv by blast+
  have "key = Some (fst m)" "version = Some (snd m)" "name_ok (fst m)" "holds cx (defs k) m Create"
    using c by (auto simp: good_state_name_def at_least_def split: option.splits)
  moreover have "\<exists>a e. audits k' = audits k @ [a] \<and> ae_tag a = Some m \<and> ae_resource a = Some iid \<and>
      outbox k' = outbox k @ [e] \<and> ob_tag e = Some m \<and> ob_aggregate e = iid \<and> ob_claim e = None"
    by (simp add: k' created_def)
  ultimately show ?thesis
    using s new r c (3) initial_published [OF s] created_instances [of cx m s "(iid, aid, eid)" now k]
    by (auto simp: k')
qed

lemma creation_starts_the_machine_witness:
  "\<exists>i \<in> set (instances demo_created). in_state i = cps ''pending'' \<and> in_revision i = 0"
proof -
  obtain r where c: "create_lifecycle_instance demo_platform demo_context
     (Some (cps ''shard'')) (Some 1) (cps ''i1'', cps ''a1'', cps ''e1'') 5 demo_start = Inr (r, demo_created)"
    using demo_created_run by blast
  obtain m s where "Some (cps ''shard'') = Some (fst m)" "Some 1 = Some (snd m)"
    "lifecycle_initial_state (defs demo_start) m = Some s"
    "instances demo_created = instances demo_start @ [\<lparr>in_id = cps ''i1'', in_tenant = the (ax_tenant demo_context),
      in_machine = m, in_state = s, in_revision = 0, in_created = 5, in_updated = 5\<rparr>]"
    using creation_starts_the_machine [OF c] by blast
  moreover from this have "m = (cps ''shard'', 1)" by (simp add: prod_eq_iff)
  moreover have "defs demo_start = demo_tables" by (simp add: demo_start_def)
  ultimately show ?thesis using demo_initial by auto
qed

end
