(* ===== verification/Idempotent_Mutation.thy ===== *)
theory Idempotent_Mutation
  imports Lifecycle_Isolation
begin

text \<open>
  \<open>control_plane/db/idempotency.py\<close>: the generic primitive that commits a mutation at most once per
  tenant, operation and key, on the same two tables. The mutation is an argument; it runs on the
  tenant's business rows inside a savepoint. As in the kernel, the first lookup may see an older
  database than the writes do.
\<close>

section \<open>Calls\<close>

datatype mutation_error =
    No_open_transaction
  | Bad_name string "string option"
  | Bad_key "string option"
  | Unflushed_state
  | Bad_metadata string metadata_error
  | Wrong_isolation
  | No_tenant_context
  | No_mutation_scope
  | Key_conflict
  | Not_one_event
  | Not_an_outcome
  | Left_boundary
  | Mutation_raised string
  | Mutation_integrity string
  | Event_link_refused
  | Database_error kernel_error
  | Claim_vanished

record session_state =
  ss_open :: bool
  ss_clean :: bool
  ss_read_committed :: bool

record event_spec =
  es_type :: py_value
  es_aggregate_type :: py_value
  es_aggregate :: uuid
  es_attributes :: py_value

record mutation_outcome =
  mo_result :: py_value
  mo_event :: event_spec

record idempotent_result =
  ir_record :: uuid
  ir_event :: uuid
  ir_result :: jsonb
  ir_replayed :: bool

text \<open>
  What the callback does: it returns an outcome, with the business rows it leaves and the integrity
  error its pending rows will raise when flushed, or returns something else, or raises, or is caught
  reaching for the transaction (a commit is refused before it happens, a rollback is detected).
\<close>

datatype 'b mutation_run =
    Returned mutation_outcome "string option" 'b
  | Returned_other
  | Raised string
  | Raised_integrity string
  | Broke_boundary

section \<open>Documents as stored\<close>

fun scalar_jsonb :: "meta_scalar \<Rightarrow> jsonb" where
  "scalar_jsonb M_null = J_null"
| "scalar_jsonb (M_bool b) = J_bool b"
| "scalar_jsonb (M_int n) = J_number (of_int n)"
| "scalar_jsonb (M_float x) = J_number x"
| "scalar_jsonb (M_text t) = J_string t"

fun item_jsonb :: "meta_item \<Rightarrow> jsonb" where
  "item_jsonb (Scalar s) = scalar_jsonb s"
| "item_jsonb (Sequence vs) = J_array (map scalar_jsonb vs)"

definition document_jsonb :: "document \<Rightarrow> jsonb" where
  "document_jsonb d = J_object (map (\<lambda>(k, v). (k, item_jsonb v)) d)"

text \<open>
  \<open>request_fingerprint\<close>: the digest of the canonical text of tenant, operation and identity, in the
  sorted order of the three keys.
\<close>

definition fingerprint_material :: "(rat \<Rightarrow> utext) \<Rightarrow> uuid \<Rightarrow> utext \<Rightarrow> document \<Rightarrow> utext" where
  "fingerprint_material ft tenant operation identity =
     [123] @ json_quote (cps ''operation'') @ [58] @ json_quote operation @ [44] @
     json_quote (cps ''request_identity'') @ [58] @ canonical_json ft identity @ [44] @
     json_quote (cps ''tenant'') @ [58] @ json_quote tenant @ [125]"

record 'f python =
  py_digest :: "utext \<Rightarrow> 'f"
  py_float :: "rat \<Rightarrow> utext"

definition request_fingerprint :: "'f python \<Rightarrow> uuid \<Rightarrow> utext \<Rightarrow> document \<Rightarrow> 'f" where
  "request_fingerprint Y tenant operation identity =
     py_digest Y (fingerprint_material (py_float Y) tenant operation identity)"

section \<open>Preconditions\<close>

definition require_valid_name :: "(utext \<Rightarrow> bool) \<Rightarrow> string \<Rightarrow> py_value \<Rightarrow> mutation_error + utext" where
  "require_valid_name ok what v =
     (case value_shape v of Some sh \<Rightarrow> Inl (Bad_name what (Some sh))
      | None \<Rightarrow> (case v of V_text t \<Rightarrow> if ok t then Inr t else Inl (Bad_name what None)
                 | _ \<Rightarrow> Inl (Bad_name what None)))"

definition require_valid_key :: "py_value \<Rightarrow> mutation_error + utext" where
  "require_valid_key v =
     (case value_shape v of Some sh \<Rightarrow> Inl (Bad_key (Some sh))
      | None \<Rightarrow> (case v of V_text t \<Rightarrow> if full_match idempotency_key_regex t then Inr t else Inl (Bad_key None)
                 | _ \<Rightarrow> Inl (Bad_key None)))"

definition tenant_context :: "auth_context \<Rightarrow> mutation_error + uuid" where
  "tenant_context cx =
     (case ax_tenant cx of None \<Rightarrow> Inl No_tenant_context
      | Some t \<Rightarrow> if auth_has_scope cx (Some mutation_scope) then Inr t else Inl No_mutation_scope)"

definition checked_metadata :: "'f python \<Rightarrow> string \<Rightarrow> py_value \<Rightarrow> mutation_error + document" where
  "checked_metadata Y where v =
     (case validated_metadata (py_float Y) v of Inl e \<Rightarrow> Inl (Bad_metadata where e) | Inr d \<Rightarrow> Inr d)"

section \<open>The outbox\<close>

text \<open>\<open>IntegrityError\<close> is class 23 of the SQLSTATEs.\<close>

definition integrity_error :: "kernel_error \<Rightarrow> bool" where
  "integrity_error e \<longleftrightarrow> take 2 (sqlstate e) = ''23''"

definition event_error :: "kernel_error \<Rightarrow> mutation_error" where
  "event_error e = (if e = Link_refused then Event_link_refused else Database_error e)"

definition append_outbox_event ::
  "'f platform \<Rightarrow> 'f python \<Rightarrow> auth_context \<Rightarrow> bool \<Rightarrow> event_spec \<Rightarrow> uuid option \<Rightarrow> uuid \<Rightarrow> 'f kernel
     \<Rightarrow> mutation_error + uuid \<times> 'f kernel" where
  "append_outbox_event P Y cx is_open ev link eid k =
     (if \<not> is_open then Inl No_open_transaction
      else case require_valid_name dotted_name ''outbox event type'' (es_type ev) of Inl e \<Rightarrow> Inl e
      | Inr type \<Rightarrow> (case require_valid_name name_ok ''outbox aggregate type'' (es_aggregate_type ev) of
          Inl e \<Rightarrow> Inl e
      | Inr atype \<Rightarrow> (case tenant_context cx of Inl e \<Rightarrow> Inl e
      | Inr tenant \<Rightarrow> (case checked_metadata Y ''the outbox event's attributes'' (es_attributes ev) of
          Inl e \<Rightarrow> Inl e
      | Inr attributes \<Rightarrow> (case insert_outbox P False cx
            \<lparr>ob_id = eid, ob_tenant = tenant, ob_claim = link, ob_type = type, ob_aggregate_type = atype,
             ob_aggregate = es_aggregate ev, ob_attributes = document_jsonb attributes, ob_tag = None\<rparr> k of
          Inl e \<Rightarrow> Inl (event_error e)
        | Inr k' \<Rightarrow> Inr (eid, k'))))))"

text \<open>\<open>outbox_events\<close>: what the caller may read, in the order of insertion.\<close>

definition outbox_events :: "auth_context \<Rightarrow> nat \<Rightarrow> 'f kernel \<Rightarrow> outbox_row list" where
  "outbox_events cx limit k = take limit (filter (outbox_readable cx (defs k)) (outbox k))"

section \<open>The primitive\<close>

definition load_record :: "auth_context \<Rightarrow> utext \<Rightarrow> utext \<Rightarrow> 'f kernel \<Rightarrow> 'f claim_row option" where
  "load_record cx operation key k =
     find (\<lambda>r. claim_readable cx (defs k) r \<and> cl_operation r = operation \<and> cl_key r = key) (claims k)"

text \<open>\<open>_event_id_for\<close>: \<open>.one()\<close> raises unless exactly one row is there.\<close>

definition event_id_for :: "auth_context \<Rightarrow> uuid \<Rightarrow> 'f kernel \<Rightarrow> mutation_error + uuid" where
  "event_id_for cx rid k =
     (case filter (\<lambda>e. outbox_readable cx (defs k) e \<and> ob_claim e = Some rid) (outbox k) of
        [e] \<Rightarrow> Inr (ob_id e) | _ \<Rightarrow> Inl Not_one_event)"

definition replay_record ::
  "auth_context \<Rightarrow> 'f \<Rightarrow> 'f claim_row \<Rightarrow> 'f kernel \<Rightarrow> mutation_error + idempotent_result" where
  "replay_record cx fp r k =
     (if cl_fingerprint r \<noteq> fp then Inl Key_conflict
      else case event_id_for cx (cl_id r) k of Inl e \<Rightarrow> Inl e
      | Inr eid \<Rightarrow> Inr \<lparr>ir_record = cl_id r, ir_event = eid, ir_result = cl_result r, ir_replayed = True\<rparr>)"

text \<open>Everything a caller supplies is checked before the mutation runs.\<close>

record mutation_request =
  mr_operation :: utext
  mr_key :: utext
  mr_identity :: document
  mr_tenant :: uuid

definition check_mutation ::
  "'f python \<Rightarrow> auth_context \<Rightarrow> session_state \<Rightarrow> py_value \<Rightarrow> py_value \<Rightarrow> py_value
     \<Rightarrow> mutation_error + mutation_request" where
  "check_mutation Y cx ss operation key identity =
     (if \<not> ss_open ss then Inl No_open_transaction
      else case require_valid_name dotted_name ''operation'' operation of Inl e \<Rightarrow> Inl e
      | Inr op \<Rightarrow> (case require_valid_key key of Inl e \<Rightarrow> Inl e
      | Inr ky \<Rightarrow> if \<not> ss_clean ss then Inl Unflushed_state
      else (case checked_metadata Y ''the request identity'' identity of Inl e \<Rightarrow> Inl e
      | Inr idn \<Rightarrow> if \<not> ss_read_committed ss then Inl Wrong_isolation
      else (case tenant_context cx of Inl e \<Rightarrow> Inl e
      | Inr t \<Rightarrow> Inr \<lparr>mr_operation = op, mr_key = ky, mr_identity = idn, mr_tenant = t\<rparr>))))"

definition mutation_claim :: "'f python \<Rightarrow> mutation_request \<Rightarrow> uuid \<Rightarrow> document \<Rightarrow> 'f claim_row" where
  "mutation_claim Y rq rid result =
     \<lparr>cl_id = rid, cl_tenant = mr_tenant rq, cl_operation = mr_operation rq, cl_key = mr_key rq,
      cl_fingerprint = request_fingerprint Y (mr_tenant rq) (mr_operation rq) (mr_identity rq),
      cl_result = document_jsonb result, cl_tag = None\<rparr>"

text \<open>The body of the savepoint: the mutation, the claim and the linked event.\<close>

definition attempt ::
  "'f platform \<Rightarrow> 'f python \<Rightarrow> auth_context \<Rightarrow> mutation_request \<Rightarrow> ('b \<Rightarrow> 'b mutation_run)
     \<Rightarrow> uuid \<times> uuid \<Rightarrow> 'f kernel \<times> 'b \<Rightarrow> mutation_error + idempotent_result \<times> 'f kernel \<times> 'b" where
  "attempt P Y cx rq mutate ids w =
     (case mutate (snd w) of
        Returned_other \<Rightarrow> Inl Not_an_outcome
      | Raised x \<Rightarrow> Inl (Mutation_raised x)
      | Raised_integrity c \<Rightarrow> Inl (Mutation_integrity c)
      | Broke_boundary \<Rightarrow> Inl Left_boundary
      | Returned out pending b' \<Rightarrow>
          (case checked_metadata Y ''the mutation result'' (mo_result out) of Inl e \<Rightarrow> Inl e
           | Inr result \<Rightarrow> (case pending of Some c \<Rightarrow> Inl (Mutation_integrity c)
           | None \<Rightarrow> (case insert_claim P False cx (mutation_claim Y rq (fst ids) result) (fst w) of
               Inl e \<Rightarrow> Inl (Database_error e)
             | Inr k1 \<Rightarrow> (case append_outbox_event P Y cx True (mo_event out) (Some (fst ids)) (snd ids) k1 of
                 Inl e \<Rightarrow> Inl e
               | Inr (eid, k2) \<Rightarrow> Inr (\<lparr>ir_record = fst ids, ir_event = eid,
                   ir_result = document_jsonb result, ir_replayed = False\<rparr>, k2, b'))))))"

definition is_integrity :: "mutation_error \<Rightarrow> bool" where
  "is_integrity e \<longleftrightarrow> (case e of Mutation_integrity c \<Rightarrow> True | Database_error d \<Rightarrow> integrity_error d | _ \<Rightarrow> False)"

text \<open>
  \<open>except IntegrityError\<close>: the savepoint is gone, and the question is whether the key is taken now.
\<close>

definition after_integrity_error ::
  "auth_context \<Rightarrow> mutation_request \<Rightarrow> 'f \<Rightarrow> mutation_error \<Rightarrow> 'f kernel \<Rightarrow> mutation_error + idempotent_result" where
  "after_integrity_error cx rq fp e k =
     (case load_record cx (mr_operation rq) (mr_key rq) k of
        Some winner \<Rightarrow> replay_record cx fp winner k
      | None \<Rightarrow> Inl (if e = Database_error (Unique_violation claim_constraint) \<or>
            e = Mutation_integrity claim_constraint then Claim_vanished else e))"

text \<open>
  The result, and the database and business rows the session is left with: an error rolls back to
  the savepoint, so a caller may carry on and commit. \<open>k1\<close> is what the first lookup sees.
\<close>

definition execute_idempotent_mutation ::
  "'f platform \<Rightarrow> 'f python \<Rightarrow> auth_context \<Rightarrow> session_state \<Rightarrow> py_value \<Rightarrow> py_value \<Rightarrow> py_value
     \<Rightarrow> ('b \<Rightarrow> 'b mutation_run) \<Rightarrow> uuid \<times> uuid \<Rightarrow> 'f kernel \<Rightarrow> 'f kernel \<times> 'b
     \<Rightarrow> (mutation_error + idempotent_result) \<times> 'f kernel \<times> 'b" where
  "execute_idempotent_mutation P Y cx ss operation key identity mutate ids k1 w =
     (case check_mutation Y cx ss operation key identity of Inl e \<Rightarrow> (Inl e, w)
      | Inr rq \<Rightarrow>
         (let fp = request_fingerprint Y (mr_tenant rq) (mr_operation rq) (mr_identity rq)
          in case load_record cx (mr_operation rq) (mr_key rq) k1 of
               Some r \<Rightarrow> (replay_record cx fp r k1, w)
             | None \<Rightarrow> (case attempt P Y cx rq mutate ids w of
                 Inr (res, w') \<Rightarrow> (Inr res, w')
               | Inl e \<Rightarrow> (if is_integrity e then after_integrity_error cx rq fp e (fst w) else Inl e, w))))"

section \<open>One event per claim\<close>

definition events_of :: "uuid \<Rightarrow> 'f kernel \<Rightarrow> outbox_row list" where
  "events_of c k = filter (\<lambda>e. ob_claim e = Some c) (outbox k)"

definition kernel_linked :: "'f kernel \<Rightarrow> bool" where
  "kernel_linked k \<longleftrightarrow> kernel_ok k \<and> links_ok k \<and> (\<forall>c. length (events_of c k) \<le> 1)"

lemma unclaimed_no_events:
  assumes "links_ok k" "c \<notin> cl_id ` set (claims k)"
  shows "events_of c k = []"
  using assms by (fastforce simp: links_ok_def list_all_iff event_linked_def events_of_def filter_empty_conv)

lemma insert_outbox_single:
  assumes ok: "kernel_ok k" "links_ok k" and ev: "insert_outbox P writer cx e k = Inr k'" and c: "ob_claim e = Some c"
  shows "events_of c k = []"
proof -
  have u: "\<not> (\<exists>x \<in> set (outbox k). ob_claim x = Some c \<and> ob_tenant x = ob_tenant e)"
    and f: "\<exists>x \<in> set (claims k). cl_id x = c \<and> cl_tenant x = ob_tenant e"
    using ev c unfolding insert_outbox_def checked_Inr list.pred_inject fst_conv by simp_all
  have d: "distinct (map cl_id (claims k))" using ok (1) unfolding kernel_ok_def by blast
  have "False" if x: "x \<in> set (outbox k)" "ob_claim x = Some c" for x
  proof -
    have "event_linked k x" using ok (2) x (1) by (simp add: links_ok_def list_all_iff)
    then obtain r where "r \<in> set (claims k)" "cl_id r = c" "cl_tenant r = ob_tenant x"
      using x (2) by (auto simp: event_linked_def)
    with f d have "ob_tenant x = ob_tenant e" by (metis distinct_map_eq)
    with u x show False by blast
  qed
  then show ?thesis by (auto simp: events_of_def filter_empty_conv)
qed

lemma events_snoc:
  assumes "outbox k' = outbox k @ [e]" "\<And>c. ob_claim e = Some c \<Longrightarrow> events_of c k = []"
    and "\<forall>c. length (events_of c k) \<le> 1"
  shows "\<forall>c. length (events_of c k') \<le> 1"
  using assms by (auto simp: events_of_def)

lemma events_same: "outbox k' = outbox k \<Longrightarrow> events_of c k' = events_of c k"
  by (simp add: events_of_def)

lemma step_keeps_single:
  assumes step: "kernel_step P k k'" and ok: "kernel_linked k"
  shows "\<forall>c. length (events_of c k') \<le> 1"
proof -
  have k: "kernel_ok k" "links_ok k" "\<forall>c. length (events_of c k) \<le> 1" using ok by (simp_all add: kernel_linked_def)
  from step show ?thesis
  proof cases
    case (define_step d)
    then show ?thesis using k (3) by (simp add: events_of_def)
  next
    case (create_step cx key version ids now reply)
    obtain m s where k': "k' = created cx m s ids now k" using create_Inr [OF create_step] by blast
    obtain e where e: "outbox k' = outbox k @ [e]" "ob_claim e = None" using created_outbox k' by blast
    show ?thesis by (rule events_snoc [OF e (1) _ k (3)]) (simp add: e (2))
  next
    case (move_step cx rc q ids now k1 reply)
    from transition_cases [OF move_step] show ?thesis
    proof
      assume "\<exists>rq m n k2. check_request P cx rc q = Inr rq \<and>
        amend_instances cx now (matches (the (ax_tenant cx)) m rq) (advance rq) k = Inr (n, k2) \<and>
        n \<noteq> 0 \<and> record_move P cx ids now rq m k2 = Inr k' \<and> reply = moved_reply cx ids rq m"
      then obtain rq m n k2 where
        a: "amend_instances cx now (matches (the (ax_tenant cx)) m rq) (advance rq) k = Inr (n, k2)"
        and r: "record_move P cx ids now rq m k2 = Inr k'" by blast
      have same: "claims k2 = claims k" "outbox k2 = outbox k"
        using amend_instances_Inr (1) [OF a] by (metis kernel.select_convs kernel.update_convs (2) kernel.surjective)+
      have out: "outbox k' = outbox k @ [new_event cx ids rq m]"
        by (simp add: record_move_Inr (1) [OF r] written_def same)
      have "events_of c k = []" if "ob_claim (new_event cx ids rq m) = Some c" for c
      proof -
        have "rq_key rq \<noteq> None" "c = n_claim ids"
          using that by (simp_all add: new_event_def split: if_splits)
        then obtain key where key: "rq_key rq = Some key" "c = n_claim ids" by blast
        then show ?thesis using record_move_Inr (4) [OF r key (1)] unclaimed_no_events [OF k (2)] same by simp
      qed
      then show ?thesis by (rule events_snoc [OF out _ k (3)])
    qed (use k in simp)
  next
    case (claim_step cx r)
    then show ?thesis using k (3) insert_claim_Inr (1) [OF claim_step] by (simp add: events_of_def)
  next
    case (event_step cx e)
    have "outbox k' = outbox k @ [e]" by (simp add: insert_outbox_Inr (1) [OF event_step])
    then show ?thesis using insert_outbox_single [OF k (1,2) event_step] k (3) by (rule events_snoc)
  next
    case (audit_step cx aid action outcome rtype rid corr details)
    obtain a where "k' = k\<lparr>audits := audits k @ [a]\<rparr>" using sql_append_Inr [OF audit_step] by blast
    then show ?thesis using k (3) by (simp add: events_of_def)
  qed
qed

interpretation linked_machine: transition_system "\<lambda>k. k = empty_kernel" "kernel_step P" kernel_linked
proof unfold_locales
  show "kernel_linked k" if "k = empty_kernel" for k
    using that kernel_machine.inv_init [OF refl] event_links.inv_init [OF refl]
    by (simp add: kernel_linked_def events_of_def empty_kernel_def)
  show "kernel_linked k'" if "kernel_step P k k'" "kernel_linked k" for k k'
    using that step_keeps_ok [OF that (1)] step_keeps_links [OF that (1)] step_keeps_single [OF that]
    by (simp add: kernel_linked_def)
qed

section \<open>One successful attempt\<close>

lemma tenant_context_Inr:
  "tenant_context cx = Inr t \<longleftrightarrow> ax_tenant cx = Some t \<and> auth_has_scope cx (Some mutation_scope)"
  by (auto simp: tenant_context_def split: option.splits)

lemma checked_metadata_Inr: "checked_metadata Y w v = Inr d \<longleftrightarrow> validated_metadata (py_float Y) v = Inr d"
  by (auto simp: checked_metadata_def split: sum.splits)

lemma check_mutation_Inr:
  assumes "check_mutation Y cx ss operation key identity = Inr rq"
  shows "ax_tenant cx = Some (mr_tenant rq)" "auth_has_scope cx (Some mutation_scope)"
    "require_valid_name dotted_name ''operation'' operation = Inr (mr_operation rq)"
    "require_valid_key key = Inr (mr_key rq)" "validated_metadata (py_float Y) identity = Inr (mr_identity rq)"
    "ss_open ss" "ss_clean ss" "ss_read_committed ss"
  using assms
  by (auto simp: check_mutation_def bind_Inr tenant_context_Inr checked_metadata_Inr split: if_splits)

lemma append_event_Inr:
  assumes "append_outbox_event P Y cx is_open ev link eid k = Inr (e', k')"
  obtains e where "insert_outbox P False cx e k = Inr k'" "e' = eid" "ob_id e = eid" "ob_claim e = link"
    "Some (ob_tenant e) = ax_tenant cx" "ob_tag e = None" "ob_aggregate e = es_aggregate ev"
  using assms
  by (auto simp: append_outbox_event_def bind_Inr tenant_context_Inr split: if_splits sum.splits)

lemma attempt_Inr:
  assumes "attempt P Y cx rq mutate ids (k, b) = Inr (res, k', b')"
  obtains out result k1 e where "mutate b = Returned out None b'"
    "validated_metadata (py_float Y) (mo_result out) = Inr result"
    "insert_claim P False cx (mutation_claim Y rq (fst ids) result) k = Inr k1"
    "insert_outbox P False cx e k1 = Inr k'" "ob_id e = snd ids" "ob_claim e = Some (fst ids)"
    "Some (ob_tenant e) = ax_tenant cx" "ob_tag e = None" "ob_aggregate e = es_aggregate (mo_event out)"
    "res = \<lparr>ir_record = fst ids, ir_event = snd ids, ir_result = document_jsonb result, ir_replayed = False\<rparr>"
proof -
  obtain out where m: "mutate b = Returned out None b'"
    using assms by (auto simp: attempt_def bind_Inr split: mutation_run.splits option.splits sum.splits)
  obtain result k1 where r: "validated_metadata (py_float Y) (mo_result out) = Inr result"
    and c: "insert_claim P False cx (mutation_claim Y rq (fst ids) result) k = Inr k1"
    and a: "append_outbox_event P Y cx True (mo_event out) (Some (fst ids)) (snd ids) k1 = Inr (ir_event res, k')"
    and res: "res = \<lparr>ir_record = fst ids, ir_event = ir_event res, ir_result = document_jsonb result, ir_replayed = False\<rparr>"
    using assms m by (auto simp: attempt_def bind_Inr checked_metadata_Inr split: sum.splits prod.splits)
  show thesis using append_event_Inr [OF a] that m r c res by metis
qed

lemma load_record_Some:
  "load_record cx op key k = Some r \<Longrightarrow> r \<in> set (claims k) \<and> claim_readable cx (defs k) r \<and>
     cl_operation r = op \<and> cl_key r = key"
  unfolding load_record_def by (drule find_in) simp

lemma replay_record_replayed: "replay_record cx fp r k = Inr res \<Longrightarrow> ir_replayed res \<and> ir_record res = cl_id r"
  by (auto simp: replay_record_def split: if_splits sum.splits)

lemma after_integrity_replayed: "after_integrity_error cx rq fp e k = Inr res \<Longrightarrow> ir_replayed res"
  by (auto simp: after_integrity_error_def dest: replay_record_replayed split: option.splits)

lemma execute_cases:
  "(\<exists>r. execute_idempotent_mutation P Y cx ss operation key identity mutate ids k1 w = (r, w) \<and>
      (\<forall>res. r = Inr res \<longrightarrow> ir_replayed res)) \<or>
   (\<exists>rq res w'. check_mutation Y cx ss operation key identity = Inr rq \<and>
      attempt P Y cx rq mutate ids w = Inr (res, w') \<and> \<not> ir_replayed res \<and>
      execute_idempotent_mutation P Y cx ss operation key identity mutate ids k1 w = (Inr res, w'))"
proof -
  have "\<not> ir_replayed res" if "attempt P Y cx rq mutate ids w = Inr (res, w')" for rq res w'
    using that by (cases w, cases w') (auto elim: attempt_Inr)
  then show ?thesis
    by (auto simp: execute_idempotent_mutation_def Let_def dest: replay_record_replayed after_integrity_replayed
        split: sum.splits option.splits prod.splits)
qed


section \<open>Properties\<close>


text \<open>An executed call is two transactions of the kernel, and leaves a claim that answers its key.\<close>

lemma attempt_run:
  assumes "attempt P Y cx rq mutate ids (k, b) = Inr (res, k', b')"
  shows "(kernel_step P)\<^sup>*\<^sup>* k k'"
  by (rule attempt_Inr [OF assms])
    (meson claim_step event_step converse_rtranclp_into_rtranclp rtranclp.rtrancl_refl)

lemma filter_single:
  assumes "length (filter q xs) \<le> 1" "x \<in> set xs" "q x" "p x" "\<And>y. p y \<Longrightarrow> q y"
  shows "filter p xs = [x]"
proof -
  have "x \<in> set (filter q xs)" using assms (2,3) by simp
  then have "filter q xs = [x]" using assms (1) by (cases "filter q xs") auto
  moreover have "filter p xs = filter p (filter q xs)" using assms (5) by (auto simp: filter_filter intro: filter_cong)
  ultimately show ?thesis using assms (4) by simp
qed

lemma claim_answers:
  assumes lk: "kernel_linked l" and c: "c \<in> set (claims l)" "cl_tag c = None" "Some (cl_tenant c) = ax_tenant cx"
    and mu: "auth_has_scope cx (Some mutation_scope)"
    and e: "e \<in> set (outbox l)" "ob_claim e = Some (cl_id c)"
  shows "load_record cx (cl_operation c) (cl_key c) l = Some c"
    "replay_record cx fp c l = (if cl_fingerprint c \<noteq> fp then Inl Key_conflict
       else Inr \<lparr>ir_record = cl_id c, ir_event = ob_id e, ir_result = cl_result c, ir_replayed = True\<rparr>)"
proof -
  have d: "distinct (map claim_key (claims l))" "distinct (map cl_id (claims l))"
    using lk unfolding kernel_linked_def kernel_ok_def by blast+
  show "load_record cx (cl_operation c) (cl_key c) l = Some c" unfolding load_record_def
  proof (rule find_the, rule c (1))
    show "claim_readable cx (defs l) c \<and> cl_operation c = cl_operation c \<and> cl_key c = cl_key c"
      using c mu by (simp add: claim_readable_def tag_readable_def)
    fix y assume "y \<in> set (claims l)"
      "claim_readable cx (defs l) y \<and> cl_operation y = cl_operation c \<and> cl_key y = cl_key c"
    moreover from this have "Some (cl_tenant y) = Some (cl_tenant c)" using c (3) by (simp add: claim_readable_def)
    moreover from calculation have "claim_key y = claim_key c" by (simp add: claim_key_def)
    ultimately show "y = c" using distinct_map_eq [OF d (1)] c (1) by blast
  qed
  have "event_linked l e" using lk e (1) by (simp add: kernel_linked_def links_ok_def list_all_iff)
  then obtain r where "r \<in> set (claims l)" "cl_id r = cl_id c" "cl_tenant r = ob_tenant e" "cl_tag r = ob_tag e"
    using e (2) by (auto simp: event_linked_def)
  moreover from this have "r = c" using distinct_map_eq [OF d (2)] c (1) by blast
  ultimately have "outbox_readable cx (defs l) e"
    using c mu by (simp add: outbox_readable_def tag_readable_def)
  then have "filter (\<lambda>x. outbox_readable cx (defs l) x \<and> ob_claim x = Some (cl_id c)) (outbox l) = [e]"
    using lk e by (intro filter_single [where q = "\<lambda>x. ob_claim x = Some (cl_id c)"])
      (simp_all add: kernel_linked_def events_of_def)
  then show "replay_record cx fp c l = (if cl_fingerprint c \<noteq> fp then Inl Key_conflict
       else Inr \<lparr>ir_record = cl_id c, ir_event = ob_id e, ir_result = cl_result c, ir_replayed = True\<rparr>)"
    by (simp add: replay_record_def event_id_for_def)
qed

text \<open>
  C27: Once a call has executed its mutation and committed, every later call of the tenant under the
  same operation and key, at any later time and whatever its own mutation would do, changes nothing:
  with the same request identity it gets the first result marked as a replay, with a different
  digest it is refused as a reuse of the key.
\<close>

theorem mutation_retry_replays:
  assumes "(kernel_step P)\<^sup>*\<^sup>* empty_kernel k"
    and "execute_idempotent_mutation P Y cx ss operation key identity mutate ids k1 (k, b) = (Inr res, k', b')"
    and "\<not> ir_replayed res" and "(kernel_step P)\<^sup>*\<^sup>* k' l"
    and "check_mutation Y cx ss operation key identity = Inr rq"
    and "check_mutation Y cx' ss' operation key identity' = Inr rq'" and "ax_tenant cx' = ax_tenant cx"
  shows "execute_idempotent_mutation P Y cx' ss' operation key identity' mutate' ids' l w =
    (if request_fingerprint Y (mr_tenant rq) (mr_operation rq) (mr_identity rq') =
        request_fingerprint Y (mr_tenant rq) (mr_operation rq) (mr_identity rq)
     then Inr (res\<lparr>ir_replayed := True\<rparr>) else Inl Key_conflict, w)"
proof -
  have a: "attempt P Y cx rq mutate ids (k, b) = Inr (res, k', b')"
    using execute_cases [of P Y cx ss operation key identity mutate ids k1 "(k, b)"] assms (2,3,5) by auto
  have lk: "kernel_linked l"
    using linked_machine.inv_reachable [OF refl assms (1)] attempt_run [OF a] assms (4) linked_machine.inv_run
    by (meson rtranclp_trans)
  have okk: "kernel_ok k'"
    using kernel_machine.inv_reachable [OF refl assms (1)] attempt_run [OF a] kernel_machine.inv_run by blast
  obtain out result k2 e where p: "insert_claim P False cx (mutation_claim Y rq (fst ids) result) k = Inr k2"
    "insert_outbox P False cx e k2 = Inr k'" "ob_id e = snd ids" "ob_claim e = Some (fst ids)"
    "res = \<lparr>ir_record = fst ids, ir_event = snd ids, ir_result = document_jsonb result, ir_replayed = False\<rparr>"
    by (rule attempt_Inr [OF a])
  let ?c = "mutation_claim Y rq (fst ids) result"
  have "?c \<in> set (claims k')" "e \<in> set (outbox k')"
    using insert_claim_Inr (1) [OF p (1)] insert_outbox_Inr (1) [OF p (2)] by simp_all
  then have in_l: "?c \<in> set (claims l)" "e \<in> set (outbox l)"
    using run_extends [OF assms (4) okk] unfolding extends_def by (metis Un_iff set_append)+
  note q = check_mutation_Inr [OF assms (5)] and q' = check_mutation_Inr [OF assms (6)]
  have same: "mr_operation rq' = mr_operation rq" "mr_key rq' = mr_key rq" "mr_tenant rq' = mr_tenant rq"
    using q (1,3,4) q' (1,3,4) assms (7) by simp_all
  have f: "cl_operation ?c = mr_operation rq" "cl_key ?c = mr_key rq" "cl_tag ?c = None" "cl_id ?c = fst ids"
    "cl_tenant ?c = mr_tenant rq" "cl_result ?c = document_jsonb result"
    "cl_fingerprint ?c = request_fingerprint Y (mr_tenant rq) (mr_operation rq) (mr_identity rq)"
    by (simp_all add: mutation_claim_def)
  have t: "Some (cl_tenant ?c) = ax_tenant cx'" "ob_claim e = Some (cl_id ?c)"
    using q (1) assms (7) p (4) by (simp_all add: mutation_claim_def)
  note ans = claim_answers [OF lk in_l (1) f (3) t (1) q' (2) in_l (2) t (2)]
  show ?thesis
    using ans (1) ans (2) [of "request_fingerprint Y (mr_tenant rq') (mr_operation rq') (mr_identity rq')"]
    by (auto simp: execute_idempotent_mutation_def assms (6) Let_def same f p (3,5))
qed

text \<open>
  At most once, under races: a call whose key is already claimed in the database its writes
  reach never executes, even if its own first lookup saw an older database without the claim. It
  replays the claim or fails, and its business rows are as they were.
\<close>

theorem mutation_runs_at_most_once:
  assumes "check_mutation Y cx ss operation key identity = Inr rq" and "c \<in> set (claims k)"
    and "claim_key c = (mr_tenant rq, mr_operation rq, mr_key rq)"
    and "execute_idempotent_mutation P Y cx ss operation key identity mutate ids k1 (k, b) = (r, k', b')"
  shows "(k', b') = (k, b) \<and> (case r of Inl e \<Rightarrow> True | Inr res \<Rightarrow> ir_replayed res)"
proof -
  have "False" if a: "attempt P Y cx rq mutate ids (k, b) = Inr (res, w')" for res w'
  proof -
    obtain kb where w': "w' = (fst kb, snd kb)" by (metis prod.collapse)
    obtain result k2 where "insert_claim P False cx (mutation_claim Y rq (fst ids) result) k = Inr k2"
      using attempt_Inr a [unfolded w'] by metis
    from insert_claim_Inr (5) [OF this] show False
      using assms (2,3) by (auto simp: mutation_claim_def claim_key_def)
  qed
  then show ?thesis
    using execute_cases [of P Y cx ss operation key identity mutate ids k1 "(k, b)"] assms (1,4)
    by (auto split: sum.splits)
qed

section \<open>The theorems at a concrete call\<close>

definition demo_python :: "jsonb python" where
  "demo_python = \<lparr>py_digest = J_string, py_float = (\<lambda>x. cps ''0.5'')\<rparr>"

definition demo_session :: session_state where
  "demo_session = \<lparr>ss_open = True, ss_clean = True, ss_read_committed = True\<rparr>"

definition demo_mutation :: "nat \<Rightarrow> nat mutation_run" where
  "demo_mutation n = Returned
     \<lparr>mo_result = V_map [(V_text (cps ''workspace_id''), V_uuid (cps ''w1''))],
      mo_event = \<lparr>es_type = V_text (cps ''workspace.created''), es_aggregate_type = V_text (cps ''workspace''),
        es_aggregate = cps ''w1'', es_attributes = V_map []\<rparr>\<rparr> None (n + 1)"

definition demo_identity :: py_value where
  "demo_identity = V_map [(V_text (cps ''name''), V_text (cps ''research''))]"

definition demo_call ::
  "uuid \<times> uuid \<Rightarrow> jsonb kernel \<times> nat \<Rightarrow> (mutation_error + idempotent_result) \<times> jsonb kernel \<times> nat" where
  "demo_call ids = execute_idempotent_mutation demo_platform demo_python demo_context demo_session
     (V_text (cps ''workspace.create'')) (V_text (cps ''request-1'')) demo_identity demo_mutation ids demo_created"

definition demo_done :: "(mutation_error + idempotent_result) \<times> jsonb kernel \<times> nat" where
  "demo_done = demo_call (cps ''c1'', cps ''v1'') (demo_created, 0)"

definition demo_mutation_request :: mutation_request where
  "demo_mutation_request = projr (check_mutation demo_python demo_context demo_session
     (V_text (cps ''workspace.create'')) (V_text (cps ''request-1'')) demo_identity)"

lemma demo_mutation_checked:
  "check_mutation demo_python demo_context demo_session (V_text (cps ''workspace.create''))
     (V_text (cps ''request-1'')) demo_identity = Inr demo_mutation_request"
proof -
  have "isl (check_mutation demo_python demo_context demo_session (V_text (cps ''workspace.create''))
     (V_text (cps ''request-1'')) demo_identity) = False" by code_simp
  then show ?thesis by (simp add: demo_mutation_request_def)
qed

lemma demo_done_run:
  obtains res k' b' where "demo_call (cps ''c1'', cps ''v1'') (demo_created, 0) = (Inr res, k', b')"
    "\<not> ir_replayed res"
proof -
  have "case fst demo_done of Inl e \<Rightarrow> False | Inr res \<Rightarrow> \<not> ir_replayed res" by code_simp
  then show thesis using that unfolding demo_done_def
    by (cases "demo_call (cps ''c1'', cps ''v1'') (demo_created, 0)") (auto split: sum.splits)
qed

lemma mutation_retry_replays_witness:
  "\<exists>res k' b'. demo_call (cps ''c1'', cps ''v1'') (demo_created, 0) = (Inr res, k', b') \<and> \<not> ir_replayed res \<and>
     execute_idempotent_mutation demo_platform demo_python demo_context demo_session
       (V_text (cps ''workspace.create'')) (V_text (cps ''request-1'')) demo_identity demo_mutation
       (cps ''c2'', cps ''v2'') k' (k', b') = (Inr (res\<lparr>ir_replayed := True\<rparr>), k', b')"
proof -
  obtain res k' b' where r: "demo_call (cps ''c1'', cps ''v1'') (demo_created, 0) = (Inr res, k', b')"
    "\<not> ir_replayed res" by (rule demo_done_run)
  from mutation_retry_replays [OF demo_created_reachable r (1) [unfolded demo_call_def] r (2) rtranclp.rtrancl_refl
      demo_mutation_checked demo_mutation_checked refl]
  show ?thesis using r by auto
qed

lemma mutation_runs_at_most_once_witness:
  "\<exists>k' b'. snd demo_done = (k', b') \<and> snd (demo_call (cps ''c2'', cps ''v2'') (k', b')) = (k', b')"
proof -
  obtain res k' b' where r: "demo_call (cps ''c1'', cps ''v1'') (demo_created, 0) = (Inr res, k', b')"
    "\<not> ir_replayed res" by (rule demo_done_run)
  obtain rq out result e where rq: "check_mutation demo_python demo_context demo_session
     (V_text (cps ''workspace.create'')) (V_text (cps ''request-1'')) demo_identity = Inr rq"
    and k': "k' = demo_created\<lparr>claims := claims demo_created @ [mutation_claim demo_python rq (cps ''c1'') result],
      outbox := outbox demo_created @ [e]\<rparr>"
    using execute_cases [of demo_platform demo_python demo_context demo_session "V_text (cps ''workspace.create'')"
        "V_text (cps ''request-1'')" demo_identity demo_mutation "(cps ''c1'', cps ''v1'')" demo_created "(demo_created, 0)"]
      r unfolding demo_call_def
    by (auto elim!: attempt_Inr dest!: insert_claim_Inr (1) insert_outbox_Inr (1))
  let ?c = "mutation_claim demo_python rq (cps ''c1'') result"
  obtain x where x: "demo_call (cps ''c2'', cps ''v2'') (k', b') = x" by blast
  have "snd x = (k', b')"
    using mutation_runs_at_most_once [OF rq, of ?c k' demo_platform demo_mutation "(cps ''c2'', cps ''v2'')" demo_created b'
        "fst x" "fst (snd x)" "snd (snd x)"] x
    unfolding demo_call_def by (auto simp: k' mutation_claim_def claim_key_def)
  then show ?thesis using r x by (auto simp: demo_done_def)
qed

end
