(* ===== verification/Request_Fingerprint.thy ===== *)
theory Request_Fingerprint
  imports Idempotent_Mutation
begin

text \<open>
  The canonical text that \<open>request_fingerprint\<close> digests is unambiguous: it can be read back, so two
  requests with one text are one request. Reading goes left to right: a quoted text ends at its
  first bare quote, a number or a literal at the next delimiter.
\<close>

section \<open>Reading one token\<close>

definition delimited :: "utext \<Rightarrow> bool" where
  "delimited s \<longleftrightarrow> (case s of [] \<Rightarrow> False | c # t \<Rightarrow> c \<in> {44, 93, 125})"

text \<open>An encoder is readable when a delimited occurrence determines the value and what follows.\<close>

definition readable :: "('a \<Rightarrow> utext) \<Rightarrow> bool" where
  "readable f \<longleftrightarrow> (\<forall>x y s t. delimited s \<and> delimited t \<and> f x @ s = f y @ t \<longrightarrow> x = y \<and> s = t)"

lemma readableD:
  "readable f \<Longrightarrow> f x @ s = f y @ t \<Longrightarrow> delimited s \<Longrightarrow> delimited t \<Longrightarrow> x = y \<and> s = t"
  unfolding readable_def by blast

text \<open>One escape, read back.\<close>

definition unhex :: "int \<Rightarrow> int" where
  "unhex c = (if c < 58 then c - 48 else c - 87)"

definition unescape :: "utext \<Rightarrow> int \<times> utext" where
  "unescape w = (if hd w \<noteq> 92 then (hd w, tl w)
     else if w ! 1 = 117 then (16 * unhex (w ! 4) + unhex (w ! 5), drop 6 w)
     else (if w ! 1 = 110 then 10 else if w ! 1 = 114 then 13 else if w ! 1 = 116 then 9
       else if w ! 1 = 102 then 12 else if w ! 1 = 98 then 8 else w ! 1, drop 2 w))"

lemma unhex_hex [simp]: "unhex (hex_digit n) = n"
  by (simp add: unhex_def hex_digit_def)

lemma unescape_low:
  assumes "c < 32" "c \<notin> {8, 9, 10, 12, 13}"
  shows "unescape (json_escape c @ s) = (c, s)"
proof -
  have "json_escape c = [92, 117, 48, 48, hex_digit (c div 16), hex_digit (c mod 16)]"
    using assms by (simp add: json_escape_def)
  then have "unescape (json_escape c @ s) = (16 * (c div 16) + c mod 16, s)"
    by (simp only: unescape_def append.simps list.sel nth_Cons_0 nth_Cons_numeral drop_Cons_numeral unhex_hex)
      (simp add: numeral_nat)
  then show ?thesis by simp
qed

lemma unescape_escape: "unescape (json_escape c @ s) = (c, s)"
proof -
  consider "c \<in> {34, 92, 10, 13, 9, 12, 8}" | "c < 32" "c \<notin> {8, 9, 10, 12, 13}" | "32 \<le> c" "c \<notin> {34, 92}" by force
  then show ?thesis
  proof cases
    case 1
    then show ?thesis by (elim insertE emptyE) (simp_all add: unescape_def json_escape_def)
  next
    case 3
    then have "json_escape c = [c]" by (simp add: json_escape_def)
    then show ?thesis using 3 by (simp add: unescape_def)
  qed (rule unescape_low)
qed

lemma escape_readable: "json_escape c @ s = json_escape d @ t \<Longrightarrow> c = d \<and> s = t"
  by (metis prod.inject unescape_escape)

lemma escape_not_quote: "json_escape c @ s \<noteq> 34 # t"
  by (simp add: json_escape_def)

lemma quoted_readable:
  "concat (map json_escape a) @ 34 # s = concat (map json_escape b) @ 34 # t \<Longrightarrow> a = b \<and> s = t"
proof (induction a arbitrary: b)
  case Nil
  then show ?case
  proof (cases b)
    case (Cons d b')
    then have "34 # s = json_escape d @ concat (map json_escape b') @ 34 # t" using Nil by simp
    then show ?thesis using escape_not_quote by metis
  qed simp
next
  case (Cons c a)
  show ?case
  proof (cases b)
    case Nil
    then have "json_escape c @ concat (map json_escape a) @ 34 # s = 34 # t" using Cons.prems by simp
    then show ?thesis using escape_not_quote by metis
  next
    case b: (Cons d b')
    have "json_escape c @ concat (map json_escape a) @ 34 # s = json_escape d @ concat (map json_escape b') @ 34 # t"
      using Cons.prems b by simp
    from escape_readable [OF this] Cons.IH [of b'] b show ?thesis by simp
  qed
qed

lemma quote_readable: "json_quote a @ s = json_quote b @ t \<Longrightarrow> a = b \<and> s = t"
  using quoted_readable [of a s b t] by (simp add: json_quote_def)

section \<open>Scalars\<close>

text \<open>
  What the model relies on about Python's rendering of a finite float: distinct floats print
  differently, with a point or an exponent, in digits, signs, points and the letter \<open>e\<close>.
\<close>

definition number_char :: "int \<Rightarrow> bool" where
  "number_char c \<longleftrightarrow> 48 \<le> c \<and> c \<le> 57 \<or> c \<in> {43, 45, 46, 101}"

definition float_text :: "(rat \<Rightarrow> utext) \<Rightarrow> bool" where
  "float_text ft \<longleftrightarrow> inj ft \<and> (\<forall>x. list_all number_char (ft x) \<and> (46 \<in> set (ft x) \<or> 101 \<in> set (ft x)))"

text \<open>A bare token has no delimiter, no quote and no bracket in it.\<close>

definition bare :: "utext \<Rightarrow> bool" where
  "bare u \<longleftrightarrow> u \<noteq> [] \<and> list_all (\<lambda>c. c \<notin> {34, 44, 91, 93, 125}) u"

lemma split_at: "list_all (\<lambda>c. \<not> q c) u \<Longrightarrow> list_all (\<lambda>c. \<not> q c) v \<Longrightarrow> q c \<Longrightarrow> q d \<Longrightarrow>
    u @ c # s = v @ d # t \<Longrightarrow> u = v \<and> c # s = d # t"
proof (induction u arbitrary: v)
  case (Cons a u)
  then show ?case by (cases v) auto
qed (auto simp: Cons_eq_append_conv)

lemma bare_readable:
  assumes "bare u" "bare v" "delimited s" "delimited t" "u @ s = v @ t"
  shows "u = v \<and> s = t"
proof -
  obtain c s' d t' where st: "s = c # s'" "t = d # t'" "c \<in> {44, 93, 125}" "d \<in> {44, 93, 125}"
    using assms (3,4) by (auto simp: delimited_def split: list.splits)
  have "list_all (\<lambda>c. \<not> c \<in> {44, 93, 125}) u" "list_all (\<lambda>c. \<not> c \<in> {44, 93, 125}) v"
    using assms (1,2) by (auto simp: bare_def list_all_iff)
  from split_at [OF this st (3,4)] assms (5) st show ?thesis by simp
qed

lemma digits_text: "list_all (\<lambda>c. c = 45 \<or> 48 \<le> c \<and> c \<le> 57) (cps (int_text n))"
proof -
  have "48 \<le> (of_char c :: int) \<and> (of_char c :: int) \<le> 57" if "c \<in> set (nat_text m)" for c m
  proof -
    have "is_digit c" by (rule nat_text_digits [OF that])
    then show ?thesis unfolding is_digit_def by (metis of_nat_of_char of_nat_le_iff of_nat_numeral)
  qed
  then show ?thesis by (auto simp: int_text_def cps_def list_all_iff)
qed

lemma int_text_nonempty: "int_text n \<noteq> []"
  by (simp add: int_text_def)

lemma scalar_bare:
  assumes "float_text ft" "\<nexists>t. v = M_text t"
  shows "bare (scalar_json ft v)"
proof (cases v)
  case (M_int n)
  have "list_all (\<lambda>c. c \<notin> {34, 44, 91, 93, 125}) (cps (int_text n))"
    using digits_text [of n] by (auto simp: list_all_iff)
  then show ?thesis using M_int int_text_nonempty by (simp add: bare_def cps_def)
next
  case (M_float x)
  have "46 \<in> set (ft x) \<or> 101 \<in> set (ft x)" using assms (1) by (simp add: float_text_def)
  then have "ft x \<noteq> []" by auto
  moreover have "list_all number_char (ft x)" using assms (1) by (simp add: float_text_def)
  ultimately show ?thesis using M_float by (auto simp: bare_def list_all_iff number_char_def)
next
  case (M_text t)
  then show ?thesis using assms (2) by simp
qed (simp_all add: bare_def cps_def)

lemma scalar_tokens_differ:
  assumes "float_text ft" "\<nexists>t. v = M_text t" "\<nexists>t. w = M_text t" "scalar_json ft v = scalar_json ft w"
  shows "v = w"
proof -
  have num: "list_all number_char (cps (int_text n))" "46 \<notin> set (cps (int_text n))" "101 \<notin> set (cps (int_text n))" for n
    using digits_text [of n] by (auto simp: list_all_iff number_char_def)
  have flt: "list_all number_char (ft x)" "46 \<in> set (ft x) \<or> 101 \<in> set (ft x)" for x
    using assms (1) by (simp_all add: float_text_def)
  have words: "\<not> list_all number_char (cps ''null'')" "\<not> list_all number_char (cps (if b then ''true'' else ''false''))" for b
    by (simp_all add: cps_def number_char_def)
  have ne: "cps (int_text i) \<noteq> ft x" for i x using num (2,3) [of i] flt (2) [of x] by metis
  have nw: "cps (int_text i) \<noteq> cps ''null''" "cps (int_text i) \<noteq> cps (if b then ''true'' else ''false'')"
    "ft x \<noteq> cps ''null''" "ft x \<noteq> cps (if b then ''true'' else ''false'')" for i x b
    using num (1) flt (1) words by metis+
  have ww: "cps (if b then ''true'' else ''false'') \<noteq> cps ''null''"
    "cps (if b then ''true'' else ''false'') = cps (if c then ''true'' else ''false'') \<longleftrightarrow> b = c" for b c
    by (simp_all add: cps_inj)
  have inj: "ft x = ft y \<longleftrightarrow> x = y" for x y using assms (1) by (auto simp: float_text_def dest: injD)
  have ii: "cps (int_text i) = cps (int_text j) \<longleftrightarrow> i = j" for i j by (simp add: cps_inj int_text_inj)
  show ?thesis
    using assms (2,3,4)
    by (cases v; cases w)
      (simp_all only: scalar_json.simps ii inj ww nw nw [symmetric] ne ne [symmetric] ww (1) [symmetric] simp_thms
        meta_scalar.inject)
qed

lemma scalar_readable:
  assumes ft: "float_text ft"
  shows "readable (scalar_json ft)"
proof -
  have "x = y \<and> s = t" if v: "delimited s" "delimited t" and eq: "scalar_json ft x @ s = scalar_json ft y @ t"
    for x y s t
  proof -
    show ?thesis
    proof (cases "(\<exists>u. x = M_text u) \<or> (\<exists>u. y = M_text u)")
      case False
      then have b: "\<nexists>u. x = M_text u" "\<nexists>u. y = M_text u" by blast+
      from bare_readable [OF scalar_bare [OF ft b (1)] scalar_bare [OF ft b (2)] v eq]
      show ?thesis using scalar_tokens_differ [OF ft b] by blast
    next
      case True
      have nq: "hd (scalar_json ft z @ r) \<noteq> 34" if "\<nexists>u. z = M_text u" for z r
        using scalar_bare [OF ft that] by (cases "scalar_json ft z") (auto simp: bare_def)
      have q: "hd (scalar_json ft (M_text u) @ r) = 34" for u r by (simp add: json_quote_def)
      have "hd (scalar_json ft x @ s) = hd (scalar_json ft y @ t)" by (rule arg_cong [OF eq])
      with True nq q have "(\<exists>u. x = M_text u) \<and> (\<exists>u. y = M_text u)" by metis
      then obtain u w where xy: "x = M_text u" "y = M_text w" by blast
      have "json_quote u @ s = json_quote w @ t" using eq xy by simp
      from quote_readable [OF this] xy show ?thesis by simp
    qed
  qed
  then show ?thesis unfolding readable_def by blast
qed

section \<open>Lists and documents\<close>

definition rest :: "('a \<Rightarrow> utext) \<Rightarrow> 'a list \<Rightarrow> utext" where
  "rest f xs = concat (map (\<lambda>x. 44 # f x) xs)"

lemma comma_join_Cons: "comma_join (x # xs) = x @ concat (map (\<lambda>y. 44 # y) xs)"
proof -
  have "concat (map (\<lambda>(i, y). if i = 0 then y else 44 # y) (zip [Suc n..<Suc n + length ys] ys)) =
      concat (map (\<lambda>y. 44 # y) ys)" for n ys
  proof (induction ys arbitrary: n)
    case (Cons y ys)
    have "[Suc n..<Suc n + length (y # ys)] = Suc n # [Suc (Suc n)..<Suc (Suc n) + length ys]"
      by (simp add: upt_conv_Cons del: upt_Suc)
    with Cons.IH [of "Suc n"] show ?case by (simp del: upt_Suc)
  qed simp
  from this [of 0 xs] have "concat (map (\<lambda>(i, y). if i = 0 then y else 44 # y) (zip [Suc 0..<Suc (length xs)] xs)) =
      concat (map (\<lambda>y. 44 # y) xs)" by (simp del: upt_Suc)
  moreover have "[0..<length (x # xs)] = 0 # [Suc 0..<Suc (length xs)]" by (simp add: upt_conv_Cons del: upt_Suc)
  ultimately show ?thesis unfolding comma_join_def by (simp del: upt_Suc)
qed

lemma comma_join_map: "comma_join (map f (x # xs)) = f x @ rest f xs"
  by (simp add: comma_join_Cons rest_def comp_def)

lemma rest_delimited: "c \<in> {93, 125} \<Longrightarrow> delimited (rest f xs @ c # s)"
  by (cases xs) (auto simp: rest_def delimited_def)

lemma rest_readable:
  assumes "readable f" "c \<in> {93, 125}"
  shows "rest f xs @ c # s = rest f ys @ c # t \<Longrightarrow> xs = ys \<and> s = t"
proof (induction xs arbitrary: ys)
  case Nil
  then show ?case using assms (2) by (cases ys) (auto simp: rest_def)
next
  case (Cons x xs)
  then obtain y ys' where ys: "ys = y # ys'" using assms (2) by (cases ys) (auto simp: rest_def)
  have "f x @ (rest f xs @ c # s) = f y @ (rest f ys' @ c # t)" using Cons.prems ys by (simp add: rest_def)
  from readableD [OF assms (1) this rest_delimited [OF assms (2)] rest_delimited [OF assms (2)]] Cons.IH ys
  show ?case by blast
qed

lemma joined_readable:
  assumes f: "readable f" "\<And>x. f x \<noteq> [] \<and> hd (f x) \<notin> {93, 125}" and c: "c \<in> {93, 125}"
    and eq: "comma_join (map f xs) @ c # s = comma_join (map f ys) @ c # t"
  shows "xs = ys \<and> s = t"
proof -
  have nil: "comma_join [] = []" by (simp add: comma_join_def)
  have first: "hd (comma_join (map f (z # zs)) @ w) \<noteq> c" for z zs w
    using f (2) [of z] c unfolding comma_join_map by (auto simp: hd_append)
  show ?thesis
  proof (cases xs; cases ys)
    fix x xs' y ys' assume xy: "xs = x # xs'" "ys = y # ys'"
    have "f x @ (rest f xs' @ c # s) = f y @ (rest f ys' @ c # t)"
      using eq unfolding xy comma_join_map by simp
    from readableD [OF f (1) this rest_delimited [OF c] rest_delimited [OF c]] rest_readable [OF f (1) c]
    show ?thesis unfolding xy by blast
  next
    fix x xs' assume "xs = x # xs'" "ys = []"
    then show ?thesis using eq first [of x xs' "c # s"] by (simp add: nil)
  next
    fix y ys' assume "xs = []" "ys = y # ys'"
    then have "c # s = comma_join (map f (y # ys')) @ c # t" using eq by (simp add: nil)
    then show ?thesis using first [of y ys' "c # t"] by (metis list.sel(1))
  qed (use eq nil in simp)
qed

lemma scalar_first:
  assumes "float_text ft"
  shows "scalar_json ft v \<noteq> [] \<and> hd (scalar_json ft v) \<notin> {91, 93, 125}"
proof (cases "\<exists>t. v = M_text t")
  case False
  from scalar_bare [OF assms this] show ?thesis
    by (cases "scalar_json ft v") (auto simp: bare_def)
qed (auto simp: json_quote_def)

lemma item_readable:
  assumes ft: "float_text ft"
  shows "readable (item_json ft)"
proof -
  have "x = y \<and> s = t" if v: "delimited s" "delimited t" and eq: "item_json ft x @ s = item_json ft y @ t"
    for x y s t
  proof -
    have h: "hd (item_json ft (Sequence vs) @ r) = 91" "hd (item_json ft (Scalar u) @ r) \<noteq> 91" for vs u r
      using scalar_first [OF ft, of u] by (simp_all add: hd_append)
    have e: "hd (item_json ft x @ s) = hd (item_json ft y @ t)" by (rule arg_cong [OF eq])
    show ?thesis
    proof (cases x; cases y)
      fix u w assume xy: "x = Scalar u" "y = Scalar w"
      show ?thesis using readableD [OF scalar_readable [OF ft] _ v] eq unfolding xy by simp
    next
      fix us ws assume xy: "x = Sequence us" "y = Sequence ws"
      have "comma_join (map (scalar_json ft) us) @ 93 # s = comma_join (map (scalar_json ft) ws) @ 93 # t"
        using eq unfolding xy by simp
      from joined_readable [OF scalar_readable [OF ft] _ _ this] scalar_first [OF ft] show ?thesis
        unfolding xy by simp
    qed (use e h in \<open>metis\<close>)+
  qed
  then show ?thesis unfolding readable_def by blast
qed

definition entry_json :: "(rat \<Rightarrow> utext) \<Rightarrow> utext \<times> meta_item \<Rightarrow> utext" where
  "entry_json ft e = json_quote (fst e) @ [58] @ item_json ft (snd e)"

lemma entry_readable:
  assumes "float_text ft"
  shows "readable (entry_json ft)"
proof -
  have "x = y \<and> s = t" if v: "delimited s" "delimited t" and eq: "entry_json ft x @ s = entry_json ft y @ t"
    for x y s t
  proof -
    have "json_quote (fst x) @ (58 # item_json ft (snd x) @ s) = json_quote (fst y) @ (58 # item_json ft (snd y) @ t)"
      using eq by (simp add: entry_json_def)
    from quote_readable [OF this] readableD [OF item_readable [OF assms] _ v]
    show ?thesis by (auto simp: prod_eq_iff)
  qed
  then show ?thesis unfolding readable_def by blast
qed

lemma canonical_entries: "canonical_json ft d = [123] @ comma_join (map (entry_json ft) (sort_key fst d)) @ [125]"
  by (simp add: canonical_json_def entry_json_def [abs_def] split_def)

lemma canonical_readable:
  assumes "float_text ft" "canonical_json ft d @ s = canonical_json ft d' @ t"
  shows "sort_key fst d = sort_key fst d' \<and> s = t"
proof -
  have "comma_join (map (entry_json ft) (sort_key fst d)) @ 125 # s =
      comma_join (map (entry_json ft) (sort_key fst d')) @ 125 # t"
    using assms (2) by (simp add: canonical_entries)
  from joined_readable [OF entry_readable [OF assms (1)] _ _ this] show ?thesis
    by (simp add: entry_json_def json_quote_def)
qed

section \<open>The digest's text is the request\<close>

text \<open>
  C28: The text a fingerprint digests determines what it is a fingerprint of: two texts are equal only
  if the tenants are, the operations are, and the request identities have the same entries, whatever
  quotes, commas, braces or escapes the values contain. A caller cannot shift text between the
  operation, an identity's keys or values and the tenant to make two requests collide.
\<close>

theorem fingerprint_text_determines_the_request:
  assumes "float_text ft"
  shows "fingerprint_material ft tenant operation identity = fingerprint_material ft tenant' operation' identity' \<longleftrightarrow>
    tenant = tenant' \<and> operation = operation' \<and> sort_key fst identity = sort_key fst identity'"
proof
  assume eq: "fingerprint_material ft tenant operation identity = fingerprint_material ft tenant' operation' identity'"
  let ?r = "\<lambda>i t. [44] @ json_quote (cps ''request_identity'') @ [58] @ canonical_json ft i @ [44] @
     json_quote (cps ''tenant'') @ [58] @ json_quote t @ [125]"
  let ?q = "\<lambda>t. [44] @ json_quote (cps ''tenant'') @ [58] @ json_quote t @ [125]"
  have "json_quote operation @ ?r identity tenant = json_quote operation' @ ?r identity' tenant'"
    using eq by (simp add: fingerprint_material_def)
  from quote_readable [OF this]
  have op: "operation = operation'" and r: "canonical_json ft identity @ ?q tenant = canonical_json ft identity' @ ?q tenant'"
    by simp_all
  from canonical_readable [OF assms r]
  have i: "sort_key fst identity = sort_key fst identity'" and t: "json_quote tenant @ [125] = json_quote tenant' @ [125]"
    by simp_all
  from op i quote_readable [OF t] show "tenant = tenant' \<and> operation = operation' \<and>
      sort_key fst identity = sort_key fst identity'" by simp
qed (simp add: fingerprint_material_def canonical_entries)

text \<open>A float printer of the documented kind, so that the theorem can be applied.\<close>

definition demo_float :: "rat \<Rightarrow> utext" where
  "demo_float x = (case quotient_of x of (n, d) \<Rightarrow> cps (int_text n) @ [46] @ cps (int_text d))"

lemma demo_float_text: "float_text demo_float"
proof -
  have digits: "list_all (\<lambda>c. c = 45 \<or> 48 \<le> c \<and> c \<le> 57) (cps (int_text n))" for n by (rule digits_text)
  have no_dot: "46 \<notin> set (cps (int_text n))" for n using digits [of n] by (auto simp: list_all_iff)
  have "inj demo_float"
  proof (rule injI)
    fix x y assume "demo_float x = demo_float y"
    then have "cps (int_text (fst (quotient_of x))) @ 46 # cps (int_text (snd (quotient_of x))) =
        cps (int_text (fst (quotient_of y))) @ 46 # cps (int_text (snd (quotient_of y)))"
      by (simp add: demo_float_def split_def)
    then have "quotient_of x = quotient_of y"
      unfolding split_at_dot [OF no_dot no_dot] cps_inj int_text_inj by (simp add: prod_eq_iff)
    then show "x = y" by (simp add: quotient_of_inject_eq)
  qed
  moreover have "list_all number_char (demo_float x) \<and> 46 \<in> set (demo_float x)" for x
  proof -
    obtain n d where "quotient_of x = (n, d)" by (cases "quotient_of x")
    then show ?thesis using digits [of n] digits [of d]
      by (auto simp: demo_float_def list_all_iff number_char_def)
  qed
  ultimately show ?thesis by (auto simp: float_text_def)
qed

lemma fingerprint_text_determines_the_request_witness:
  "fingerprint_material demo_float (cps ''t'') (cps ''a.b'') [(cps ''k'', Scalar (M_text (cps ''x'')))] \<noteq>
   fingerprint_material demo_float (cps ''t'') (cps ''a.b'') [(cps ''k'', Sequence [M_text (cps ''x'')])]"
  using fingerprint_text_determines_the_request [OF demo_float_text] by simp

end
