(* ===== verification/Identity_Tables.thy ===== *)
theory Identity_Tables
  imports Lifecycle_Kernel
begin

text \<open>
  The identity plane of migrations \<open>0005\<close> to \<open>0007\<close>: the rows of its tables with the constraints
  every writer crosses, the normaliser of addresses, the minting of secrets, and the trigger that
  revokes what a membership issued. Text of the caller is a list of code points, a time a number of
  seconds, an interval its length in seconds, and a missing argument SQL's \<open>NULL\<close>.
\<close>

section \<open>Rows\<close>

datatype account_status = Unverified | Active

record account_row =
  ac_id :: uuid
  ac_email :: utext
  ac_display :: utext
  ac_status :: account_status
  ac_verified :: "rat option"
  ac_epoch :: int
  ac_created :: rat
  ac_updated :: rat

record password_row =
  pw_account :: uuid
  pw_hash :: utext
  pw_updated :: rat

record 'f token_row =
  tk_id :: uuid
  tk_account :: uuid
  tk_kind :: identity_kind
  tk_fingerprint :: 'f
  tk_created :: rat
  tk_expires :: rat
  tk_consumed :: "rat option"
  tk_superseded :: "rat option"

record membership_row =
  mb_id :: uuid
  mb_tenant :: uuid
  mb_workspace :: uuid
  mb_account :: uuid
  mb_role :: string
  mb_inviter :: "uuid option"
  mb_created :: rat
  mb_updated :: rat
  mb_revoked :: "rat option"
  mb_revoker :: "uuid option"

record 'f browser_row =
  bs_id :: uuid
  bs_account :: uuid
  bs_fingerprint :: 'f
  bs_csrf :: 'f
  bs_created :: rat
  bs_expires :: rat
  bs_seen :: "rat option"
  bs_revoked :: "rat option"
  bs_workspace :: "uuid option"
  bs_tenant :: "uuid option"
  bs_membership :: "uuid option"
  bs_bound :: "rat option"

record 'f invitation_row =
  iv_id :: uuid
  iv_tenant :: uuid
  iv_workspace :: uuid
  iv_email :: utext
  iv_role :: string
  iv_fingerprint :: 'f
  iv_inviter :: "uuid option"
  iv_created :: rat
  iv_expires :: rat
  iv_accepted :: "rat option"
  iv_membership :: "uuid option"
  iv_revoked :: "rat option"

record 'f account_claim =
  aq_account :: uuid
  aq_operation :: utext
  aq_key :: utext
  aq_fingerprint :: 'f
  aq_result :: jsonb

record 'f binding_row =
  ab_id :: uuid
  ab_tenant :: uuid
  ab_principal :: uuid
  ab_fingerprint :: 'f
  ab_scopes :: "string list"
  ab_created :: rat
  ab_expires :: "rat option"
  ab_revoked :: "rat option"
  ab_membership :: "uuid option"
  ab_workspace :: "uuid option"
  ab_label :: "utext option"
  ab_used :: "rat option"
  ab_rotated :: "uuid option"
  ab_epoch :: "int option"

record tenant_row =
  tn_id :: uuid
  tn_slug :: utext
  tn_name :: utext

record workspace_row =
  ws_id :: uuid
  ws_tenant :: uuid
  ws_slug :: utext
  ws_name :: utext
  ws_updated :: rat

record preference_row =
  pf_id :: uuid
  pf_workspace :: uuid
  pf_tenant :: uuid
  pf_regions :: "string list"
  pf_excluded :: "string list"
  pf_note :: "utext option"
  pf_intent :: string
  pf_consent :: "string option"
  pf_consent_at :: "rat option"
  pf_consent_by :: "uuid option"
  pf_created :: rat
  pf_updated :: rat

text \<open>
  The database. \<open>framework\<close> holds the tables of the lifecycle kernel, among them the claims, the
  outbox and the audit trail the identity operations append to.
\<close>

record 'f identity_db =
  accounts :: "account_row list"
  passwords :: "password_row list"
  tokens :: "'f token_row list"
  memberships :: "membership_row list"
  browsers :: "'f browser_row list"
  invitations :: "'f invitation_row list"
  account_claims :: "'f account_claim list"
  bindings :: "'f binding_row list"
  tenants :: "tenant_row list"
  workspaces :: "workspace_row list"
  directory :: "workspace_row list"
  preferences :: "preference_row list"
  framework :: "'f kernel"

section \<open>Errors\<close>

datatype identity_error =
    Refused
  | Conflict string
  | Key_used
  | Session_context string
  | Wrong_workspace
  | Bound_already string
  | Not_permitted string
  | Bad_parameter string "string option"
  | Authentication_failed
  | Not_writable string
  | Stricter_isolation
  | Missing_value string
  | Internal_error string
  | Kernel_refused kernel_error

fun identity_sqlstate :: "identity_error \<Rightarrow> string" where
  "identity_sqlstate Refused = ''FB010''"
| "identity_sqlstate (Conflict r) = ''FB011''"
| "identity_sqlstate Key_used = ''FB012''"
| "identity_sqlstate (Session_context r) = ''FB013''"
| "identity_sqlstate Wrong_workspace = ''FB014''"
| "identity_sqlstate (Bound_already r) = ''25000''"
| "identity_sqlstate (Not_permitted r) = ''42501''"
| "identity_sqlstate (Bad_parameter r sh) = ''22023''"
| "identity_sqlstate Authentication_failed = ''28P01''"
| "identity_sqlstate (Not_writable r) = ''25006''"
| "identity_sqlstate Stricter_isolation = ''0A000''"
| "identity_sqlstate (Missing_value c) = ''23502''"
| "identity_sqlstate (Internal_error r) = ''XX000''"
| "identity_sqlstate (Kernel_refused e) = sqlstate e"

definition violates :: "string \<Rightarrow> identity_error" where
  "violates c = Kernel_refused (Check_violation c)"

definition duplicates :: "string \<Rightarrow> identity_error" where
  "duplicates c = Kernel_refused (Unique_violation c)"

definition dangling :: "string \<Rightarrow> identity_error" where
  "dangling c = Kernel_refused (Foreign_key_violation c)"

text \<open>\<open>EXCEPTION WHEN unique_violation\<close>.\<close>

definition is_unique_violation :: "identity_error \<Rightarrow> bool" where
  "is_unique_violation e \<longleftrightarrow> (case e of Kernel_refused (Unique_violation c) \<Rightarrow> True | _ \<Rightarrow> False)"

definition in_kernel :: "kernel_error + 'a \<Rightarrow> identity_error + 'a" where
  "in_kernel r = (case r of Inl e \<Rightarrow> Inl (Kernel_refused e) | Inr x \<Rightarrow> Inr x)"

lemma in_kernel_Inr [simp]: "in_kernel r = Inr x \<longleftrightarrow> r = Inr x"
  by (simp add: in_kernel_def split: sum.split)

section \<open>The platform\<close>

text \<open>
  What the server brings: the digests, its locale's \<open>lower()\<close>, and the character its scanner makes
  of \<open>\v\<close> in an \<open>E''\<close> string.
\<close>

record 'f server =
  sv_platform :: "'f platform"
  sv_sha :: "utext \<Rightarrow> 'f"
  sv_lower :: "utext \<Rightarrow> utext"
  sv_escape_v :: int

section \<open>Addresses\<close>

text \<open>\<open>ASCII_WHITESPACE_SQL\<close> and \<open>btrim\<close>.\<close>

definition trimmed_by_sql :: "'f server \<Rightarrow> int list" where
  "trimmed_by_sql V = [32, 9, 10, 13, 12, sv_escape_v V]"

definition strip_chars :: "int list \<Rightarrow> utext \<Rightarrow> utext" where
  "strip_chars cs t = rev (dropWhile (\<lambda>c. c \<in> set cs) (rev (dropWhile (\<lambda>c. c \<in> set cs) t)))"

definition btrim :: "'f server \<Rightarrow> utext \<Rightarrow> utext" where
  "btrim V = strip_chars (trimmed_by_sql V)"

definition email_max_length :: nat where "email_max_length = 254"

definition alnum :: "int \<Rightarrow> bool" where
  "alnum c \<longleftrightarrow> lower_alpha c \<or> ascii_digit c"

definition local_char :: "int \<Rightarrow> bool" where
  "local_char c \<longleftrightarrow> alnum c \<or> c \<in> set (cps ''._%+-'')"

text \<open>A label: \<open>[a-z0-9](?:[a-z0-9-]{0,61}[a-z0-9])?\<close>.\<close>

definition domain_label :: "utext \<Rightarrow> bool" where
  "domain_label l \<longleftrightarrow> l \<noteq> [] \<and> length l \<le> 63 \<and> alnum (hd l) \<and> alnum (last l) \<and>
     list_all (\<lambda>c. alnum c \<or> c = 45) l"

definition top_label :: "utext \<Rightarrow> bool" where
  "top_label l \<longleftrightarrow> 2 \<le> length l \<and> length l \<le> 63 \<and> list_all lower_alpha l"

definition domain_ok :: "utext \<Rightarrow> bool" where
  "domain_ok d \<longleftrightarrow> (let ls = split_dots d
     in 2 \<le> length ls \<and> list_all domain_label (butlast ls) \<and> top_label (last ls))"

definition email_regex :: "utext \<Rightarrow> bool" where
  "email_regex t \<longleftrightarrow> (let user = takeWhile (\<lambda>c. c \<noteq> 64) t; tail = dropWhile (\<lambda>c. c \<noteq> 64) t
     in 1 \<le> length user \<and> length user \<le> 64 \<and> list_all local_char user \<and>
        tail \<noteq> [] \<and> domain_ok (tl tail))"

definition identity_normalize_email :: "'f server \<Rightarrow> utext option \<Rightarrow> utext option" where
  "identity_normalize_email V p =
     (case p of None \<Rightarrow> None
      | Some t \<Rightarrow>
          if length t > email_max_length + 32 then None
          else let n = sv_lower V (btrim V t)
               in if length n > email_max_length then None
                  else if \<not> email_regex n then None else Some n)"

section \<open>Secrets\<close>

text \<open>Unpadded base64 of bytes in the URL-safe alphabet: \<open>encode\<close>, then \<open>translate\<close>.\<close>

definition url_char :: "nat \<Rightarrow> int" where
  "url_char n = (if n < 26 then 65 + int n else if n < 52 then 71 + int n
     else if n < 62 then int n - 4 else if n = 62 then 45 else 95)"

fun base64_url :: "nat list \<Rightarrow> utext" where
  "base64_url (a # b # c # bs) =
     url_char (a div 4) # url_char (a mod 4 * 16 + b div 16) #
     url_char (b mod 16 * 4 + c div 64) # url_char (c mod 64) # base64_url bs"
| "base64_url [a, b] = [url_char (a div 4), url_char (a mod 4 * 16 + b div 16), url_char (b mod 16 * 4)]"
| "base64_url [a] = [url_char (a div 4), url_char (a mod 4 * 16)]"
| "base64_url [] = []"

text \<open>The bytes are those of two \<open>gen_random_uuid()\<close> values.\<close>

definition identity_mint_secret :: "string \<Rightarrow> nat list \<Rightarrow> utext" where
  "identity_mint_secret prefix bytes = cps prefix @ base64_url bytes"

section \<open>Stored forms\<close>

definition base64_char :: "int \<Rightarrow> bool" where
  "base64_char c \<longleftrightarrow> upper_alpha c \<or> lower_alpha c \<or> ascii_digit c \<or> c = 43 \<or> c = 47"

definition one_to :: "nat \<Rightarrow> (int \<Rightarrow> bool) \<Rightarrow> rx" where
  "one_to n p = Seq (Cls p) (UpTo (n - 1) p)"

definition password_hash_regex :: rx where
  "password_hash_regex = seqs [lit ''$argon2id$v=19$m='', one_to 9 ascii_digit, lit '',t='',
     one_to 4 ascii_digit, lit '',p='', one_to 3 ascii_digit, lit ''$'', Times 16 base64_char,
     Many base64_char, lit ''$'', Times 16 base64_char, Many base64_char]"

definition password_hash_max_length :: nat where "password_hash_max_length = 512"

definition stored_hash :: "utext option \<Rightarrow> bool" where
  "stored_hash h \<longleftrightarrow> (case h of None \<Rightarrow> False
     | Some t \<Rightarrow> length t \<le> password_hash_max_length \<and> full_match password_hash_regex t)"

definition slug_regex :: "utext \<Rightarrow> bool" where
  "slug_regex s \<longleftrightarrow> s \<noteq> [] \<and> length s \<le> 62 \<and> alnum (hd s) \<and> alnum (last s) \<and>
     list_all (\<lambda>c. alnum c \<or> c = 45) s"

definition name_max_length :: nat where "name_max_length = 200"
definition label_max_length :: nat where "label_max_length = 100"

definition length_between :: "nat \<Rightarrow> nat \<Rightarrow> utext \<Rightarrow> bool" where
  "length_between a b t \<longleftrightarrow> a \<le> length t \<and> length t \<le> b"

text \<open>\<open>ROLE_SCOPES\<close>, the text of \<open>membership_role_scopes\<close>.\<close>

definition role_scopes :: "(string \<times> string list) list" where
  "role_scopes =
   [(''viewer'', [''membership:read'', ''tenant:read'', ''workspace:read'']),
    (''member'', [''credential:issue'', ''membership:read'', ''mutation:execute'', ''tenant:read'',
       ''workspace:read'', ''workspace:write'']),
    (''admin'', [''audit:read'', ''credential:issue'', ''membership:manage'', ''membership:read'',
       ''mutation:execute'', ''tenant:read'', ''workspace:read'', ''workspace:write'']),
    (''owner'', [''audit:read'', ''credential:issue'', ''membership:manage'', ''membership:read'',
       ''mutation:execute'', ''tenant:read'', ''workspace:read'', ''workspace:write''])]"

definition membership_role_scopes :: "string \<Rightarrow> string list option" where
  "membership_role_scopes r = map_of role_scopes r"

text \<open>\<open>x = ANY (membership_role_scopes(r))\<close>: no scope for an unknown role.\<close>

definition role_holds :: "string \<Rightarrow> string \<Rightarrow> bool" where
  "role_holds r s \<longleftrightarrow> (case membership_role_scopes r of None \<Rightarrow> False | Some ss \<Rightarrow> s \<in> set ss)"

definition scopes_of :: "string \<Rightarrow> string list" where
  "scopes_of r = (case membership_role_scopes r of None \<Rightarrow> [] | Some ss \<Rightarrow> ss)"

definition sql_issuable_scopes :: "string list" where
  "sql_issuable_scopes = [''audit:read'', ''mutation:execute'', ''tenant:read'', ''workspace:read'',
     ''workspace:write'']"

text \<open>A role as a caller names it.\<close>

definition known_role :: "utext option \<Rightarrow> string option" where
  "known_role p = (case p of None \<Rightarrow> None | Some t \<Rightarrow> find (\<lambda>r. cps r = t) membership_roles)"

end
