(* ===== verification/Identity_Statements.thy ===== *)
theory Identity_Statements
  imports Identity_Tables
begin

text \<open>
  The statements of the identity plane: one \<open>INSERT\<close> per table with the check constraints, unique
  indexes and foreign keys in the order PostgreSQL tests them, the row policies of the two policed
  tables, and the updates with the triggers they fire.
\<close>

section \<open>Inserts\<close>

definition insert_account :: "account_row \<Rightarrow> 'f identity_db \<Rightarrow> identity_error + 'f identity_db" where
  "insert_account r d =
     checked [(length_between 3 email_max_length (ac_display r), violates ''email_display_length''),
         (email_regex (ac_email r), violates ''email_normalized_format''),
         (length (ac_email r) \<le> email_max_length, violates ''email_normalized_length''),
         ((ac_status r = Active) = (ac_verified r \<noteq> None), violates ''verified_status_consistent''),
         (ac_id r \<notin> ac_id ` set (accounts d), duplicates ''pk_accounts''),
         (ac_email r \<notin> ac_email ` set (accounts d), duplicates ''uq_accounts_email_normalized'')]
       (d\<lparr>accounts := accounts d @ [r]\<rparr>)"

definition insert_password :: "password_row \<Rightarrow> 'f identity_db \<Rightarrow> identity_error + 'f identity_db" where
  "insert_password r d =
     checked [(stored_hash (Some (pw_hash r)), violates ''password_hash_format''),
         (pw_account r \<notin> pw_account ` set (passwords d), duplicates ''pk_account_passwords''),
         (pw_account r \<in> ac_id ` set (accounts d), dangling ''fk_account_passwords_account_id_accounts'')]
       (d\<lparr>passwords := passwords d @ [r]\<rparr>)"

definition token_kinds :: "identity_kind list" where
  "token_kinds = [Account_recovery, Email_verification]"

definition insert_token :: "'f token_row \<Rightarrow> 'f identity_db \<Rightarrow> identity_error + 'f identity_db" where
  "insert_token r d =
     checked [(tk_created r < tk_expires r, violates ''expiry_after_creation''),
         (tk_kind r \<in> set token_kinds, violates ''kind_known''),
         (tk_id r \<notin> tk_id ` set (tokens d), duplicates ''pk_account_tokens''),
         (tk_fingerprint r \<notin> tk_fingerprint ` set (tokens d), duplicates ''uq_account_tokens_fingerprint''),
         (tk_account r \<in> ac_id ` set (accounts d), dangling ''fk_account_tokens_account_id_accounts'')]
       (d\<lparr>tokens := tokens d @ [r]\<rparr>)"

definition insert_browser :: "'f browser_row \<Rightarrow> 'f identity_db \<Rightarrow> identity_error + 'f identity_db" where
  "insert_browser r d =
     checked [((bs_workspace r = None) = (bs_tenant r = None) \<and> (bs_workspace r = None) = (bs_membership r = None),
           violates ''binding_complete''),
         (bs_created r < bs_expires r, violates ''expiry_after_creation''),
         (bs_id r \<notin> bs_id ` set (browsers d), duplicates ''pk_browser_sessions''),
         (bs_fingerprint r \<notin> bs_fingerprint ` set (browsers d), duplicates ''uq_browser_sessions_fingerprint''),
         (bs_account r \<in> ac_id ` set (accounts d), dangling ''fk_browser_sessions_account_id_accounts''),
         (case bs_membership r of None \<Rightarrow> True | Some m \<Rightarrow>
            (\<exists>x \<in> set (memberships d). mb_id x = m \<and> Some (mb_workspace x) = bs_workspace r \<and>
               Some (mb_tenant x) = bs_tenant r), dangling ''fk_browser_sessions_membership_memberships'')]
       (d\<lparr>browsers := browsers d @ [r]\<rparr>)"

definition workspace_exists :: "uuid \<Rightarrow> uuid \<Rightarrow> 'f identity_db \<Rightarrow> bool" where
  "workspace_exists w t d \<longleftrightarrow> (\<exists>x \<in> set (workspaces d). ws_id x = w \<and> ws_tenant x = t)"

definition account_exists :: "uuid option \<Rightarrow> 'f identity_db \<Rightarrow> bool" where
  "account_exists a d \<longleftrightarrow> (case a of None \<Rightarrow> True | Some x \<Rightarrow> x \<in> ac_id ` set (accounts d))"

text \<open>One active membership per account and workspace.\<close>

definition active_in :: "uuid \<Rightarrow> uuid \<Rightarrow> membership_row \<Rightarrow> bool" where
  "active_in w a m \<longleftrightarrow> mb_workspace m = w \<and> mb_account m = a \<and> mb_revoked m = None"

definition insert_membership :: "membership_row \<Rightarrow> 'f identity_db \<Rightarrow> identity_error + 'f identity_db" where
  "insert_membership r d =
     checked [(mb_role r \<in> set membership_roles, violates ''role_known''),
         (mb_id r \<notin> mb_id ` set (memberships d), duplicates ''pk_memberships''),
         (mb_revoked r \<noteq> None \<or> \<not> (\<exists>m \<in> set (memberships d). active_in (mb_workspace r) (mb_account r) m),
            duplicates ''uq_memberships_active_workspace_id_account_id''),
         (mb_tenant r \<in> tn_id ` set (tenants d), dangling ''fk_memberships_tenant_id_tenants''),
         (workspace_exists (mb_workspace r) (mb_tenant r) d,
            dangling ''fk_memberships_workspace_id_tenant_id_workspaces''),
         (mb_account r \<in> ac_id ` set (accounts d), dangling ''fk_memberships_account_id_accounts''),
         (account_exists (mb_inviter r) d, dangling ''fk_memberships_invited_by_account_id_accounts''),
         (account_exists (mb_revoker r) d, dangling ''fk_memberships_revoked_by_account_id_accounts'')]
       (d\<lparr>memberships := memberships d @ [r]\<rparr>)"

text \<open>One pending invitation per address and workspace.\<close>

definition pending_for :: "uuid \<Rightarrow> utext \<Rightarrow> 'f invitation_row \<Rightarrow> bool" where
  "pending_for w e i \<longleftrightarrow> iv_workspace i = w \<and> iv_email i = e \<and> iv_accepted i = None \<and> iv_revoked i = None"

definition insert_invitation :: "'f invitation_row \<Rightarrow> 'f identity_db \<Rightarrow> identity_error + 'f identity_db" where
  "insert_invitation r d =
     checked [(email_regex (iv_email r), violates ''email_normalized_format''),
         (iv_created r < iv_expires r, violates ''expiry_after_creation''),
         (iv_role r \<in> set membership_roles, violates ''role_known''),
         (iv_id r \<notin> iv_id ` set (invitations d), duplicates ''pk_workspace_invitations''),
         (iv_fingerprint r \<notin> iv_fingerprint ` set (invitations d),
            duplicates ''uq_workspace_invitations_fingerprint''),
         (iv_accepted r \<noteq> None \<or> iv_revoked r \<noteq> None \<or>
            \<not> (\<exists>i \<in> set (invitations d). pending_for (iv_workspace r) (iv_email r) i),
            duplicates ''uq_workspace_invitations_pending_workspace_id_email''),
         (iv_tenant r \<in> tn_id ` set (tenants d), dangling ''fk_workspace_invitations_tenant_id_tenants''),
         (workspace_exists (iv_workspace r) (iv_tenant r) d,
            dangling ''fk_workspace_invitations_workspace_id_tenant_id_workspaces''),
         (account_exists (iv_inviter r) d, dangling ''fk_workspace_invitations_invited_by_account_id_accounts'')]
       (d\<lparr>invitations := invitations d @ [r]\<rparr>)"

definition account_claim_constraint :: string where
  "account_claim_constraint = ''uq_account_idempotency_records_account_id_operation_key''"

definition insert_account_claim ::
  "'f server \<Rightarrow> 'f account_claim \<Rightarrow> 'f identity_db \<Rightarrow> identity_error + 'f identity_db" where
  "insert_account_claim V r d =
     checked [(full_match idempotency_key_regex (aq_key r), violates ''idempotency_key_format''),
         (dotted_name (aq_operation r), violates ''operation_format''),
         (metadata_checks (sv_platform V) (aq_result r), violates ''result''),
         (\<not> (\<exists>c \<in> set (account_claims d). aq_account c = aq_account r \<and> aq_operation c = aq_operation r \<and>
             aq_key c = aq_key r), duplicates account_claim_constraint),
         (aq_account r \<in> ac_id ` set (accounts d),
            dangling ''fk_account_idempotency_records_account_id_accounts'')]
       (d\<lparr>account_claims := account_claims d @ [r]\<rparr>)"

text \<open>The two policed tables. A workspace's insert and update also maintain the directory.\<close>

definition insert_tenant ::
  "auth_context \<Rightarrow> tenant_row \<Rightarrow> 'f identity_db \<Rightarrow> identity_error + 'f identity_db" where
  "insert_tenant cx r d =
     checked [(Some (tn_id r) = ax_tenant cx \<and> auth_has_scope cx (Some (scope_value Tenant_provision)),
           Not_permitted ''row policy''),
         (length_between 1 name_max_length (tn_name r), violates ''ck_tenants_name_length''),
         (slug_regex (tn_slug r), violates ''ck_tenants_slug_format''),
         (tn_id r \<notin> tn_id ` set (tenants d), duplicates ''pk_tenants''),
         (tn_slug r \<notin> tn_slug ` set (tenants d), duplicates ''uq_tenants_slug'')]
       (d\<lparr>tenants := tenants d @ [r]\<rparr>)"

definition workspace_readable :: "auth_context \<Rightarrow> workspace_row \<Rightarrow> bool" where
  "workspace_readable cx w \<longleftrightarrow> Some (ws_tenant w) = ax_tenant cx \<and>
     auth_has_scope cx (Some (scope_value Workspace_read))"

text \<open>\<open>FOR UPDATE\<close> and \<open>UPDATE\<close> also apply the update policy.\<close>

definition workspace_writable :: "auth_context \<Rightarrow> workspace_row \<Rightarrow> bool" where
  "workspace_writable cx w \<longleftrightarrow> workspace_readable cx w \<and>
     auth_has_scope cx (Some (scope_value Workspace_write))"

text \<open>\<open>workspace_directory_sync\<close>.\<close>

definition sync_directory :: "workspace_row \<Rightarrow> workspace_row list \<Rightarrow> workspace_row list" where
  "sync_directory r = upsert_by ws_id (\<lambda>x r. r) r"

definition insert_workspace ::
  "auth_context \<Rightarrow> workspace_row \<Rightarrow> 'f identity_db \<Rightarrow> identity_error + 'f identity_db" where
  "insert_workspace cx r d =
     checked [(Some (ws_tenant r) = ax_tenant cx \<and> auth_has_scope cx (Some (scope_value Workspace_write)),
           Not_permitted ''row policy''),
         (length_between 1 name_max_length (ws_name r), violates ''ck_workspaces_name_length''),
         (slug_regex (ws_slug r), violates ''ck_workspaces_slug_format''),
         (ws_id r \<notin> ws_id ` set (workspaces d), duplicates ''pk_workspaces''),
         (\<not> (\<exists>w \<in> set (workspaces d). ws_tenant w = ws_tenant r \<and> ws_slug w = ws_slug r),
            duplicates ''uq_workspaces_tenant_id_slug''),
         (\<not> (\<exists>w \<in> set (workspaces d). ws_tenant w = ws_tenant r \<and> ws_name w = ws_name r),
            duplicates ''uq_workspaces_tenant_id_name''),
         (ws_tenant r \<in> tn_id ` set (tenants d), dangling ''fk_workspaces_tenant_id_tenants'')]
       (d\<lparr>workspaces := workspaces d @ [r], directory := sync_directory r (directory d)\<rparr>)"

section \<open>Credentials\<close>

definition binding_checks :: "'f binding_row \<Rightarrow> 'f identity_db \<Rightarrow> identity_error + unit" where
  "binding_checks r d =
     checked [(case ab_expires r of None \<Rightarrow> True | Some e \<Rightarrow> ab_created r < e, violates ''expiry_after_creation''),
         (case ab_label r of None \<Rightarrow> True | Some l \<Rightarrow> length_between 1 label_max_length l,
            violates ''ck_auth_bindings_label_bounded''),
         ((ab_membership r = None) = (ab_workspace r = None),
            violates ''ck_auth_bindings_membership_binding_complete''),
         (length (ab_scopes r) \<le> max_scopes_per_binding, violates ''scopes_bounded''),
         (set (ab_scopes r) \<subseteq> set known_scopes, violates ''scopes_known'')] ()"

definition binding_references :: "'f binding_row \<Rightarrow> 'f identity_db \<Rightarrow> identity_error + unit" where
  "binding_references r d =
     checked [(ab_tenant r \<in> tn_id ` set (tenants d), dangling ''fk_auth_bindings_tenant_id_tenants''),
         (case ab_membership r of None \<Rightarrow> True | Some m \<Rightarrow>
            (\<exists>x \<in> set (memberships d). mb_id x = m \<and> Some (mb_workspace x) = ab_workspace r \<and>
               mb_tenant x = ab_tenant r), dangling ''fk_auth_bindings_membership_memberships''),
         (case ab_rotated r of None \<Rightarrow> True | Some b \<Rightarrow>
            (\<exists>x \<in> set (bindings d). ab_id x = b \<and> ab_tenant x = ab_tenant r),
            dangling ''fk_auth_bindings_rotated_from_auth_bindings'')] ()"

text \<open>
  \<open>INSERT ... ON CONFLICT (fingerprint) DO NOTHING\<close> in a loop of at most three attempts: the
  candidates are the identifiers and bytes drawn for each.
\<close>

fun mint_binding ::
  "'f server \<Rightarrow> 'f binding_row \<Rightarrow> (uuid \<times> nat list) list \<Rightarrow> 'f identity_db
     \<Rightarrow> identity_error + (uuid \<times> utext) \<times> 'f identity_db" where
  "mint_binding V r [] d = Inl (Internal_error ''no distinct credential'')"
| "mint_binding V r ((i, bytes) # cs) d =
     (let secret = identity_mint_secret ''fbk_'' bytes;
          row = r\<lparr>ab_id := i, ab_fingerprint := sv_sha V secret\<rparr>
      in and_then (binding_checks row d) (\<lambda>_.
         if ab_fingerprint row \<in> ab_fingerprint ` set (bindings d) then mint_binding V r cs d
         else if i \<in> ab_id ` set (bindings d) then Inl (duplicates ''pk_auth_bindings'')
         else and_then (binding_references row d) (\<lambda>_.
              Inr ((i, secret), d\<lparr>bindings := bindings d @ [row]\<rparr>))))"

definition revoke_bindings ::
  "rat \<Rightarrow> ('f binding_row \<Rightarrow> bool) \<Rightarrow> 'f identity_db \<Rightarrow> 'f identity_db" where
  "revoke_bindings now p d =
     d\<lparr>bindings := update_where (\<lambda>b. p b \<and> ab_revoked b = None) (\<lambda>b. b\<lparr>ab_revoked := Some now\<rparr>) (bindings d)\<rparr>"

section \<open>Sessions and tokens\<close>

definition revoke_browsers ::
  "rat \<Rightarrow> ('f browser_row \<Rightarrow> bool) \<Rightarrow> 'f identity_db \<Rightarrow> 'f identity_db" where
  "revoke_browsers now p d =
     d\<lparr>browsers := update_where (\<lambda>s. p s \<and> bs_revoked s = None) (\<lambda>s. s\<lparr>bs_revoked := Some now\<rparr>) (browsers d)\<rparr>"

definition unbound :: "'f browser_row \<Rightarrow> 'f browser_row" where
  "unbound s = s\<lparr>bs_workspace := None, bs_tenant := None, bs_membership := None, bs_bound := None\<rparr>"

definition unbind_browsers :: "('f browser_row \<Rightarrow> bool) \<Rightarrow> 'f identity_db \<Rightarrow> 'f identity_db" where
  "unbind_browsers p d = d\<lparr>browsers := update_where p unbound (browsers d)\<rparr>"

definition live_token :: "'f token_row \<Rightarrow> bool" where
  "live_token t \<longleftrightarrow> tk_consumed t = None \<and> tk_superseded t = None"

definition supersede_tokens ::
  "rat \<Rightarrow> ('f token_row \<Rightarrow> bool) \<Rightarrow> 'f identity_db \<Rightarrow> 'f identity_db" where
  "supersede_tokens now p d =
     d\<lparr>tokens := update_where (\<lambda>t. p t \<and> live_token t) (\<lambda>t. t\<lparr>tk_superseded := Some now\<rparr>) (tokens d)\<rparr>"

definition consume_token :: "rat \<Rightarrow> uuid \<Rightarrow> 'f identity_db \<Rightarrow> 'f identity_db" where
  "consume_token now i d =
     d\<lparr>tokens := update_where (\<lambda>t. tk_id t = i) (\<lambda>t. t\<lparr>tk_consumed := Some now\<rparr>) (tokens d)\<rparr>"

definition amend_account ::
  "uuid \<Rightarrow> (account_row \<Rightarrow> account_row) \<Rightarrow> 'f identity_db \<Rightarrow> 'f identity_db" where
  "amend_account a f d = d\<lparr>accounts := update_where (\<lambda>x. ac_id x = a) f (accounts d)\<rparr>"

section \<open>Memberships\<close>

text \<open>
  \<open>memberships_revocation_cascade\<close> on the update that revokes: the row takes the trigger's time,
  its live credentials are revoked and its sessions unbound.
\<close>

definition revoke_membership :: "rat \<Rightarrow> uuid \<Rightarrow> membership_row \<Rightarrow> 'f identity_db \<Rightarrow> 'f identity_db" where
  "revoke_membership now by m d =
     unbind_browsers (\<lambda>s. bs_membership s = Some (mb_id m))
      (revoke_bindings now (\<lambda>b. ab_membership b = Some (mb_id m) \<and> ab_tenant b = mb_tenant m)
        (d\<lparr>memberships := update_where (\<lambda>x. mb_id x = mb_id m \<and> mb_tenant x = mb_tenant m \<and> mb_revoked x = None)
            (\<lambda>x. x\<lparr>mb_revoked := Some now, mb_updated := now, mb_revoker := Some by\<rparr>) (memberships d)\<rparr>))"

definition assign_role :: "rat \<Rightarrow> string \<Rightarrow> membership_row \<Rightarrow> 'f identity_db \<Rightarrow> 'f identity_db" where
  "assign_role now r m d =
     d\<lparr>memberships := update_where (\<lambda>x. mb_id x = mb_id m \<and> mb_tenant x = mb_tenant m \<and> mb_revoked x = None)
        (\<lambda>x. x\<lparr>mb_role := r, mb_updated := now\<rparr>) (memberships d)\<rparr>"

text \<open>
  The trigger as it stands, over the old row and the row another writer proposes: what an identity
  is cannot change, and a revoked row is final.
\<close>

definition membership_before_update ::
  "rat \<Rightarrow> membership_row \<Rightarrow> membership_row \<Rightarrow> identity_error + membership_row" where
  "membership_before_update now old new =
     (if mb_id new \<noteq> mb_id old \<or> mb_tenant new \<noteq> mb_tenant old \<or> mb_workspace new \<noteq> mb_workspace old \<or>
         mb_account new \<noteq> mb_account old \<or> mb_created new \<noteq> mb_created old
      then Inl (Conflict ''immutable'')
      else if mb_revoked old \<noteq> None then
        (if mb_revoked new = None \<or> mb_role new \<noteq> mb_role old then Inl (Conflict ''revocation is final'')
         else Inr new)
      else if mb_revoked new = None then Inr new
      else Inr (new\<lparr>mb_revoked := Some now, mb_updated := now\<rparr>))"

definition account_token_before_update ::
  "'f token_row \<Rightarrow> 'f token_row \<Rightarrow> identity_error + 'f token_row" where
  "account_token_before_update old new =
     (if tk_id new \<noteq> tk_id old \<or> tk_account new \<noteq> tk_account old \<or> tk_kind new \<noteq> tk_kind old \<or>
         tk_fingerprint new \<noteq> tk_fingerprint old \<or> tk_created new \<noteq> tk_created old \<or>
         tk_expires new \<noteq> tk_expires old \<or>
         tk_consumed old \<noteq> None \<and> tk_consumed new \<noteq> tk_consumed old \<or>
         tk_superseded old \<noteq> None \<and> tk_superseded new \<noteq> tk_superseded old
      then Inl (Conflict ''consumed or superseded once'') else Inr new)"

text \<open>The triggers let through every update the model makes.\<close>

lemma revoking_update_passes:
  assumes "mb_revoked x = None"
  shows "membership_before_update now x (x\<lparr>mb_revoked := Some any, mb_revoker := Some by\<rparr>) =
    Inr (x\<lparr>mb_revoked := Some now, mb_updated := now, mb_revoker := Some by\<rparr>)"
  using assms by (simp add: membership_before_update_def)

lemma role_update_passes:
  "mb_revoked x = None \<Longrightarrow> membership_before_update now x (x\<lparr>mb_role := r, mb_updated := now\<rparr>) =
    Inr (x\<lparr>mb_role := r, mb_updated := now\<rparr>)"
  by (simp add: membership_before_update_def)

lemma token_updates_pass:
  "live_token t \<Longrightarrow> account_token_before_update t (t\<lparr>tk_consumed := Some now\<rparr>) = Inr (t\<lparr>tk_consumed := Some now\<rparr>)"
  "live_token t \<Longrightarrow> account_token_before_update t (t\<lparr>tk_superseded := Some now\<rparr>) = Inr (t\<lparr>tk_superseded := Some now\<rparr>)"
  by (simp_all add: account_token_before_update_def live_token_def)

text \<open>\<open>identity_active_owner_count\<close>.\<close>

definition active_owner :: "uuid \<Rightarrow> uuid \<Rightarrow> membership_row \<Rightarrow> bool" where
  "active_owner w t m \<longleftrightarrow> mb_workspace m = w \<and> mb_tenant m = t \<and> mb_role m = ''owner'' \<and> mb_revoked m = None"

definition identity_active_owner_count :: "uuid \<Rightarrow> uuid \<Rightarrow> 'f identity_db \<Rightarrow> nat" where
  "identity_active_owner_count w t d = length (filter (active_owner w t) (memberships d))"

end
