(* ===== verification/Identity_Context.thy ===== *)
theory Identity_Context
  imports Identity_Statements
begin

text \<open>
  What a transaction carries and what every identity operation calls first: the authenticated context
  of migration \<open>0003\<close>, the identity context of \<open>0005\<close>, the expected workspace of \<open>0006\<close>, the one
  membership revalidation, and the claim and event an operation commits with itself. A call reads
  the clock once and sees one state of the database; a call that fails changes nothing.
\<close>

section \<open>Transactions\<close>

datatype context_kind = Session_bound | Login_challenge | Password_challenge

record identity_context =
  ic_kind :: context_kind
  ic_account :: "uuid option"
  ic_session :: "uuid option"
  ic_workspace :: "uuid option"
  ic_tenant :: "uuid option"
  ic_membership :: "uuid option"
  ic_role :: "string option"
  ic_csrf :: bool
  ic_epoch :: "int option"

text \<open>
  The rows of the unlogged relations are keyed by backend and transaction: a transaction sees its
  own or none. \<open>tx_cx\<close> has no tenant as long as none was acquired.
\<close>

record transaction =
  tx_primary :: bool
  tx_writable :: bool
  tx_read_committed :: bool
  tx_cx :: auth_context
  tx_identity :: "identity_context option"
  tx_expected :: "uuid option"

definition no_context :: auth_context where
  "no_context = \<lparr>ax_tenant = None, ax_principal = None, ax_binding = None, ax_actor = '''', ax_scopes = []\<rparr>"

definition new_transaction :: transaction where
  "new_transaction = \<lparr>tx_primary = True, tx_writable = True, tx_read_committed = True,
     tx_cx = no_context, tx_identity = None, tx_expected = None\<rparr>"

definition auth_require_writable_primary :: "transaction \<Rightarrow> identity_error + unit" where
  "auth_require_writable_primary tx =
     checked [(tx_primary tx, Not_writable ''standby''), (tx_writable tx, Not_writable ''read only'')] ()"

definition auth_require_read_committed :: "transaction \<Rightarrow> identity_error + unit" where
  "auth_require_read_committed tx = checked [(tx_read_committed tx, Stricter_isolation)] ()"

definition entry_checks :: "transaction \<Rightarrow> identity_error + unit" where
  "entry_checks tx = and_then (auth_require_writable_primary tx) (\<lambda>_. auth_require_read_committed tx)"

section \<open>The authenticated context\<close>

text \<open>A transaction acquires a context once: the conflicting insert writes nothing.\<close>

definition auth_context_begin ::
  "uuid option \<Rightarrow> uuid \<Rightarrow> uuid option \<Rightarrow> string \<Rightarrow> string list \<Rightarrow> transaction \<Rightarrow> identity_error + transaction" where
  "auth_context_begin binding tenant account actor scopes tx =
     and_then (auth_require_writable_primary tx) (\<lambda>_.
       if ax_tenant (tx_cx tx) \<noteq> None then Inl (Bound_already ''authenticated context'')
       else Inr (tx\<lparr>tx_cx := \<lparr>ax_tenant = Some tenant, ax_principal = account, ax_binding = binding,
              ax_actor = actor, ax_scopes = scopes\<rparr>\<rparr>))"

text \<open>\<open>identity_context_narrow\<close>: only ever fewer scopes.\<close>

definition identity_context_narrow :: "string list \<Rightarrow> transaction \<Rightarrow> identity_error + transaction" where
  "identity_context_narrow scopes tx =
     (if ax_tenant (tx_cx tx) \<noteq> None \<and> set scopes \<subseteq> set (ax_scopes (tx_cx tx))
      then Inr (tx\<lparr>tx_cx := (tx_cx tx)\<lparr>ax_scopes := scopes\<rparr>\<rparr>)
      else Inl (Internal_error ''narrowing''))"

definition identity_context_write :: "identity_context \<Rightarrow> transaction \<Rightarrow> identity_error + transaction" where
  "identity_context_write c tx =
     (if tx_identity tx \<noteq> None then Inl (Bound_already ''identity context'')
      else Inr (tx\<lparr>tx_identity := Some c\<rparr>))"

section \<open>The bound session\<close>

record session_info =
  si_session :: uuid
  si_account :: uuid
  si_workspace :: "uuid option"
  si_tenant :: "uuid option"
  si_membership :: "uuid option"
  si_role :: "string option"
  si_csrf :: bool

definition auth_session :: "transaction \<Rightarrow> session_info option" where
  "auth_session tx =
     (case tx_identity tx of None \<Rightarrow> None
      | Some c \<Rightarrow> (case (ic_kind c, ic_session c, ic_account c) of
            (Session_bound, Some s, Some a) \<Rightarrow>
               Some \<lparr>si_session = s, si_account = a, si_workspace = ic_workspace c, si_tenant = ic_tenant c,
                  si_membership = ic_membership c, si_role = ic_role c, si_csrf = ic_csrf c\<rparr>
          | _ \<Rightarrow> None))"

datatype session_mode = Account_mode | Workspace_mode

definition identity_require_session ::
  "session_mode \<Rightarrow> bool \<Rightarrow> transaction \<Rightarrow> identity_error + session_info" where
  "identity_require_session mode csrf tx =
     (case auth_session tx of None \<Rightarrow> Inl (Session_context ''no bound session'')
      | Some s \<Rightarrow>
          if csrf \<and> \<not> si_csrf s then Inl (Session_context ''CSRF not verified'')
          else (case mode of
            Workspace_mode \<Rightarrow>
              if si_workspace s = None \<or> ax_tenant (tx_cx tx) = None \<or> ax_tenant (tx_cx tx) \<noteq> si_tenant s
              then Inl (Session_context ''workspace mode'') else Inr s
          | Account_mode \<Rightarrow>
              if ax_tenant (tx_cx tx) \<noteq> None then Inl (Session_context ''account mode'') else Inr s))"

section \<open>The membership revalidation\<close>

definition find_account :: "uuid \<Rightarrow> 'f identity_db \<Rightarrow> account_row option" where
  "find_account a d = find (\<lambda>x. ac_id x = a) (accounts d)"

definition account_active :: "uuid \<Rightarrow> 'f identity_db \<Rightarrow> bool" where
  "account_active a d \<longleftrightarrow> (case find_account a d of None \<Rightarrow> False | Some x \<Rightarrow> ac_status x = Active)"

text \<open>The membership of the session, whatever the session remembers of it.\<close>

definition current_membership :: "session_info \<Rightarrow> 'f identity_db \<Rightarrow> membership_row option" where
  "current_membership s d =
     find (\<lambda>m. Some (mb_id m) = si_membership s \<and> Some (mb_tenant m) = si_tenant s \<and>
        Some (mb_workspace m) = si_workspace s \<and> mb_account m = si_account s \<and>
        mb_revoked m = None \<and> account_active (mb_account m) d) (memberships d)"

text \<open>
  \<open>workspace_membership_authority\<close> as \<open>0006\<close> leaves it: the lock on the workspace row is subject to the
  row policies, so it also fails on a workspace the cached context may not write.
\<close>

definition workspace_membership_authority ::
  "string option \<Rightarrow> bool \<Rightarrow> transaction \<Rightarrow> 'f identity_db \<Rightarrow> identity_error + session_info" where
  "workspace_membership_authority scope lock tx d =
     and_then (identity_require_session Workspace_mode False tx) (\<lambda>s.
       if lock \<and> \<not> (\<exists>w \<in> set (workspaces d). Some (ws_id w) = si_workspace s \<and>
            Some (ws_tenant w) = si_tenant s \<and> workspace_writable (tx_cx tx) w)
       then Inl Refused
       else case current_membership s d of None \<Rightarrow> Inl Refused
       | Some m \<Rightarrow>
           if (case scope of None \<Rightarrow> False | Some p \<Rightarrow> \<not> role_holds (mb_role m) p)
           then Inl (Not_permitted ''permission not held now'')
           else if (case tx_expected tx of None \<Rightarrow> False | Some w \<Rightarrow> Some w \<noteq> si_workspace s)
           then Inl Wrong_workspace
           else Inr (s\<lparr>si_role := Some (mb_role m)\<rparr>))"

definition identity_expect_workspace :: "uuid option \<Rightarrow> transaction \<Rightarrow> identity_error + transaction" where
  "identity_expect_workspace w tx =
     and_then (identity_require_session Workspace_mode False tx) (\<lambda>_.
       case w of None \<Rightarrow> Inl (Bad_parameter ''expected workspace'' None)
       | Some x \<Rightarrow> if tx_expected tx \<noteq> None then Inl (Bound_already ''expected workspace'')
           else Inr (tx\<lparr>tx_expected := Some x\<rparr>))"

section \<open>Lifetimes and tokens\<close>

definition min_ttl :: rat where "min_ttl = 60"
definition max_session_ttl :: rat where "max_session_ttl = 30 * 86400"
definition max_token_ttl :: rat where "max_token_ttl = 7 * 86400"
definition max_invitation_ttl :: rat where "max_invitation_ttl = 30 * 86400"

definition identity_require_ttl :: "rat option \<Rightarrow> rat \<Rightarrow> identity_error + rat" where
  "identity_require_ttl ttl maximum =
     (case ttl of None \<Rightarrow> Inl (Bad_parameter ''lifetime'' None)
      | Some t \<Rightarrow> if t < min_ttl \<or> maximum < t then Inl (Bad_parameter ''lifetime'' None) else Inr t)"

text \<open>
  The update that supersedes sees the database \<open>seen\<close>, the insert after it the database \<open>d\<close>: no lock is
  held in between that another issue would wait for.
\<close>

definition identity_issue_token ::
  "'f server \<Rightarrow> rat \<Rightarrow> uuid \<times> nat list \<Rightarrow> uuid \<Rightarrow> identity_kind \<Rightarrow> rat option \<Rightarrow> 'f identity_db
     \<Rightarrow> 'f identity_db \<Rightarrow> identity_error + utext \<times> 'f identity_db" where
  "identity_issue_token V now fresh account kind ttl seen d =
     and_then (identity_require_ttl ttl max_token_ttl) (\<lambda>t.
       if kind \<notin> set token_kinds then Inl (Bad_parameter ''token kind'' None)
       else let secret = identity_mint_secret (identity_secret_prefix kind) (snd fresh)
            in and_then (insert_token \<lparr>tk_id = fst fresh, tk_account = account, tk_kind = kind,
                 tk_fingerprint = sv_sha V secret, tk_created = now, tk_expires = now + t,
                 tk_consumed = None, tk_superseded = None\<rparr>
                 (supersede_tokens now (\<lambda>x. tk_account x = account \<and> tk_kind x = kind \<and>
                    tk_id x \<in> tk_id ` set (tokens seen)) d))
               (\<lambda>d'. Inr (secret, d')))"

section \<open>Idempotent mutations\<close>

text \<open>\<open>secret_shape\<close> and the pattern, of an optional key.\<close>

definition check_key_argument :: "utext option \<Rightarrow> identity_error + unit" where
  "check_key_argument key =
     (case key of None \<Rightarrow> Inr ()
      | Some t \<Rightarrow> if looks_like_secret t \<noteq> None \<or> \<not> full_match idempotency_key_regex t
          then Inl (Bad_parameter ''idempotency key'' None) else Inr ())"

text \<open>\<open>identity_replay\<close>: the claim as the row policy shows it, and the event linked to it.\<close>

definition find_claim :: "auth_context \<Rightarrow> string \<Rightarrow> utext \<Rightarrow> 'f kernel \<Rightarrow> 'f claim_row option" where
  "find_claim cx operation key k =
     find (\<lambda>r. claim_readable cx (defs k) r \<and> cl_operation r = cps operation \<and> cl_key r = key) (claims k)"

definition find_event :: "auth_context \<Rightarrow> uuid \<Rightarrow> 'f kernel \<Rightarrow> uuid option" where
  "find_event cx rid k =
     map_option ob_id (find (\<lambda>e. outbox_readable cx (defs k) e \<and> ob_claim e = Some rid) (outbox k))"

record replayed =
  rp_record :: uuid
  rp_event :: "uuid option"
  rp_result :: jsonb

definition identity_replay ::
  "auth_context \<Rightarrow> string \<Rightarrow> utext option \<Rightarrow> 'f \<Rightarrow> 'f identity_db \<Rightarrow> identity_error + replayed option" where
  "identity_replay cx operation key fp d =
     (case key of None \<Rightarrow> Inr None
      | Some t \<Rightarrow> (case find_claim cx operation t (framework d) of None \<Rightarrow> Inr None
        | Some r \<Rightarrow> if cl_fingerprint r \<noteq> fp then Inl Key_used
            else Inr (Some \<lparr>rp_record = cl_id r, rp_event = find_event cx (cl_id r) (framework d),
              rp_result = cl_result r\<rparr>)))"

text \<open>
  \<open>identity_claim\<close>: with a key, a claim and an event linked to it; without, an event alone. The
  identifiers drawn are those of the claim and of the event.
\<close>

record event_args =
  eg_type :: string
  eg_aggregate_type :: string
  eg_aggregate :: "uuid option"
  eg_attributes :: jsonb

definition identity_claim ::
  "'f server \<Rightarrow> auth_context \<Rightarrow> uuid \<times> uuid \<Rightarrow> string \<Rightarrow> utext option \<Rightarrow> 'f \<Rightarrow> jsonb \<Rightarrow> event_args
     \<Rightarrow> 'f identity_db \<Rightarrow> identity_error + (uuid option \<times> uuid) \<times> 'f identity_db" where
  "identity_claim V cx fresh operation key fp result ev d =
     (case ax_tenant cx of None \<Rightarrow> Inl (Not_permitted ''no tenant context'')
      | Some t \<Rightarrow>
         and_then (case key of None \<Rightarrow> Inr (framework d)
            | Some ky \<Rightarrow> in_kernel (insert_claim (sv_platform V) False cx
                \<lparr>cl_id = fst fresh, cl_tenant = t, cl_operation = cps operation, cl_key = ky,
                 cl_fingerprint = fp, cl_result = result, cl_tag = None\<rparr> (framework d))) (\<lambda>k.
         case eg_aggregate ev of None \<Rightarrow> Inl (Missing_value ''aggregate_id'')
         | Some agg \<Rightarrow>
            and_then (in_kernel (insert_outbox (sv_platform V) False cx
                \<lparr>ob_id = snd fresh, ob_tenant = t, ob_claim = (if key = None then None else Some (fst fresh)),
                 ob_type = cps (eg_type ev), ob_aggregate_type = cps (eg_aggregate_type ev), ob_aggregate = agg,
                 ob_attributes = eg_attributes ev, ob_tag = None\<rparr> k)) (\<lambda>k'.
            Inr ((if key = None then None else Some (fst fresh), snd fresh), d\<lparr>framework := k'\<rparr>))))"

text \<open>The trail.\<close>

definition append_event ::
  "'f server \<Rightarrow> auth_context \<Rightarrow> uuid \<Rightarrow> string \<Rightarrow> string \<Rightarrow> string \<Rightarrow> uuid option \<Rightarrow> jsonb
     \<Rightarrow> 'f identity_db \<Rightarrow> identity_error + 'f identity_db" where
  "append_event V cx aid action outcome rtype rid details d =
     and_then (in_kernel (sql_append_audit_event (sv_platform V) cx aid (Some (cps action)) (Some (cps outcome))
         (Some (cps rtype)) rid None (Some details) (framework d)))
       (\<lambda>k. Inr (d\<lparr>framework := k\<rparr>))"

text \<open>\<open>identity_request_fingerprint\<close> of a descriptor.\<close>

definition identity_request_fingerprint :: "'f server \<Rightarrow> jsonb \<Rightarrow> 'f" where
  "identity_request_fingerprint V descriptor = digest (sv_platform V) descriptor"

definition J_uuid :: "uuid option \<Rightarrow> jsonb" where
  "J_uuid u = J_text u"

definition J_role :: "string option \<Rightarrow> jsonb" where
  "J_role r = (case r of None \<Rightarrow> J_null | Some t \<Rightarrow> J_string (cps t))"

text \<open>Every operation of a workspace begins alike: the session, the scope the cache shows, the key.\<close>

definition scope_cached :: "string \<Rightarrow> transaction \<Rightarrow> identity_error + unit" where
  "scope_cached s tx =
     (if auth_has_scope (tx_cx tx) (Some s) then Inr () else Inl (Not_permitted s))"

end
