(* ===== verification/Identity_Accounts.thy ===== *)
theory Identity_Accounts
  imports Identity_Context
begin

text \<open>
  The account plane: signing up, the two mailbox tokens, login, browser sessions and the password.
  Where a function decides on an earlier read and then inserts or locks, the earlier read sees the
  database \<open>seen\<close> and the rest the database \<open>d\<close>. The values drawn at random are arguments.
\<close>

section \<open>Signing up\<close>

datatype token_reply = Existing | Created uuid utext | Unknown_address | Already_verified | Issued uuid utext

definition create_account ::
  "'f server \<Rightarrow> rat \<Rightarrow> uuid \<Rightarrow> uuid \<times> nat list \<Rightarrow> utext \<Rightarrow> utext \<Rightarrow> utext \<Rightarrow> rat option \<Rightarrow> 'f identity_db
     \<Rightarrow> identity_error + utext \<times> 'f identity_db" where
  "create_account V now i fresh email display hash ttl d =
     and_then (insert_account \<lparr>ac_id = i, ac_email = email, ac_display = display, ac_status = Unverified,
        ac_verified = None, ac_epoch = 0, ac_created = now, ac_updated = now\<rparr> d) (\<lambda>d1.
     and_then (insert_password \<lparr>pw_account = i, pw_hash = hash, pw_updated = now\<rparr> d1) (\<lambda>d2.
     identity_issue_token V now fresh i Email_verification ttl d2 d2))"

definition signup_account ::
  "'f server \<Rightarrow> rat \<Rightarrow> uuid \<Rightarrow> uuid \<times> nat list \<Rightarrow> utext option \<Rightarrow> utext option \<Rightarrow> rat option \<Rightarrow> transaction
     \<Rightarrow> 'f identity_db \<Rightarrow> 'f identity_db \<Rightarrow> identity_error + token_reply \<times> 'f identity_db" where
  "signup_account V now i fresh address hash ttl tx seen d =
     and_then (entry_checks tx) (\<lambda>_.
     case identity_normalize_email V address of None \<Rightarrow> Inl (Bad_parameter ''email'' None)
     | Some email \<Rightarrow>
       if \<not> stored_hash hash then Inl (Bad_parameter ''password hash'' None)
       else and_then (identity_require_ttl ttl max_token_ttl) (\<lambda>_.
         if email \<in> ac_email ` set (accounts seen) then Inr (Existing, d)
         else case create_account V now i fresh email (btrim V (the address)) (the hash) ttl d of
             Inr (secret, d') \<Rightarrow> Inr (Created i secret, d')
           | Inl e \<Rightarrow> if is_unique_violation e then Inr (Existing, d) else Inl e))"

section \<open>Mailbox tokens\<close>

definition find_address :: "utext \<Rightarrow> 'f identity_db \<Rightarrow> account_row option" where
  "find_address email d = find (\<lambda>a. ac_email a = email) (accounts d)"

definition request_email_verification ::
  "'f server \<Rightarrow> rat \<Rightarrow> uuid \<times> nat list \<Rightarrow> utext option \<Rightarrow> rat option \<Rightarrow> transaction \<Rightarrow> 'f identity_db
     \<Rightarrow> 'f identity_db \<Rightarrow> identity_error + token_reply \<times> 'f identity_db" where
  "request_email_verification V now fresh address ttl tx seen d =
     and_then (entry_checks tx) (\<lambda>_.
     case identity_normalize_email V address of None \<Rightarrow> Inr (Unknown_address, d)
     | Some email \<Rightarrow> and_then (identity_require_ttl ttl max_token_ttl) (\<lambda>_.
         case find_address email d of None \<Rightarrow> Inr (Unknown_address, d)
         | Some a \<Rightarrow> if ac_status a = Active then Inr (Already_verified, d)
             else and_then (identity_issue_token V now fresh (ac_id a) Email_verification ttl seen d)
               (\<lambda>(secret, d'). Inr (Issued (ac_id a) secret, d'))))"

definition request_account_recovery ::
  "'f server \<Rightarrow> rat \<Rightarrow> uuid \<times> nat list \<Rightarrow> utext option \<Rightarrow> rat option \<Rightarrow> transaction \<Rightarrow> 'f identity_db
     \<Rightarrow> 'f identity_db \<Rightarrow> identity_error + token_reply \<times> 'f identity_db" where
  "request_account_recovery V now fresh address ttl tx seen d =
     and_then (entry_checks tx) (\<lambda>_.
     case identity_normalize_email V address of None \<Rightarrow> Inr (Unknown_address, d)
     | Some email \<Rightarrow> and_then (identity_require_ttl ttl max_token_ttl) (\<lambda>_.
         case find_address email d of None \<Rightarrow> Inr (Unknown_address, d)
         | Some a \<Rightarrow> and_then (identity_issue_token V now fresh (ac_id a) Account_recovery ttl seen d)
               (\<lambda>(secret, d'). Inr (Issued (ac_id a) secret, d'))))"

text \<open>The token a secret names, and whether it may still be used.\<close>

definition find_token :: "'f \<Rightarrow> identity_kind \<Rightarrow> 'f identity_db \<Rightarrow> 'f token_row option" where
  "find_token fp kind d = find (\<lambda>t. tk_fingerprint t = fp \<and> tk_kind t = kind) (tokens d)"

definition usable_token :: "rat \<Rightarrow> 'f token_row \<Rightarrow> bool" where
  "usable_token now t \<longleftrightarrow> live_token t \<and> now < tk_expires t"

text \<open>
  The account-plane order: the token is read to learn the account, the account row is locked, and
  the token is read again under it.
\<close>

definition locked_token ::
  "'f server \<Rightarrow> rat \<Rightarrow> utext option \<Rightarrow> identity_kind \<Rightarrow> 'f identity_db \<Rightarrow> 'f identity_db \<Rightarrow> 'f token_row option" where
  "locked_token V now secret kind seen d =
     (case secret of None \<Rightarrow> None
      | Some s \<Rightarrow> if s = [] then None
          else (case find_token (sv_sha V s) kind seen of None \<Rightarrow> None
            | Some t0 \<Rightarrow> if find_account (tk_account t0) d = None then None
                else (case find (\<lambda>t. tk_fingerprint t = sv_sha V s \<and> tk_kind t = kind \<and>
                        tk_account t = tk_account t0) (tokens d) of None \<Rightarrow> None
                  | Some t \<Rightarrow> if usable_token now t then Some t else None)))"

definition activated :: "rat \<Rightarrow> account_row \<Rightarrow> account_row" where
  "activated now a = a\<lparr>ac_status := Active,
     ac_verified := Some (case ac_verified a of None \<Rightarrow> now | Some t \<Rightarrow> t), ac_updated := now\<rparr>"

definition next_epoch :: "rat \<Rightarrow> account_row \<Rightarrow> account_row" where
  "next_epoch now a = a\<lparr>ac_epoch := ac_epoch a + 1, ac_updated := now\<rparr>"

definition verify_account_email ::
  "'f server \<Rightarrow> rat \<Rightarrow> utext option \<Rightarrow> transaction \<Rightarrow> 'f identity_db \<Rightarrow> 'f identity_db
     \<Rightarrow> identity_error + bool \<times> 'f identity_db" where
  "verify_account_email V now secret tx seen d =
     and_then (entry_checks tx) (\<lambda>_.
     case locked_token V now secret Email_verification seen d of None \<Rightarrow> Inr (False, d)
     | Some t \<Rightarrow> Inr (True, amend_account (tk_account t) (activated now) (consume_token now (tk_id t) d)))"

text \<open>What a recovery and a password change end: tokens, issued credentials and sessions.\<close>

definition end_authority :: "rat \<Rightarrow> uuid \<Rightarrow> 'f identity_db \<Rightarrow> 'f identity_db" where
  "end_authority now a d =
     revoke_browsers now (\<lambda>s. bs_account s = a)
      (revoke_bindings now (\<lambda>b. ab_principal b = a \<and> ab_membership b \<noteq> None) d)"

definition replace_password :: "rat \<Rightarrow> uuid \<Rightarrow> utext \<Rightarrow> 'f identity_db \<Rightarrow> 'f identity_db" where
  "replace_password now a hash d =
     d\<lparr>passwords := update_where (\<lambda>p. pw_account p = a) (\<lambda>p. p\<lparr>pw_hash := hash, pw_updated := now\<rparr>) (passwords d)\<rparr>"

definition complete_account_recovery ::
  "'f server \<Rightarrow> rat \<Rightarrow> utext option \<Rightarrow> utext option \<Rightarrow> transaction \<Rightarrow> 'f identity_db \<Rightarrow> 'f identity_db
     \<Rightarrow> identity_error + bool \<times> 'f identity_db" where
  "complete_account_recovery V now secret hash tx seen d =
     and_then (entry_checks tx) (\<lambda>_.
     if \<not> stored_hash hash then Inl (Bad_parameter ''password hash'' None)
     else case locked_token V now secret Account_recovery seen d of None \<Rightarrow> Inr (False, d)
     | Some t \<Rightarrow> (let a = tk_account t in
         Inr (True, end_authority now a
           (amend_account a (next_epoch now \<circ> activated now)
            (replace_password now a (the hash)
             (supersede_tokens now (\<lambda>x. tk_account x = a) (consume_token now (tk_id t) d)))))))"

definition account_recovery_token_valid :: "'f server \<Rightarrow> rat \<Rightarrow> utext option \<Rightarrow> 'f identity_db \<Rightarrow> bool" where
  "account_recovery_token_valid V now secret d \<longleftrightarrow>
     (case secret of None \<Rightarrow> False
      | Some s \<Rightarrow> s \<noteq> [] \<and> (\<exists>t \<in> set (tokens d). tk_fingerprint t = sv_sha V s \<and>
          tk_kind t = Account_recovery \<and> usable_token now t))"

section \<open>Reclaiming unverified accounts\<close>

text \<open>The cascade trigger on deletion, and the foreign keys that clear a reference.\<close>

definition delete_memberships :: "rat \<Rightarrow> (membership_row \<Rightarrow> bool) \<Rightarrow> 'f identity_db \<Rightarrow> 'f identity_db" where
  "delete_memberships now p d =
     (let gone = (\<lambda>m t. \<exists>x \<in> set (memberships d). p x \<and> m = Some (mb_id x) \<and> (t = None \<or> t = Some (mb_tenant x)))
      in d\<lparr>bindings := update_where (\<lambda>b. gone (ab_membership b) (Some (ab_tenant b)))
             (\<lambda>b. b\<lparr>ab_revoked := Some (case ab_revoked b of None \<Rightarrow> now | Some t \<Rightarrow> t),
                ab_membership := None, ab_workspace := None\<rparr>) (bindings d),
           browsers := update_where (\<lambda>s. gone (bs_membership s) None) unbound (browsers d),
           invitations := update_where (\<lambda>i. gone (iv_membership i) (Some (iv_tenant i)))
             (\<lambda>i. i\<lparr>iv_membership := None\<rparr>) (invitations d),
           memberships := filter (Not \<circ> p) (memberships d)\<rparr>)"

definition forget :: "uuid set \<Rightarrow> uuid option \<Rightarrow> uuid option" where
  "forget gone a = (case a of None \<Rightarrow> None | Some x \<Rightarrow> if x \<in> gone then None else Some x)"

definition delete_accounts :: "rat \<Rightarrow> uuid set \<Rightarrow> 'f identity_db \<Rightarrow> 'f identity_db" where
  "delete_accounts now gone d =
     (let d1 = delete_memberships now (\<lambda>m. mb_account m \<in> gone) d
      in d1\<lparr>accounts := filter (\<lambda>a. ac_id a \<notin> gone) (accounts d1),
           passwords := filter (\<lambda>p. pw_account p \<notin> gone) (passwords d1),
           tokens := filter (\<lambda>t. tk_account t \<notin> gone) (tokens d1),
           browsers := filter (\<lambda>s. bs_account s \<notin> gone) (browsers d1),
           memberships := map (\<lambda>m. m\<lparr>mb_inviter := forget gone (mb_inviter m),
             mb_revoker := forget gone (mb_revoker m)\<rparr>) (memberships d1),
           invitations := map (\<lambda>i. i\<lparr>iv_inviter := forget gone (iv_inviter i)\<rparr>) (invitations d1)\<rparr>)"

definition expired_unverified :: "rat \<Rightarrow> 'f identity_db \<Rightarrow> account_row \<Rightarrow> bool" where
  "expired_unverified cutoff d a \<longleftrightarrow> ac_status a = Unverified \<and> ac_created a < cutoff \<and>
     \<not> (\<exists>m \<in> set (memberships d). mb_account m = ac_id a \<and> mb_revoked m = None)"

definition purge_expired_unverified_accounts ::
  "rat \<Rightarrow> rat option \<Rightarrow> transaction \<Rightarrow> 'f identity_db \<Rightarrow> identity_error + nat \<times> 'f identity_db" where
  "purge_expired_unverified_accounts now age tx d =
     and_then (auth_require_writable_primary tx) (\<lambda>_.
     case age of None \<Rightarrow> Inl (Bad_parameter ''reclaim age'' None)
     | Some t \<Rightarrow>
       if t < min_ttl then Inl (Bad_parameter ''reclaim age'' None)
       else let doomed = filter (expired_unverified (now - t) d) (accounts d); gone = ac_id ` set doomed
            in if \<exists>c \<in> set (account_claims d). aq_account c \<in> gone then Inl (Conflict ''append-only'')
               else Inr (length doomed, delete_accounts now gone d))"

section \<open>Login\<close>

record login_reply =
  lg_account :: "uuid option"
  lg_hash :: "utext option"
  lg_verified :: bool

definition password_of :: "uuid \<Rightarrow> 'f identity_db \<Rightarrow> utext option" where
  "password_of a d = map_option pw_hash (find (\<lambda>p. pw_account p = a) (passwords d))"

definition challenge :: "context_kind \<Rightarrow> uuid option \<Rightarrow> uuid option \<Rightarrow> int option \<Rightarrow> identity_context" where
  "challenge kind account session epoch = \<lparr>ic_kind = kind, ic_account = account, ic_session = session,
     ic_workspace = None, ic_tenant = None, ic_membership = None, ic_role = None, ic_csrf = False,
     ic_epoch = epoch\<rparr>"

text \<open>The hash and the epoch come from one statement, and the challenge carries both the account and the epoch.\<close>

definition login_lookup ::
  "'f server \<Rightarrow> utext option \<Rightarrow> transaction \<Rightarrow> 'f identity_db \<Rightarrow> identity_error + login_reply \<times> transaction" where
  "login_lookup V address tx d =
     and_then (entry_checks tx) (\<lambda>_.
     let hit = (case identity_normalize_email V address of None \<Rightarrow> None
           | Some email \<Rightarrow> (case find_address email d of None \<Rightarrow> None
               | Some a \<Rightarrow> (case password_of (ac_id a) d of None \<Rightarrow> None | Some h \<Rightarrow> Some (a, h))))
     in and_then (identity_context_write (challenge Login_challenge (map_option (ac_id \<circ> fst) hit) None
            (map_option (ac_epoch \<circ> fst) hit)) tx) (\<lambda>tx'.
        Inr (\<lparr>lg_account = map_option (ac_id \<circ> fst) hit, lg_hash = map_option snd hit,
           lg_verified = (case hit of None \<Rightarrow> False | Some (a, h) \<Rightarrow> ac_status a = Active)\<rparr>, tx')))"

record opened =
  op_session :: uuid
  op_account :: uuid
  op_secret :: utext
  op_csrf :: utext
  op_expires :: rat

text \<open>The epoch of the challenge must still be the account's, under the lock on its row.\<close>

definition same_epoch :: "uuid \<Rightarrow> int option \<Rightarrow> 'f identity_db \<Rightarrow> bool" where
  "same_epoch a e d \<longleftrightarrow> (case find_account a d of None \<Rightarrow> False
     | Some x \<Rightarrow> ac_status x = Active \<and> e = Some (ac_epoch x))"

definition mint_session ::
  "'f server \<Rightarrow> rat \<Rightarrow> rat \<Rightarrow> uuid \<times> nat list \<times> nat list \<Rightarrow> uuid \<Rightarrow> 'f identity_db
     \<Rightarrow> identity_error + opened \<times> 'f identity_db" where
  "mint_session V now ttl fresh a d =
     (case fresh of (i, bytes, csrf_bytes) \<Rightarrow>
      let secret = identity_mint_secret (identity_secret_prefix Session) bytes;
          csrf = identity_mint_secret (identity_secret_prefix Csrf) csrf_bytes
      in and_then (insert_browser \<lparr>bs_id = i, bs_account = a, bs_fingerprint = sv_sha V secret,
            bs_csrf = sv_sha V csrf, bs_created = now, bs_expires = now + ttl, bs_seen = None,
            bs_revoked = None, bs_workspace = None, bs_tenant = None, bs_membership = None, bs_bound = None\<rparr> d)
          (\<lambda>d'. Inr (\<lparr>op_session = i, op_account = a, op_secret = secret, op_csrf = csrf,
             op_expires = now + ttl\<rparr>, d')))"

definition open_browser_session ::
  "'f server \<Rightarrow> rat \<Rightarrow> rat option \<Rightarrow> uuid \<times> nat list \<times> nat list \<Rightarrow> transaction \<Rightarrow> 'f identity_db
     \<Rightarrow> identity_error + opened \<times> 'f identity_db" where
  "open_browser_session V now ttl fresh tx d =
     and_then (entry_checks tx) (\<lambda>_.
     and_then (identity_require_ttl ttl max_session_ttl) (\<lambda>t.
     case tx_identity tx of None \<Rightarrow> Inl (Session_context ''no login challenge'')
     | Some c \<Rightarrow>
       if ic_kind c \<noteq> Login_challenge then Inl (Session_context ''no login challenge'')
       else case ic_account c of None \<Rightarrow> Inl Refused
       | Some a \<Rightarrow> if \<not> same_epoch a (ic_epoch c) d then Inl Refused
           else mint_session V now t fresh a d))"

section \<open>Browser sessions\<close>

record bound_reply =
  br_session :: uuid
  br_account :: uuid
  br_email :: utext
  br_verified :: bool
  br_workspace :: "uuid option"
  br_tenant :: "uuid option"
  br_membership :: "uuid option"
  br_role :: "string option"
  br_expires :: rat
  br_csrf :: bool

definition find_browser :: "'f \<Rightarrow> 'f identity_db \<Rightarrow> 'f browser_row option" where
  "find_browser fp d = find (\<lambda>s. bs_fingerprint s = fp \<and> find_account (bs_account s) d \<noteq> None) (browsers d)"

definition live_browser :: "rat \<Rightarrow> 'f browser_row \<Rightarrow> bool" where
  "live_browser now s \<longleftrightarrow> bs_revoked s = None \<and> now < bs_expires s"

text \<open>A presented CSRF secret must be this session's.\<close>

definition csrf_matches :: "'f server \<Rightarrow> utext option \<Rightarrow> 'f browser_row \<Rightarrow> bool" where
  "csrf_matches V csrf s \<longleftrightarrow> (case csrf of None \<Rightarrow> True | Some c \<Rightarrow> c \<noteq> [] \<and> bs_csrf s = sv_sha V c)"

text \<open>The membership behind the binding, as it is now.\<close>

definition bound_membership :: "'f browser_row \<Rightarrow> 'f identity_db \<Rightarrow> membership_row option" where
  "bound_membership s d =
     (if bs_workspace s = None then None
      else find (\<lambda>m. Some (mb_id m) = bs_membership s \<and> Some (mb_tenant m) = bs_tenant s \<and>
        Some (mb_workspace m) = bs_workspace s \<and> mb_account m = bs_account s \<and> mb_revoked m = None)
        (memberships d))"

definition session_context_of :: "'f browser_row \<Rightarrow> membership_row option \<Rightarrow> bool \<Rightarrow> identity_context" where
  "session_context_of s m csrf = \<lparr>ic_kind = Session_bound, ic_account = Some (bs_account s),
     ic_session = Some (bs_id s), ic_workspace = map_option mb_workspace m, ic_tenant = map_option mb_tenant m,
     ic_membership = map_option mb_id m, ic_role = map_option mb_role m, ic_csrf = csrf, ic_epoch = None\<rparr>"

definition touch_browser :: "rat \<Rightarrow> uuid \<Rightarrow> 'f identity_db \<Rightarrow> 'f identity_db" where
  "touch_browser now i d =
     d\<lparr>browsers := update_where (\<lambda>s. bs_id s = i) (\<lambda>s. s\<lparr>bs_seen := Some now\<rparr>) (browsers d)\<rparr>"

text \<open>The workspace context of a session: its account as principal, no binding, its role's scopes.\<close>

definition begin_member_context :: "membership_row \<Rightarrow> uuid \<Rightarrow> transaction \<Rightarrow> identity_error + transaction" where
  "begin_member_context m a tx =
     auth_context_begin None (mb_tenant m) (Some a) ''session'' (scopes_of (mb_role m)) tx"

definition bind_session_context ::
  "'f server \<Rightarrow> rat \<Rightarrow> utext option \<Rightarrow> utext option \<Rightarrow> session_mode option \<Rightarrow> transaction \<Rightarrow> 'f identity_db
     \<Rightarrow> identity_error + bound_reply \<times> 'f identity_db \<times> transaction" where
  "bind_session_context V now secret csrf mode tx d =
     and_then (entry_checks tx) (\<lambda>_.
     case mode of None \<Rightarrow> Inl (Bad_parameter ''mode'' None)
     | Some md \<Rightarrow>
       (case (case secret of None \<Rightarrow> None | Some s \<Rightarrow> if s = [] then None else find_browser (sv_sha V s) d) of
          None \<Rightarrow> Inl Refused
        | Some s \<Rightarrow>
          if \<not> live_browser now s \<or> \<not> csrf_matches V csrf s then Inl Refused
          else let m = bound_membership s d;
                   active = account_active (bs_account s) d;
                   d1 = (if bs_workspace s \<noteq> None \<and> m = None then unbind_browsers (\<lambda>x. bs_id x = bs_id s) d else d)
               in if md = Workspace_mode \<and> (m = None \<or> \<not> active) then Inl Refused
                  else and_then (case md of Account_mode \<Rightarrow> Inr tx
                      | Workspace_mode \<Rightarrow> begin_member_context (the m) (bs_account s) tx) (\<lambda>tx1.
                    and_then (identity_context_write (session_context_of s m (csrf \<noteq> None)) tx1) (\<lambda>tx2.
                    Inr (\<lparr>br_session = bs_id s, br_account = bs_account s,
                       br_email = (case find_account (bs_account s) d of None \<Rightarrow> [] | Some a \<Rightarrow> ac_display a),
                       br_verified = active, br_workspace = map_option mb_workspace m,
                       br_tenant = map_option mb_tenant m, br_membership = map_option mb_id m,
                       br_role = map_option mb_role m, br_expires = bs_expires s, br_csrf = (csrf \<noteq> None)\<rparr>,
                      touch_browser now (bs_id s) d1, tx2)))))"

definition account_profile ::
  "transaction \<Rightarrow> 'f identity_db \<Rightarrow> identity_error + (uuid \<times> utext \<times> bool \<times> rat) option" where
  "account_profile tx d =
     and_then (identity_require_session Account_mode False tx) (\<lambda>s.
       Inr (map_option (\<lambda>a. (ac_id a, ac_display a, ac_status a = Active, ac_created a))
         (find_account (si_account s) d)))"

text \<open>\<open>ORDER BY created_at, id\<close>: two stable sorts. No fingerprint is among the columns.\<close>

definition ordered_by :: "('r \<Rightarrow> rat) \<Rightarrow> ('r \<Rightarrow> uuid) \<Rightarrow> 'r list \<Rightarrow> 'r list" where
  "ordered_by created i rows = sort_key created (sort_key i rows)"

record session_summary =
  ss_session :: uuid
  ss_created :: rat
  ss_seen :: "rat option"
  ss_expires :: rat
  ss_workspace :: "uuid option"
  ss_current :: bool

definition account_sessions ::
  "rat \<Rightarrow> transaction \<Rightarrow> 'f identity_db \<Rightarrow> identity_error + session_summary list" where
  "account_sessions now tx d =
     and_then (identity_require_session Account_mode False tx) (\<lambda>s.
       Inr (map (\<lambda>x. \<lparr>ss_session = bs_id x, ss_created = bs_created x, ss_seen = bs_seen x,
            ss_expires = bs_expires x, ss_workspace = bs_workspace x, ss_current = (bs_id x = si_session s)\<rparr>)
         (ordered_by bs_created bs_id
           (filter (\<lambda>x. bs_account x = si_account s \<and> live_browser now x) (browsers d)))))"

definition revoke_browser_session ::
  "rat \<Rightarrow> uuid option \<Rightarrow> transaction \<Rightarrow> 'f identity_db \<Rightarrow> identity_error + bool \<times> 'f identity_db" where
  "revoke_browser_session now i tx d =
     and_then (identity_require_session Account_mode True tx) (\<lambda>s.
       let hit = (\<lambda>x. Some (bs_id x) = i \<and> bs_account x = si_account s)
       in Inr (\<exists>x \<in> set (browsers d). hit x \<and> bs_revoked x = None, revoke_browsers now hit d))"

definition revoke_all_browser_sessions ::
  "rat \<Rightarrow> bool \<Rightarrow> transaction \<Rightarrow> 'f identity_db \<Rightarrow> identity_error + nat \<times> 'f identity_db" where
  "revoke_all_browser_sessions now keep tx d =
     and_then (identity_require_session Account_mode True tx) (\<lambda>s.
       let hit = (\<lambda>x. bs_account x = si_account s \<and> (\<not> keep \<or> bs_id x \<noteq> si_session s))
       in Inr (length (filter (\<lambda>x. hit x \<and> bs_revoked x = None) (browsers d)), revoke_browsers now hit d))"

section \<open>Changing the password\<close>

definition password_change_lookup ::
  "rat \<Rightarrow> uuid option \<Rightarrow> uuid option \<Rightarrow> transaction \<Rightarrow> 'f identity_db
     \<Rightarrow> identity_error + utext option \<times> transaction" where
  "password_change_lookup now account session tx d =
     and_then (entry_checks tx) (\<lambda>_.
     case (account, session) of
       (Some a, Some s) \<Rightarrow>
         if account_active a d \<and> (\<exists>x \<in> set (browsers d). bs_id x = s \<and> bs_account x = a \<and> live_browser now x)
         then and_then (identity_context_write (challenge Password_challenge (Some a) (Some s)
                (map_option ac_epoch (find_account a d))) tx) (\<lambda>tx'. Inr (password_of a d, tx'))
         else Inl Refused
     | _ \<Rightarrow> Inl Refused)"

text \<open>The replacement of the hash is a compare-and-swap on the hash that was verified.\<close>

definition change_account_password ::
  "'f server \<Rightarrow> rat \<Rightarrow> utext option \<Rightarrow> utext option \<Rightarrow> rat option \<Rightarrow> uuid \<times> nat list \<times> nat list \<Rightarrow> transaction
     \<Rightarrow> 'f identity_db \<Rightarrow> identity_error + opened \<times> 'f identity_db" where
  "change_account_password V now expected hash ttl fresh tx d =
     and_then (entry_checks tx) (\<lambda>_.
     and_then (identity_require_ttl ttl max_session_ttl) (\<lambda>t.
     if \<not> stored_hash hash then Inl (Bad_parameter ''password hash'' None)
     else case tx_identity tx of None \<Rightarrow> Inl (Session_context ''no password challenge'')
     | Some c \<Rightarrow>
       if ic_kind c \<noteq> Password_challenge then Inl (Session_context ''no password challenge'')
       else case ic_account c of None \<Rightarrow> Inl (Session_context ''no password challenge'')
       | Some a \<Rightarrow> if \<not> same_epoch a (ic_epoch c) d then Inl Refused
           else if expected = None \<or> password_of a d \<noteq> expected then Inl (Conflict ''password changed'')
           else mint_session V now t fresh a
             (end_authority now a (amend_account a (next_epoch now)
               (replace_password now a (the hash) (supersede_tokens now (\<lambda>x. tk_account x = a) d))))))"

end
