(* ===== verification/Identity_Workspaces.thy ===== *)
theory Identity_Workspaces
  imports Identity_Accounts
begin

text \<open>
  Workspaces, memberships and invitations. The account-level operations act in a transaction bound
  in account mode and acquire the tenant's context themselves; the workspace-level ones first take
  the workspace lock and revalidate the caller's membership. Every operation writes one event, its
  audit record and, with a key, its claim.
\<close>

section \<open>Choosing a workspace\<close>

record workspace_summary =
  wm_workspace :: uuid
  wm_tenant :: uuid
  wm_slug :: utext
  wm_name :: utext
  wm_role :: string
  wm_membership :: uuid
  wm_joined :: rat

definition account_workspaces ::
  "transaction \<Rightarrow> 'f identity_db \<Rightarrow> identity_error + workspace_summary list" where
  "account_workspaces tx d =
     and_then (identity_require_session Account_mode False tx) (\<lambda>s.
       Inr (concat (map (\<lambda>m. map (\<lambda>w. \<lparr>wm_workspace = mb_workspace m, wm_tenant = mb_tenant m,
              wm_slug = ws_slug w, wm_name = ws_name w, wm_role = mb_role m, wm_membership = mb_id m,
              wm_joined = mb_created m\<rparr>)
            (filter (\<lambda>w. ws_id w = mb_workspace m \<and> ws_tenant w = mb_tenant m) (directory d)))
          (ordered_by mb_created mb_id
            (filter (\<lambda>m. mb_account m = si_account s \<and> mb_revoked m = None) (memberships d))))))"

record workspace_binding =
  wb_workspace :: uuid
  wb_tenant :: uuid
  wb_membership :: uuid
  wb_role :: string

definition bind_browser :: "rat \<Rightarrow> uuid \<Rightarrow> membership_row \<Rightarrow> 'f identity_db \<Rightarrow> 'f identity_db" where
  "bind_browser now i m d =
     d\<lparr>browsers := update_where (\<lambda>s. bs_id s = i \<and> bs_revoked s = None)
        (\<lambda>s. s\<lparr>bs_workspace := Some (mb_workspace m), bs_tenant := Some (mb_tenant m),
           bs_membership := Some (mb_id m), bs_bound := Some now\<rparr>) (browsers d)\<rparr>"

definition bind_session_workspace ::
  "'f server \<Rightarrow> rat \<Rightarrow> uuid \<Rightarrow> uuid option \<Rightarrow> transaction \<Rightarrow> 'f identity_db
     \<Rightarrow> identity_error + workspace_binding \<times> 'f identity_db \<times> transaction" where
  "bind_session_workspace V now aid w tx d =
     and_then (identity_require_session Account_mode True tx) (\<lambda>s.
     if \<not> account_active (si_account s) d then Inl Refused
     else case w of None \<Rightarrow> Inl Refused
     | Some x \<Rightarrow> (case find (active_in x (si_account s)) (memberships d) of None \<Rightarrow> Inl Refused
       | Some m \<Rightarrow>
           and_then (begin_member_context m (si_account s) tx) (\<lambda>tx'.
           and_then (append_event V (tx_cx tx') aid ''session.bound'' ''succeeded'' ''browser_session''
               (Some (si_session s)) (J_object [field ''workspace_id'' (J_string x),
                  field ''membership_id'' (J_string (mb_id m)), field ''role'' (J_string (cps (mb_role m)))])
               (bind_browser now (si_session s) m d)) (\<lambda>d'.
           Inr (\<lparr>wb_workspace = x, wb_tenant = mb_tenant m, wb_membership = mb_id m, wb_role = mb_role m\<rparr>,
             d', tx')))))"

definition unbind_session_workspace ::
  "transaction \<Rightarrow> 'f identity_db \<Rightarrow> identity_error + bool \<times> 'f identity_db" where
  "unbind_session_workspace tx d =
     and_then (identity_require_session Account_mode True tx) (\<lambda>s.
       let hit = (\<lambda>x. bs_id x = si_session s \<and> bs_revoked x = None \<and> bs_workspace x \<noteq> None)
       in Inr (\<exists>x \<in> set (browsers d). hit x, unbind_browsers hit d))"

section \<open>Checked text\<close>

definition check_slug :: "utext option \<Rightarrow> identity_error + utext" where
  "check_slug p =
     (case p of None \<Rightarrow> Inl (Bad_parameter ''workspace slug'' None)
      | Some t \<Rightarrow> if looks_like_secret t \<noteq> None then Inl (Bad_parameter ''workspace slug'' (looks_like_secret t))
          else if \<not> slug_regex t then Inl (Bad_parameter ''workspace slug'' None) else Inr t)"

definition check_name :: "utext option \<Rightarrow> identity_error + utext" where
  "check_name p =
     (case p of None \<Rightarrow> Inl (Bad_parameter ''workspace name'' None)
      | Some t \<Rightarrow> if looks_like_secret t \<noteq> None then Inl (Bad_parameter ''workspace name'' (looks_like_secret t))
          else if \<not> length_between 1 name_max_length t then Inl (Bad_parameter ''workspace name'' None)
          else Inr t)"

section \<open>Creating a workspace\<close>

text \<open>
  What an account-level operation replays: the stored document, its identifiers and, for an accepted
  invitation, the role; \<open>create_workspace\<close> has no such column.
\<close>

record membership_reply =
  jr_workspace :: "uuid option"
  jr_tenant :: "uuid option"
  jr_membership :: "uuid option"
  jr_role :: "utext option"
  jr_event :: "uuid option"
  jr_record :: "uuid option"
  jr_replayed :: bool

definition find_account_claim ::
  "uuid \<Rightarrow> string \<Rightarrow> utext option \<Rightarrow> 'f identity_db \<Rightarrow> 'f account_claim option" where
  "find_account_claim a operation key d =
     (case key of None \<Rightarrow> None
      | Some t \<Rightarrow> find (\<lambda>c. aq_account c = a \<and> aq_operation c = cps operation \<and> aq_key c = t) (account_claims d))"

definition replay_account_claim :: "'f \<Rightarrow> 'f account_claim \<Rightarrow> identity_error + membership_reply" where
  "replay_account_claim fp c =
     (if aq_fingerprint c \<noteq> fp then Inl Key_used
      else let r = aq_result c in Inr \<lparr>jr_workspace = get_text r ''workspace_id'', jr_tenant = get_text r ''tenant_id'',
         jr_membership = get_text r ''membership_id'', jr_role = get_text r ''role'', jr_event = get_text r ''event_id'',
         jr_record = get_text r ''record_id'', jr_replayed = True\<rparr>)"

text \<open>\<open>v_result || jsonb_build_object(...)\<close>: the stored document, with the event and the claim.\<close>

definition member_result :: "membership_row \<Rightarrow> (utext \<times> jsonb) list" where
  "member_result m = [field ''workspace_id'' (J_string (mb_workspace m)), field ''tenant_id'' (J_string (mb_tenant m)),
     field ''membership_id'' (J_string (mb_id m))]"

definition keep_account_claim ::
  "'f server \<Rightarrow> uuid \<Rightarrow> string \<Rightarrow> utext option \<Rightarrow> 'f \<Rightarrow> (utext \<times> jsonb) list \<Rightarrow> uuid option \<times> uuid
     \<Rightarrow> 'f identity_db \<Rightarrow> identity_error + 'f identity_db" where
  "keep_account_claim V a operation key fp result written d =
     (case key of None \<Rightarrow> Inr d
      | Some t \<Rightarrow> insert_account_claim V \<lparr>aq_account = a, aq_operation = cps operation, aq_key = t,
          aq_fingerprint = fp, aq_result = J_object (result @ [field ''event_id'' (J_string (snd written)),
            field ''record_id'' (J_uuid (fst written))])\<rparr> d)"

definition member_reply :: "membership_row \<Rightarrow> uuid option \<times> uuid \<Rightarrow> membership_reply" where
  "member_reply m written = \<lparr>jr_workspace = Some (mb_workspace m), jr_tenant = Some (mb_tenant m),
     jr_membership = Some (mb_id m), jr_role = Some (cps (mb_role m)), jr_event = Some (snd written),
     jr_record = fst written, jr_replayed = False\<rparr>"

text \<open>
  \<open>EXCEPTION WHEN unique_violation\<close>: the block is rolled back, its context included, and the winner's
  result is returned if there is one.
\<close>

definition after_lost_race ::
  "'f \<Rightarrow> 'f account_claim option \<Rightarrow> identity_error \<Rightarrow> transaction \<Rightarrow> 'f identity_db
     \<Rightarrow> identity_error + membership_reply \<times> 'f identity_db \<times> transaction" where
  "after_lost_race fp winner e tx d =
     (if \<not> is_unique_violation e then Inl e
      else case winner of None \<Rightarrow> Inl e
      | Some c \<Rightarrow> and_then (replay_account_claim fp c) (\<lambda>r. Inr (r, d, tx)))"

record workspace_ids =
  wi_tenant :: uuid
  wi_workspace :: uuid
  wi_membership :: uuid
  wi_claim :: uuid
  wi_event :: uuid
  wi_audit :: uuid
  wi_slug :: utext

definition new_membership :: "rat \<Rightarrow> uuid \<Rightarrow> uuid \<Rightarrow> uuid \<Rightarrow> uuid \<Rightarrow> string \<Rightarrow> uuid option \<Rightarrow> membership_row" where
  "new_membership now i t w a r inviter = \<lparr>mb_id = i, mb_tenant = t, mb_workspace = w, mb_account = a, mb_role = r,
     mb_inviter = inviter, mb_created = now, mb_updated = now, mb_revoked = None, mb_revoker = None\<rparr>"

text \<open>\<open>'ws-' || left(replace(uuid, '-', ''), 20)\<close>.\<close>

definition tenant_slug :: "utext \<Rightarrow> utext" where
  "tenant_slug u = cps ''ws-'' @ take 20 (filter (\<lambda>c. c \<noteq> 45) u)"

definition provision_workspace ::
  "'f server \<Rightarrow> rat \<Rightarrow> workspace_ids \<Rightarrow> session_info \<Rightarrow> utext \<Rightarrow> utext \<Rightarrow> utext option \<Rightarrow> 'f \<Rightarrow> transaction
     \<Rightarrow> 'f identity_db \<Rightarrow> identity_error + membership_reply \<times> 'f identity_db \<times> transaction" where
  "provision_workspace V now ids s slug name key fp tx d =
     (let t = wi_tenant ids; w = wi_workspace ids; a = si_account s;
          m = new_membership now (wi_membership ids) t w a ''owner'' None;
          details = [field ''slug'' (J_string slug), field ''membership_id'' (J_string (mb_id m))]
      in and_then (auth_context_begin None t (Some a) ''session''
            (scopes_of ''owner'' @ [scope_value Tenant_provision]) tx) (\<lambda>tx1. let cx = tx_cx tx1 in
         and_then (insert_tenant cx \<lparr>tn_id = t, tn_slug = tenant_slug (wi_slug ids), tn_name = name\<rparr> d) (\<lambda>d1.
         and_then (insert_workspace cx \<lparr>ws_id = w, ws_tenant = t, ws_slug = slug, ws_name = name,
            ws_updated = now\<rparr> d1) (\<lambda>d2.
         and_then (insert_membership m d2) (\<lambda>d3.
         and_then (identity_claim V cx (wi_claim ids, wi_event ids) ''workspace.create'' key fp
            (J_object (member_result m)) \<lparr>eg_type = ''workspace.created'', eg_aggregate_type = ''workspace'',
              eg_aggregate = Some w, eg_attributes = J_object details\<rparr> d3) (\<lambda>(written, d4).
         and_then (keep_account_claim V a ''workspace.create'' key fp (member_result m) written d4) (\<lambda>d5.
         and_then (append_event V cx (wi_audit ids) ''workspace.created'' ''succeeded'' ''workspace'' (Some w)
            (J_object (details @ [field ''role'' (J_string (cps ''owner'')),
               field ''session_id'' (J_string (si_session s))])) d5) (\<lambda>d6.
         and_then (identity_context_narrow (scopes_of ''owner'') tx1) (\<lambda>tx2.
         Inr ((member_reply m written)\<lparr>jr_role := None\<rparr>, d6, tx2))))))))))"

definition create_descriptor :: "uuid \<Rightarrow> utext \<Rightarrow> utext \<Rightarrow> jsonb" where
  "create_descriptor a slug name = J_object [field ''account'' (J_string a),
     field ''operation'' (J_string (cps ''workspace.create'')), field ''slug'' (J_string slug),
     field ''name'' (J_string name)]"

definition create_workspace ::
  "'f server \<Rightarrow> rat \<Rightarrow> workspace_ids \<Rightarrow> utext option \<Rightarrow> utext option \<Rightarrow> utext option \<Rightarrow> transaction
     \<Rightarrow> 'f identity_db \<Rightarrow> 'f identity_db \<Rightarrow> identity_error + membership_reply \<times> 'f identity_db \<times> transaction" where
  "create_workspace V now ids slug name key tx seen d =
     and_then (identity_require_session Account_mode True tx) (\<lambda>s.
     if \<not> account_active (si_account s) seen then Inl (Not_permitted ''verified account'')
     else and_then (check_slug slug) (\<lambda>sl.
     and_then (check_name name) (\<lambda>nm.
     and_then (check_key_argument key) (\<lambda>_.
     let a = si_account s; fp = identity_request_fingerprint V (create_descriptor a sl nm)
     in case find_account_claim a ''workspace.create'' key seen of
          Some c \<Rightarrow> and_then (replay_account_claim fp c) (\<lambda>r. Inr (r, d, tx))
        | None \<Rightarrow> (case provision_workspace V now ids s sl nm key fp tx d of
            Inr r \<Rightarrow> Inr r
          | Inl e \<Rightarrow> after_lost_race fp (find_account_claim a ''workspace.create'' key d) e tx d)))))"

section \<open>Renaming\<close>

record change_reply =
  cg_target :: uuid
  cg_value :: "utext option"
  cg_event :: "uuid option"
  cg_record :: "uuid option"
  cg_replayed :: bool

record op_ids =
  oi_claim :: uuid
  oi_event :: uuid
  oi_audit :: uuid

text \<open>
  Claim, event and audit record of a workspace operation, under the context of the session.
\<close>

definition record_operation ::
  "'f server \<Rightarrow> op_ids \<Rightarrow> auth_context \<Rightarrow> string \<Rightarrow> utext option \<Rightarrow> 'f \<Rightarrow> jsonb \<Rightarrow> event_args
     \<Rightarrow> string \<Rightarrow> uuid option \<Rightarrow> jsonb \<Rightarrow> 'f identity_db \<Rightarrow> identity_error + (uuid option \<times> uuid) \<times> 'f identity_db" where
  "record_operation V ids cx operation key fp result ev outcome resource details d =
     and_then (identity_claim V cx (oi_claim ids, oi_event ids) operation key fp result ev d) (\<lambda>(written, d1).
     and_then (append_event V cx (oi_audit ids) (eg_type ev) outcome (eg_aggregate_type ev) resource details d1)
       (\<lambda>d2. Inr (written, d2)))"

definition workspace_descriptor :: "session_info \<Rightarrow> string \<Rightarrow> (utext \<times> jsonb) list \<Rightarrow> jsonb" where
  "workspace_descriptor s operation extra = J_object ([field ''tenant'' (J_uuid (si_tenant s)),
     field ''operation'' (J_string (cps operation)), field ''workspace'' (J_uuid (si_workspace s))] @ extra)"

definition rename_workspace ::
  "'f server \<Rightarrow> rat \<Rightarrow> op_ids \<Rightarrow> utext option \<Rightarrow> utext option \<Rightarrow> transaction \<Rightarrow> 'f identity_db
     \<Rightarrow> identity_error + change_reply \<times> 'f identity_db" where
  "rename_workspace V now ids name key tx d =
     and_then (identity_require_session Workspace_mode True tx) (\<lambda>s0.
     and_then (scope_cached (scope_value Workspace_write) tx) (\<lambda>_.
     and_then (check_name name) (\<lambda>nm.
     and_then (check_key_argument key) (\<lambda>_.
     and_then (workspace_membership_authority (Some (scope_value Workspace_write)) True tx d) (\<lambda>s.
     let fp = identity_request_fingerprint V (workspace_descriptor s0 ''workspace.rename'' [field ''name'' (J_string nm)]);
         w = the (si_workspace s)
     in and_then (identity_replay (tx_cx tx) ''workspace.rename'' key fp d) (\<lambda>rp.
        case rp of Some p \<Rightarrow> Inr (\<lparr>cg_target = w, cg_value = get_text (rp_result p) ''name'', cg_event = rp_event p,
             cg_record = Some (rp_record p), cg_replayed = True\<rparr>, d)
        | None \<Rightarrow>
            let hit = (\<lambda>x. ws_id x = w \<and> Some (ws_tenant x) = si_tenant s \<and> workspace_writable (tx_cx tx) x)
            in if \<not> (\<exists>x \<in> set (workspaces d). hit x) then Inl Refused
               else if \<exists>x \<in> set (workspaces d). Some (ws_tenant x) = si_tenant s \<and> ws_name x = nm \<and> \<not> hit x
               then Inl (duplicates ''uq_workspaces_tenant_id_name'')
               else let ren = (\<lambda>x. x\<lparr>ws_name := nm, ws_updated := now\<rparr>);
                        d1 = d\<lparr>workspaces := update_where hit ren (workspaces d),
                          directory := fold (\<lambda>x. sync_directory (ren x)) (filter hit (workspaces d)) (directory d)\<rparr>
                    in and_then (record_operation V ids (tx_cx tx) ''workspace.rename'' key fp
                         (J_object [field ''workspace_id'' (J_string w), field ''name'' (J_string nm)])
                         \<lparr>eg_type = ''workspace.renamed'', eg_aggregate_type = ''workspace'', eg_aggregate = Some w,
                          eg_attributes = J_object [field ''name'' (J_string nm)]\<rparr> ''succeeded'' (Some w)
                         (J_object [field ''name'' (J_string nm), field ''session_id'' (J_string (si_session s))]) d1)
                       (\<lambda>(written, d2). Inr (\<lparr>cg_target = w, cg_value = Some nm, cg_event = Some (snd written),
                          cg_record = fst written, cg_replayed = False\<rparr>, d2))))))))"

end
