(* ===== verification/Identity_Members.thy ===== *)
theory Identity_Members
  imports Identity_Workspaces
begin

text \<open>
  Members and invitations: listing, removing, changing a role, inviting, revoking an invitation and
  accepting one.
\<close>

section \<open>Members\<close>

record member_summary =
  mv_membership :: uuid
  mv_account :: uuid
  mv_email :: utext
  mv_role :: string
  mv_created :: rat

definition workspace_memberships ::
  "transaction \<Rightarrow> 'f identity_db \<Rightarrow> identity_error + member_summary list" where
  "workspace_memberships tx d =
     and_then (workspace_membership_authority (Some ''membership:read'') False tx d) (\<lambda>s.
       Inr (concat (map (\<lambda>m. (case find_account (mb_account m) d of None \<Rightarrow> []
            | Some a \<Rightarrow> [\<lparr>mv_membership = mb_id m, mv_account = mb_account m, mv_email = ac_display a,
                mv_role = mb_role m, mv_created = mb_created m\<rparr>]))
          (ordered_by mb_created mb_id
            (filter (\<lambda>m. Some (mb_workspace m) = si_workspace s \<and> Some (mb_tenant m) = si_tenant s \<and>
               mb_revoked m = None) (memberships d))))))"

text \<open>The active membership a caller names, in its own workspace.\<close>

definition find_member :: "uuid option \<Rightarrow> session_info \<Rightarrow> 'f identity_db \<Rightarrow> membership_row option" where
  "find_member i s d =
     find (\<lambda>m. Some (mb_id m) = i \<and> Some (mb_workspace m) = si_workspace s \<and> Some (mb_tenant m) = si_tenant s \<and>
        mb_revoked m = None) (memberships d)"

definition last_owner :: "membership_row \<Rightarrow> 'f identity_db \<Rightarrow> bool" where
  "last_owner m d \<longleftrightarrow> mb_role m = ''owner'' \<and> identity_active_owner_count (mb_workspace m) (mb_tenant m) d \<le> 1"

definition manage :: string where "manage = permission_value Membership_manage"

text \<open>
  A manager's operation: the bound session with its CSRF proof, the cached scope, the arguments, the
  key, the revalidated membership, then the replay.
\<close>

definition manager_entry ::
  "string \<Rightarrow> (identity_error + 'a) \<Rightarrow> utext option \<Rightarrow> transaction \<Rightarrow> 'f identity_db
     \<Rightarrow> identity_error + session_info \<times> 'a" where
  "manager_entry scope args key tx d =
     and_then (identity_require_session Workspace_mode True tx) (\<lambda>_.
     and_then (scope_cached scope tx) (\<lambda>_.
     and_then args (\<lambda>x.
     and_then (check_key_argument key) (\<lambda>_.
     and_then (workspace_membership_authority (Some scope) True tx d) (\<lambda>s. Inr (s, x))))))"

definition remove_membership ::
  "'f server \<Rightarrow> rat \<Rightarrow> op_ids \<Rightarrow> uuid option \<Rightarrow> utext option \<Rightarrow> transaction \<Rightarrow> 'f identity_db
     \<Rightarrow> identity_error + change_reply \<times> 'f identity_db" where
  "remove_membership V now ids target key tx d =
     and_then (manager_entry manage (Inr ()) key tx d) (\<lambda>(s, _).
     let fp = identity_request_fingerprint V (workspace_descriptor s ''membership.remove''
                [field ''membership'' (J_uuid target)])
     in and_then (identity_replay (tx_cx tx) ''membership.remove'' key fp d) (\<lambda>rp.
        case rp of Some p \<Rightarrow> Inr (\<lparr>cg_target = the target, cg_value = None, cg_event = rp_event p,
             cg_record = Some (rp_record p), cg_replayed = True\<rparr>, d)
        | None \<Rightarrow> (case find_member target s d of None \<Rightarrow> Inl Refused
          | Some m \<Rightarrow>
             if mb_role m = ''owner'' \<and> si_role s \<noteq> Some ''owner'' then Inl (Not_permitted ''only an owner'')
             else if last_owner m d then Inl (Conflict ''last owner'')
             else and_then (record_operation V ids (tx_cx tx) ''membership.remove'' key fp
                    (J_object [field ''membership_id'' (J_string (mb_id m))])
                    \<lparr>eg_type = ''membership.revoked'', eg_aggregate_type = ''membership'', eg_aggregate = Some (mb_id m),
                     eg_attributes = J_object [field ''role'' (J_string (cps (mb_role m)))]\<rparr>
                    ''succeeded'' (Some (mb_id m))
                    (J_object [field ''role'' (J_string (cps (mb_role m))),
                       field ''account_id'' (J_string (mb_account m)), field ''session_id'' (J_string (si_session s))])
                    (revoke_membership now (si_account s) m d)) (\<lambda>(written, d').
                  Inr (\<lparr>cg_target = mb_id m, cg_value = None, cg_event = Some (snd written),
                     cg_record = fst written, cg_replayed = False\<rparr>, d')))))"

text \<open>A demotion revokes what the membership issued; a promotion leaves it.\<close>

definition keeps_scopes :: "string \<Rightarrow> string \<Rightarrow> bool" where
  "keeps_scopes old new \<longleftrightarrow> length (scopes_of old) \<le> length (scopes_of new) \<and> set (scopes_of old) \<subseteq> set (scopes_of new)"

definition apply_role :: "rat \<Rightarrow> string \<Rightarrow> membership_row \<Rightarrow> 'f identity_db \<Rightarrow> 'f identity_db" where
  "apply_role now r m d =
     (let d1 = assign_role now r m d
      in if keeps_scopes (mb_role m) r then d1
         else revoke_bindings now (\<lambda>b. ab_membership b = Some (mb_id m) \<and> ab_tenant b = mb_tenant m) d1)"

definition role_argument :: "utext option \<Rightarrow> identity_error + string" where
  "role_argument p = (case known_role p of None \<Rightarrow> Inl (Bad_parameter ''membership role'' None) | Some r \<Rightarrow> Inr r)"

definition change_membership_role ::
  "'f server \<Rightarrow> rat \<Rightarrow> op_ids \<Rightarrow> uuid option \<Rightarrow> utext option \<Rightarrow> utext option \<Rightarrow> transaction \<Rightarrow> 'f identity_db
     \<Rightarrow> identity_error + change_reply \<times> 'f identity_db" where
  "change_membership_role V now ids target role key tx d =
     and_then (manager_entry manage (role_argument role) key tx d) (\<lambda>(s, r).
     let fp = identity_request_fingerprint V (workspace_descriptor s ''membership.change_role''
                [field ''membership'' (J_uuid target), field ''role'' (J_string (cps r))])
     in and_then (identity_replay (tx_cx tx) ''membership.change_role'' key fp d) (\<lambda>rp.
        case rp of Some p \<Rightarrow> Inr (\<lparr>cg_target = the target, cg_value = Some (cps r), cg_event = rp_event p,
             cg_record = Some (rp_record p), cg_replayed = True\<rparr>, d)
        | None \<Rightarrow> (case find_member target s d of None \<Rightarrow> Inl Refused
          | Some m \<Rightarrow>
             if (mb_role m = ''owner'' \<or> r = ''owner'') \<and> si_role s \<noteq> Some ''owner''
             then Inl (Not_permitted ''only an owner'')
             else if r \<noteq> ''owner'' \<and> last_owner m d then Inl (Conflict ''last owner'')
             else and_then (record_operation V ids (tx_cx tx) ''membership.change_role'' key fp
                    (J_object [field ''membership_id'' (J_string (mb_id m)), field ''role'' (J_string (cps r))])
                    \<lparr>eg_type = ''membership.role_changed'', eg_aggregate_type = ''membership'',
                     eg_aggregate = Some (mb_id m), eg_attributes = J_object [field ''role'' (J_string (cps r)),
                       field ''previous_role'' (J_string (cps (mb_role m)))]\<rparr> ''succeeded'' (Some (mb_id m))
                    (J_object [field ''role'' (J_string (cps r)), field ''previous_role'' (J_string (cps (mb_role m))),
                       field ''account_id'' (J_string (mb_account m)), field ''session_id'' (J_string (si_session s))])
                    (apply_role now r m d)) (\<lambda>(written, d').
                  Inr (\<lparr>cg_target = mb_id m, cg_value = Some (cps r), cg_event = Some (snd written),
                     cg_record = fst written, cg_replayed = False\<rparr>, d')))))"

section \<open>Invitations\<close>

record invitation_reply =
  vr_invitation :: "uuid option"
  vr_secret :: "utext option"
  vr_expires :: "rat option"
  vr_event :: "uuid option"
  vr_record :: "uuid option"
  vr_replayed :: bool

text \<open>
  The expiry in the stored result is PostgreSQL's text of a timestamp, here the number itself.
\<close>

definition J_time :: "rat option \<Rightarrow> jsonb" where
  "J_time t = (case t of None \<Rightarrow> J_null | Some x \<Rightarrow> J_number x)"

definition get_time :: "jsonb \<Rightarrow> string \<Rightarrow> rat option" where
  "get_time d key = (case jsonb_get d key of Some (J_number x) \<Rightarrow> Some x | _ \<Rightarrow> None)"

definition member_address :: "utext \<Rightarrow> session_info \<Rightarrow> 'f identity_db \<Rightarrow> membership_row \<Rightarrow> bool" where
  "member_address email s d m \<longleftrightarrow> Some (mb_workspace m) = si_workspace s \<and> Some (mb_tenant m) = si_tenant s \<and>
     mb_revoked m = None \<and> (\<exists>a \<in> set (accounts d). ac_id a = mb_account m \<and> ac_email a = email)"

definition pending_here :: "utext \<Rightarrow> session_info \<Rightarrow> 'f invitation_row \<Rightarrow> bool" where
  "pending_here email s i \<longleftrightarrow> Some (iv_workspace i) = si_workspace s \<and> Some (iv_tenant i) = si_tenant s \<and>
     iv_email i = email \<and> iv_accepted i = None \<and> iv_revoked i = None"

definition revoke_invitations ::
  "rat \<Rightarrow> ('f invitation_row \<Rightarrow> bool) \<Rightarrow> 'f identity_db \<Rightarrow> 'f identity_db" where
  "revoke_invitations now p d =
     d\<lparr>invitations := update_where p (\<lambda>i. i\<lparr>iv_revoked := Some now\<rparr>) (invitations d)\<rparr>"

definition invitation_arguments ::
  "'f server \<Rightarrow> utext option \<Rightarrow> utext option \<Rightarrow> rat option \<Rightarrow> identity_error + utext \<times> string \<times> rat" where
  "invitation_arguments V address role ttl =
     (case identity_normalize_email V address of None \<Rightarrow> Inl (Bad_parameter ''email'' None)
      | Some email \<Rightarrow> and_then (role_argument role) (\<lambda>r.
          and_then (identity_require_ttl ttl max_invitation_ttl) (\<lambda>t. Inr (email, r, t))))"

definition create_invitation ::
  "'f server \<Rightarrow> rat \<Rightarrow> op_ids \<Rightarrow> uuid \<times> nat list \<Rightarrow> utext option \<Rightarrow> utext option \<Rightarrow> rat option \<Rightarrow> utext option
     \<Rightarrow> transaction \<Rightarrow> 'f identity_db \<Rightarrow> identity_error + invitation_reply \<times> 'f identity_db" where
  "create_invitation V now ids fresh address role ttl key tx d =
     and_then (manager_entry manage (invitation_arguments V address role ttl) key tx d) (\<lambda>(s, email, r, t).
     if r = ''owner'' \<and> si_role s \<noteq> Some ''owner'' then Inl (Not_permitted ''only an owner'')
     else let fp = identity_request_fingerprint V (workspace_descriptor s ''invitation.create''
                [field ''email'' (J_string email), field ''role'' (J_string (cps r))])
     in and_then (identity_replay (tx_cx tx) ''invitation.create'' key fp d) (\<lambda>rp.
        case rp of Some p \<Rightarrow> Inr (\<lparr>vr_invitation = get_text (rp_result p) ''invitation_id'', vr_secret = None,
             vr_expires = get_time (rp_result p) ''expires_at'', vr_event = rp_event p,
             vr_record = Some (rp_record p), vr_replayed = True\<rparr>, d)
        | None \<Rightarrow>
          if \<exists>m \<in> set (memberships d). member_address email s d m then Inl (Conflict ''already a member'')
          else let d1 = revoke_invitations now (\<lambda>i. pending_here email s i \<and> iv_expires i \<le> now) d
          in if \<exists>i \<in> set (invitations d1). pending_here email s i then Inl (Conflict ''pending invitation'')
          else let secret = identity_mint_secret (identity_secret_prefix Invitation) (snd fresh);
                   row = \<lparr>iv_id = fst fresh, iv_tenant = the (si_tenant s), iv_workspace = the (si_workspace s),
                     iv_email = email, iv_role = r, iv_fingerprint = sv_sha V secret, iv_inviter = Some (si_account s),
                     iv_created = now, iv_expires = now + t, iv_accepted = None, iv_membership = None,
                     iv_revoked = None\<rparr>
          in and_then (insert_invitation row d1) (\<lambda>d2.
             and_then (record_operation V ids (tx_cx tx) ''invitation.create'' key fp
                (J_object [field ''invitation_id'' (J_string (iv_id row)), field ''role'' (J_string (cps r)),
                   field ''expires_at'' (J_time (Some (now + t)))])
                \<lparr>eg_type = ''invitation.created'', eg_aggregate_type = ''workspace_invitation'',
                 eg_aggregate = Some (iv_id row), eg_attributes = J_object [field ''role'' (J_string (cps r))]\<rparr>
                ''succeeded'' (Some (iv_id row)) (J_object [field ''role'' (J_string (cps r)),
                   field ''session_id'' (J_string (si_session s))]) d2) (\<lambda>(written, d3).
             Inr (\<lparr>vr_invitation = Some (iv_id row), vr_secret = Some secret, vr_expires = Some (now + t),
                vr_event = Some (snd written), vr_record = fst written, vr_replayed = False\<rparr>, d3)))))"

record revocation_reply =
  rv_revoked :: bool
  rv_event :: "uuid option"
  rv_record :: "uuid option"
  rv_replayed :: bool

definition get_bool :: "jsonb \<Rightarrow> string \<Rightarrow> bool" where
  "get_bool d key \<longleftrightarrow> jsonb_get d key = Some (J_bool True)"

text \<open>
  The end of a revocation of an invitation or a credential: the claim, the event, and an audit record
  that says whether anything was revoked and names the target only then.
\<close>

definition record_revocation ::
  "'f server \<Rightarrow> op_ids \<Rightarrow> auth_context \<Rightarrow> string \<Rightarrow> utext option \<Rightarrow> 'f \<Rightarrow> string \<Rightarrow> string \<Rightarrow> uuid option
     \<Rightarrow> session_info \<Rightarrow> bool \<Rightarrow> 'f identity_db \<Rightarrow> identity_error + revocation_reply \<times> 'f identity_db" where
  "record_revocation V ids cx operation key fp type rtype target s hit d =
     and_then (record_operation V ids cx operation key fp (J_object [field ''revoked'' (J_bool hit)])
        \<lparr>eg_type = type, eg_aggregate_type = rtype, eg_aggregate = target,
         eg_attributes = J_object [field ''revoked'' (J_bool hit)]\<rparr>
        (if hit then ''succeeded'' else ''failed'') (if hit then target else None)
        (J_object [field ''session_id'' (J_string (si_session s))]) d) (\<lambda>(written, d').
      Inr (\<lparr>rv_revoked = hit, rv_event = Some (snd written), rv_record = fst written, rv_replayed = False\<rparr>, d'))"

definition replayed_revocation :: "replayed \<Rightarrow> revocation_reply" where
  "replayed_revocation p = \<lparr>rv_revoked = get_bool (rp_result p) ''revoked'', rv_event = rp_event p,
     rv_record = Some (rp_record p), rv_replayed = True\<rparr>"

definition revoke_invitation ::
  "'f server \<Rightarrow> rat \<Rightarrow> op_ids \<Rightarrow> uuid option \<Rightarrow> utext option \<Rightarrow> transaction \<Rightarrow> 'f identity_db
     \<Rightarrow> identity_error + revocation_reply \<times> 'f identity_db" where
  "revoke_invitation V now ids target key tx d =
     and_then (manager_entry manage (Inr ()) key tx d) (\<lambda>(s, _).
     let fp = identity_request_fingerprint V (workspace_descriptor s ''invitation.revoke''
                [field ''invitation'' (J_uuid target)])
     in and_then (identity_replay (tx_cx tx) ''invitation.revoke'' key fp d) (\<lambda>rp.
        case rp of Some p \<Rightarrow> Inr (replayed_revocation p, d)
        | None \<Rightarrow>
            let hit = (\<lambda>i. Some (iv_id i) = target \<and> Some (iv_workspace i) = si_workspace s \<and>
                   Some (iv_tenant i) = si_tenant s \<and> iv_accepted i = None \<and> iv_revoked i = None)
            in record_revocation V ids (tx_cx tx) ''invitation.revoke'' key fp ''invitation.revoked''
                 ''workspace_invitation'' target s (\<exists>i \<in> set (invitations d). hit i) (revoke_invitations now hit d)))"

datatype invitation_standing = Accepted | Revoked_invitation | Expired | Pending

definition invitation_status :: "rat \<Rightarrow> 'f invitation_row \<Rightarrow> invitation_standing" where
  "invitation_status now i =
     (if iv_accepted i \<noteq> None then Accepted else if iv_revoked i \<noteq> None then Revoked_invitation
      else if iv_expires i \<le> now then Expired else Pending)"

record invitation_summary =
  vs_invitation :: uuid
  vs_email :: utext
  vs_role :: string
  vs_created :: rat
  vs_expires :: rat
  vs_status :: invitation_standing

definition workspace_invitations ::
  "rat \<Rightarrow> transaction \<Rightarrow> 'f identity_db \<Rightarrow> identity_error + invitation_summary list" where
  "workspace_invitations now tx d =
     and_then (workspace_membership_authority (Some manage) False tx d) (\<lambda>s.
       Inr (map (\<lambda>i. \<lparr>vs_invitation = iv_id i, vs_email = iv_email i, vs_role = iv_role i,
            vs_created = iv_created i, vs_expires = iv_expires i, vs_status = invitation_status now i\<rparr>)
         (ordered_by iv_created iv_id (filter (\<lambda>i. Some (iv_workspace i) = si_workspace s \<and>
            Some (iv_tenant i) = si_tenant s) (invitations d)))))"

section \<open>Accepting an invitation\<close>

record accept_ids =
  ci_membership :: uuid
  ci_claim :: uuid
  ci_event :: uuid
  ci_audit :: uuid

text \<open>What the caller may accept: addressed to it, neither used, revoked nor expired.\<close>

definition acceptable :: "rat \<Rightarrow> account_row \<Rightarrow> 'f invitation_row \<Rightarrow> bool" where
  "acceptable now a i \<longleftrightarrow> iv_email i = ac_email a \<and> iv_accepted i = None \<and> iv_revoked i = None \<and> now < iv_expires i"

text \<open>The claim and the event need \<open>mutation:execute\<close>, which is taken away again at the end.\<close>

definition with_mutation :: "string list \<Rightarrow> string list" where
  "with_mutation ss = (if mutation_scope \<in> set ss then ss else ss @ [mutation_scope])"

definition join_workspace ::
  "'f server \<Rightarrow> rat \<Rightarrow> accept_ids \<Rightarrow> session_info \<Rightarrow> 'f invitation_row \<Rightarrow> utext option \<Rightarrow> 'f \<Rightarrow> transaction
     \<Rightarrow> 'f identity_db \<Rightarrow> identity_error + membership_reply \<times> 'f identity_db \<times> transaction" where
  "join_workspace V now ids s i key fp tx d =
     (let a = si_account s;
          m = new_membership now (ci_membership ids) (iv_tenant i) (iv_workspace i) a (iv_role i) (iv_inviter i);
          result = member_result m @ [field ''role'' (J_string (cps (mb_role m)))];
          details = [field ''role'' (J_string (cps (mb_role m))), field ''invitation_id'' (J_string (iv_id i))]
      in and_then (auth_context_begin None (iv_tenant i) (Some a) ''session'' (with_mutation (scopes_of (iv_role i))) tx)
           (\<lambda>tx1. let cx = tx_cx tx1 in
         and_then (insert_membership m d) (\<lambda>d1.
         let d2 = d1\<lparr>invitations := update_where (\<lambda>x. iv_id x = iv_id i)
               (\<lambda>x. x\<lparr>iv_accepted := Some now, iv_membership := Some (mb_id m)\<rparr>) (invitations d1)\<rparr> in
         and_then (identity_claim V cx (ci_claim ids, ci_event ids) ''invitation.accept'' key fp (J_object result)
            \<lparr>eg_type = ''membership.created'', eg_aggregate_type = ''membership'', eg_aggregate = Some (mb_id m),
             eg_attributes = J_object details\<rparr> d2) (\<lambda>(written, d3).
         and_then (keep_account_claim V a ''invitation.accept'' key fp result written d3) (\<lambda>d4.
         and_then (append_event V cx (ci_audit ids) ''membership.created'' ''succeeded'' ''membership'' (Some (mb_id m))
            (J_object (details @ [field ''session_id'' (J_string (si_session s))])) d4) (\<lambda>d5.
         and_then (identity_context_narrow (scopes_of (iv_role i)) tx1) (\<lambda>tx2.
         Inr (member_reply m written, d5, tx2))))))))"

definition accept_descriptor :: "('f \<Rightarrow> jsonb) \<Rightarrow> uuid \<Rightarrow> 'f \<Rightarrow> jsonb" where
  "accept_descriptor hex a fp = J_object [field ''account'' (J_string a),
     field ''operation'' (J_string (cps ''invitation.accept'')), field ''invitation_fingerprint'' (hex fp)]"

text \<open>
  The row of the invitation is locked before anything is decided, so it is read from \<open>d\<close>; the
  membership and the claim are read before the block that may lose a race.
\<close>

definition accept_invitation ::
  "'f server \<Rightarrow> ('f \<Rightarrow> jsonb) \<Rightarrow> rat \<Rightarrow> accept_ids \<Rightarrow> utext option \<Rightarrow> utext option \<Rightarrow> transaction
     \<Rightarrow> 'f identity_db \<Rightarrow> 'f identity_db \<Rightarrow> identity_error + membership_reply \<times> 'f identity_db \<times> transaction" where
  "accept_invitation V hex now ids secret key tx seen d =
     and_then (identity_require_session Account_mode True tx) (\<lambda>s.
     case find_account (si_account s) d of None \<Rightarrow> Inl (Not_permitted ''verified account'')
     | Some a \<Rightarrow>
       if ac_status a \<noteq> Active then Inl (Not_permitted ''verified account'')
       else and_then (check_key_argument key) (\<lambda>_.
       let sec = (case secret of None \<Rightarrow> [] | Some t \<Rightarrow> t);
           fp = identity_request_fingerprint V (accept_descriptor hex (ac_id a) (sv_sha V sec));
           hit = (if sec = [] then None else find (\<lambda>i. iv_fingerprint i = sv_sha V sec) (invitations d))
       in case find_account_claim (ac_id a) ''invitation.accept'' key seen of
            Some c \<Rightarrow> and_then (replay_account_claim fp c) (\<lambda>r. Inr (r, d, tx))
          | None \<Rightarrow> (case hit of None \<Rightarrow> Inl Refused
            | Some i \<Rightarrow>
               if \<not> acceptable now a i then Inl Refused
               else if \<exists>m \<in> set (memberships seen). active_in (iv_workspace i) (ac_id a) m \<and> mb_tenant m = iv_tenant i
               then Inl (Conflict ''already a member'')
               else (case join_workspace V now ids s i key fp tx d of
                   Inr r \<Rightarrow> Inr r
                 | Inl e \<Rightarrow> after_lost_race fp (find_account_claim (ac_id a) ''invitation.accept'' key d) e tx d))))"

end
