(* ===== verification/Identity_Credentials.thy ===== *)
theory Identity_Credentials
  imports Identity_Members
begin

text \<open>
  API credentials: those a member issues from its membership (migration \<open>0005\<close>), those of the
  provisioning path and of \<open>credential:manage\<close> (\<open>0003\<close>), and the authentication of either as \<open>0005\<close>
  leaves it. A secret is minted here and never an argument.
\<close>

section \<open>Requested scopes\<close>

text \<open>
  The argument is an array whose elements may be \<open>NULL\<close>; \<open>COUNT(DISTINCT s)\<close> skips those, so an array
  with one counts as repeating.
\<close>

definition distinct_count :: "utext option list \<Rightarrow> nat" where
  "distinct_count ss = length (remdups (filter (\<lambda>s. s \<noteq> None) ss))"

definition requested_scopes :: "utext option list option \<Rightarrow> utext option list" where
  "requested_scopes p = (case p of None \<Rightarrow> [] | Some ss \<Rightarrow> ss)"

definition known_scope :: "utext option \<Rightarrow> string option" where
  "known_scope p = (case p of None \<Rightarrow> None | Some t \<Rightarrow> find (\<lambda>s. cps s = t) known_scopes)"

text \<open>One element of the loop of \<open>issue_api_credential\<close>, under the role \<open>r\<close> as it is now.\<close>

definition issuable :: "string \<Rightarrow> utext option \<Rightarrow> identity_error + string" where
  "issuable r p =
     (case known_scope p of None \<Rightarrow> Inl (Bad_parameter ''scope catalogue'' None)
      | Some s \<Rightarrow> if s \<notin> set sql_issuable_scopes then Inl (Not_permitted ''session only'')
          else if \<not> role_holds r s then Inl (Not_permitted ''exceeds the membership'') else Inr s)"

definition check_label :: "utext option \<Rightarrow> identity_error + unit" where
  "check_label p =
     (case p of None \<Rightarrow> Inr ()
      | Some t \<Rightarrow> if looks_like_secret t \<noteq> None then Inl (Bad_parameter ''label'' (looks_like_secret t))
          else if \<not> length_between 1 label_max_length t then Inl (Bad_parameter ''label'' None) else Inr ())"

definition check_expiry :: "rat \<Rightarrow> rat option \<Rightarrow> identity_error + unit" where
  "check_expiry now p =
     (case p of None \<Rightarrow> Inr () | Some e \<Rightarrow> if e \<le> now then Inl (Bad_parameter ''expiry'' None) else Inr ())"

definition issue_arguments ::
  "rat \<Rightarrow> utext option list option \<Rightarrow> rat option \<Rightarrow> utext option \<Rightarrow> identity_error + utext option list" where
  "issue_arguments now scopes expires label =
     (let req = requested_scopes scopes
      in if length req > max_scopes_per_binding \<or> length req \<noteq> distinct_count req
         then Inl (Bad_parameter ''scope set'' None)
         else and_then (check_label label) (\<lambda>_. and_then (check_expiry now expires) (\<lambda>_. Inr req)))"

section \<open>Issuing\<close>

record credential_reply =
  cd_binding :: "uuid option"
  cd_secret :: "utext option"
  cd_scopes :: "string list"
  cd_expires :: "rat option"
  cd_rotated :: "uuid option"
  cd_event :: "uuid option"
  cd_record :: "uuid option"
  cd_replayed :: bool

definition issue_scope :: string where "issue_scope = permission_value Credential_issue"

definition epoch_of :: "uuid \<Rightarrow> 'f identity_db \<Rightarrow> int option" where
  "epoch_of a d = map_option ac_epoch (find_account a d)"

definition J_strings :: "string list \<Rightarrow> jsonb" where
  "J_strings ss = J_array (map (\<lambda>s. J_string (cps s)) ss)"

text \<open>
  The row of a credential of the session's membership, before its secret is drawn. The epoch is read
  by a statement of its own, without a lock on the account: \<open>seen\<close> is the database it saw.
\<close>

definition member_binding ::
  "'f server \<Rightarrow> rat \<Rightarrow> session_info \<Rightarrow> string list \<Rightarrow> rat option \<Rightarrow> utext option \<Rightarrow> uuid option \<Rightarrow> 'f identity_db
     \<Rightarrow> 'f binding_row" where
  "member_binding V now s scopes expires label rotated seen =
     \<lparr>ab_id = [], ab_tenant = the (si_tenant s), ab_principal = si_account s, ab_fingerprint = sv_sha V [],
      ab_scopes = scopes, ab_created = now, ab_expires = expires, ab_revoked = None,
      ab_membership = si_membership s, ab_workspace = si_workspace s, ab_label = label, ab_used = None,
      ab_rotated = rotated, ab_epoch = epoch_of (si_account s) seen\<rparr>"

definition issue_api_credential ::
  "'f server \<Rightarrow> rat \<Rightarrow> op_ids \<Rightarrow> (uuid \<times> nat list) list \<Rightarrow> utext option list option \<Rightarrow> rat option \<Rightarrow> utext option
     \<Rightarrow> utext option \<Rightarrow> transaction \<Rightarrow> 'f identity_db \<Rightarrow> 'f identity_db
     \<Rightarrow> identity_error + credential_reply \<times> 'f identity_db" where
  "issue_api_credential V now ids fresh scopes expires label key tx seen d =
     and_then (manager_entry issue_scope (issue_arguments now scopes expires label) key tx d) (\<lambda>(s, req).
     and_then (seq_map (issuable (the (si_role s))) req) (\<lambda>named.
     let granted = sort named;
         fp = identity_request_fingerprint V (J_object [field ''tenant'' (J_uuid (si_tenant s)),
                field ''operation'' (J_string (cps ''credential.issue'')),
                field ''membership'' (J_uuid (si_membership s)), field ''scopes'' (J_strings granted),
                field ''label'' (J_text label), field ''expires_at'' (J_time expires)])
     in and_then (identity_replay (tx_cx tx) ''credential.issue'' key fp d) (\<lambda>rp.
        case rp of Some p \<Rightarrow> Inr (\<lparr>cd_binding = get_text (rp_result p) ''binding_id'', cd_secret = None,
             cd_scopes = granted, cd_expires = get_time (rp_result p) ''expires_at'', cd_rotated = None,
             cd_event = rp_event p, cd_record = Some (rp_record p), cd_replayed = True\<rparr>, d)
        | None \<Rightarrow>
            and_then (mint_binding V (member_binding V now s granted expires label None seen) (take 3 fresh) d)
              (\<lambda>((i, secret), d1).
            and_then (record_operation V ids (tx_cx tx) ''credential.issue'' key fp
               (J_object [field ''binding_id'' (J_string i), field ''scope_count'' (J_int (int (length granted))),
                  field ''expires_at'' (J_time expires)])
               \<lparr>eg_type = ''credential.issued'', eg_aggregate_type = ''api_credential'', eg_aggregate = Some i,
                eg_attributes = J_object [field ''membership_id'' (J_uuid (si_membership s)),
                  field ''scope_count'' (J_int (int (length granted)))]\<rparr> ''succeeded'' (Some i)
               (J_object [field ''membership_id'' (J_uuid (si_membership s)),
                  field ''scope_count'' (J_int (int (length granted))), field ''expires'' (J_bool (expires \<noteq> None)),
                  field ''session_id'' (J_string (si_session s))]) d1) (\<lambda>(written, d2).
            Inr (\<lparr>cd_binding = Some i, cd_secret = Some secret, cd_scopes = granted, cd_expires = expires,
               cd_rotated = None, cd_event = Some (snd written), cd_record = fst written, cd_replayed = False\<rparr>,
              d2))))))"

section \<open>Rotating and revoking\<close>

definition credential_live :: "rat \<Rightarrow> 'f binding_row \<Rightarrow> bool" where
  "credential_live now b \<longleftrightarrow> ab_revoked b = None \<and> (case ab_expires b of None \<Rightarrow> True | Some e \<Rightarrow> now < e)"

definition own_binding :: "uuid option \<Rightarrow> session_info \<Rightarrow> 'f identity_db \<Rightarrow> 'f binding_row option" where
  "own_binding i s d =
     find (\<lambda>b. Some (ab_id b) = i \<and> Some (ab_tenant b) = si_tenant s \<and> ab_workspace b = si_workspace s \<and>
        ab_workspace b \<noteq> None \<and> ab_membership b = si_membership s \<and> ab_membership b \<noteq> None) (bindings d)"

definition rotate_api_credential ::
  "'f server \<Rightarrow> rat \<Rightarrow> op_ids \<Rightarrow> (uuid \<times> nat list) list \<Rightarrow> uuid option \<Rightarrow> rat option
     \<Rightarrow> utext option \<Rightarrow> transaction \<Rightarrow> 'f identity_db \<Rightarrow> 'f identity_db
     \<Rightarrow> identity_error + credential_reply \<times> 'f identity_db" where
  "rotate_api_credential V now ids fresh target expires key tx seen d =
     and_then (manager_entry issue_scope (check_expiry now expires) key tx d) (\<lambda>(s, _).
     let fp = identity_request_fingerprint V (J_object [field ''tenant'' (J_uuid (si_tenant s)),
                field ''operation'' (J_string (cps ''credential.rotate'')),
                field ''membership'' (J_uuid (si_membership s)), field ''binding'' (J_uuid target),
                field ''expires_at'' (J_time expires)])
     in case own_binding target s d of None \<Rightarrow> Inl Refused
        | Some old \<Rightarrow>
          and_then (identity_replay (tx_cx tx) ''credential.rotate'' key fp d) (\<lambda>rp.
          case rp of Some p \<Rightarrow> Inr (\<lparr>cd_binding = get_text (rp_result p) ''binding_id'', cd_secret = None,
               cd_scopes = ab_scopes old, cd_expires = get_time (rp_result p) ''expires_at'', cd_rotated = target,
               cd_event = rp_event p, cd_record = Some (rp_record p), cd_replayed = True\<rparr>, d)
          | None \<Rightarrow>
            if \<not> credential_live now old then Inl Refused
            else let until = (case expires of None \<Rightarrow> ab_expires old | Some e \<Rightarrow> Some e)
            in and_then (mint_binding V (member_binding V now s (ab_scopes old) until (ab_label old)
                  (Some (ab_id old)) seen) (take 3 fresh) d) (\<lambda>((i, secret), d1).
               and_then (record_operation V ids (tx_cx tx) ''credential.rotate'' key fp
                 (J_object [field ''binding_id'' (J_string i), field ''rotated_from_id'' (J_string (ab_id old)),
                    field ''expires_at'' (J_time until)])
                 \<lparr>eg_type = ''credential.rotated'', eg_aggregate_type = ''api_credential'', eg_aggregate = Some i,
                  eg_attributes = J_object [field ''rotated_from_id'' (J_string (ab_id old)),
                    field ''membership_id'' (J_uuid (si_membership s))]\<rparr> ''succeeded'' (Some i)
                 (J_object [field ''rotated_from_id'' (J_string (ab_id old)),
                    field ''membership_id'' (J_uuid (si_membership s)), field ''session_id'' (J_string (si_session s))])
                 (revoke_bindings now (\<lambda>b. ab_id b = ab_id old \<and> Some (ab_tenant b) = si_tenant s) d1))
                 (\<lambda>(written, d2).
               Inr (\<lparr>cd_binding = Some i, cd_secret = Some secret, cd_scopes = ab_scopes old, cd_expires = until,
                  cd_rotated = Some (ab_id old), cd_event = Some (snd written), cd_record = fst written,
                  cd_replayed = False\<rparr>, d2)))))"

text \<open>One's own credentials, or any of the workspace with \<open>membership:manage\<close>.\<close>

definition within_reach :: "session_info \<Rightarrow> 'f binding_row \<Rightarrow> bool" where
  "within_reach s b \<longleftrightarrow> Some (ab_tenant b) = si_tenant s \<and> ab_workspace b = si_workspace s \<and> ab_workspace b \<noteq> None \<and>
     ab_membership b \<noteq> None \<and>
     (ab_membership b = si_membership s \<or> (case si_role s of None \<Rightarrow> False | Some r \<Rightarrow> role_holds r manage))"

definition revoke_api_credential ::
  "'f server \<Rightarrow> rat \<Rightarrow> op_ids \<Rightarrow> uuid option \<Rightarrow> utext option \<Rightarrow> transaction \<Rightarrow> 'f identity_db
     \<Rightarrow> identity_error + revocation_reply \<times> 'f identity_db" where
  "revoke_api_credential V now ids target key tx d =
     and_then (manager_entry issue_scope (Inr ()) key tx d) (\<lambda>(s, _).
     let fp = identity_request_fingerprint V (workspace_descriptor s ''credential.revoke''
                [field ''binding'' (J_uuid target)])
     in and_then (identity_replay (tx_cx tx) ''credential.revoke'' key fp d) (\<lambda>rp.
        case rp of Some p \<Rightarrow> Inr (replayed_revocation p, d)
        | None \<Rightarrow>
            let hit = (\<lambda>b. Some (ab_id b) = target \<and> within_reach s b)
            in record_revocation V ids (tx_cx tx) ''credential.revoke'' key fp ''credential.revoked''
                 ''api_credential'' target s (\<exists>b \<in> set (bindings d). hit b \<and> ab_revoked b = None)
                 (revoke_bindings now hit d)))"

record credential_summary =
  cs_binding :: uuid
  cs_label :: "utext option"
  cs_scopes :: "string list"
  cs_created :: rat
  cs_expires :: "rat option"
  cs_revoked :: "rat option"
  cs_used :: "rat option"
  cs_rotated :: "uuid option"
  cs_membership :: "uuid option"
  cs_account :: uuid
  cs_email :: utext
  cs_active :: bool

definition workspace_api_credentials ::
  "rat \<Rightarrow> transaction \<Rightarrow> 'f identity_db \<Rightarrow> identity_error + credential_summary list" where
  "workspace_api_credentials now tx d =
     and_then (workspace_membership_authority None False tx d) (\<lambda>s.
       Inr (concat (map (\<lambda>b. (case find_account (ab_principal b) d of None \<Rightarrow> []
            | Some a \<Rightarrow> [\<lparr>cs_binding = ab_id b, cs_label = ab_label b, cs_scopes = ab_scopes b,
                cs_created = ab_created b, cs_expires = ab_expires b, cs_revoked = ab_revoked b,
                cs_used = ab_used b, cs_rotated = ab_rotated b, cs_membership = ab_membership b,
                cs_account = ab_principal b, cs_email = ac_display a, cs_active = credential_live now b\<rparr>]))
          (ordered_by ab_created ab_id (filter (within_reach s) (bindings d))))))"

definition record_api_credential_use ::
  "rat \<Rightarrow> transaction \<Rightarrow> 'f identity_db \<Rightarrow> identity_error + 'f identity_db" where
  "record_api_credential_use now tx d =
     (let cx = tx_cx tx
      in if ax_tenant cx = None \<or> ax_actor cx \<noteq> ''credential'' \<or> ax_binding cx = None
         then Inl (Not_permitted ''no credential context'')
         else Inr (d\<lparr>bindings := update_where (\<lambda>b. Some (ab_id b) = ax_binding cx \<and> Some (ab_tenant b) = ax_tenant cx)
                (\<lambda>b. b\<lparr>ab_used := Some now\<rparr>) (bindings d)\<rparr>))"

section \<open>Authentication\<close>

text \<open>
  What \<open>0005\<close> adds: a credential of a membership stands only while the membership is active and the
  account's epoch is the one it was minted under.
\<close>

definition still_standing :: "'f binding_row \<Rightarrow> 'f identity_db \<Rightarrow> bool" where
  "still_standing b d \<longleftrightarrow>
     (case ab_membership b of None \<Rightarrow> True
      | Some m \<Rightarrow> (\<exists>x \<in> set (memberships d). mb_id x = m \<and> mb_tenant x = ab_tenant b \<and> mb_revoked x = None) \<and>
          (\<exists>a \<in> set (accounts d). ac_id a = ab_principal b \<and> Some (ac_epoch a) = ab_epoch b))"

definition bind_authenticated_context ::
  "'f server \<Rightarrow> rat \<Rightarrow> utext option \<Rightarrow> transaction \<Rightarrow> 'f identity_db \<Rightarrow> identity_error + uuid \<times> transaction" where
  "bind_authenticated_context V now credential tx d =
     and_then (entry_checks tx) (\<lambda>_.
     case credential of None \<Rightarrow> Inl Authentication_failed
     | Some t \<Rightarrow>
       if t = [] then Inl Authentication_failed
       else (case find (\<lambda>b. ab_fingerprint b = sv_sha V t) (bindings d) of None \<Rightarrow> Inl Authentication_failed
         | Some b \<Rightarrow>
             if \<not> credential_live now b \<or> \<not> still_standing b d then Inl Authentication_failed
             else and_then (auth_context_begin (Some (ab_id b)) (ab_tenant b) (Some (ab_principal b)) ''credential''
                    (ab_scopes b) tx) (\<lambda>tx'. Inr (ab_id b, tx'))))"

section \<open>Credentials outside any membership\<close>

definition begin_tenant_provisioning :: "uuid \<Rightarrow> transaction \<Rightarrow> identity_error + uuid \<times> transaction" where
  "begin_tenant_provisioning t tx =
     and_then (entry_checks tx) (\<lambda>_.
     and_then (auth_context_begin None t None ''provisioning''
        [scope_value Tenant_provision, scope_value Credential_manage] tx) (\<lambda>tx'. Inr (t, tx')))"

text \<open>Delegation: a credential grants only what it holds, the provisioning path any delegable scope.\<close>

definition delegated :: "auth_context \<Rightarrow> utext option \<Rightarrow> identity_error + string" where
  "delegated cx p =
     (case p of None \<Rightarrow> Inl (Bad_parameter ''scope is null'' None)
      | Some t \<Rightarrow> (case known_scope p of None \<Rightarrow> Inl (Bad_parameter ''scope catalogue'' None)
        | Some s \<Rightarrow> if s \<notin> set delegable_scopes then Inl (Not_permitted ''not delegable'')
            else if ax_actor cx \<noteq> ''provisioning'' \<and> s \<notin> set (ax_scopes cx)
            then Inl (Not_permitted ''not held by the issuer'') else Inr s))"

definition register_auth_binding ::
  "'f server \<Rightarrow> rat \<Rightarrow> (uuid \<times> nat list) list \<Rightarrow> uuid option \<Rightarrow> utext option list option \<Rightarrow> rat option
     \<Rightarrow> transaction \<Rightarrow> 'f identity_db \<Rightarrow> identity_error + (uuid \<times> utext) \<times> 'f identity_db" where
  "register_auth_binding V now fresh principal_id scopes expires tx d =
     (let cx = tx_cx tx; req = requested_scopes scopes
      in case ax_tenant cx of None \<Rightarrow> Inl (Not_permitted ''no context'')
      | Some t \<Rightarrow>
        if scope_value Credential_manage \<notin> set (ax_scopes cx) then Inl (Not_permitted ''credential:manage'')
        else case principal_id of None \<Rightarrow> Inl (Bad_parameter ''principal'' None)
        | Some p \<Rightarrow>
          if length req \<noteq> distinct_count req then Inl (Bad_parameter ''scope set'' None)
          else and_then (seq_map (delegated cx) req) (\<lambda>named.
            mint_binding V \<lparr>ab_id = [], ab_tenant = t, ab_principal = p, ab_fingerprint = sv_sha V [],
              ab_scopes = named, ab_created = now, ab_expires = expires, ab_revoked = None, ab_membership = None,
              ab_workspace = None, ab_label = None, ab_used = None, ab_rotated = None, ab_epoch = None\<rparr>
              (take 3 fresh) d))"

definition revoke_auth_binding ::
  "rat \<Rightarrow> uuid option \<Rightarrow> transaction \<Rightarrow> 'f identity_db \<Rightarrow> identity_error + bool \<times> 'f identity_db" where
  "revoke_auth_binding now target tx d =
     (let cx = tx_cx tx; hit = (\<lambda>b. Some (ab_id b) = target \<and> Some (ab_tenant b) = ax_tenant cx)
      in if ax_tenant cx = None \<or> scope_value Credential_manage \<notin> set (ax_scopes cx)
         then Inl (Not_permitted ''credential:manage'')
         else Inr (\<exists>b \<in> set (bindings d). hit b \<and> ab_revoked b = None, revoke_bindings now hit d))"

end
