(* ===== verification/Identity_Preferences.thy ===== *)
theory Identity_Preferences
  imports Identity_Credentials
begin

text \<open>
  The stated preferences of a workspace and its consent (migration \<open>0006\<close>): the policed relation with
  its trigger, and the two functions that are its only writers.
\<close>

section \<open>The relation\<close>

definition region_groups :: "string list" where "region_groups = [''EU'']"

definition provider_classes :: "string list" where
  "provider_classes = [''amazon'', ''google'', ''microsoft'', ''verda'']"

definition evaluation_intents :: "string list" where
  "evaluation_intents = [''undecided'', ''planning_evaluation'', ''evaluation_not_needed'']"

definition consent_versions :: "string list" where "consent_versions = [''provider-policy-v1-d.1'']"

definition current_consent_version :: string where "current_consent_version = ''provider-policy-v1-d.1''"

definition note_max_length :: nat where "note_max_length = 200"
definition max_array_length :: nat where "max_array_length = 16"

text \<open>\<open>workspace_preferences_set_consent\<close>.\<close>

definition set_consent :: "rat \<Rightarrow> uuid option \<Rightarrow> preference_row option \<Rightarrow> preference_row \<Rightarrow> preference_row" where
  "set_consent now who old new =
     (let r = new\<lparr>pf_updated := now\<rparr>
      in if pf_consent r = None then r\<lparr>pf_consent_at := None, pf_consent_by := None\<rparr>
         else case old of None \<Rightarrow> r\<lparr>pf_consent_at := Some now, pf_consent_by := who\<rparr>
         | Some b \<Rightarrow>
             if pf_consent r \<noteq> pf_consent b then r\<lparr>pf_consent_at := Some now, pf_consent_by := who\<rparr>
             else r\<lparr>pf_consent_at := pf_consent_at b, pf_consent_by := pf_consent_by b\<rparr>)"

definition preference_policy :: "auth_context \<Rightarrow> preference_row \<Rightarrow> bool" where
  "preference_policy cx r \<longleftrightarrow> Some (pf_tenant r) = ax_tenant cx \<and>
     auth_has_scope cx (Some (scope_value Workspace_write))"

text \<open>\<open>FOR UPDATE\<close> applies the read and the update policy.\<close>

definition preference_visible :: "auth_context \<Rightarrow> preference_row \<Rightarrow> bool" where
  "preference_visible cx r \<longleftrightarrow> preference_policy cx r \<and> auth_has_scope cx (Some (scope_value Workspace_read))"

definition preference_checks :: "auth_context \<Rightarrow> preference_row \<Rightarrow> identity_error + unit" where
  "preference_checks cx r =
     checked [(preference_policy cx r, Not_permitted ''row policy''),
         ((pf_consent r = None) = (pf_consent_at r = None) \<and> (pf_consent r = None) = (pf_consent_by r = None),
            violates ''consent_complete_or_absent''),
         (case pf_consent r of None \<Rightarrow> True | Some v \<Rightarrow> v \<in> set consent_versions, violates ''consent_version_known''),
         (pf_intent r \<in> set evaluation_intents, violates ''evaluation_intent_known''),
         (set (pf_excluded r) \<subseteq> set provider_classes \<and> length (pf_excluded r) \<le> length provider_classes,
            violates ''excluded_provider_classes_known''),
         (case pf_note r of None \<Rightarrow> True | Some t \<Rightarrow> length_between 1 note_max_length t,
            violates ''model_profile_note_bounded''),
         (set (pf_regions r) \<subseteq> set region_groups \<and> length (pf_regions r) \<le> length region_groups,
            violates ''region_policy_known'')] ()"

definition insert_preference ::
  "rat \<Rightarrow> auth_context \<Rightarrow> preference_row \<Rightarrow> 'f identity_db \<Rightarrow> identity_error + preference_row \<times> 'f identity_db" where
  "insert_preference now cx new d =
     (let r = set_consent now (ax_principal cx) None new
      in and_then (preference_checks cx r) (\<lambda>_.
         checked [(pf_id r \<notin> pf_id ` set (preferences d), duplicates ''pk_workspace_preferences''),
           (pf_workspace r \<notin> pf_workspace ` set (preferences d), duplicates ''uq_workspace_preferences_workspace_id''),
           (workspace_exists (pf_workspace r) (pf_tenant r) d,
              dangling ''fk_workspace_preferences_workspace_id_tenant_id_workspaces''),
           (pf_tenant r \<in> tn_id ` set (tenants d), dangling ''fk_workspace_preferences_tenant_id_tenants'')]
         (r, d\<lparr>preferences := preferences d @ [r]\<rparr>)))"

definition amend_preference ::
  "rat \<Rightarrow> auth_context \<Rightarrow> preference_row \<Rightarrow> preference_row \<Rightarrow> 'f identity_db
     \<Rightarrow> identity_error + preference_row \<times> 'f identity_db" where
  "amend_preference now cx old new d =
     (let r = set_consent now (ax_principal cx) (Some old) new
      in and_then (preference_checks cx r) (\<lambda>_.
         Inr (r, d\<lparr>preferences := update_where (\<lambda>p. pf_id p = pf_id old \<and> pf_tenant p = pf_tenant old) (\<lambda>p. r)
           (preferences d)\<rparr>)))"

text \<open>The row the two functions lock, once they hold the workspace.\<close>

definition find_preference :: "auth_context \<Rightarrow> session_info \<Rightarrow> 'f identity_db \<Rightarrow> preference_row option" where
  "find_preference cx s d =
     find (\<lambda>p. Some (pf_workspace p) = si_workspace s \<and> Some (pf_tenant p) = si_tenant s \<and> preference_visible cx p)
       (preferences d)"

definition put_preference ::
  "rat \<Rightarrow> auth_context \<Rightarrow> preference_row option \<Rightarrow> preference_row \<Rightarrow> 'f identity_db
     \<Rightarrow> identity_error + preference_row \<times> 'f identity_db" where
  "put_preference now cx old new d =
     (case old of None \<Rightarrow> insert_preference now cx new d | Some r \<Rightarrow> amend_preference now cx r new d)"

text \<open>The row of a workspace that has stated nothing, with the column defaults.\<close>

definition blank_preference :: "rat \<Rightarrow> uuid \<Rightarrow> session_info \<Rightarrow> preference_row" where
  "blank_preference now i s = \<lparr>pf_id = i, pf_workspace = the (si_workspace s), pf_tenant = the (si_tenant s),
     pf_regions = [], pf_excluded = [], pf_note = None, pf_intent = ''undecided'', pf_consent = None,
     pf_consent_at = None, pf_consent_by = None, pf_created = now, pf_updated = now\<rparr>"

section \<open>Stating\<close>

text \<open>
  A closed array: the bound, no \<open>NULL\<close>, only known names; then \<open>array_agg(DISTINCT v ORDER BY v)\<close>.
\<close>

definition closed_array :: "string list \<Rightarrow> string \<Rightarrow> utext option list option \<Rightarrow> identity_error + string list" where
  "closed_array allowed what p =
     (case p of None \<Rightarrow> Inr []
      | Some vs \<Rightarrow>
          if length vs > max_array_length \<or> None \<in> set vs \<or> \<not> set vs \<subseteq> Some ` cps ` set allowed
          then Inl (Bad_parameter what None)
          else Inr (sort (remdups (concat (map (\<lambda>v. filter (\<lambda>s. v = Some (cps s)) allowed) vs)))))"

definition check_note :: "'f server \<Rightarrow> utext option \<Rightarrow> identity_error + utext option" where
  "check_note V p =
     (case p of None \<Rightarrow> Inr None
      | Some t \<Rightarrow>
         (let n = btrim V t
          in if n = [] then Inr None
             else if looks_like_secret n \<noteq> None then Inl (Bad_parameter ''note'' (looks_like_secret n))
             else if length n > note_max_length then Inl (Bad_parameter ''note'' None)
             else Inr (Some n)))"

definition check_intent :: "utext option \<Rightarrow> identity_error + string" where
  "check_intent p =
     (case p of None \<Rightarrow> Inl (Bad_parameter ''evaluation intent'' None)
      | Some t \<Rightarrow> (case find (\<lambda>s. cps s = t) evaluation_intents of None \<Rightarrow> Inl (Bad_parameter ''evaluation intent'' None)
        | Some s \<Rightarrow> Inr s))"

text \<open>The workspace the page loaded, against the one the transaction is bound to.\<close>

definition expected_binding :: "uuid option \<Rightarrow> session_info \<Rightarrow> identity_error + unit" where
  "expected_binding w s = (if w = None \<or> w \<noteq> si_workspace s then Inl Wrong_workspace else Inr ())"

definition preference_entry ::
  "(identity_error + 'a) \<Rightarrow> uuid option \<Rightarrow> transaction \<Rightarrow> 'f identity_db \<Rightarrow> identity_error + session_info \<times> 'a" where
  "preference_entry args w tx d =
     and_then (entry_checks tx) (\<lambda>_.
     and_then (identity_require_session Workspace_mode True tx) (\<lambda>_.
     and_then (scope_cached (scope_value Workspace_write) tx) (\<lambda>_.
     and_then args (\<lambda>x.
     and_then (workspace_membership_authority (Some (scope_value Workspace_write)) True tx d) (\<lambda>s.
     and_then (expected_binding w s) (\<lambda>_. Inr (s, x)))))))"

record statement =
  sm_regions :: "string list"
  sm_excluded :: "string list"
  sm_note :: "utext option"
  sm_intent :: string

definition check_statement ::
  "'f server \<Rightarrow> utext option list option \<Rightarrow> utext option list option \<Rightarrow> utext option \<Rightarrow> utext option
     \<Rightarrow> identity_error + statement" where
  "check_statement V regions excluded note intent =
     and_then (closed_array region_groups ''region policy'' regions) (\<lambda>rs.
     and_then (closed_array provider_classes ''provider exclusion'' excluded) (\<lambda>es.
     and_then (check_note V note) (\<lambda>n.
     and_then (check_intent intent) (\<lambda>i.
     Inr \<lparr>sm_regions = rs, sm_excluded = es, sm_note = n, sm_intent = i\<rparr>))))"

definition restates :: "preference_row \<Rightarrow> statement \<Rightarrow> bool" where
  "restates r m \<longleftrightarrow> pf_regions r = sm_regions m \<and> pf_excluded r = sm_excluded m \<and> pf_note r = sm_note m \<and>
     pf_intent r = sm_intent m"

definition apply_statement :: "statement \<Rightarrow> preference_row \<Rightarrow> preference_row" where
  "apply_statement m r = r\<lparr>pf_regions := sm_regions m, pf_excluded := sm_excluded m, pf_note := sm_note m,
     pf_intent := sm_intent m\<rparr>"

definition empty_statement :: statement where
  "empty_statement = \<lparr>sm_regions = [], sm_excluded = [], sm_note = None, sm_intent = ''undecided''\<rparr>"

datatype preference_reply = Stated preference_row | Nothing_stated "uuid option" "uuid option"

definition state_workspace_preferences ::
  "'f server \<Rightarrow> rat \<Rightarrow> uuid \<Rightarrow> uuid \<Rightarrow> uuid option \<Rightarrow> utext option list option \<Rightarrow> utext option list option
     \<Rightarrow> utext option \<Rightarrow> utext option \<Rightarrow> transaction \<Rightarrow> 'f identity_db
     \<Rightarrow> identity_error + preference_reply \<times> 'f identity_db" where
  "state_workspace_preferences V now i aid w regions excluded note intent tx d =
     and_then (preference_entry (check_statement V regions excluded note intent) w tx d) (\<lambda>(s, m).
     let cx = tx_cx tx; current = find_preference cx s d;
         base = (case current of None \<Rightarrow> blank_preference now i s | Some r \<Rightarrow> r)
     in if current \<noteq> None \<and> restates base m then Inr (Stated base, d)
        else if current = None \<and> m = empty_statement
        then Inr (Nothing_stated (si_workspace s) (si_tenant s), d)
        else and_then (append_event V cx aid ''workspace.preferences_stated'' ''succeeded'' ''workspace_preferences''
               (si_workspace s) (J_object [field ''region_policy'' (J_strings (sm_regions m)),
                  field ''excluded_provider_classes'' (J_strings (sm_excluded m)),
                  field ''evaluation_intent'' (J_string (cps (sm_intent m))),
                  field ''model_profile_note_present'' (J_bool (sm_note m \<noteq> None)),
                  field ''unservable_exclusion'' (J_bool (''amazon'' \<in> set (sm_excluded m))),
                  field ''session_id'' (J_string (si_session s))]) d) (\<lambda>d1.
             and_then (put_preference now cx current (apply_statement m base) d1) (\<lambda>(r, d2). Inr (Stated r, d2))))"

section \<open>Consent\<close>

definition check_version :: "utext option \<Rightarrow> identity_error + unit" where
  "check_version p =
     (case p of None \<Rightarrow> Inl (Bad_parameter ''consent version'' None)
      | Some t \<Rightarrow> if looks_like_secret t \<noteq> None then Inl (Bad_parameter ''consent version'' (looks_like_secret t))
          else if t \<notin> cps ` set consent_versions then Inl (Bad_parameter ''consent version'' None)
          else if t \<noteq> cps current_consent_version then Inl (Conflict ''not the current statement'')
          else Inr ())"

definition acknowledge_workspace_consent ::
  "'f server \<Rightarrow> rat \<Rightarrow> uuid \<Rightarrow> uuid \<Rightarrow> uuid option \<Rightarrow> utext option \<Rightarrow> transaction \<Rightarrow> 'f identity_db
     \<Rightarrow> identity_error + preference_row \<times> 'f identity_db" where
  "acknowledge_workspace_consent V now i aid w version tx d =
     and_then (preference_entry (check_version version) w tx d) (\<lambda>(s, _).
     let cx = tx_cx tx; current = find_preference cx s d;
         base = (case current of None \<Rightarrow> blank_preference now i s | Some r \<Rightarrow> r)
     in if current \<noteq> None \<and> pf_consent base = Some current_consent_version then Inr (base, d)
        else if ax_principal cx \<noteq> Some (si_account s) then Inl (Internal_error ''not the bound account'')
        else and_then (append_event V cx aid ''workspace.consent_acknowledged'' ''succeeded'' ''workspace_preferences''
               (si_workspace s) (J_object [field ''consent_version'' (J_string (cps current_consent_version)),
                  field ''superseded_version'' (J_role (pf_consent base)),
                  field ''session_id'' (J_string (si_session s))]) d) (\<lambda>d1.
             put_preference now cx current (base\<lparr>pf_consent := Some current_consent_version,
               pf_consent_at := Some now, pf_consent_by := ax_principal cx\<rparr>) d1))"

text \<open>\<open>read\<close> of \<open>db/preferences.py\<close>: a workspace without a row has the empty statement.\<close>

definition read_preferences ::
  "uuid \<Rightarrow> transaction \<Rightarrow> 'f identity_db \<Rightarrow> identity_error + preference_row option" where
  "read_preferences w tx d =
     and_then (workspace_membership_authority (Some (scope_value Workspace_read)) False tx d) (\<lambda>_.
       Inr (find (\<lambda>p. pf_workspace p = w \<and> Some (pf_tenant p) = ax_tenant (tx_cx tx) \<and>
         auth_has_scope (tx_cx tx) (Some (scope_value Workspace_read))) (preferences d)))"

end
