(* ===== verification/Identity_Effects.thy ===== *)
theory Identity_Effects
  imports Identity_Preferences
begin

text \<open>
  The specification the identity plane refines: what one call may do to the tables, as a sequence of
  admissible effects. An effect carries the guard its writers establish: an owner is removed only
  while another remains, a credential is minted only for a standing membership and within its role.
\<close>

section \<open>Admissible effects\<close>

definition member_row :: "membership_row \<Rightarrow> 'f identity_db \<Rightarrow> bool" where
  "member_row m d \<longleftrightarrow> m \<in> set (memberships d) \<and> mb_revoked m = None"

text \<open>What a member's credential is minted from.\<close>

definition grounded :: "'f identity_db \<Rightarrow> 'f identity_db \<Rightarrow> 'f binding_row \<Rightarrow> membership_row \<Rightarrow> bool" where
  "grounded seen d r m \<longleftrightarrow> member_row m d \<and> ab_membership r = Some (mb_id m) \<and> ab_tenant r = mb_tenant m \<and>
     ab_workspace r = Some (mb_workspace m) \<and> ab_principal r = mb_account m \<and>
     set (ab_scopes r) \<subseteq> set (scopes_of (mb_role m)) \<inter> set sql_issuable_scopes \<and>
     ab_epoch r = epoch_of (ab_principal r) seen"

definition successor :: "'f identity_db \<Rightarrow> 'f identity_db \<Rightarrow> 'f binding_row \<Rightarrow> bool" where
  "successor seen d r \<longleftrightarrow> (\<exists>m b. member_row m d \<and> b \<in> set (bindings d) \<and> ab_revoked b = None \<and>
     ab_membership r = Some (mb_id m) \<and> ab_membership b = Some (mb_id m) \<and> ab_tenant b = mb_tenant m \<and>
     ab_tenant r = mb_tenant m \<and> ab_workspace r = Some (mb_workspace m) \<and> ab_principal r = mb_account m \<and>
     ab_scopes r = ab_scopes b \<and> ab_epoch r = epoch_of (ab_principal r) seen)"

text \<open>A statement of preferences amends a row the table has, and leaves its identity.\<close>

definition restated :: "preference_row option \<Rightarrow> preference_row \<Rightarrow> 'f identity_db \<Rightarrow> bool" where
  "restated old r d \<longleftrightarrow> (case old of None \<Rightarrow> True
     | Some q \<Rightarrow> q \<in> set (preferences d) \<and> pf_id r = pf_id q \<and> pf_workspace r = pf_workspace q \<and> pf_tenant r = pf_tenant q)"

inductive effect :: "'f server \<Rightarrow> 'f identity_db \<Rightarrow> 'f identity_db \<Rightarrow> 'f identity_db \<Rightarrow> bool" for V seen where
  new_account: "insert_account r d = Inr d' \<Longrightarrow> ac_epoch r = 0 \<Longrightarrow> ac_status r = Unverified \<Longrightarrow> effect V seen d d'"
| new_password: "insert_password r d = Inr d' \<Longrightarrow> effect V seen d d'"
| new_token: "insert_token r d = Inr d' \<Longrightarrow> effect V seen d d'"
| superseding: "effect V seen d (supersede_tokens now p d)"
| consuming: "t \<in> set (tokens d) \<Longrightarrow> tk_id t = i \<Longrightarrow> live_token t \<Longrightarrow> effect V seen d (consume_token now i d)"
| verifying: "effect V seen d (amend_account a (activated now) d)"
| new_hash: "stored_hash (Some h) \<Longrightarrow> effect V seen d (replace_password now a h d)"
| eviction: "effect V seen d (end_authority now a (amend_account a (next_epoch now \<circ> activated now) d))"
| eviction_active: "account_active a d \<Longrightarrow> effect V seen d (end_authority now a (amend_account a (next_epoch now) d))"
| purging: "gone = ac_id ` set (filter (expired_unverified cutoff d) (accounts d)) \<Longrightarrow>
    \<not> (\<exists>c \<in> set (account_claims d). aq_account c \<in> gone) \<Longrightarrow> effect V seen d (delete_accounts now gone d)"
| new_session: "insert_browser r d = Inr d' \<Longrightarrow> bs_workspace r = None \<Longrightarrow> effect V seen d d'"
| touching: "effect V seen d (touch_browser now i d)"
| closing: "effect V seen d (revoke_browsers now p d)"
| unbinding: "effect V seen d (unbind_browsers p d)"
| choosing: "member_row m d \<Longrightarrow> effect V seen d (bind_browser now i m d)"
| new_tenant: "insert_tenant cx r d = Inr d' \<Longrightarrow> effect V seen d d'"
| new_workspace: "insert_workspace cx r d = Inr d' \<Longrightarrow> effect V seen d d'"
| renaming: "length_between 1 name_max_length nm \<Longrightarrow>
    \<not> (\<exists>x \<in> set (workspaces d). ws_tenant x = t \<and> ws_name x = nm \<and> \<not> hit x) \<Longrightarrow>
    (\<forall>x \<in> set (workspaces d). hit x \<longrightarrow> ws_id x = w \<and> ws_tenant x = t) \<Longrightarrow> ren = (\<lambda>x. x\<lparr>ws_name := nm, ws_updated := now\<rparr>) \<Longrightarrow>
    effect V seen d (d\<lparr>workspaces := update_where hit ren (workspaces d),
      directory := fold (\<lambda>x. sync_directory (ren x)) (filter hit (workspaces d)) (directory d)\<rparr>)"
| founding: "insert_membership m d = Inr d' \<Longrightarrow> mb_revoked m = None \<Longrightarrow> mb_role m = ''owner'' \<Longrightarrow> effect V seen d d'"
| joining: "i \<in> set (invitations d) \<Longrightarrow> insert_membership m d = Inr d' \<Longrightarrow> mb_revoked m = None \<Longrightarrow>
    mb_workspace m = iv_workspace i \<Longrightarrow> mb_tenant m = iv_tenant i \<Longrightarrow> mb_role m = iv_role i \<Longrightarrow>
    d'' = d'\<lparr>invitations := update_where (\<lambda>x. iv_id x = iv_id i)
      (\<lambda>x. x\<lparr>iv_accepted := Some now, iv_membership := Some (mb_id m)\<rparr>) (invitations d')\<rparr> \<Longrightarrow> effect V seen d d''"
| removing: "member_row m d \<Longrightarrow> \<not> last_owner m d \<Longrightarrow> effect V seen d (revoke_membership now a m d)"
| changing: "member_row m d \<Longrightarrow> r \<in> set membership_roles \<Longrightarrow> r \<noteq> ''owner'' \<longrightarrow> \<not> last_owner m d \<Longrightarrow>
    effect V seen d (apply_role now r m d)"
| inviting: "member_row m d \<Longrightarrow> insert_invitation i d = Inr d' \<Longrightarrow> iv_workspace i = mb_workspace m \<Longrightarrow>
    iv_tenant i = mb_tenant m \<Longrightarrow> effect V seen d d'"
| withdrawing: "effect V seen d (revoke_invitations now p d)"
| account_claiming: "insert_account_claim V c d = Inr d' \<Longrightarrow> effect V seen d d'"
| minting: "mint_binding V r cs d = Inr (x, d') \<Longrightarrow> ab_membership r = None \<Longrightarrow> ab_revoked r = None \<Longrightarrow> effect V seen d d'"
| issuing: "mint_binding V r cs d = Inr (x, d') \<Longrightarrow> ab_revoked r = None \<Longrightarrow> grounded seen d r m \<Longrightarrow> effect V seen d d'"
| rotating: "mint_binding V r cs d = Inr (x, d') \<Longrightarrow> ab_revoked r = None \<Longrightarrow> successor seen d r \<Longrightarrow> effect V seen d d'"
| revoking: "effect V seen d (revoke_bindings now p d)"
| noting: "effect V seen d (d\<lparr>bindings := update_where p (\<lambda>b. b\<lparr>ab_used := Some now\<rparr>) (bindings d)\<rparr>)"
| stating: "put_preference now cx old r d = Inr (x, d') \<Longrightarrow> restated old r d \<Longrightarrow> effect V seen d d'"
| recording: "effect V seen d (d\<lparr>framework := k\<rparr>)"

definition effects :: "'f server \<Rightarrow> 'f identity_db \<Rightarrow> 'f identity_db \<Rightarrow> 'f identity_db \<Rightarrow> bool" where
  "effects V seen = (effect V seen)\<^sup>*\<^sup>*"

lemma effects_refl [intro, simp]: "effects V seen d d"
  by (simp add: effects_def)

lemma effects_step: "effects V seen d d1 \<Longrightarrow> effect V seen d1 d2 \<Longrightarrow> effects V seen d d2"
  by (simp add: effects_def)

lemma effects_one: "effect V seen d d1 \<Longrightarrow> effects V seen d d1"
  by (simp add: effects_def r_into_rtranclp)

lemma effects_trans [trans]: "effects V seen d d1 \<Longrightarrow> effects V seen d1 d2 \<Longrightarrow> effects V seen d d2"
  by (simp add: effects_def)

lemma and_then_InrE:
  assumes "and_then r f = Inr y"
  obtains x where "r = Inr x" "f x = Inr y"
  using assms by (auto simp: and_then_Inr)

section \<open>What the shared steps do\<close>

lemma find_hit: "find p xs = Some x \<Longrightarrow> x \<in> set xs \<and> p x"
  by (auto simp: List.find_Some_iff)

lemma identity_claim_frame:
  "identity_claim V cx fresh operation key fp result ev d = Inr (x, d') \<Longrightarrow> \<exists>k. d' = d\<lparr>framework := k\<rparr>"
  by (auto simp: identity_claim_def elim!: and_then_InrE split: option.split_asm)

lemma append_event_frame:
  "append_event V cx aid action outcome rtype rid details d = Inr d' \<Longrightarrow> \<exists>k. d' = d\<lparr>framework := k\<rparr>"
  by (auto simp: append_event_def and_then_Inr)

lemma identity_claim_effects:
  "identity_claim V cx fresh operation key fp result ev d = Inr (x, d') \<Longrightarrow> effects V seen d d'"
  by (auto dest!: identity_claim_frame intro: effects_one recording)

lemma append_event_effects:
  "append_event V cx aid action outcome rtype rid details d = Inr d' \<Longrightarrow> effects V seen d d'"
  by (auto dest!: append_event_frame intro: effects_one recording)

lemma record_operation_effects:
  "record_operation V ids cx operation key fp result ev outcome resource details d = Inr (x, d') \<Longrightarrow>
   effects V seen d d'"
  by (auto simp: record_operation_def and_then_Inr
      intro: effects_trans [OF identity_claim_effects append_event_effects])

lemma record_revocation_effects:
  "record_revocation V ids cx operation key fp type rtype target s hit d = Inr (x, d') \<Longrightarrow> effects V seen d d'"
  by (auto simp: record_revocation_def and_then_Inr intro: record_operation_effects)

lemma keep_account_claim_effects:
  "keep_account_claim V a operation key fp result written d = Inr d' \<Longrightarrow> effects V seen d d'"
  by (auto simp: keep_account_claim_def intro: effects_one account_claiming split: option.split_asm)

lemma identity_issue_token_effects:
  "identity_issue_token V now fresh a kind ttl earlier d = Inr (x, d') \<Longrightarrow> effects V seen d d'"
  by (auto simp: identity_issue_token_def Let_def elim!: and_then_InrE split: if_split_asm
      intro: effects_step [OF effects_one [OF superseding] new_token])

lemma manager_entry_authority:
  "manager_entry scope args key tx d = Inr (s, x) \<Longrightarrow>
   workspace_membership_authority (Some scope) True tx d = Inr s \<and> args = Inr x"
  by (auto simp: manager_entry_def and_then_Inr)

text \<open>What a revalidated membership is.\<close>

lemma authority_member:
  assumes "workspace_membership_authority scope lock tx d = Inr s"
  obtains m where "member_row m d" "si_membership s = Some (mb_id m)" "si_tenant s = Some (mb_tenant m)"
    "si_workspace s = Some (mb_workspace m)" "si_account s = mb_account m" "si_role s = Some (mb_role m)"
    "account_active (mb_account m) d" "\<And>p. scope = Some p \<Longrightarrow> role_holds (mb_role m) p"
  using assms
  by (auto simp: workspace_membership_authority_def and_then_Inr current_membership_def member_row_def
      split: if_split_asm option.split_asm dest!: find_hit)

lemma entry_member:
  assumes "manager_entry scope args key tx d = Inr (s, x)"
  obtains m where "member_row m d" "si_membership s = Some (mb_id m)" "si_tenant s = Some (mb_tenant m)"
    "si_workspace s = Some (mb_workspace m)" "si_account s = mb_account m" "si_role s = Some (mb_role m)"
    "account_active (mb_account m) d" "role_holds (mb_role m) scope"
  using authority_member [OF conjunct1 [OF manager_entry_authority [OF assms]]] by blast

lemma new_membership_fields [simp]:
  "mb_id (new_membership now i t w a r v) = i" "mb_tenant (new_membership now i t w a r v) = t"
  "mb_workspace (new_membership now i t w a r v) = w" "mb_account (new_membership now i t w a r v) = a"
  "mb_role (new_membership now i t w a r v) = r" "mb_revoked (new_membership now i t w a r v) = None"
  by (simp_all add: new_membership_def)

section \<open>Accounts\<close>

lemma signup_effects:
  assumes "signup_account V now i fresh address hash ttl tx earlier d = Inr (x, d')"
  shows "effects V seen d d'"
proof -
  have create: "effects V seen d d1"
    if "create_account V now i fresh email display h ttl d = Inr (secret, d1)" for email display h secret d1
    using that
    by (auto simp: create_account_def and_then_Inr
        intro: effects_trans [OF effects_step [OF effects_one [OF new_account] new_password]
          identity_issue_token_effects])
  show ?thesis
    using assms
    by (auto simp: signup_account_def elim!: and_then_InrE split: option.split_asm if_split_asm sum.split_asm intro: create)
qed

lemma request_effects:
  "request_email_verification V now fresh address ttl tx earlier d = Inr (x, d') \<Longrightarrow> effects V seen d d'"
  "request_account_recovery V now fresh address ttl tx earlier d = Inr (x, d') \<Longrightarrow> effects V seen d d'"
  by (auto simp: request_email_verification_def request_account_recovery_def and_then_Inr
      split: option.split_asm if_split_asm intro: identity_issue_token_effects)

lemma locked_token_live:
  "locked_token V now secret kind earlier d = Some t \<Longrightarrow>
   t \<in> set (tokens d) \<and> usable_token now t \<and> tk_kind t = kind \<and> (\<exists>s. secret = Some s \<and> tk_fingerprint t = sv_sha V s)"
  by (auto simp: locked_token_def split: option.split_asm if_split_asm dest!: find_hit)

lemma verify_effects:
  "verify_account_email V now secret tx earlier d = Inr (x, d') \<Longrightarrow> effects V seen d d'"
  by (auto simp: verify_account_email_def and_then_Inr usable_token_def split: option.split_asm
      dest!: locked_token_live intro: effects_step [OF effects_one [OF consuming] verifying])

lemma recovery_effects:
  assumes "complete_account_recovery V now secret hash tx earlier d = Inr (x, d')"
  shows "effects V seen d d'"
proof (cases "locked_token V now secret Account_recovery earlier d")
  case None
  with assms show ?thesis by (auto simp: complete_account_recovery_def elim!: and_then_InrE split: if_split_asm)
next
  case (Some t)
  with assms obtain h where h: "stored_hash (Some h)" and d': "d' = end_authority now (tk_account t)
      (amend_account (tk_account t) (next_epoch now \<circ> activated now) (replace_password now (tk_account t) h
        (supersede_tokens now (\<lambda>x. tk_account x = tk_account t) (consume_token now (tk_id t) d))))"
    by (auto simp: complete_account_recovery_def and_then_Inr Let_def stored_hash_def split: if_split_asm option.split_asm)
  have "effect V seen d (consume_token now (tk_id t) d)"
    using Some by (auto dest!: locked_token_live simp: usable_token_def intro: consuming)
  from effects_step [OF effects_step [OF effects_step [OF effects_one [OF this] superseding] new_hash [OF h]] eviction]
  show ?thesis by (simp add: d')
qed

lemma purge_effects:
  "purge_expired_unverified_accounts now age tx d = Inr (x, d') \<Longrightarrow> effects V seen d d'"
  by (auto simp: purge_expired_unverified_accounts_def Let_def elim!: and_then_InrE split: option.split_asm if_split_asm
      intro!: effects_one purging)

section \<open>Sessions\<close>

lemma mint_session_effects:
  "mint_session V now ttl fresh a d = Inr (x, d') \<Longrightarrow> effects V seen d d'"
  by (auto simp: mint_session_def Let_def elim!: and_then_InrE split: prod.split_asm intro!: effects_one new_session)

lemma open_session_effects:
  "open_browser_session V now ttl fresh tx d = Inr (x, d') \<Longrightarrow> effects V seen d d'"
  by (auto simp: open_browser_session_def elim!: and_then_InrE split: option.split_asm if_split_asm intro: mint_session_effects)

lemma bind_session_effects:
  "bind_session_context V now secret csrf mode tx d = Inr (x, d', tx') \<Longrightarrow> effects V seen d d'"
  by (auto simp: bind_session_context_def Let_def elim!: and_then_InrE split: option.split_asm if_split_asm
      intro: effects_one [OF touching] effects_step [OF effects_one [OF unbinding] touching])

lemma session_revocation_effects:
  "revoke_browser_session now i tx d = Inr (x, d') \<Longrightarrow> effects V seen d d'"
  "revoke_all_browser_sessions now keep tx d = Inr (y, d') \<Longrightarrow> effects V seen d d'"
  "unbind_session_workspace tx d = Inr (z, d') \<Longrightarrow> effects V seen d d'"
  by (auto simp: revoke_browser_session_def revoke_all_browser_sessions_def unbind_session_workspace_def
      and_then_Inr Let_def intro!: effects_one intro: closing unbinding)

lemma same_epoch_active: "same_epoch a e d \<Longrightarrow> account_active a d"
  by (auto simp: same_epoch_def account_active_def split: option.split_asm)

lemma change_password_effects:
  assumes "change_account_password V now expected hash ttl fresh tx d = Inr (x, d')"
  shows "effects V seen d d'"
proof -
  obtain a e t h where a: "same_epoch a e d" and h: "stored_hash (Some h)" and
    m: "mint_session V now t fresh a (end_authority now a (amend_account a (next_epoch now)
          (replace_password now a h (supersede_tokens now (\<lambda>x. tk_account x = a) d)))) = Inr (x, d')"
    using assms
    by (auto simp: change_account_password_def stored_hash_def elim!: and_then_InrE split: option.split_asm if_split_asm)
  have "account_active a (replace_password now a h (supersede_tokens now (\<lambda>x. tk_account x = a) d))"
    using same_epoch_active [OF a]
    by (simp add: account_active_def find_account_def replace_password_def supersede_tokens_def)
  from effects_step [OF effects_step [OF effects_one [OF superseding] new_hash [OF h]] eviction_active [OF this]]
    mint_session_effects [OF m]
  show ?thesis by (rule effects_trans)
qed

section \<open>Workspaces\<close>

lemma bind_workspace_effects:
  "bind_session_workspace V now aid w tx d = Inr (x, d', tx') \<Longrightarrow> effects V seen d d'"
  by (auto simp: bind_session_workspace_def active_in_def member_row_def split: option.split_asm if_split_asm
      elim!: and_then_InrE dest!: find_hit)
    (rule effects_trans [OF effects_one [OF choosing] append_event_effects]; simp add: member_row_def)

lemma founding_effects:
  assumes "insert_tenant cx t d = Inr d1" "insert_workspace cx w d1 = Inr d2" "insert_membership m d2 = Inr d3"
    and "mb_revoked m = None" "mb_role m = ''owner''"
    and c: "identity_claim V cx ids ''workspace.create'' key fp result ev d3 = Inr (written, d4)"
    and k: "keep_account_claim V a ''workspace.create'' key fp kept written d4 = Inr d5"
    and e: "append_event V cx aid ''workspace.created'' outcome rtype rid details d5 = Inr d'"
  shows "effects V seen d d'"
proof -
  have "effects V seen d d3"
    by (rule effects_step [OF effects_step [OF effects_one [OF new_tenant [OF assms(1)]]
          new_workspace [OF assms(2)]] founding [OF assms(3-5)]])
  also have "effects V seen d3 d4" using c by (rule identity_claim_effects)
  also have "effects V seen d4 d5" using k by (rule keep_account_claim_effects)
  also have "effects V seen d5 d'" using e by (rule append_event_effects)
  finally show ?thesis .
qed

lemma provision_effects:
  "provision_workspace V now ids s slug name key fp tx d = Inr (x, d', tx') \<Longrightarrow> effects V seen d d'"
  by (auto simp: provision_workspace_def Let_def new_membership_def elim!: and_then_InrE intro: founding_effects)

lemma after_lost_race_frame: "after_lost_race fp winner e tx d = Inr (x, d', tx') \<Longrightarrow> d' = d \<and> tx' = tx"
  by (auto simp: after_lost_race_def elim!: and_then_InrE split: if_split_asm option.split_asm)

lemma create_workspace_effects:
  assumes "create_workspace V now ids slug name key tx earlier d = Inr (x, d', tx')"
  shows "effects V seen d d'"
  using assms
  by (auto simp: create_workspace_def Let_def elim!: and_then_InrE split: if_split_asm option.split_asm sum.split_asm)
    (auto dest: after_lost_race_frame intro: provision_effects)

lemma rename_effects:
  assumes "rename_workspace V now ids name key tx d = Inr (x, d')"
  shows "effects V seen d d'"
proof -
  have named: "length_between 1 name_max_length nm" if "check_name p = Inr nm" for p nm
    using that by (auto simp: check_name_def split: option.split_asm if_split_asm)
  have step: "effects V seen d d2"
    if "check_name p = Inr nm"
      "\<not> (\<exists>x \<in> set (workspaces d). Some (ws_tenant x) = si_tenant s \<and> ws_name x = nm \<and> \<not> hit x)"
      "hit = (\<lambda>x. ws_id x = the (si_workspace s) \<and> Some (ws_tenant x) = si_tenant s \<and> workspace_writable cx x)"
      "record_operation V ids cx' operation key fp result ev outcome resource details
        (d\<lparr>workspaces := update_where hit (\<lambda>x. x\<lparr>ws_name := nm, ws_updated := now\<rparr>) (workspaces d),
         directory := fold (\<lambda>x. sync_directory (x\<lparr>ws_name := nm, ws_updated := now\<rparr>)) (filter hit (workspaces d))
           (directory d)\<rparr>) = Inr (written, d2)"
      "si_tenant s = Some t" for p nm s hit cx cx' operation fp result ev outcome resource details written d2 t
  proof -
    have "effect V seen d (d\<lparr>workspaces := update_where hit (\<lambda>x. x\<lparr>ws_name := nm, ws_updated := now\<rparr>) (workspaces d),
         directory := fold (\<lambda>x. sync_directory (x\<lparr>ws_name := nm, ws_updated := now\<rparr>)) (filter hit (workspaces d))
           (directory d)\<rparr>)"
      using that by (intro renaming [where t = t and w = "the (si_workspace s)" and hit = hit] named) auto
    from effects_one [OF this] record_operation_effects [OF that(4)] show ?thesis by (rule effects_trans)
  qed
  show ?thesis
    using assms
    by (auto simp: rename_workspace_def Let_def elim!: and_then_InrE authority_member
        split: option.split_asm if_split_asm)
      (rule step [OF _ _ refl]; auto)
qed

section \<open>Members\<close>

lemma find_member_row: "find_member i s d = Some m \<Longrightarrow> member_row m d"
  by (auto simp: find_member_def member_row_def dest!: find_hit)

lemma recorded_after:
  "record_operation V ids cx operation key fp result ev outcome resource details d1 = Inr (x, d') \<Longrightarrow>
   effect V seen d d1 \<Longrightarrow> effects V seen d d'"
  by (rule effects_trans [OF effects_one record_operation_effects])

lemma remove_effects:
  "remove_membership V now ids target key tx d = Inr (x, d') \<Longrightarrow> effects V seen d d'"
  by (auto simp: remove_membership_def Let_def elim!: and_then_InrE split: option.split_asm if_split_asm)
    (auto intro: recorded_after removing find_member_row)

lemma change_role_effects:
  "change_membership_role V now ids target role key tx d = Inr (x, d') \<Longrightarrow> effects V seen d d'"
  by (auto simp: change_membership_role_def Let_def role_argument_def known_role_def elim!: and_then_InrE
      split: option.split_asm if_split_asm dest!: manager_entry_authority)
    (auto dest: find_hit intro!: recorded_after changing find_member_row)

section \<open>Invitations\<close>

lemma create_invitation_effects:
  assumes "create_invitation V now ids fresh address role ttl key tx d = Inr (x, d')"
  shows "effects V seen d d'"
proof -
  have step: "effects V seen d d3"
    if e: "manager_entry manage args key tx d = Inr (s, y)"
      and "insert_invitation row (revoke_invitations now p d) = Inr d2"
      and "iv_workspace row = the (si_workspace s)" "iv_tenant row = the (si_tenant s)"
      and "record_operation V ids cx operation key fp result ev outcome resource details d2 = Inr (z, d3)"
    for args s y row p d2 cx operation fp result ev outcome resource details z d3
  proof -
    obtain m where m: "member_row m d" "si_tenant s = Some (mb_tenant m)" "si_workspace s = Some (mb_workspace m)"
      by (rule entry_member [OF e])
    have "member_row m (revoke_invitations now p d)" using m(1) by (simp add: member_row_def revoke_invitations_def)
    then have "effects V seen d d2"
      using that(2-4) m(2,3) by (auto intro: effects_step [OF effects_one [OF withdrawing] inviting])
    also have "effects V seen d2 d3" using that(5) by (rule record_operation_effects)
    finally show ?thesis .
  qed
  show ?thesis
    using assms
    by (auto simp: create_invitation_def Let_def elim!: and_then_InrE split: option.split_asm if_split_asm)
      (rule step; assumption?; simp?)+
qed

lemma revoke_invitation_effects:
  "revoke_invitation V now ids target key tx d = Inr (x, d') \<Longrightarrow> effects V seen d d'"
  by (auto simp: revoke_invitation_def Let_def elim!: and_then_InrE split: option.split_asm)
    (auto intro: effects_trans [OF effects_one [OF withdrawing] record_revocation_effects])

lemma joining_effects:
  assumes "i \<in> set (invitations d)" "insert_membership m d = Inr d1" "mb_revoked m = None"
    and "mb_workspace m = iv_workspace i" "mb_tenant m = iv_tenant i" "mb_role m = iv_role i"
    and c: "identity_claim V cx ids operation key fp result ev (d1\<lparr>invitations := update_where (\<lambda>x. iv_id x = iv_id i)
      (\<lambda>x. x\<lparr>iv_accepted := Some now, iv_membership := Some mid\<rparr>) (invitations d1)\<rparr>) = Inr (written, d4)"
    and k: "keep_account_claim V a operation key fp kept written d4 = Inr d5"
    and e: "append_event V cx aid action outcome rtype rid details d5 = Inr d'"
    and mid: "mid = mb_id m"
  shows "effects V seen d d'"
proof -
  have "effects V seen d (d1\<lparr>invitations := update_where (\<lambda>x. iv_id x = iv_id i)
      (\<lambda>x. x\<lparr>iv_accepted := Some now, iv_membership := Some mid\<rparr>) (invitations d1)\<rparr>)"
    by (rule effects_one [OF joining [OF assms(1-6)]]) (simp add: mid)
  also have "effects V seen \<dots> d4" using c by (rule identity_claim_effects)
  also have "effects V seen d4 d5" using k by (rule keep_account_claim_effects)
  also have "effects V seen d5 d'" using e by (rule append_event_effects)
  finally show ?thesis .
qed

lemma join_effects:
  "join_workspace V now ids s i key fp tx d = Inr (x, d', tx') \<Longrightarrow> i \<in> set (invitations d) \<Longrightarrow> effects V seen d d'"
  by (auto simp: join_workspace_def Let_def elim!: and_then_InrE)
    (rule joining_effects; assumption?; simp?)

lemma accept_effects:
  "accept_invitation V hex now ids secret key tx earlier d = Inr (x, d', tx') \<Longrightarrow> effects V seen d d'"
  by (auto simp: accept_invitation_def Let_def elim!: and_then_InrE
      split: option.split_asm if_split_asm sum.split_asm)
    (auto dest: after_lost_race_frame find_hit intro: join_effects)

section \<open>Credentials\<close>

lemma seq_map_issuable:
  "seq_map (issuable r) req = Inr named \<Longrightarrow> set named \<subseteq> set (scopes_of r) \<inter> set sql_issuable_scopes"
proof (induction req arbitrary: named)
  case (Cons p req)
  then show ?case
    by (auto simp: issuable_def role_holds_def scopes_of_def split: sum.split_asm option.split_asm if_split_asm)
qed simp

lemma issue_effects:
  assumes "issue_api_credential V now ids fresh scopes expires label key tx seen d = Inr (x, d')"
  shows "effects V seen d d'"
proof -
  have step: "effects V seen d d2"
    if e: "manager_entry issue_scope args key tx d = Inr (s, req)"
      and n: "seq_map (issuable (the (si_role s))) req = Inr named"
      and m: "mint_binding V (member_binding V now s (sort named) expires label None seen) cs d = Inr (y, d1)"
      and r: "record_operation V ids cx operation key fp result ev outcome resource details d1 = Inr (z, d2)"
    for args s req named cs y d1 cx operation fp result ev outcome resource details z d2
  proof -
    obtain m where "grounded seen d (member_binding V now s (sort named) expires label None seen) m"
      using e by (rule entry_member) (use seq_map_issuable [OF n] in \<open>auto simp: grounded_def member_binding_def\<close>)
    then show ?thesis
      by (intro recorded_after [OF r] issuing [OF m]) (simp_all add: member_binding_def)
  qed
  show ?thesis
    using assms
    by (auto simp: issue_api_credential_def Let_def elim!: and_then_InrE split: option.split_asm) (rule step)
qed

lemma rotate_effects:
  assumes "rotate_api_credential V now ids fresh target expires key tx seen d = Inr (x, d')"
  shows "effects V seen d d'"
proof -
  have step: "effects V seen d d2"
    if e: "manager_entry issue_scope args key tx d = Inr (s, y)"
      and o: "own_binding target s d = Some b" "credential_live now b"
      and m: "mint_binding V (member_binding V now s (ab_scopes b) until (ab_label b) (Some (ab_id b)) seen) cs d =
        Inr (z, d1)"
      and r: "record_operation V ids cx operation key fp result ev outcome resource details (revoke_bindings now p d1) =
        Inr (written, d2)"
    for args s y b until cs z d1 p cx operation fp result ev outcome resource details written d2
  proof -
    have "successor seen d (member_binding V now s (ab_scopes b) until (ab_label b) (Some (ab_id b)) seen)"
      using e by (rule entry_member)
        (use o in \<open>auto dest!: find_hit simp: successor_def member_binding_def own_binding_def credential_live_def\<close>)
    then have "effect V seen d d1" by (intro rotating [OF m]) (simp_all add: member_binding_def)
    from effects_step [OF effects_one [OF this] revoking] show ?thesis
      using record_operation_effects [OF r] by (rule effects_trans)
  qed
  show ?thesis
    using assms
    by (auto simp: rotate_api_credential_def Let_def elim!: and_then_InrE split: option.split_asm if_split_asm)
      (rule step; assumption)+
qed

lemma revoke_credential_effects:
  "revoke_api_credential V now ids target key tx d = Inr (x, d') \<Longrightarrow> effects V seen d d'"
  by (auto simp: revoke_api_credential_def Let_def elim!: and_then_InrE split: option.split_asm)
    (auto intro: effects_trans [OF effects_one [OF revoking] record_revocation_effects])

lemma plain_credential_effects:
  "record_api_credential_use now tx d = Inr d1 \<Longrightarrow> effects V seen d d1"
  "register_auth_binding V now fresh p scopes expires tx d = Inr (x, d2) \<Longrightarrow> effects V seen d d2"
  "revoke_auth_binding now target tx d = Inr (y, d3) \<Longrightarrow> effects V seen d d3"
  by (auto simp: record_api_credential_use_def register_auth_binding_def revoke_auth_binding_def Let_def
      elim!: and_then_InrE split: option.split_asm if_split_asm)
    (auto intro!: effects_one intro: noting revoking minting)

section \<open>Preferences\<close>

lemma stated_after:
  assumes "append_event V cx aid action outcome rtype rid details d = Inr d1"
    and "put_preference now cx' old r d1 = Inr (x, d')" and "restated old r d"
  shows "effects V seen d d'"
proof -
  have "preferences d1 = preferences d" using assms(1) by (auto dest: append_event_frame)
  then have "effect V seen d1 d'" using assms(2,3) by (intro stating) (auto simp: restated_def split: option.splits)
  with append_event_effects [OF assms(1)] show ?thesis by (rule effects_step)
qed

lemma restated_found:
  "restated None r d"
  "find_preference cx s d = Some q \<Longrightarrow> pf_id r = pf_id q \<Longrightarrow> pf_workspace r = pf_workspace q \<Longrightarrow>
   pf_tenant r = pf_tenant q \<Longrightarrow> restated (Some q) r d"
  by (auto simp: restated_def find_preference_def dest: find_hit)

lemma state_effects:
  "state_workspace_preferences V now i aid w regions excluded note intent tx d = Inr (x, d') \<Longrightarrow> effects V seen d d'"
  "acknowledge_workspace_consent V now i aid w version tx d = Inr (y, d') \<Longrightarrow> effects V seen d d'"
  by (auto simp: state_workspace_preferences_def acknowledge_workspace_consent_def Let_def apply_statement_def
      elim!: and_then_InrE split: if_split_asm option.split_asm)
    (auto intro: stated_after [OF _ _ restated_found(1)] stated_after [OF _ _ restated_found(2)])

end
