(* ===== verification/Identity_Invariants.thy ===== *)
theory Identity_Invariants
  imports Identity_Effects
begin

text \<open>
  What holds of the identity tables after any sequence of admissible effects: the rows are well typed
  and their references resolve, every populated workspace has an active owner, and every live
  credential of a member stands on an active membership that holds its scopes.
\<close>

section \<open>Well-typed tables\<close>

definition account_ok :: "account_row \<Rightarrow> bool" where
  "account_ok a \<longleftrightarrow> email_regex (ac_email a) \<and> length (ac_email a) \<le> email_max_length \<and>
     length_between 3 email_max_length (ac_display a) \<and> (ac_status a = Active) = (ac_verified a \<noteq> None) \<and>
     0 \<le> ac_epoch a \<and> (ac_status a = Unverified \<longrightarrow> ac_epoch a = 0)"

definition accounts_ok :: "'f identity_db \<Rightarrow> bool" where
  "accounts_ok d \<longleftrightarrow> distinct (map ac_id (accounts d)) \<and> distinct (map ac_email (accounts d)) \<and>
     (\<forall>a \<in> set (accounts d). account_ok a)"

definition secrets_ok :: "'f identity_db \<Rightarrow> bool" where
  "secrets_ok d \<longleftrightarrow> distinct (map pw_account (passwords d)) \<and>
     (\<forall>p \<in> set (passwords d). stored_hash (Some (pw_hash p)) \<and> pw_account p \<in> ac_id ` set (accounts d)) \<and>
     distinct (map tk_id (tokens d)) \<and> distinct (map tk_fingerprint (tokens d)) \<and>
     (\<forall>t \<in> set (tokens d). tk_created t < tk_expires t \<and> tk_kind t \<in> set token_kinds \<and>
        tk_account t \<in> ac_id ` set (accounts d))"

definition places_ok :: "'f identity_db \<Rightarrow> bool" where
  "places_ok d \<longleftrightarrow> distinct (map tn_id (tenants d)) \<and> distinct (map ws_id (workspaces d)) \<and>
     directory d = workspaces d \<and>
     (\<forall>w \<in> set (workspaces d). ws_tenant w \<in> tn_id ` set (tenants d) \<and> slug_regex (ws_slug w) \<and>
        length_between 1 name_max_length (ws_name w))"

definition memberships_ok :: "'f identity_db \<Rightarrow> bool" where
  "memberships_ok d \<longleftrightarrow> distinct (map mb_id (memberships d)) \<and>
     distinct (map (\<lambda>m. (mb_workspace m, mb_account m)) (filter (\<lambda>m. mb_revoked m = None) (memberships d))) \<and>
     (\<forall>m \<in> set (memberships d). mb_role m \<in> set membership_roles \<and> workspace_exists (mb_workspace m) (mb_tenant m) d \<and>
        mb_account m \<in> ac_id ` set (accounts d))"

definition browser_ok :: "'f identity_db \<Rightarrow> 'f browser_row \<Rightarrow> bool" where
  "browser_ok d s \<longleftrightarrow> bs_created s < bs_expires s \<and> bs_account s \<in> ac_id ` set (accounts d) \<and>
     (bs_workspace s = None) = (bs_tenant s = None) \<and> (bs_workspace s = None) = (bs_membership s = None) \<and>
     (\<forall>i. bs_membership s = Some i \<longrightarrow> (\<exists>m \<in> set (memberships d). mb_id m = i \<and>
        bs_workspace s = Some (mb_workspace m) \<and> bs_tenant s = Some (mb_tenant m)))"

definition browsers_ok :: "'f identity_db \<Rightarrow> bool" where
  "browsers_ok d \<longleftrightarrow> distinct (map bs_id (browsers d)) \<and> distinct (map bs_fingerprint (browsers d)) \<and>
     (\<forall>s \<in> set (browsers d). browser_ok d s)"

definition binding_ok :: "'f identity_db \<Rightarrow> 'f binding_row \<Rightarrow> bool" where
  "binding_ok d b \<longleftrightarrow> set (ab_scopes b) \<subseteq> set known_scopes \<and> length (ab_scopes b) \<le> max_scopes_per_binding \<and>
     ab_tenant b \<in> tn_id ` set (tenants d) \<and> (ab_membership b = None) = (ab_workspace b = None) \<and>
     (\<forall>i. ab_membership b = Some i \<longrightarrow> (\<exists>m \<in> set (memberships d). mb_id m = i \<and>
        ab_workspace b = Some (mb_workspace m) \<and> ab_tenant b = mb_tenant m))"

definition bindings_ok :: "'f identity_db \<Rightarrow> bool" where
  "bindings_ok d \<longleftrightarrow> distinct (map ab_id (bindings d)) \<and> distinct (map ab_fingerprint (bindings d)) \<and>
     (\<forall>b \<in> set (bindings d). binding_ok d b)"

section \<open>Table lemmas\<close>

lemma map_key_update [simp]:
  "(\<And>r. key (f r) = key r) \<Longrightarrow> map key (update_where p f rows) = map key rows"
  by (simp add: update_where_def)

lemma ball_update [simp]:
  "(\<forall>x \<in> set (update_where p f rows). Q x) \<longleftrightarrow> (\<forall>x \<in> set rows. Q (if p x then f x else x))"
  by (auto simp: set_update_where)

lemma bex_update [simp]:
  "(\<exists>x \<in> set (update_where p f rows). Q x) \<longleftrightarrow> (\<exists>x \<in> set rows. Q (if p x then f x else x))"
  by (auto simp: set_update_where)

lemma key_image_update [simp]:
  "(\<And>r. key (f r) = key r) \<Longrightarrow> key ` set (update_where p f rows) = key ` set rows"
  by (metis map_key_update set_map)

lemma row_by_key: "distinct (map key rows) \<Longrightarrow> x \<in> set rows \<Longrightarrow> y \<in> set rows \<Longrightarrow> key x = key y \<Longrightarrow> x = y"
  by (auto simp: distinct_map dest: inj_onD)

text \<open>Where an insert puts its row.\<close>

lemma insert_rows:
  "insert_account a d = Inr d' \<Longrightarrow> d' = d\<lparr>accounts := accounts d @ [a]\<rparr>"
  "insert_password p d = Inr d' \<Longrightarrow> d' = d\<lparr>passwords := passwords d @ [p]\<rparr>"
  "insert_token t d = Inr d' \<Longrightarrow> d' = d\<lparr>tokens := tokens d @ [t]\<rparr>"
  "insert_browser s d = Inr d' \<Longrightarrow> d' = d\<lparr>browsers := browsers d @ [s]\<rparr>"
  "insert_tenant cx tn d = Inr d' \<Longrightarrow> d' = d\<lparr>tenants := tenants d @ [tn]\<rparr>"
  "insert_workspace cx w d = Inr d' \<Longrightarrow>
     d' = d\<lparr>workspaces := workspaces d @ [w], directory := sync_directory w (directory d)\<rparr>"
  "insert_membership m d = Inr d' \<Longrightarrow> d' = d\<lparr>memberships := memberships d @ [m]\<rparr>"
  "insert_invitation i d = Inr d' \<Longrightarrow> d' = d\<lparr>invitations := invitations d @ [i]\<rparr>"
  "insert_account_claim V c d = Inr d' \<Longrightarrow> d' = d\<lparr>account_claims := account_claims d @ [c]\<rparr>"
  unfolding insert_account_def insert_password_def insert_token_def insert_browser_def
    insert_tenant_def insert_workspace_def insert_membership_def insert_invitation_def insert_account_claim_def
  by (simp_all del: checked.simps)

lemmas identity_updates = supersede_tokens_def consume_token_def amend_account_def replace_password_def
  end_authority_def revoke_browsers_def revoke_bindings_def touch_browser_def unbind_browsers_def bind_browser_def
  revoke_membership_def apply_role_def assign_role_def revoke_invitations_def keeps_scopes_def unbound_def

text \<open>What a minted credential is.\<close>

definition minted :: "'f binding_row \<Rightarrow> 'f identity_db \<Rightarrow> 'f binding_row \<Rightarrow> bool" where
  "minted r d b \<longleftrightarrow> b = r\<lparr>ab_id := ab_id b, ab_fingerprint := ab_fingerprint b\<rparr> \<and> ab_id b \<notin> ab_id ` set (bindings d) \<and>
     ab_fingerprint b \<notin> ab_fingerprint ` set (bindings d) \<and> binding_checks b d = Inr () \<and> binding_references b d = Inr ()"

lemma mint_binding_row:
  "mint_binding V r cs d = Inr (x, d') \<Longrightarrow> \<exists>b. minted r d b \<and> d' = d\<lparr>bindings := bindings d @ [b]\<rparr>"
proof (induction V r cs d rule: mint_binding.induct)
  case (2 V r i bytes cs d)
  let ?b = "r\<lparr>ab_id := i, ab_fingerprint := sv_sha V (identity_mint_secret ''fbk_'' bytes)\<rparr>"
  show ?case
  proof (cases "ab_fingerprint ?b \<in> ab_fingerprint ` set (bindings d)")
    case True
    with 2 show ?thesis by (auto simp: Let_def elim!: and_then_InrE)
  next
    case False
    with 2(2) have "minted r d ?b \<and> d' = d\<lparr>bindings := bindings d @ [?b]\<rparr>"
      by (auto simp: Let_def minted_def elim!: and_then_InrE split: if_split_asm)
    then show ?thesis by blast
  qed
qed simp

lemma put_preference_frame:
  "put_preference now cx old r d = Inr (x, d') \<Longrightarrow> \<exists>ps. d' = d\<lparr>preferences := ps\<rparr>"
  by (auto simp: put_preference_def insert_preference_def amend_preference_def Let_def simp del: checked.simps
      elim!: and_then_InrE split: option.split_asm)

section \<open>Accounts\<close>

lemma account_ok_kept:
  "account_ok a \<Longrightarrow> account_ok (activated now a)"
  "account_ok a \<Longrightarrow> ac_status a = Active \<Longrightarrow> account_ok (next_epoch now a)"
  "account_ok a \<Longrightarrow> account_ok (next_epoch now (activated now a))"
  by (auto simp: account_ok_def activated_def next_epoch_def)

lemma account_keys_kept [simp]:
  "ac_id (activated now a) = ac_id a" "ac_email (activated now a) = ac_email a"
  "ac_id (next_epoch now a) = ac_id a" "ac_email (next_epoch now a) = ac_email a"
  by (simp_all add: activated_def next_epoch_def)

text \<open>What an effect does to the accounts.\<close>

lemma effect_accounts:
  assumes "effect V seen d d'"
  obtains "accounts d' = accounts d"
  | r where "insert_account r d = Inr d'" "ac_epoch r = 0" "ac_status r = Unverified"
  | a now where "accounts d' = update_where (\<lambda>x. ac_id x = a) (activated now) (accounts d)"
  | a now where "accounts d' = update_where (\<lambda>x. ac_id x = a) (next_epoch now \<circ> activated now) (accounts d)"
  | a now where "account_active a d" "accounts d' = update_where (\<lambda>x. ac_id x = a) (next_epoch now) (accounts d)"
  | cutoff gone where "gone = ac_id ` set (filter (expired_unverified cutoff d) (accounts d))"
      "accounts d' = filter (\<lambda>x. ac_id x \<notin> gone) (accounts d)"
  using assms
proof cases
  case (purging gone cutoff now)
  then show ?thesis using that(6) by (simp add: delete_accounts_def delete_memberships_def Let_def)
next
  case (minting r cs x)
  then show ?thesis using that(1) by (auto dest: mint_binding_row)
next
  case (issuing r cs x)
  then show ?thesis using that(1) by (auto dest: mint_binding_row)
next
  case (rotating r cs x)
  then show ?thesis using that(1) by (auto dest: mint_binding_row)
next
  case (stating now cx old r x)
  then show ?thesis using that(1) by (auto dest: put_preference_frame)
next
  case (eviction now a)
  then show ?thesis using that(4) [of a now] by (simp add: identity_updates)
next
  case (eviction_active a now)
  then show ?thesis using that(5) [of a now] by (simp add: identity_updates)
next
  case (verifying a now)
  then show ?thesis using that(3) [of a now] by (simp add: identity_updates)
qed (auto simp: identity_updates Let_def dest!: insert_rows intro!: that(1))

lemma accounts_ok_step:
  assumes "effect V seen d d'" "accounts_ok d" shows "accounts_ok d'"
  using assms(1)
proof (cases rule: effect_accounts)
  case (2 r)
  with assms(2) show ?thesis
    by (auto simp: insert_account_def accounts_ok_def account_ok_def simp del: checked.simps)
next
  case (5 a now)
  have "ac_status x = Active" if "x \<in> set (accounts d)" "ac_id x = a" for x
    using 5(1) that assms(2) unfolding accounts_ok_def account_active_def find_account_def
    by (auto split: option.split_asm dest!: find_hit dest: row_by_key)
  with 5 assms(2) show ?thesis by (auto simp: accounts_ok_def account_ok_kept)
next
  case 6
  with assms(2) show ?thesis by (auto simp: accounts_ok_def distinct_map_filter)
qed (use assms(2) in \<open>auto simp: accounts_ok_def account_ok_kept\<close>)

text \<open>Accounts persist: an active one keeps its identity, and its epoch never falls.\<close>

lemma account_persists:
  assumes "effect V seen d d'" "accounts_ok d" "a \<in> set (accounts d)" "ac_status a = Active"
  shows "\<exists>b \<in> set (accounts d'). ac_id b = ac_id a \<and> ac_status b = Active \<and> ac_epoch a \<le> ac_epoch b"
  using assms(1)
proof (cases rule: effect_accounts)
  case (2 r)
  with assms(3,4) show ?thesis by (auto dest!: insert_rows)
next
  case (6 cutoff gone)
  have "ac_id a \<notin> gone"
    using 6(1) assms(2-4) by (auto simp: expired_unverified_def accounts_ok_def distinct_map inj_on_def)
  with 6 assms(3,4) show ?thesis by auto
qed (use assms(3,4) in \<open>auto simp: activated_def next_epoch_def intro!: bexI [OF _ assms(3)]\<close>)

section \<open>Owners\<close>

definition owner_of :: "uuid \<Rightarrow> uuid \<Rightarrow> 'f identity_db \<Rightarrow> bool" where
  "owner_of w t d \<longleftrightarrow> (\<exists>m \<in> set (memberships d). active_owner w t m)"

definition owned :: "'f identity_db \<Rightarrow> bool" where
  "owned d \<longleftrightarrow> (\<forall>m \<in> set (memberships d). owner_of (mb_workspace m) (mb_tenant m) d) \<and>
     (\<forall>i \<in> set (invitations d). owner_of (iv_workspace i) (iv_tenant i) d)"

lemma memberships_apply_role [simp]:
  "memberships (apply_role now r m d) =
     update_where (\<lambda>x. mb_id x = mb_id m \<and> mb_tenant x = mb_tenant m \<and> mb_revoked x = None)
       (\<lambda>x. x\<lparr>mb_role := r, mb_updated := now\<rparr>) (memberships d)"
  by (simp add: apply_role_def assign_role_def revoke_bindings_def Let_def)

text \<open>What an effect does to the memberships.\<close>

lemma effect_memberships:
  assumes "effect V seen d d'"
  obtains "memberships d' = memberships d"
  | m d1 where "insert_membership m d = Inr d1" "memberships d' = memberships d @ [m]" "mb_revoked m = None"
      "mb_role m = ''owner'' \<or> (\<exists>i \<in> set (invitations d). iv_workspace i = mb_workspace m \<and> iv_tenant i = mb_tenant m)"
  | m now a where "member_row m d" "\<not> last_owner m d"
      "memberships d' = update_where (\<lambda>x. mb_id x = mb_id m \<and> mb_tenant x = mb_tenant m \<and> mb_revoked x = None)
        (\<lambda>x. x\<lparr>mb_revoked := Some now, mb_updated := now, mb_revoker := Some a\<rparr>) (memberships d)"
  | m now r where "member_row m d" "r \<in> set membership_roles" "r \<noteq> ''owner'' \<longrightarrow> \<not> last_owner m d"
      "memberships d' = update_where (\<lambda>x. mb_id x = mb_id m \<and> mb_tenant x = mb_tenant m \<and> mb_revoked x = None)
        (\<lambda>x. x\<lparr>mb_role := r, mb_updated := now\<rparr>) (memberships d)"
  | cutoff gone where "gone = ac_id ` set (filter (expired_unverified cutoff d) (accounts d))"
      "memberships d' = map (\<lambda>m. m\<lparr>mb_inviter := forget gone (mb_inviter m), mb_revoker := forget gone (mb_revoker m)\<rparr>)
        (filter (\<lambda>m. mb_account m \<notin> gone) (memberships d))"
  using assms
proof cases
  case (purging gone cutoff now)
  then show ?thesis using that(5) by (simp add: delete_accounts_def delete_memberships_def Let_def comp_def)
next
  case (founding m)
  then show ?thesis using that(2) [OF founding(1)] by (auto dest: insert_rows)
next
  case (joining i m d1)
  then show ?thesis using that(2) [OF joining(2)] by (force dest!: insert_rows)
next
  case (removing m)
  then show ?thesis using that(3) [of m] by (simp add: identity_updates)
next
  case (changing m r)
  then show ?thesis by (intro that(4)) simp_all
next
  case (minting r cs x)
  then show ?thesis using that(1) by (auto dest: mint_binding_row)
next
  case (issuing r cs x)
  then show ?thesis using that(1) by (auto dest: mint_binding_row)
next
  case (rotating r cs x)
  then show ?thesis using that(1) by (auto dest: mint_binding_row)
next
  case (stating now cx old r x)
  then show ?thesis using that(1) by (auto dest: put_preference_frame)
qed (auto simp: identity_updates Let_def dest!: insert_rows intro!: that(1))

text \<open>A row of a purged account is no active one.\<close>

lemma purged_inactive:
  "gone = ac_id ` set (filter (expired_unverified cutoff d) (accounts d)) \<Longrightarrow> m \<in> set (memberships d) \<Longrightarrow>
   mb_account m \<in> gone \<Longrightarrow> mb_revoked m \<noteq> None"
  by (auto simp: expired_unverified_def)

lemma another_owner:
  assumes "distinct (map mb_id (memberships d))" "m \<in> set (memberships d)" "\<not> last_owner m d" "mb_role m = ''owner''"
  shows "\<exists>x \<in> set (memberships d). mb_id x \<noteq> mb_id m \<and> active_owner (mb_workspace m) (mb_tenant m) x"
proof (rule ccontr)
  let ?os = "filter (active_owner (mb_workspace m) (mb_tenant m)) (memberships d)"
  assume "\<not> ?thesis"
  then have "set (map mb_id ?os) \<subseteq> {mb_id m}" by auto
  moreover have "distinct (map mb_id ?os)" using assms(1) by (simp add: distinct_map_filter)
  ultimately have "length (map mb_id ?os) \<le> 1"
    by (metis card_mono distinct_card finite.emptyI finite.insertI is_singletonI is_singleton_altdef)
  with assms(3,4) show False by (simp add: last_owner_def identity_active_owner_count_def)
qed

lemma memberships_distinct_step:
  assumes "effect V seen d d'" "distinct (map mb_id (memberships d))"
  shows "distinct (map mb_id (memberships d'))"
  using assms(1)
proof (cases rule: effect_memberships)
  case (2 m)
  with assms(2) show ?thesis by (auto simp: insert_membership_def simp del: checked.simps)
next
  case 5
  with assms(2) show ?thesis by (simp add: comp_def distinct_map_filter)
qed (use assms(2) in simp_all)

text \<open>An active owner of one place stays, or another one is left.\<close>

lemma owner_of_step:
  assumes "effect V seen d d'" "distinct (map mb_id (memberships d))" "owner_of w t d"
  shows "owner_of w t d'"
proof -
  obtain x where x: "x \<in> set (memberships d)" "active_owner w t x" using assms(3) by (auto simp: owner_of_def)
  note same = row_by_key [OF assms(2)]
  show ?thesis
    using assms(1)
  proof (cases rule: effect_memberships)
    case (3 m now a)
    show ?thesis
    proof (cases "mb_id x = mb_id m")
      case True
      then have "x = m" using same x 3(1) by (auto simp: member_row_def)
      then obtain y where "y \<in> set (memberships d)" "mb_id y \<noteq> mb_id m" "active_owner w t y"
        using another_owner [OF assms(2) x(1)] x 3(2) by (auto simp: active_owner_def)
      with 3 show ?thesis by (auto simp: owner_of_def intro!: bexI [of _ y])
    qed (use x 3 in \<open>auto simp: owner_of_def intro!: bexI [of _ x]\<close>)
  next
    case (4 m now r)
    show ?thesis
    proof (cases "mb_id x = mb_id m \<and> r \<noteq> ''owner''")
      case True
      then have "x = m" using same x 4(1) by (auto simp: member_row_def)
      then obtain y where "y \<in> set (memberships d)" "mb_id y \<noteq> mb_id m" "active_owner w t y"
        using another_owner [OF assms(2) x(1)] x 4(3) True by (auto simp: active_owner_def)
      with 4 show ?thesis by (auto simp: owner_of_def intro!: bexI [of _ y])
    qed (use x 4 in \<open>auto simp: owner_of_def active_owner_def intro!: bexI [of _ x]\<close>)
  next
    case (5 cutoff gone)
    have "mb_account x \<notin> gone"
      using purged_inactive [OF 5(1) x(1)] x(2) by (auto simp: active_owner_def)
    with x 5(2) show ?thesis by (auto simp: owner_of_def active_owner_def)
  qed (use x in \<open>auto simp: owner_of_def\<close>)
qed

lemma invitation_places:
  assumes "effect V seen d d'" "i \<in> set (invitations d')"
  shows "(\<exists>j \<in> set (invitations d). iv_workspace j = iv_workspace i \<and> iv_tenant j = iv_tenant i) \<or>
    (\<exists>m \<in> set (memberships d). mb_workspace m = iv_workspace i \<and> mb_tenant m = iv_tenant i)"
  using assms
proof cases
  case (purging gone cutoff now)
  define place :: "'a invitation_row \<Rightarrow> uuid \<times> uuid" where "place j = (iv_workspace j, iv_tenant j)" for j
  have "map place (invitations d') = map place (invitations d)"
    by (simp add: purging(1) place_def delete_accounts_def delete_memberships_def Let_def comp_def)
  then have "place i \<in> place ` set (invitations d)" using assms(2) by (metis image_eqI set_map)
  then show ?thesis by (auto simp: place_def)
next
  case (inviting m j)
  with assms(2) show ?thesis by (fastforce simp: member_row_def dest!: insert_rows)
next
  case (joining j m d1 now)
  with assms(2) show ?thesis by (auto dest!: insert_rows simp: set_update_where split: if_split_asm)
next
  case (withdrawing now p)
  with assms(2) show ?thesis by (auto simp: revoke_invitations_def set_update_where split: if_split_asm)
next
  case (minting r cs x)
  with assms(2) show ?thesis by (auto dest!: mint_binding_row)
next
  case (issuing r cs x)
  with assms(2) show ?thesis by (auto dest!: mint_binding_row)
next
  case (rotating r cs x)
  with assms(2) show ?thesis by (auto dest!: mint_binding_row)
next
  case (stating now cx old r x)
  with assms(2) show ?thesis by (auto dest!: put_preference_frame)
next
  case (changing m r now)
  with assms(2) show ?thesis
    by (auto simp: apply_role_def assign_role_def revoke_bindings_def Let_def split: if_split_asm)
qed (auto simp: identity_updates Let_def dest!: insert_rows)

lemma owned_step:
  assumes "effect V seen d d'" "distinct (map mb_id (memberships d))" "owned d"
  shows "owned d'"
proof -
  note keep = owner_of_step [OF assms(1,2)]
  have "owner_of (mb_workspace x) (mb_tenant x) d'" if x: "x \<in> set (memberships d')" for x
    using assms(1)
  proof (cases rule: effect_memberships)
    case (2 m)
    show ?thesis
    proof (cases "x = m \<and> mb_role m = ''owner''")
      case True
      with 2 show ?thesis by (auto simp: owner_of_def active_owner_def)
    next
      case False
      with 2 x assms(3) have "owner_of (mb_workspace x) (mb_tenant x) d" by (auto simp: owned_def)
      then show ?thesis by (rule keep)
    qed
  next
    case (3 m now a)
    with x obtain y where "y \<in> set (memberships d)" "mb_workspace y = mb_workspace x" "mb_tenant y = mb_tenant x"
      by (fastforce simp: set_update_where split: if_split_asm)
    with assms(3) show ?thesis by (metis keep owned_def)
  next
    case (4 m now r)
    with x obtain y where "y \<in> set (memberships d)" "mb_workspace y = mb_workspace x" "mb_tenant y = mb_tenant x"
      by (fastforce simp: set_update_where split: if_split_asm)
    with assms(3) show ?thesis by (metis keep owned_def)
  qed (use x assms(3) in \<open>auto simp: owned_def intro: keep\<close>)
  moreover have "owner_of (iv_workspace i) (iv_tenant i) d'" if "i \<in> set (invitations d')" for i
    using invitation_places [OF assms(1) that] assms(3) by (metis keep owned_def)
  ultimately show ?thesis by (simp add: owned_def)
qed

section \<open>Credentials of members\<close>

text \<open>What a live credential of a membership stands on.\<close>

definition stands_on :: "'f identity_db \<Rightarrow> 'f binding_row \<Rightarrow> membership_row \<Rightarrow> bool" where
  "stands_on d b m \<longleftrightarrow> member_row m d \<and> ab_membership b = Some (mb_id m) \<and> ab_tenant b = mb_tenant m \<and>
     ab_workspace b = Some (mb_workspace m) \<and> ab_principal b = mb_account m \<and>
     set (ab_scopes b) \<subseteq> set (scopes_of (mb_role m)) \<inter> set sql_issuable_scopes"

definition standing :: "'f identity_db \<Rightarrow> bool" where
  "standing d \<longleftrightarrow> (\<forall>b \<in> set (bindings d). ab_revoked b = None \<longrightarrow> ab_membership b \<noteq> None \<longrightarrow> (\<exists>m. stands_on d b m))"

text \<open>A live binding afterwards was a live binding with the same authority, or was minted.\<close>

definition same_authority :: "'f binding_row \<Rightarrow> 'f binding_row \<Rightarrow> bool" where
  "same_authority b c \<longleftrightarrow> ab_membership c = ab_membership b \<and> ab_tenant c = ab_tenant b \<and>
     ab_workspace c = ab_workspace b \<and> ab_principal c = ab_principal b \<and> ab_scopes c = ab_scopes b \<and>
     ab_fingerprint c = ab_fingerprint b \<and> ab_epoch c = ab_epoch b \<and> ab_id c = ab_id b"

lemma same_authority_simps [simp]:
  "same_authority b b" "same_authority b (b\<lparr>ab_revoked := r\<rparr>)" "same_authority b (b\<lparr>ab_used := u\<rparr>)"
  by (simp_all add: same_authority_def)

lemma minted_fields:
  assumes "minted r d b"
  shows "ab_membership b = ab_membership r" "ab_tenant b = ab_tenant r" "ab_workspace b = ab_workspace r"
    "ab_principal b = ab_principal r" "ab_scopes b = ab_scopes r" "ab_epoch b = ab_epoch r" "ab_revoked b = ab_revoked r"
proof -
  have "b = r\<lparr>ab_id := ab_id b, ab_fingerprint := ab_fingerprint b\<rparr>" using assms by (simp add: minted_def)
  then show "ab_membership b = ab_membership r" "ab_tenant b = ab_tenant r" "ab_workspace b = ab_workspace r"
    "ab_principal b = ab_principal r" "ab_scopes b = ab_scopes r" "ab_epoch b = ab_epoch r" "ab_revoked b = ab_revoked r"
    by (metis binding_row.select_convs binding_row.update_convs binding_row.surjective)+
qed

text \<open>What an effect does to the credentials.\<close>

lemma effect_bindings:
  assumes "effect V seen d d'"
  obtains "bindings d' = bindings d"
  | r b where "minted r d b" "d' = d\<lparr>bindings := bindings d @ [b]\<rparr>" "ab_revoked b = None"
      "ab_membership b = None \<or> (\<exists>m. grounded seen d b m) \<or> successor seen d b"
  | p now where "bindings d' = update_where (\<lambda>b. p b \<and> ab_revoked b = None) (\<lambda>b. b\<lparr>ab_revoked := Some now\<rparr>) (bindings d)"
  | p now where "bindings d' = update_where p (\<lambda>b. b\<lparr>ab_used := Some now\<rparr>) (bindings d)"
  | p now where "bindings d' = update_where p (\<lambda>b. b\<lparr>ab_revoked := Some (case ab_revoked b of None \<Rightarrow> now | Some t \<Rightarrow> t),
      ab_membership := None, ab_workspace := None\<rparr>) (bindings d)"
  using assms
proof cases
  case (purging gone cutoff now)
  then show ?thesis by (intro that(5)) (simp add: delete_accounts_def delete_memberships_def Let_def)
next
  case (minting r cs x)
  then obtain b where b: "minted r d b" "d' = d\<lparr>bindings := bindings d @ [b]\<rparr>" by (blast dest: mint_binding_row)
  from minting show ?thesis by (intro that(2) [OF b]) (simp_all add: minted_fields [OF b(1)])
next
  case (issuing r cs x m)
  then obtain b where b: "minted r d b" "d' = d\<lparr>bindings := bindings d @ [b]\<rparr>" by (blast dest: mint_binding_row)
  then have "grounded seen d b m" using issuing by (simp add: grounded_def minted_fields)
  with issuing show ?thesis by (intro that(2) [OF b]) (auto simp: minted_fields [OF b(1)])
next
  case (rotating r cs x)
  then obtain b where b: "minted r d b" "d' = d\<lparr>bindings := bindings d @ [b]\<rparr>" by (blast dest: mint_binding_row)
  then have "successor seen d b" using rotating by (simp add: successor_def minted_fields)
  with rotating show ?thesis by (intro that(2) [OF b]) (auto simp: minted_fields [OF b(1)])
next
  case (stating now cx old r x)
  then show ?thesis by (intro that(1)) (auto dest: put_preference_frame)
next
  case (changing m r now)
  then have "bindings d' = (if keeps_scopes (mb_role m) r then bindings d
      else update_where (\<lambda>b. (ab_membership b = Some (mb_id m) \<and> ab_tenant b = mb_tenant m) \<and> ab_revoked b = None)
        (\<lambda>b. b\<lparr>ab_revoked := Some now\<rparr>) (bindings d))"
    by (simp add: apply_role_def assign_role_def revoke_bindings_def)
  then show ?thesis
    by (cases "keeps_scopes (mb_role m) r")
      (simp_all add: that(1) that(3) [of "\<lambda>b. ab_membership b = Some (mb_id m) \<and> ab_tenant b = mb_tenant m" now])
next
  case (revoking now p)
  then show ?thesis by (intro that(3)) (simp add: revoke_bindings_def)
next
  case (removing m now a)
  then show ?thesis
    by (intro that(3) [of "\<lambda>b. ab_membership b = Some (mb_id m) \<and> ab_tenant b = mb_tenant m" now])
      (simp add: identity_updates)
next
  case (eviction now a)
  then show ?thesis
    by (intro that(3) [of "\<lambda>b. ab_principal b = a \<and> ab_membership b \<noteq> None" now]) (simp add: identity_updates)
next
  case (eviction_active a now)
  then show ?thesis
    by (intro that(3) [of "\<lambda>b. ab_principal b = a \<and> ab_membership b \<noteq> None" now]) (simp add: identity_updates)
next
  case (noting p now)
  then show ?thesis by (intro that(4)) simp
qed (auto simp: identity_updates Let_def dest!: insert_rows intro!: that(1))

lemma live_binding_from:
  assumes "effect V seen d d'" "b \<in> set (bindings d')" "ab_revoked b = None" "ab_membership b \<noteq> None"
  shows "(\<exists>c \<in> set (bindings d). ab_revoked c = None \<and> same_authority c b) \<or>
    memberships d' = memberships d \<and> ((\<exists>m. grounded seen d b m) \<or> successor seen d b)"
  using assms(1)
proof (cases rule: effect_bindings)
  case 1
  with assms show ?thesis by (metis same_authority_simps(1))
next
  case (2 r c)
  with assms show ?thesis by (cases "b = c") (auto intro: bexI [of _ b])
qed (use assms in \<open>auto simp: set_update_where split: if_split_asm\<close>)

lemma stands_on_scopes: "same_authority c b \<Longrightarrow> stands_on d c m \<Longrightarrow> stands_on d b m"
  by (simp add: stands_on_def same_authority_def)

text \<open>An active membership stays as it is, is revoked, or changes its role.\<close>

definition same_member :: "membership_row \<Rightarrow> membership_row \<Rightarrow> bool" where
  "same_member m x \<longleftrightarrow> mb_id x = mb_id m \<and> mb_tenant x = mb_tenant m \<and> mb_workspace x = mb_workspace m \<and>
     mb_account x = mb_account m \<and> mb_role x = mb_role m"

lemma member_persists:
  assumes "effect V seen d d'" "member_row m d"
  obtains x where "member_row x d'" "same_member m x"
  | now a n where "d' = revoke_membership now a n d" "mb_id n = mb_id m" "mb_tenant n = mb_tenant m"
  | now r n where "d' = apply_role now r n d" "member_row n d" "mb_id n = mb_id m" "mb_tenant n = mb_tenant m"
proof -
  note cases = that
  have keep: thesis if "x \<in> set (memberships d')" "mb_revoked x = None" "same_member m x" for x
    using that by (intro cases(1)) (auto simp: member_row_def)
  show thesis
    using assms(1)
  proof cases
    case (removing n now a)
    show thesis
    proof (cases "mb_id m = mb_id n \<and> mb_tenant m = mb_tenant n")
      case False
      with assms(2) removing show thesis
        by (intro keep [of m]) (auto simp: identity_updates member_row_def same_member_def set_update_where)
    qed (use removing cases(2) in auto)
  next
    case (changing n r now)
    show thesis
    proof (cases "mb_id m = mb_id n \<and> mb_tenant m = mb_tenant n")
      case False
      with assms(2) changing show thesis
        by (intro keep [of m]) (auto simp: member_row_def same_member_def set_update_where)
    qed (use changing cases(3) in auto)
  next
    case (purging gone cutoff now)
    let ?f = "\<lambda>m. m\<lparr>mb_inviter := forget gone (mb_inviter m), mb_revoker := forget gone (mb_revoker m)\<rparr>"
    have "mb_account m \<notin> gone" using purged_inactive [OF purging(2), of m] assms(2) by (auto simp: member_row_def)
    then have "?f m \<in> set (memberships d')"
      using assms(2) purging(1) by (simp add: delete_accounts_def delete_memberships_def Let_def member_row_def)
    then show thesis by (rule keep) (use assms(2) in \<open>simp_all add: member_row_def same_member_def\<close>)
  next
    case (minting r cs x)
    with assms(2) show thesis by (intro keep [of m]) (auto simp: member_row_def same_member_def dest!: mint_binding_row)
  next
    case (issuing r cs x)
    with assms(2) show thesis by (intro keep [of m]) (auto simp: member_row_def same_member_def dest!: mint_binding_row)
  next
    case (rotating r cs x)
    with assms(2) show thesis by (intro keep [of m]) (auto simp: member_row_def same_member_def dest!: mint_binding_row)
  next
    case (stating now cx old r x)
    with assms(2) show thesis by (intro keep [of m]) (auto simp: member_row_def same_member_def dest!: put_preference_frame)
  qed (use assms(2) in \<open>auto simp: identity_updates member_row_def same_member_def dest!: insert_rows intro!: keep [of m]\<close>)
qed

lemma standing_step:
  assumes e: "effect V seen d d'" and u: "distinct (map mb_id (memberships d))" and "standing d"
  shows "standing d'"
proof -
  have "\<exists>m. stands_on d' b m"
    if b: "b \<in> set (bindings d')" "ab_revoked b = None" "ab_membership b \<noteq> None" for b
  proof -
    from live_binding_from [OF e b] consider c m where "c \<in> set (bindings d)" "ab_revoked c = None" "same_authority c b"
        "stands_on d c m"
      | m where "memberships d' = memberships d" "stands_on d b m"
    proof (elim disjE conjE bexE exE)
      fix c assume "c \<in> set (bindings d)" "ab_revoked c = None" "same_authority c b"
      moreover from this obtain m where "stands_on d c m"
        using assms(3) b(3) by (auto simp: standing_def same_authority_def)
      ultimately show thesis using that(1) by blast
    next
      fix m assume "memberships d' = memberships d" "grounded seen d b m"
      then show thesis using that(2) [of m] by (simp add: grounded_def stands_on_def)
    next
      assume same: "memberships d' = memberships d" and "successor seen d b"
      then obtain m c where m: "member_row m d" "ab_membership b = Some (mb_id m)" "ab_tenant b = mb_tenant m"
          "ab_workspace b = Some (mb_workspace m)" "ab_principal b = mb_account m" "ab_scopes b = ab_scopes c"
        and c: "c \<in> set (bindings d)" "ab_revoked c = None" "ab_membership c = Some (mb_id m)"
        by (auto simp: successor_def)
      obtain n where n: "stands_on d c n" using assms(3) c by (auto simp: standing_def)
      then have "n = m" using row_by_key [OF u] m(1) c(3) by (auto simp: stands_on_def member_row_def)
      with m n same show thesis using that(2) [of m] by (simp add: stands_on_def)
    qed
    then show ?thesis
    proof cases
      case (1 c m)
      from 1(4) have m: "member_row m d" by (simp add: stands_on_def)
      from stands_on_scopes [OF 1(3,4)] have s: "stands_on d b m" .
      from e m show ?thesis
      proof (cases rule: member_persists)
        case (1 x)
        with s show ?thesis by (intro exI [of _ x]) (auto simp: stands_on_def same_member_def)
      next
        case (2 now a n)
        with b s show ?thesis
          by (auto simp: identity_updates stands_on_def set_update_where split: if_split_asm)
      next
        case (3 now r n)
        then have n: "n = m" using row_by_key [OF u] m by (auto simp: member_row_def)
        let ?x = "m\<lparr>mb_role := r, mb_updated := now\<rparr>"
        have "keeps_scopes (mb_role m) r"
          using b s 3(1) n
          by (auto simp: apply_role_def revoke_bindings_def assign_role_def stands_on_def set_update_where Let_def
              split: if_split_asm)
        moreover have "?x \<in> set (memberships d')"
          using m 3(1) n by (force simp: member_row_def set_update_where)
        ultimately have "stands_on d' b ?x" using s m by (auto simp: stands_on_def member_row_def keeps_scopes_def)
        then show ?thesis ..
      qed
    next
      case (2 m)
      then have "stands_on d' b m" by (simp add: stands_on_def member_row_def)
      then show ?thesis ..
    qed
  qed
  then show ?thesis by (simp add: standing_def)
qed

section \<open>Evicted credentials\<close>

text \<open>A credential that no longer authenticates: revoked, or minted under an epoch the account has left.\<close>

definition outdated :: "'f identity_db \<Rightarrow> 'f binding_row \<Rightarrow> bool" where
  "outdated d b \<longleftrightarrow> (\<exists>a \<in> set (accounts d). ac_id a = ab_principal b \<and> ac_status a = Active \<and>
     (case ab_epoch b of None \<Rightarrow> True | Some e \<Rightarrow> e < ac_epoch a))"

definition evicted :: "'f identity_db \<Rightarrow> 'f binding_row \<Rightarrow> bool" where
  "evicted d b \<longleftrightarrow> ab_revoked b \<noteq> None \<or> ab_membership b \<noteq> None \<and> outdated d b"

lemma evicted_step:
  assumes "effect V seen d d'" "accounts_ok d" "b \<in> set (bindings d)" "evicted d b"
  shows "\<exists>c \<in> set (bindings d'). ab_fingerprint c = ab_fingerprint b \<and> evicted d' c"
proof -
  have out: "outdated d' c" if "outdated d b" "ab_principal c = ab_principal b" "ab_epoch c = ab_epoch b" for c
  proof -
    from that(1) obtain a where a: "a \<in> set (accounts d)" "ac_id a = ab_principal b" "ac_status a = Active"
        "case ab_epoch b of None \<Rightarrow> True | Some e \<Rightarrow> e < ac_epoch a" by (auto simp: outdated_def)
    from account_persists [OF assms(1,2) a(1,3)] show ?thesis
      using a that(2,3) by (auto simp: outdated_def split: option.splits)
  qed
  have keep: ?thesis if "c \<in> set (bindings d')" "ab_fingerprint c = ab_fingerprint b"
    "ab_revoked b \<noteq> None \<longrightarrow> ab_revoked c \<noteq> None"
    "ab_revoked c \<noteq> None \<or> ab_membership c = ab_membership b \<and> ab_principal c = ab_principal b \<and> ab_epoch c = ab_epoch b"
    for c
    using that assms(4) out [of c] by (auto simp: evicted_def)
  show ?thesis
    using assms(1)
  proof (cases rule: effect_bindings)
    case (3 p now)
    let ?c = "if p b \<and> ab_revoked b = None then b\<lparr>ab_revoked := Some now\<rparr> else b"
    have "?c \<in> set (bindings d')" using 3 assms(3) by (auto simp: set_update_where)
    then show ?thesis by (rule keep) auto
  next
    case (4 p now)
    let ?c = "if p b then b\<lparr>ab_used := Some now\<rparr> else b"
    have "?c \<in> set (bindings d')" using 4 assms(3) by (auto simp: set_update_where)
    then show ?thesis by (rule keep) auto
  next
    case (5 p now)
    let ?c = "if p b then b\<lparr>ab_revoked := Some (case ab_revoked b of None \<Rightarrow> now | Some t \<Rightarrow> t),
      ab_membership := None, ab_workspace := None\<rparr> else b"
    have "?c \<in> set (bindings d')" using 5 assms(3) by (auto simp: set_update_where)
    then show ?thesis by (rule keep) auto
  next
    case 1
    then show ?thesis by (intro keep [of b]) (simp_all add: assms(3))
  next
    case 2
    then show ?thesis by (intro keep [of b]) (simp_all add: assms(3))
  qed
qed

lemma fingerprints_step:
  assumes "effect V seen d d'" "distinct (map ab_fingerprint (bindings d))"
  shows "distinct (map ab_fingerprint (bindings d'))"
  using assms(1) by (cases rule: effect_bindings) (use assms(2) in \<open>auto simp: minted_def\<close>)

text \<open>An evicted credential is refused with the one answer an unknown one gets.\<close>

lemma evicted_refused:
  assumes "distinct (map ab_fingerprint (bindings d))" "accounts_ok d" "b \<in> set (bindings d)" "evicted d b"
    "sv_sha V secret = ab_fingerprint b" "secret \<noteq> []" "entry_checks tx = Inr ()"
  shows "bind_authenticated_context V now (Some secret) tx d = Inl Authentication_failed"
proof -
  have "find (\<lambda>c. ab_fingerprint c = sv_sha V secret) (bindings d) = Some b"
  proof -
    obtain c where c: "find (\<lambda>c. ab_fingerprint c = sv_sha V secret) (bindings d) = Some c"
      using assms(3,5) by (cases "find (\<lambda>c. ab_fingerprint c = sv_sha V secret) (bindings d)")
        (auto simp: find_None_iff)
    then have "c = b" using row_by_key [OF assms(1)] assms(3,5) by (auto dest!: find_hit)
    with c show ?thesis by simp
  qed
  moreover have "\<not> still_standing b d" if "ab_membership b \<noteq> None" "outdated d b"
  proof -
    from that(2) obtain a where a: "a \<in> set (accounts d)" "ac_id a = ab_principal b"
        "case ab_epoch b of None \<Rightarrow> True | Some e \<Rightarrow> e < ac_epoch a" by (auto simp: outdated_def)
    have "x = a" if "x \<in> set (accounts d)" "ac_id x = ab_principal b" for x
      using row_by_key [of ac_id "accounts d" x a] assms(2) a that by (simp add: accounts_ok_def)
    then have "\<not> (\<exists>x \<in> set (accounts d). ac_id x = ab_principal b \<and> Some (ac_epoch x) = ab_epoch b)"
      using a(3) by (cases "ab_epoch b") auto
    with that(1) show ?thesis by (auto simp: still_standing_def)
  qed
  ultimately show ?thesis
    using assms(4,6,7) by (cases "ab_revoked b") (auto simp: bind_authenticated_context_def evicted_def credential_live_def)
qed

end
