(* ===== verification/Identity_Typing.thy ===== *)
theory Identity_Typing
  imports Identity_Invariants
begin

text \<open>
  The well-typed tables of the identity plane stay well typed: one preservation lemma per group of
  tables, from what an effect may do to it, and the invariant they make with the owners and the
  credentials.
\<close>

section \<open>The tables stay well typed\<close>

lemma distinct_snoc_map: "distinct (map key (xs @ [x])) \<longleftrightarrow> distinct (map key xs) \<and> key x \<notin> key ` set xs"
  by auto

text \<open>What an effect does to the tenants, the workspaces and the directory.\<close>

lemma effect_places:
  assumes "effect V seen d d'"
  obtains "tenants d' = tenants d" "workspaces d' = workspaces d" "directory d' = directory d"
  | cx r where "insert_tenant cx r d = Inr d'"
  | cx r where "insert_workspace cx r d = Inr d'"
  | nm t hit w now where "length_between 1 name_max_length nm"
      "\<forall>x \<in> set (workspaces d). hit x \<longrightarrow> ws_id x = w \<and> ws_tenant x = t" "tenants d' = tenants d"
      "workspaces d' = update_where hit (\<lambda>x. x\<lparr>ws_name := nm, ws_updated := now\<rparr>) (workspaces d)"
      "directory d' = fold (\<lambda>x. sync_directory (x\<lparr>ws_name := nm, ws_updated := now\<rparr>)) (filter hit (workspaces d)) (directory d)"
  using assms
proof cases
  case (purging gone cutoff now)
  then show ?thesis by (intro that(1)) (simp_all add: delete_accounts_def delete_memberships_def Let_def)
next
  case (renaming nm t hit w ren now)
  then show ?thesis by (intro that(4) [OF renaming(2,4)]) simp_all
next
  case (new_tenant cx r)
  then show ?thesis by (rule that(2))
next
  case (new_workspace cx r)
  then show ?thesis by (rule that(3))
next
  case (minting r cs x)
  then show ?thesis by (intro that(1)) (auto dest: mint_binding_row)
next
  case (issuing r cs x)
  then show ?thesis by (intro that(1)) (auto dest: mint_binding_row)
next
  case (rotating r cs x)
  then show ?thesis by (intro that(1)) (auto dest: mint_binding_row)
next
  case (stating now cx old r x)
  then show ?thesis by (intro that(1)) (auto dest: put_preference_frame)
next
  case (changing m r now)
  then show ?thesis by (intro that(1)) (simp_all add: apply_role_def assign_role_def revoke_bindings_def Let_def)
qed (auto simp: identity_updates Let_def dest!: insert_rows intro!: that(1))

lemma places_kept:
  assumes "effect V seen d d'"
  shows "t \<in> tn_id ` set (tenants d) \<Longrightarrow> t \<in> tn_id ` set (tenants d')"
    and "workspace_exists w t d \<Longrightarrow> workspace_exists w t d'"
  using assms
  by (cases rule: effect_places; auto simp: workspace_exists_def dest!: insert_rows)+

lemma distinct_singleton: "set xs = {x} \<Longrightarrow> distinct xs \<Longrightarrow> xs = [x]"
  by (cases xs; cases "tl xs") auto

text \<open>Renaming a row of the directory with the one row of its identifier renames it in place.\<close>

lemma sync_in_place:
  assumes "distinct (map ws_id ws)" "x \<in> set ws" "ws_id y = ws_id x"
  shows "sync_directory y ws = update_where (\<lambda>z. ws_id z = ws_id x) (\<lambda>z. y) ws"
  using assms by (auto simp: sync_directory_def upsert_by_def update_where_def)

lemma places_ok_step:
  assumes "effect V seen d d'" "places_ok d"
  shows "places_ok d'"
  using assms(1)
proof (cases rule: effect_places)
  case (2 cx r)
  with assms(2) show ?thesis
    by (auto simp: insert_tenant_def places_ok_def simp del: checked.simps)
next
  case (3 cx r)
  with assms(2) show ?thesis
    by (auto simp: insert_workspace_def places_ok_def sync_directory_def upsert_by_def simp del: checked.simps)
next
  case (4 nm t hit w now)
  define ren where "ren = (\<lambda>x :: workspace_row. x\<lparr>ws_name := nm, ws_updated := now\<rparr>)"
  have u: "distinct (map ws_id (workspaces d))" using assms(2) by (simp add: places_ok_def)
  have one: "x = y" if "x \<in> set (workspaces d)" "hit x" "y \<in> set (workspaces d)" "ws_id y = w" for x y
    using row_by_key [OF u] 4(2) that by metis
  have "directory d' = workspaces d'"
  proof (cases "\<exists>x \<in> set (workspaces d). hit x")
    case False
    then have "filter hit (workspaces d) = []" by (auto simp: filter_empty_conv)
    with False 4 assms(2) show ?thesis by (auto simp: places_ok_def update_where_none)
  next
    case True
    then obtain x where x: "x \<in> set (workspaces d)" "hit x" by blast
    have "filter hit (workspaces d) = [x]"
    proof -
      have "set (filter hit (workspaces d)) = {x}" using x one 4(2) by auto
      moreover have "distinct (filter hit (workspaces d))" using u by (simp add: distinct_map)
      ultimately show ?thesis by (rule distinct_singleton)
    qed
    then have "directory d' = sync_directory (ren x) (workspaces d)"
      using 4(5) assms(2) by (simp add: places_ok_def ren_def)
    also have "\<dots> = update_where (\<lambda>z. ws_id z = ws_id x) (\<lambda>z. ren x) (workspaces d)"
      by (rule sync_in_place [OF u x(1)]) (simp add: ren_def)
    also have "\<dots> = workspaces d'"
      unfolding 4(4) update_where_def
      using x one 4(2) by (auto intro!: map_cong simp: ren_def)
    finally show ?thesis .
  qed
  with assms(2) 4(1,3,4) show ?thesis by (auto simp: places_ok_def)
qed (use assms(2) in \<open>simp add: places_ok_def\<close>)

text \<open>Accounts stay, but for those a purge deletes.\<close>

definition doomed :: "rat \<Rightarrow> 'f identity_db \<Rightarrow> uuid set" where
  "doomed cutoff d = ac_id ` set (filter (expired_unverified cutoff d) (accounts d))"

definition purges :: "'f identity_db \<Rightarrow> 'f identity_db \<Rightarrow> bool" where
  "purges d d' \<longleftrightarrow> (\<exists>cutoff now. d' = delete_accounts now (doomed cutoff d) d)"

lemma accounts_kept:
  assumes "effect V seen d d'" "\<not> purges d d'" "a \<in> ac_id ` set (accounts d)"
  shows "a \<in> ac_id ` set (accounts d')"
  using assms(1)
proof cases
  case (purging gone cutoff now)
  with assms(2) show ?thesis by (metis doomed_def purges_def)
next
  case (new_account r)
  with assms(3) show ?thesis by (auto dest!: insert_rows)
next
  case (minting r cs x)
  with assms(3) show ?thesis by (auto dest!: mint_binding_row)
next
  case (issuing r cs x)
  with assms(3) show ?thesis by (auto dest!: mint_binding_row)
next
  case (rotating r cs x)
  with assms(3) show ?thesis by (auto dest!: mint_binding_row)
next
  case (stating now cx old r x)
  with assms(3) show ?thesis by (auto dest!: put_preference_frame)
next
  case (changing m r now)
  with assms(3) show ?thesis by (simp add: apply_role_def assign_role_def revoke_bindings_def Let_def)
qed (use assms(3) in \<open>auto simp: identity_updates Let_def image_iff dest!: insert_rows\<close>)

lemma purged_rows:
  "ac_id ` set (accounts (delete_accounts now gone d)) = ac_id ` set (accounts d) - gone"
  "m \<in> set (memberships (delete_accounts now gone d)) \<Longrightarrow> mb_account m \<notin> gone"
  by (auto simp: delete_accounts_def delete_memberships_def Let_def)

lemma filter_update_out:
  "(\<And>x. p x \<Longrightarrow> \<not> q (f x)) \<Longrightarrow> filter q (update_where p f xs) = filter (\<lambda>x. \<not> p x) (filter q xs)"
  by (induction xs) (auto simp: update_where_def)

lemma map_filter_update:
  "(\<And>x. p x \<Longrightarrow> q (f x) = q x \<and> g (f x) = g x) \<Longrightarrow> map g (filter q (update_where p f xs)) = map g (filter q xs)"
  by (induction xs) (auto simp: update_where_def)

lemma memberships_ok_step:
  assumes "effect V seen d d'" "memberships_ok d" "accounts_ok d"
  shows "memberships_ok d'"
proof -
  let ?active = "\<lambda>m. mb_revoked m = None" and ?pair = "\<lambda>m. (mb_workspace m, mb_account m)"
  have ids: "distinct (map mb_id (memberships d))" and pairs: "distinct (map ?pair (filter ?active (memberships d)))"
    and rows: "\<And>m. m \<in> set (memberships d) \<Longrightarrow> mb_role m \<in> set membership_roles \<and>
      workspace_exists (mb_workspace m) (mb_tenant m) d \<and> mb_account m \<in> ac_id ` set (accounts d)"
    using assms(2) by (auto simp: memberships_ok_def)
  note place = places_kept(2) [OF assms(1)]
  have here: "m \<in> set (memberships d') \<Longrightarrow> mb_account m \<in> ac_id ` set (accounts d) \<Longrightarrow>
      mb_account m \<in> ac_id ` set (accounts d')" for m
    using accounts_kept [OF assms(1)]
    by (cases "purges d d'") (auto simp: purges_def purged_rows(1) dest: purged_rows(2))
  have kept: ?thesis if "distinct (map ?pair (filter ?active (memberships d')))"
    "\<forall>x \<in> set (memberships d'). \<exists>y \<in> set (memberships d). mb_role x \<in> set membership_roles \<and>
        mb_workspace x = mb_workspace y \<and> mb_tenant x = mb_tenant y \<and> mb_account x = mb_account y"
    using that memberships_distinct_step [OF assms(1) ids] rows place here
    unfolding memberships_ok_def by (metis (no_types, lifting))
  show ?thesis
    using assms(1)
  proof (cases rule: effect_memberships)
    case 1
    with pairs rows show ?thesis by (intro kept) auto
  next
    case (2 m)
    have m: "mb_role m \<in> set membership_roles" "mb_id m \<notin> mb_id ` set (memberships d)"
        "\<forall>x \<in> set (memberships d). \<not> active_in (mb_workspace m) (mb_account m) x"
        "workspace_exists (mb_workspace m) (mb_tenant m) d" "mb_account m \<in> ac_id ` set (accounts d)"
      using 2(1,3) by (auto simp: insert_membership_def simp del: checked.simps)
    have "?pair m \<notin> ?pair ` set (filter ?active (memberships d))"
      using m(3) by (auto simp: active_in_def)
    with 2 m ids pairs rows place here show ?thesis by (simp add: memberships_ok_def)
  next
    case (3 m now a)
    show ?thesis
    proof (rule kept)
      show "distinct (map ?pair (filter ?active (memberships d')))"
        unfolding 3(3)
        by (subst filter_update_out) (use pairs in \<open>auto intro: distinct_map_filter simp del: filter_filter\<close>)
    qed (use 3(3) rows in auto)
  next
    case (4 m now r)
    show ?thesis
    proof (rule kept)
      show "distinct (map ?pair (filter ?active (memberships d')))"
        unfolding 4(4) by (subst map_filter_update) (use pairs in simp_all)
    qed (use 4(2,4) rows in auto)
  next
    case (5 cutoff gone)
    let ?f = "\<lambda>m. m\<lparr>mb_inviter := forget gone (mb_inviter m), mb_revoker := forget gone (mb_revoker m)\<rparr>"
    have "map ?pair (filter ?active (map ?f (filter (\<lambda>m. mb_account m \<notin> gone) (memberships d)))) =
      map ?pair (filter (\<lambda>m. mb_account m \<notin> gone) (filter ?active (memberships d)))"
      by (simp add: filter_map comp_def conj_commute)
    then have "distinct (map ?pair (filter ?active (memberships d')))"
      unfolding 5(2) by (simp only: distinct_map_filter [OF pairs])
    then show ?thesis by (rule kept) (use 5(2) rows in auto)
  qed
qed

text \<open>What an effect does to the passwords and the tokens.\<close>

definition token_upkeep :: "('f token_row \<Rightarrow> 'f token_row) \<Rightarrow> bool" where
  "token_upkeep f \<longleftrightarrow> (\<exists>now. f = (\<lambda>t. t\<lparr>tk_superseded := Some now\<rparr>) \<or> f = (\<lambda>t. t\<lparr>tk_consumed := Some now\<rparr>))"

lemma effect_secrets:
  assumes "effect V seen d d'"
  obtains "passwords d' = passwords d" "tokens d' = tokens d"
  | p where "insert_password p d = Inr d'"
  | t where "insert_token t d = Inr d'"
  | p f where "passwords d' = passwords d" "tokens d' = update_where p f (tokens d)" "token_upkeep f"
  | a h now where "stored_hash (Some h)" "tokens d' = tokens d"
      "passwords d' = update_where (\<lambda>p. pw_account p = a) (\<lambda>p. p\<lparr>pw_hash := h, pw_updated := now\<rparr>) (passwords d)"
  | cutoff now where "d' = delete_accounts now (doomed cutoff d) d"
  using assms
proof cases
  case (purging gone cutoff now)
  then show ?thesis by (intro that(6)) (simp add: doomed_def)
next
  case (new_password p)
  then show ?thesis by (rule that(2))
next
  case (new_token t)
  then show ?thesis by (rule that(3))
next
  case (superseding now p)
  then show ?thesis
    by (intro that(4) [of "\<lambda>t. p t \<and> live_token t" "\<lambda>t. t\<lparr>tk_superseded := Some now\<rparr>"])
      (auto simp: supersede_tokens_def token_upkeep_def)
next
  case (consuming t i now)
  then show ?thesis
    by (intro that(4) [of "\<lambda>t. tk_id t = i" "\<lambda>t. t\<lparr>tk_consumed := Some now\<rparr>"])
      (auto simp: consume_token_def token_upkeep_def)
next
  case (new_hash h now a)
  then show ?thesis by (intro that(5) [OF new_hash(2)]) (simp_all add: replace_password_def)
next
  case (minting r cs x)
  then show ?thesis by (intro that(1)) (auto dest: mint_binding_row)
next
  case (issuing r cs x)
  then show ?thesis by (intro that(1)) (auto dest: mint_binding_row)
next
  case (rotating r cs x)
  then show ?thesis by (intro that(1)) (auto dest: mint_binding_row)
next
  case (stating now cx old r x)
  then show ?thesis by (intro that(1)) (auto dest: put_preference_frame)
next
  case (changing m r now)
  then show ?thesis by (intro that(1)) (simp_all add: apply_role_def assign_role_def revoke_bindings_def Let_def)
qed (auto simp: identity_updates Let_def dest!: insert_rows intro!: that(1))

lemma token_upkeep_keys:
  "token_upkeep f \<Longrightarrow> tk_id (f t) = tk_id t \<and> tk_fingerprint (f t) = tk_fingerprint t \<and> tk_kind (f t) = tk_kind t \<and>
     tk_account (f t) = tk_account t \<and> tk_created (f t) = tk_created t \<and> tk_expires (f t) = tk_expires t"
  by (auto simp: token_upkeep_def)

lemma secrets_ok_step:
  assumes e: "effect V seen d d'" and "secrets_ok d"
  shows "secrets_ok d'"
proof -
  have purged: ?thesis if "d' = delete_accounts now (doomed cutoff d) d" for now cutoff
    using that assms(2)
    by (auto simp: secrets_ok_def delete_accounts_def delete_memberships_def Let_def distinct_map_filter)
  show ?thesis
  proof (cases "purges d d'")
    case True
    then show ?thesis using purged by (auto simp: purges_def)
  next
    case False
    note stay = accounts_kept [OF e False]
    show ?thesis
      using e
    proof (cases rule: effect_secrets)
      case (2 p)
      then show ?thesis using assms(2)
        by (auto simp: insert_password_def secrets_ok_def simp del: checked.simps)
    next
      case (3 t)
      then show ?thesis using assms(2)
        by (auto simp: insert_token_def secrets_ok_def simp del: checked.simps)
    next
      case (4 p f)
      note k = token_upkeep_keys [OF 4(3)]
      show ?thesis using 4 stay assms(2) by (simp add: secrets_ok_def k)
    next
      case (6 cutoff now)
      then show ?thesis by (rule purged)
    qed (use stay assms(2) in \<open>auto simp: secrets_ok_def\<close>)
  qed
qed

text \<open>What an effect does to the sessions.\<close>

definition session_upkeep :: "('f browser_row \<Rightarrow> bool) \<Rightarrow> ('f browser_row \<Rightarrow> 'f browser_row) \<Rightarrow> bool" where
  "session_upkeep p f \<longleftrightarrow> (\<exists>now. f = (\<lambda>s. s\<lparr>bs_seen := Some now\<rparr>) \<or> f = (\<lambda>s. s\<lparr>bs_revoked := Some now\<rparr>) \<or> f = unbound)"

lemma effect_browsers:
  assumes "effect V seen d d'"
  obtains "browsers d' = browsers d"
  | s where "insert_browser s d = Inr d'"
  | p f where "browsers d' = update_where p f (browsers d)" "session_upkeep p f"
  | p m now where "member_row m d" "memberships d' = memberships d"
      "browsers d' = update_where p (\<lambda>s. s\<lparr>bs_workspace := Some (mb_workspace m), bs_tenant := Some (mb_tenant m),
         bs_membership := Some (mb_id m), bs_bound := Some now\<rparr>) (browsers d)"
  | cutoff now where "d' = delete_accounts now (doomed cutoff d) d"
  using assms
proof cases
  case (purging gone cutoff now)
  then show ?thesis by (intro that(5)) (simp add: doomed_def)
next
  case (new_session r)
  then show ?thesis by (intro that(2))
next
  case (touching now i)
  then show ?thesis
    by (intro that(3) [of "\<lambda>s. bs_id s = i" "\<lambda>s. s\<lparr>bs_seen := Some now\<rparr>"])
      (auto simp: touch_browser_def session_upkeep_def)
next
  case (closing now p)
  then show ?thesis
    by (intro that(3) [of "\<lambda>s. p s \<and> bs_revoked s = None" "\<lambda>s. s\<lparr>bs_revoked := Some now\<rparr>"])
      (auto simp: revoke_browsers_def session_upkeep_def)
next
  case (eviction now a)
  then show ?thesis
    by (intro that(3) [of "\<lambda>s. bs_account s = a \<and> bs_revoked s = None" "\<lambda>s. s\<lparr>bs_revoked := Some now\<rparr>"])
      (auto simp: identity_updates session_upkeep_def)
next
  case (eviction_active a now)
  then show ?thesis
    by (intro that(3) [of "\<lambda>s. bs_account s = a \<and> bs_revoked s = None" "\<lambda>s. s\<lparr>bs_revoked := Some now\<rparr>"])
      (auto simp: identity_updates session_upkeep_def)
next
  case (unbinding p)
  then show ?thesis by (intro that(3) [of p unbound]) (auto simp: unbind_browsers_def session_upkeep_def)
next
  case (removing m now a)
  then show ?thesis
    by (intro that(3) [of "\<lambda>s. bs_membership s = Some (mb_id m)" unbound])
      (auto simp: revoke_membership_def unbind_browsers_def revoke_bindings_def session_upkeep_def)
next
  case (choosing m now i)
  then show ?thesis by (intro that(4) [of m "\<lambda>s. bs_id s = i \<and> bs_revoked s = None" now]) (simp_all add: bind_browser_def)
next
  case (minting r cs x)
  then show ?thesis by (intro that(1)) (auto dest: mint_binding_row)
next
  case (issuing r cs x)
  then show ?thesis by (intro that(1)) (auto dest: mint_binding_row)
next
  case (rotating r cs x)
  then show ?thesis by (intro that(1)) (auto dest: mint_binding_row)
next
  case (stating now cx old r x)
  then show ?thesis by (intro that(1)) (auto dest: put_preference_frame)
next
  case (changing m r now)
  then show ?thesis by (intro that(1)) (simp_all add: apply_role_def assign_role_def revoke_bindings_def Let_def)
qed (auto simp: identity_updates Let_def dest!: insert_rows intro!: that(1))

text \<open>A membership keeps its place, but for those of a purged account.\<close>

definition membership_at :: "uuid \<Rightarrow> uuid \<Rightarrow> uuid \<Rightarrow> 'f identity_db \<Rightarrow> bool" where
  "membership_at i w t d \<longleftrightarrow> (\<exists>m \<in> set (memberships d). mb_id m = i \<and> mb_workspace m = w \<and> mb_tenant m = t)"

lemma membership_kept:
  assumes "effect V seen d d'" "membership_at i w t d"
    and "\<not> purges d d'"
  shows "membership_at i w t d'"
proof -
  obtain m where m: "m \<in> set (memberships d)" "mb_id m = i" "mb_workspace m = w" "mb_tenant m = t"
    using assms(2) by (auto simp: membership_at_def)
  have keep: ?thesis if "memberships d' = update_where p f (memberships d)"
    "\<And>x. mb_id (f x) = mb_id x \<and> mb_workspace (f x) = mb_workspace x \<and> mb_tenant (f x) = mb_tenant x" for p f
    using that m unfolding membership_at_def by (auto intro!: bexI [of _ m])
  have same: "\<not> (\<exists>gone cutoff now. gone = ac_id ` set (filter (expired_unverified cutoff d) (accounts d)) \<and>
      d' = delete_accounts now gone d)"
    using assms(3) by (auto simp: purges_def doomed_def)
  show ?thesis
    using assms(1)
  proof cases
    case (purging gone cutoff now)
    with same show ?thesis by blast
  next
    case (removing n now a)
    then show ?thesis
      by (intro keep [of _ "\<lambda>x. x\<lparr>mb_revoked := Some now, mb_updated := now, mb_revoker := Some a\<rparr>"])
        (simp_all add: identity_updates)
  next
    case (changing n r now)
    then show ?thesis by (intro keep [OF trans [OF _ memberships_apply_role]]) auto
  next
    case (minting r cs x)
    with m show ?thesis by (auto simp: membership_at_def dest!: mint_binding_row)
  next
    case (issuing r cs x)
    with m show ?thesis by (auto simp: membership_at_def dest!: mint_binding_row)
  next
    case (rotating r cs x)
    with m show ?thesis by (auto simp: membership_at_def dest!: mint_binding_row)
  next
    case (stating now cx old r x)
    with m show ?thesis by (auto simp: membership_at_def dest!: put_preference_frame)
  qed (use m in \<open>auto simp: identity_updates membership_at_def dest!: insert_rows\<close>)
qed

text \<open>After a purge: a membership named in its place is one of an account that stays.\<close>

lemma membership_purged:
  assumes "membership_at i w t d" "\<not> (\<exists>m \<in> set (memberships d). mb_account m \<in> gone \<and> mb_id m = i \<and> mb_tenant m = t)"
  shows "membership_at i w t (delete_accounts now gone d)"
  using assms unfolding membership_at_def delete_accounts_def delete_memberships_def Let_def by auto

lemma browser_ok_at:
  "browser_ok e s \<longleftrightarrow> bs_created s < bs_expires s \<and> bs_account s \<in> ac_id ` set (accounts e) \<and>
     (bs_workspace s = None) = (bs_tenant s = None) \<and> (bs_workspace s = None) = (bs_membership s = None) \<and>
     (\<forall>i. bs_membership s = Some i \<longrightarrow> membership_at i (the (bs_workspace s)) (the (bs_tenant s)) e)"
  by (cases "bs_workspace s"; cases "bs_tenant s") (auto simp: browser_ok_def membership_at_def)

lemma browsers_purged:
  assumes "browsers_ok d" "memberships_ok d" "d' = delete_accounts now gone d"
  shows "browsers_ok d'"
proof -
  let ?un = "\<lambda>s. \<exists>x \<in> set (memberships d). mb_account x \<in> gone \<and> bs_membership s = Some (mb_id x)"
  have rows: "browsers d' = filter (\<lambda>s. bs_account s \<notin> gone) (update_where ?un unbound (browsers d))"
    by (simp add: assms(3) delete_accounts_def delete_memberships_def Let_def)
  have "browser_ok d' s" if "s \<in> set (browsers d')" for s
  proof -
    from that rows obtain b where b: "b \<in> set (browsers d)" "s = (if ?un b then unbound b else b)" "bs_account s \<notin> gone"
      by (simp only: set_filter set_update_where mem_Collect_eq) blast
    have ok: "browser_ok d b" using assms(1) b(1) by (simp add: browsers_ok_def)
    have "bs_account s = bs_account b" by (subst b(2)) (simp add: unbound_def)
    then have acc: "bs_account s \<in> ac_id ` set (accounts d')"
      using ok b(3) by (auto simp: assms(3) browser_ok_def delete_accounts_def delete_memberships_def Let_def)
    show ?thesis
    proof (cases "?un b")
      case True
      with b(2) ok acc show ?thesis by (simp add: browser_ok_at unbound_def)
    next
      case False
      have same: "s = b" by (subst b(2)) (simp only: False if_False)
      have "membership_at i (the (bs_workspace s)) (the (bs_tenant s)) d'" if "bs_membership s = Some i" for i
        unfolding assms(3)
      proof (rule membership_purged)
        show "membership_at i (the (bs_workspace s)) (the (bs_tenant s)) d"
          using ok same that by (simp add: browser_ok_at)
      qed (use False same that in auto)
      with ok acc show ?thesis by (auto simp: browser_ok_at same)
    qed
  qed
  moreover have "distinct (map bs_id (browsers d'))" "distinct (map bs_fingerprint (browsers d'))"
    using assms(1) unfolding rows by (simp_all add: browsers_ok_def unbound_def distinct_map_filter)
  ultimately show ?thesis by (simp add: browsers_ok_def)
qed

lemma browsers_ok_step:
  assumes e: "effect V seen d d'" and ok: "browsers_ok d" and m: "memberships_ok d"
  shows "browsers_ok d'"
proof (cases "purges d d'")
  case True
  then show ?thesis using browsers_purged [OF ok m] by (auto simp: purges_def)
next
  case False
  have rows: "browser_ok d' s" if "browser_ok d s" for s
    using that accounts_kept [OF e False] membership_kept [OF e _ False] by (auto simp: browser_ok_at)
  show ?thesis
    using e
  proof (cases rule: effect_browsers)
    case 1
    with ok rows show ?thesis by (auto simp: browsers_ok_def)
  next
    case (2 s)
    then show ?thesis using ok
      by (auto simp: insert_browser_def browsers_ok_def browser_ok_def simp del: checked.simps)
  next
    case (3 p f)
    have f: "bs_id (f s) = bs_id s" "bs_fingerprint (f s) = bs_fingerprint s" "browser_ok d s \<Longrightarrow> browser_ok d (f s)" for s
      using 3(2) by (auto simp: session_upkeep_def unbound_def browser_ok_at)
    show ?thesis using 3(1) ok rows by (auto simp: browsers_ok_def f)
  next
    case (4 p n now)
    have "membership_at (mb_id n) (mb_workspace n) (mb_tenant n) d'"
      using 4(1,2) by (auto simp: member_row_def membership_at_def)
    then have "browser_ok d' (s\<lparr>bs_workspace := Some (mb_workspace n), bs_tenant := Some (mb_tenant n),
        bs_membership := Some (mb_id n), bs_bound := Some now\<rparr>)" if "browser_ok d s" for s
      using rows [OF that] by (simp add: browser_ok_at)
    with 4(3) ok rows show ?thesis by (auto simp: browsers_ok_def)
  next
    case (5 cutoff now)
    with False show ?thesis by (auto simp: purges_def)
  qed
qed

lemma binding_ok_at:
  "binding_ok e b \<longleftrightarrow> set (ab_scopes b) \<subseteq> set known_scopes \<and> length (ab_scopes b) \<le> max_scopes_per_binding \<and>
     ab_tenant b \<in> tn_id ` set (tenants e) \<and> (ab_membership b = None) = (ab_workspace b = None) \<and>
     (\<forall>i. ab_membership b = Some i \<longrightarrow> membership_at i (the (ab_workspace b)) (ab_tenant b) e)"
  by (cases "ab_workspace b"; cases "ab_membership b") (auto simp: binding_ok_def membership_at_def intro: bexI [rotated])

lemma bindings_purged:
  assumes "bindings_ok d" "d' = delete_accounts now gone d"
  shows "bindings_ok d'"
proof -
  let ?un = "\<lambda>b. \<exists>x \<in> set (memberships d). mb_account x \<in> gone \<and> ab_membership b = Some (mb_id x) \<and> ab_tenant b = mb_tenant x"
  let ?f = "\<lambda>b. b\<lparr>ab_revoked := Some (case ab_revoked b of None \<Rightarrow> now | Some t \<Rightarrow> t), ab_membership := None,
      ab_workspace := None\<rparr>"
  have rows: "bindings d' = update_where ?un ?f (bindings d)" and tn: "tenants d' = tenants d"
    by (simp_all add: assms(2) delete_accounts_def delete_memberships_def Let_def)
  have "binding_ok d' (if ?un b then ?f b else b)" if "b \<in> set (bindings d)" for b
  proof -
    have ok: "binding_ok d b" using assms(1) that by (simp add: bindings_ok_def)
    show ?thesis
    proof (cases "?un b")
      case True
      with ok tn show ?thesis by (simp add: binding_ok_at)
    next
      case False
      have "membership_at i (the (ab_workspace b)) (ab_tenant b) d'" if "ab_membership b = Some i" for i
        unfolding assms(2)
      proof (rule membership_purged)
        show "membership_at i (the (ab_workspace b)) (ab_tenant b) d" using ok that by (simp add: binding_ok_at)
      qed (use False that in auto)
      with ok tn False show ?thesis by (auto simp: binding_ok_at)
    qed
  qed
  moreover have "distinct (map ab_id (bindings d'))" "distinct (map ab_fingerprint (bindings d'))"
    using assms(1) unfolding rows by (simp_all add: bindings_ok_def)
  ultimately show ?thesis unfolding bindings_ok_def rows by simp
qed

lemma minted_ok: "minted r d b \<Longrightarrow> binding_ok d b"
  by (auto simp: minted_def binding_checks_def binding_references_def binding_ok_def simp del: checked.simps
      split: option.split_asm)

lemma bindings_ok_step:
  assumes e: "effect V seen d d'" and ok: "bindings_ok d"
  shows "bindings_ok d'"
proof (cases "purges d d'")
  case True
  then show ?thesis using bindings_purged [OF ok] by (auto simp: purges_def)
next
  case False
  have rows: "binding_ok d' b" if "binding_ok d b" for b
    using that places_kept(1) [OF e] membership_kept [OF e _ False] by (auto simp: binding_ok_at)
  show ?thesis
    using e
  proof (cases rule: effect_bindings)
    case 1
    with ok rows show ?thesis by (auto simp: bindings_ok_def)
  next
    case (2 r b)
    have "ab_id b \<notin> ab_id ` set (bindings d)" "ab_fingerprint b \<notin> ab_fingerprint ` set (bindings d)"
      using 2(1) by (auto simp: minted_def)
    with 2 ok rows minted_ok [OF 2(1)] show ?thesis by (simp add: bindings_ok_def)
  next
    case (3 p now)
    have "binding_ok d' (b\<lparr>ab_revoked := t\<rparr>)" if "binding_ok d b" for b t
      using rows [OF that] by (simp add: binding_ok_at)
    with 3 ok rows show ?thesis by (simp add: bindings_ok_def)
  next
    case (4 p now)
    have "binding_ok d' (b\<lparr>ab_used := t\<rparr>)" if "binding_ok d b" for b t
      using rows [OF that] by (simp add: binding_ok_at)
    with 4 ok rows show ?thesis by (simp add: bindings_ok_def)
  next
    case (5 p now)
    have "binding_ok d' (b\<lparr>ab_revoked := t, ab_membership := None, ab_workspace := None\<rparr>)" if "binding_ok d b" for b t
      using rows [OF that] by (simp add: binding_ok_at)
    with 5 ok rows show ?thesis by (simp add: bindings_ok_def)
  qed
qed

section \<open>The invariant\<close>

definition well_typed :: "'f identity_db \<Rightarrow> bool" where
  "well_typed d \<longleftrightarrow> accounts_ok d \<and> secrets_ok d \<and> places_ok d \<and> memberships_ok d \<and> browsers_ok d \<and> bindings_ok d"

definition identity_ok :: "'f identity_db \<Rightarrow> bool" where
  "identity_ok d \<longleftrightarrow> well_typed d \<and> owned d \<and> standing d"

lemma identity_ok_step:
  assumes "effect V seen d d'" "identity_ok d"
  shows "identity_ok d'"
proof -
  have "distinct (map mb_id (memberships d))" using assms(2) by (simp add: identity_ok_def well_typed_def memberships_ok_def)
  with assms show ?thesis
    unfolding identity_ok_def well_typed_def
    by (blast intro: accounts_ok_step secrets_ok_step places_ok_step memberships_ok_step browsers_ok_step
        bindings_ok_step owned_step standing_step)
qed

lemma identity_ok_effects:
  assumes "effects V seen d d'" "identity_ok d"
  shows "identity_ok d'"
  using assms unfolding effects_def by (induction rule: rtranclp_induct) (auto intro: identity_ok_step)

end
