(* ===== verification/Identity_Machine.thy ===== *)
theory Identity_Machine
  imports Identity_Typing Lifecycle_Steps
begin

text \<open>
  The identity plane as one machine: the calls it answers, the transactions its clients hold open and
  the database. An event of the machine is a call, a new transaction, or a change of the lifecycle
  tables by somebody else. A call's earlier reads see the present database or, where other calls
  committed in between, another one: the machine lets that be any database at all.
\<close>

section \<open>Calls\<close>

datatype identity_call =
    Sign_up uuid "uuid \<times> nat list" "utext option" "utext option" "rat option"
  | Ask_verification "uuid \<times> nat list" "utext option" "rat option"
  | Ask_recovery "uuid \<times> nat list" "utext option" "rat option"
  | Verify "utext option"
  | Recover "utext option" "utext option"
  | Purge "rat option"
  | Log_in "utext option"
  | Open_session "rat option" "uuid \<times> nat list \<times> nat list"
  | Bind_session "utext option" "utext option" "session_mode option"
  | End_session "uuid option"
  | End_sessions bool
  | Look_up_password "uuid option" "uuid option"
  | Change_password "utext option" "utext option" "rat option" "uuid \<times> nat list \<times> nat list"
  | Choose_workspace uuid "uuid option"
  | Leave_workspace
  | Create_workspace workspace_ids "utext option" "utext option" "utext option"
  | Rename_workspace op_ids "utext option" "utext option"
  | Remove_member op_ids "uuid option" "utext option"
  | Change_role op_ids "uuid option" "utext option" "utext option"
  | Invite op_ids "uuid \<times> nat list" "utext option" "utext option" "rat option" "utext option"
  | Withdraw op_ids "uuid option" "utext option"
  | Accept accept_ids "utext option" "utext option"
  | Issue op_ids "(uuid \<times> nat list) list" "utext option list option" "rat option" "utext option" "utext option"
  | Rotate op_ids "(uuid \<times> nat list) list" "uuid option" "rat option" "utext option"
  | Revoke op_ids "uuid option" "utext option"
  | Record_use
  | Provision uuid
  | Register "(uuid \<times> nat list) list" "uuid option" "utext option list option" "rat option"
  | Revoke_registered "uuid option"
  | Authenticate "utext option"
  | Expect "uuid option"
  | State_preferences uuid uuid "uuid option" "utext option list option" "utext option list option" "utext option" "utext option"
  | Acknowledge uuid uuid "uuid option" "utext option"

text \<open>What a call leaves: the database and its transaction.\<close>

definition writes :: "transaction \<Rightarrow> identity_error + 'a \<times> 'f identity_db \<Rightarrow> identity_error + 'f identity_db \<times> transaction" where
  "writes tx r = and_then r (\<lambda>(x, d). Inr (d, tx))"

definition binds :: "'f identity_db \<Rightarrow> identity_error + 'a \<times> transaction \<Rightarrow> identity_error + 'f identity_db \<times> transaction" where
  "binds d r = and_then r (\<lambda>(x, tx). Inr (d, tx))"

definition moves :: "identity_error + 'a \<times> 'f identity_db \<times> transaction \<Rightarrow> identity_error + 'f identity_db \<times> transaction" where
  "moves r = and_then r (\<lambda>(x, p). Inr p)"

fun perform ::
  "'f server \<Rightarrow> ('f \<Rightarrow> jsonb) \<Rightarrow> rat \<Rightarrow> identity_call \<Rightarrow> transaction \<Rightarrow> 'f identity_db \<Rightarrow> 'f identity_db
     \<Rightarrow> identity_error + 'f identity_db \<times> transaction" where
  "perform V hex now (Sign_up i fresh e h t) tx seen d = writes tx (signup_account V now i fresh e h t tx seen d)"
| "perform V hex now (Ask_verification fresh e t) tx seen d = writes tx (request_email_verification V now fresh e t tx seen d)"
| "perform V hex now (Ask_recovery fresh e t) tx seen d = writes tx (request_account_recovery V now fresh e t tx seen d)"
| "perform V hex now (Verify s) tx seen d = writes tx (verify_account_email V now s tx seen d)"
| "perform V hex now (Recover s h) tx seen d = writes tx (complete_account_recovery V now s h tx seen d)"
| "perform V hex now (Purge age) tx seen d = writes tx (purge_expired_unverified_accounts now age tx d)"
| "perform V hex now (Log_in e) tx seen d = binds d (login_lookup V e tx d)"
| "perform V hex now (Open_session t fresh) tx seen d = writes tx (open_browser_session V now t fresh tx d)"
| "perform V hex now (Bind_session s c m) tx seen d = moves (bind_session_context V now s c m tx d)"
| "perform V hex now (End_session i) tx seen d = writes tx (revoke_browser_session now i tx d)"
| "perform V hex now (End_sessions keep) tx seen d = writes tx (revoke_all_browser_sessions now keep tx d)"
| "perform V hex now (Look_up_password a s) tx seen d = binds d (password_change_lookup now a s tx d)"
| "perform V hex now (Change_password e h t fresh) tx seen d = writes tx (change_account_password V now e h t fresh tx d)"
| "perform V hex now (Choose_workspace aid w) tx seen d = moves (bind_session_workspace V now aid w tx d)"
| "perform V hex now Leave_workspace tx seen d = writes tx (unbind_session_workspace tx d)"
| "perform V hex now (Create_workspace ids s n key) tx seen d = moves (create_workspace V now ids s n key tx seen d)"
| "perform V hex now (Rename_workspace ids n key) tx seen d = writes tx (rename_workspace V now ids n key tx d)"
| "perform V hex now (Remove_member ids m key) tx seen d = writes tx (remove_membership V now ids m key tx d)"
| "perform V hex now (Change_role ids m r key) tx seen d = writes tx (change_membership_role V now ids m r key tx d)"
| "perform V hex now (Invite ids fresh e r t key) tx seen d = writes tx (create_invitation V now ids fresh e r t key tx d)"
| "perform V hex now (Withdraw ids i key) tx seen d = writes tx (revoke_invitation V now ids i key tx d)"
| "perform V hex now (Accept ids s key) tx seen d = moves (accept_invitation V hex now ids s key tx seen d)"
| "perform V hex now (Issue ids fresh ss t l key) tx seen d = writes tx (issue_api_credential V now ids fresh ss t l key tx seen d)"
| "perform V hex now (Rotate ids fresh b t key) tx seen d = writes tx (rotate_api_credential V now ids fresh b t key tx seen d)"
| "perform V hex now (Revoke ids b key) tx seen d = writes tx (revoke_api_credential V now ids b key tx d)"
| "perform V hex now Record_use tx seen d = and_then (record_api_credential_use now tx d) (\<lambda>d'. Inr (d', tx))"
| "perform V hex now (Provision t) tx seen d = binds d (begin_tenant_provisioning t tx)"
| "perform V hex now (Register fresh p ss t) tx seen d = writes tx (register_auth_binding V now fresh p ss t tx d)"
| "perform V hex now (Revoke_registered b) tx seen d = writes tx (revoke_auth_binding now b tx d)"
| "perform V hex now (Authenticate c) tx seen d = binds d (bind_authenticated_context V now c tx d)"
| "perform V hex now (Expect w) tx seen d = and_then (identity_expect_workspace w tx) (\<lambda>tx'. Inr (d, tx'))"
| "perform V hex now (State_preferences i aid w rs es n iv) tx seen d =
     writes tx (state_workspace_preferences V now i aid w rs es n iv tx d)"
| "perform V hex now (Acknowledge i aid w v) tx seen d = writes tx (acknowledge_workspace_consent V now i aid w v tx d)"

text \<open>Every call refines the effects.\<close>

lemma perform_effects:
  assumes "perform V hex now q tx seen d = Inr (d', tx')"
  shows "effects V seen d d'"
  using assms
  by (cases q)
    (auto simp: writes_def binds_def moves_def elim!: and_then_InrE
      intro: signup_effects request_effects verify_effects recovery_effects purge_effects open_session_effects
        bind_session_effects session_revocation_effects change_password_effects bind_workspace_effects
        create_workspace_effects rename_effects remove_effects change_role_effects create_invitation_effects
        revoke_invitation_effects accept_effects issue_effects rotate_effects revoke_credential_effects
        plain_credential_effects state_effects)

section \<open>The machine\<close>

record 'f world =
  wd_db :: "'f identity_db"
  wd_tx :: "nat \<Rightarrow> transaction"

datatype 'f identity_event =
    Call nat rat "'f identity_db option" identity_call
  | Begin nat bool bool bool
  | Elsewhere "'f kernel"

definition empty_identity :: "'f identity_db" where
  "empty_identity = \<lparr>accounts = [], passwords = [], tokens = [], memberships = [], browsers = [], invitations = [],
     account_claims = [], bindings = [], tenants = [], workspaces = [], directory = [], preferences = [],
     framework = empty_kernel\<rparr>"

definition empty_world :: "'f world" where
  "empty_world = \<lparr>wd_db = empty_identity, wd_tx = (\<lambda>n. new_transaction)\<rparr>"

definition seen_by :: "'f identity_db option \<Rightarrow> 'f world \<Rightarrow> 'f identity_db" where
  "seen_by s w = (case s of None \<Rightarrow> wd_db w | Some d \<Rightarrow> d)"

fun world_event :: "'f server \<Rightarrow> ('f \<Rightarrow> jsonb) \<Rightarrow> 'f identity_event \<Rightarrow> 'f world \<Rightarrow> 'f world option" where
  "world_event V hex (Call n now s q) w =
     (case perform V hex now q (wd_tx w n) (seen_by s w) (wd_db w) of Inl e \<Rightarrow> None
      | Inr (d, tx) \<Rightarrow> Some (w\<lparr>wd_db := d, wd_tx := (wd_tx w)(n := tx)\<rparr>))"
| "world_event V hex (Begin n p wr rc) w =
     Some (w\<lparr>wd_tx := (wd_tx w)(n := new_transaction\<lparr>tx_primary := p, tx_writable := wr, tx_read_committed := rc\<rparr>)\<rparr>)"
| "world_event V hex (Elsewhere k) w = Some (w\<lparr>wd_db := (wd_db w)\<lparr>framework := k\<rparr>\<rparr>)"

fun run_world :: "'f server \<Rightarrow> ('f \<Rightarrow> jsonb) \<Rightarrow> 'f identity_event list \<Rightarrow> 'f world \<Rightarrow> 'f world option" where
  "run_world V hex [] w = Some w"
| "run_world V hex (ev # evs) w = (case world_event V hex ev w of None \<Rightarrow> None | Some w' \<Rightarrow> run_world V hex evs w')"

definition world_step :: "'f server \<Rightarrow> ('f \<Rightarrow> jsonb) \<Rightarrow> 'f world \<Rightarrow> 'f world \<Rightarrow> bool" where
  "world_step V hex w w' \<longleftrightarrow> (\<exists>ev. world_event V hex ev w = Some w')"

lemma run_world_steps: "run_world V hex evs w = Some w' \<Longrightarrow> (world_step V hex)\<^sup>*\<^sup>* w w'"
proof (induction evs arbitrary: w)
  case (Cons ev evs)
  then show ?case
    by (auto simp: world_step_def split: option.split_asm intro: converse_rtranclp_into_rtranclp)
qed simp

lemma world_step_effects:
  assumes "world_step V hex w w'"
  shows "\<exists>seen. effects V seen (wd_db w) (wd_db w')"
proof -
  from assms obtain ev where "world_event V hex ev w = Some w'" by (auto simp: world_step_def)
  then show ?thesis
  proof (cases ev)
    case (Call n now s q)
    with \<open>world_event V hex ev w = Some w'\<close> show ?thesis
      by (auto split: sum.split_asm) (blast intro: perform_effects)
  next
    case (Elsewhere k)
    with \<open>world_event V hex ev w = Some w'\<close> show ?thesis
      using effects_one [OF recording] by fastforce
  qed auto
qed

lemma identity_ok_empty: "identity_ok empty_identity"
  by (simp add: identity_ok_def well_typed_def accounts_ok_def secrets_ok_def places_ok_def memberships_ok_def
      browsers_ok_def bindings_ok_def owned_def standing_def empty_identity_def)

interpretation identity_machine:
  transition_system "\<lambda>w. w = empty_world" "world_step V hex" "\<lambda>w. identity_ok (wd_db w)"
proof unfold_locales
  show "identity_ok (wd_db w)" if "w = empty_world" for w
    using that identity_ok_empty by (simp add: empty_world_def)
  show "identity_ok (wd_db w')" if "identity_ok (wd_db w)" "world_step V hex w w'" for w w'
    using world_step_effects [OF that(2)] that(1) by (auto intro: identity_ok_effects)
qed

end
