(* ===== verification/Identity_Durability.thy ===== *)
theory Identity_Durability
  imports Identity_Machine
begin

text \<open>
  What is ended stays ended: a revoked session, a spent token and an evicted credential are refused in
  every later state of the machine, whatever runs in between.
\<close>

section \<open>Runs\<close>

lemma run_world_ok: "run_world V hex evs empty_world = Some w \<Longrightarrow> identity_ok (wd_db w)"
  by (rule identity_machine.inv_reachable [OF refl run_world_steps])

lemma run_world_kept: "run_world V hex evs w = Some w' \<Longrightarrow> identity_ok (wd_db w) \<Longrightarrow> identity_ok (wd_db w')"
  by (rule identity_machine.inv_run [OF run_world_steps])

text \<open>A property of the tables that every effect keeps is kept by every run.\<close>

locale durable =
  fixes P :: "'f identity_db \<Rightarrow> bool"
  assumes keep: "effect V seen d d' \<Longrightarrow> identity_ok d \<Longrightarrow> P d \<Longrightarrow> P d'"
begin

lemma effects_keep: "effects V seen d d' \<Longrightarrow> identity_ok d \<Longrightarrow> P d \<Longrightarrow> P d' \<and> identity_ok d'"
  unfolding effects_def by (induction rule: rtranclp_induct) (auto intro: keep identity_ok_step)

lemma run_keep:
  assumes "run_world V hex evs w = Some w'" "identity_ok (wd_db w)" "P (wd_db w)"
  shows "P (wd_db w')"
proof -
  have "P (wd_db v) \<and> identity_ok (wd_db v)" if "(world_step V hex)\<^sup>*\<^sup>* w v" for v
    using that assms(2,3)
    by (induction rule: rtranclp_induct) (auto dest!: world_step_effects dest: effects_keep)
  with run_world_steps [OF assms(1)] show ?thesis by blast
qed

end

section \<open>Accounts\<close>

lemma account_active_iff:
  "accounts_ok d \<Longrightarrow> account_active a d \<longleftrightarrow> (\<exists>x \<in> set (accounts d). ac_id x = a \<and> ac_status x = Active)"
  unfolding account_active_def find_account_def accounts_ok_def
  by (auto split: option.split dest!: find_hit dest: row_by_key simp: find_None_iff)

lemma active_kept: "effect V seen d d' \<Longrightarrow> accounts_ok d \<Longrightarrow> account_active a d \<Longrightarrow> account_active a d'"
  using account_persists [of V seen d d'] accounts_ok_step [of V seen d d']
  by (auto simp: account_active_iff)

lemma ok_parts:
  "identity_ok d \<Longrightarrow> accounts_ok d" "identity_ok d \<Longrightarrow> secrets_ok d" "identity_ok d \<Longrightarrow> memberships_ok d"
  "identity_ok d \<Longrightarrow> browsers_ok d" "identity_ok d \<Longrightarrow> bindings_ok d" "identity_ok d \<Longrightarrow> owned d" "identity_ok d \<Longrightarrow> standing d"
  "identity_ok d \<Longrightarrow> well_typed d"
  by (simp_all add: identity_ok_def well_typed_def)

lemma doomed_inactive: "accounts_ok d \<Longrightarrow> account_active a d \<Longrightarrow> a \<notin> doomed cutoff d"
  by (auto simp: account_active_iff doomed_def expired_unverified_def accounts_ok_def dest: row_by_key)

section \<open>Sessions\<close>

definition session_ended :: "'f \<Rightarrow> 'f identity_db \<Rightarrow> bool" where
  "session_ended fp d \<longleftrightarrow> (\<exists>s \<in> set (browsers d). bs_fingerprint s = fp \<and> bs_revoked s \<noteq> None \<and>
     account_active (bs_account s) d)"

interpretation ended_sessions: durable "session_ended fp"
proof unfold_locales
  fix V seen and d d' :: "'a identity_db"
  assume e: "effect V seen d d'" and ok: "identity_ok d" and "session_ended fp d"
  then obtain s where s: "s \<in> set (browsers d)" "bs_fingerprint s = fp" "bs_revoked s \<noteq> None"
      "account_active (bs_account s) d" by (auto simp: session_ended_def)
  have active: "account_active (bs_account s) d'" by (rule active_kept [OF e ok_parts(1) [OF ok] s(4)])
  show "session_ended fp d'"
    using e
  proof (cases rule: effect_browsers)
    case 1
    with s active show ?thesis by (auto simp: session_ended_def)
  next
    case (2 r)
    with s active show ?thesis by (auto simp: session_ended_def dest!: insert_rows)
  next
    case (3 p f)
    then have "bs_fingerprint (f s) = bs_fingerprint s" "bs_account (f s) = bs_account s" "bs_revoked (f s) \<noteq> None"
      using s(3) by (auto simp: session_upkeep_def unbound_def)
    with 3 s active show ?thesis by (auto simp: session_ended_def intro!: bexI [of _ s])
  next
    case (4 m p now)
    with s active show ?thesis by (auto simp: session_ended_def intro!: bexI [of _ s])
  next
    case (5 cutoff now)
    have "bs_account s \<notin> doomed cutoff d" by (rule doomed_inactive [OF ok_parts(1) [OF ok] s(4)])
    then have "(if \<exists>x \<in> set (memberships d). mb_account x \<in> doomed cutoff d \<and> bs_membership s = Some (mb_id x)
        then unbound s else s) \<in> set (browsers d')"
      using s(1) by (auto simp: 5 delete_accounts_def delete_memberships_def Let_def set_update_where unbound_def)
    with s active show ?thesis by (auto simp: session_ended_def unbound_def intro: bexI [rotated] split: if_split_asm)
  qed
qed

lemma ended_refused:
  assumes "browsers_ok d" "session_ended (sv_sha V secret) d" "entry_checks tx = Inr ()"
  shows "bind_session_context V now (Some secret) csrf (Some mode) tx d = Inl Refused"
proof -
  obtain s where s: "s \<in> set (browsers d)" "bs_fingerprint s = sv_sha V secret" "bs_revoked s \<noteq> None"
    using assms(2) by (auto simp: session_ended_def)
  have "x = s" if "find_browser (sv_sha V secret) d = Some x" for x
    using that s assms(1) row_by_key [of bs_fingerprint "browsers d" x s]
    by (auto simp: find_browser_def browsers_ok_def dest!: find_hit)
  with s(3) assms(3) show ?thesis
    by (auto simp: bind_session_context_def live_browser_def split: option.split)
qed

section \<open>Tokens\<close>

definition token_spent :: "'f \<Rightarrow> 'f identity_db \<Rightarrow> bool" where
  "token_spent fp d \<longleftrightarrow> (\<exists>t \<in> set (tokens d). tk_fingerprint t = fp \<and> \<not> live_token t \<and> account_active (tk_account t) d)"

interpretation spent_tokens: durable "token_spent fp"
proof unfold_locales
  fix V seen and d d' :: "'a identity_db"
  assume e: "effect V seen d d'" and ok: "identity_ok d" and "token_spent fp d"
  then obtain t where t: "t \<in> set (tokens d)" "tk_fingerprint t = fp" "\<not> live_token t" "account_active (tk_account t) d"
    by (auto simp: token_spent_def)
  have active: "account_active (tk_account t) d'" by (rule active_kept [OF e ok_parts(1) [OF ok] t(4)])
  show "token_spent fp d'"
    using e
  proof (cases rule: effect_secrets)
    case (2 p)
    with t active show ?thesis by (auto simp: token_spent_def dest!: insert_rows)
  next
    case (3 r)
    with t active show ?thesis by (auto simp: token_spent_def dest!: insert_rows)
  next
    case (4 p f)
    then have "tk_fingerprint (f t) = fp" "tk_account (f t) = tk_account t" "\<not> live_token (f t)"
      using t(2,3) by (auto simp: token_upkeep_def live_token_def)
    with 4 t active show ?thesis by (auto simp: token_spent_def intro!: bexI [of _ t])
  next
    case (6 cutoff now)
    have "tk_account t \<notin> doomed cutoff d" by (rule doomed_inactive [OF ok_parts(1) [OF ok] t(4)])
    with t active show ?thesis
      by (auto simp: token_spent_def 6 delete_accounts_def delete_memberships_def Let_def)
  qed (use t active in \<open>auto simp: token_spent_def\<close>)
qed

lemma spent_refused:
  assumes "secrets_ok d" "token_spent (sv_sha V s) d"
  shows "locked_token V now (Some s) kind seen d = None"
proof -
  obtain t where t: "t \<in> set (tokens d)" "tk_fingerprint t = sv_sha V s" "\<not> live_token t"
    using assms(2) by (auto simp: token_spent_def)
  have "x = t" if "x \<in> set (tokens d)" "tk_fingerprint x = sv_sha V s" for x
    using that t assms(1) row_by_key [of tk_fingerprint "tokens d" x t] by (auto simp: secrets_ok_def)
  with t(3) show ?thesis
    by (auto simp: locked_token_def usable_token_def split: option.split dest!: find_hit)
qed

section \<open>Credentials\<close>

definition credential_ended :: "'f \<Rightarrow> 'f identity_db \<Rightarrow> bool" where
  "credential_ended fp d \<longleftrightarrow> (\<exists>b \<in> set (bindings d). ab_fingerprint b = fp \<and> evicted d b)"

interpretation ended_credentials: durable "credential_ended fp"
proof unfold_locales
  fix V seen and d d' :: "'a identity_db"
  assume "effect V seen d d'" "identity_ok d" "credential_ended fp d"
  then show "credential_ended fp d'"
    unfolding credential_ended_def by (metis evicted_step ok_parts(1))
qed

lemma credential_ended_refused:
  "identity_ok d \<Longrightarrow> credential_ended (sv_sha V secret) d \<Longrightarrow> secret \<noteq> [] \<Longrightarrow> entry_checks tx = Inr () \<Longrightarrow>
   bind_authenticated_context V now (Some secret) tx d = Inl Authentication_failed"
  unfolding credential_ended_def
  by (metis evicted_refused ok_parts(1,5) bindings_ok_def)

section \<open>Epochs\<close>

text \<open>An account that has left an epoch never returns to it, and a challenge of that epoch opens nothing.\<close>

definition epoch_left :: "uuid \<Rightarrow> int \<Rightarrow> 'f identity_db \<Rightarrow> bool" where
  "epoch_left a e d \<longleftrightarrow> (\<exists>x \<in> set (accounts d). ac_id x = a \<and> ac_status x = Active \<and> e < ac_epoch x)"

interpretation left_epochs: durable "epoch_left a e"
proof unfold_locales
  fix V seen and d d' :: "'a identity_db"
  assume e: "effect V seen d d'" and ok: "identity_ok d" and "epoch_left a e d"
  then obtain x where "x \<in> set (accounts d)" "ac_id x = a" "ac_status x = Active" "e < ac_epoch x"
    by (auto simp: epoch_left_def)
  with account_persists [OF e ok_parts(1) [OF ok], of x] show "epoch_left a e d'"
    by (force simp: epoch_left_def)
qed

lemma epoch_left_stale:
  assumes "accounts_ok d" "epoch_left a e d"
  shows "\<not> same_epoch a (Some e) d"
proof -
  obtain x where x: "x \<in> set (accounts d)" "ac_id x = a" "e < ac_epoch x" using assms(2) by (auto simp: epoch_left_def)
  have "y = x" if "find_account a d = Some y" for y
    using that x assms(1) row_by_key [of ac_id "accounts d" y x]
    by (auto simp: find_account_def accounts_ok_def dest!: find_hit)
  with x(3) show ?thesis by (auto simp: same_epoch_def split: option.split)
qed

lemma epoch_left_refused:
  assumes "accounts_ok d" "epoch_left a e d" "tx_identity tx = Some (challenge Login_challenge (Some a) s (Some e))"
  shows "open_browser_session V now (Some t) fresh tx d \<noteq> Inr r"
  using epoch_left_stale [OF assms(1,2)] assms(3)
  by (auto simp: open_browser_session_def challenge_def elim!: and_then_InrE)

section \<open>What a completed recovery leaves\<close>

lemma recovery_account:
  assumes "complete_account_recovery V now secret hash tx seen d = Inr (True, d')"
  obtains t h where "locked_token V now secret Account_recovery seen d = Some t" "hash = Some h" "stored_hash hash"
    "find_account (tk_account t) d \<noteq> None"
    "d' = end_authority now (tk_account t)
      (amend_account (tk_account t) (next_epoch now \<circ> activated now) (replace_password now (tk_account t) h
        (supersede_tokens now (\<lambda>x. tk_account x = tk_account t) (consume_token now (tk_id t) d))))"
proof -
  have found: "find_account (tk_account t) d \<noteq> None" if "locked_token V now secret Account_recovery seen d = Some t" for t
    using that by (auto simp: locked_token_def split: option.split_asm if_split_asm dest!: find_hit)
  show thesis
    using assms
    by (auto simp: complete_account_recovery_def Let_def elim!: and_then_InrE split: if_split_asm option.split_asm)
      (use found that in \<open>auto simp: stored_hash_def split: option.split_asm\<close>)
qed

lemma recovery_leaves:
  assumes r: "complete_account_recovery V now secret hash tx seen d = Inr (True, d')" and ok: "identity_ok d"
  obtains a where "account_active a d'" "\<forall>p \<in> set (passwords d'). pw_account p = a \<longrightarrow> Some (pw_hash p) = hash"
    "\<And>b. b \<in> set (bindings d) \<Longrightarrow> ab_principal b = a \<Longrightarrow> ab_membership b \<noteq> None \<Longrightarrow> credential_ended (ab_fingerprint b) d'"
    "\<And>s. s \<in> set (browsers d) \<Longrightarrow> bs_account s = a \<Longrightarrow> session_ended (bs_fingerprint s) d'"
    "\<And>t. t \<in> set (tokens d) \<Longrightarrow> tk_account t = a \<Longrightarrow> token_spent (tk_fingerprint t) d'"
    "\<And>x. x \<in> set (accounts d) \<Longrightarrow> ac_id x = a \<Longrightarrow> epoch_left a (ac_epoch x) d'"
    "\<exists>t \<in> set (tokens d). tk_account t = a \<and> (\<exists>s. secret = Some s \<and> sv_sha V s = tk_fingerprint t)"
    "identity_ok d'"
proof -
  from r obtain t h where t: "locked_token V now secret Account_recovery seen d = Some t" "hash = Some h"
    and acc: "find_account (tk_account t) d \<noteq> None"
    and d': "d' = end_authority now (tk_account t)
      (amend_account (tk_account t) (next_epoch now \<circ> activated now) (replace_password now (tk_account t) h
        (supersede_tokens now (\<lambda>x. tk_account x = tk_account t) (consume_token now (tk_id t) d))))"
    by (rule recovery_account)
  let ?a = "tk_account t"
  note defs = d' identity_updates
  obtain x where x: "x \<in> set (accounts d)" "ac_id x = ?a"
    using acc by (auto simp: find_account_def dest!: find_hit)
  let ?x = "next_epoch now (activated now x)"
  have x': "?x \<in> set (accounts d')" using x by (auto simp: defs set_update_where)
  have ok': "identity_ok d'" by (rule identity_ok_effects [OF recovery_effects [OF r] ok])
  have active: "account_active ?a d'"
    using x x' ok_parts(1) [OF ok'] by (auto simp: account_active_iff next_epoch_def activated_def intro: bexI [rotated])
  show thesis
  proof (rule that [OF active])
    show "\<forall>p \<in> set (passwords d'). pw_account p = ?a \<longrightarrow> Some (pw_hash p) = hash" by (auto simp: defs t(2))
    show "credential_ended (ab_fingerprint b) d'"
      if "b \<in> set (bindings d)" "ab_principal b = ?a" "ab_membership b \<noteq> None" for b
      using that by (auto simp: defs credential_ended_def evicted_def intro!: bexI [of _ b])
    show "session_ended (bs_fingerprint s) d'" if "s \<in> set (browsers d)" "bs_account s = ?a" for s
    proof -
      have "(if bs_revoked s = None then s\<lparr>bs_revoked := Some now\<rparr> else s) \<in> set (browsers d')"
        using that by (auto simp: defs set_update_where)
      with active that show ?thesis by (auto simp: session_ended_def intro: bexI [rotated] split: if_split_asm)
    qed
    show "token_spent (tk_fingerprint u) d'" if "u \<in> set (tokens d)" "tk_account u = ?a" for u
    proof -
      have "tokens d' = update_where (\<lambda>u. tk_account u = ?a \<and> live_token u) (\<lambda>u. u\<lparr>tk_superseded := Some now\<rparr>)
          (update_where (\<lambda>u. tk_id u = tk_id t) (\<lambda>u. u\<lparr>tk_consumed := Some now\<rparr>) (tokens d))"
        by (simp add: defs)
      with active that show ?thesis
        by (auto simp: token_spent_def live_token_def intro!: bexI [of _ u])
    qed
    show "epoch_left ?a (ac_epoch y) d'" if "y \<in> set (accounts d)" "ac_id y = ?a" for y
    proof -
      have "y = x" using row_by_key [of ac_id "accounts d" y x] that x ok_parts(1) [OF ok] by (simp add: accounts_ok_def)
      with x' x show ?thesis by (auto simp: epoch_left_def next_epoch_def activated_def intro: bexI [rotated])
    qed
    show "\<exists>u \<in> set (tokens d). tk_account u = ?a \<and> (\<exists>s. secret = Some s \<and> sv_sha V s = tk_fingerprint u)"
      using locked_token_live [OF t(1)] by auto
  qed (rule ok')
qed

end
