(* ===== verification/Identity_Authority.thy ===== *)
theory Identity_Authority
  imports Identity_Durability
begin

text \<open>
  What a successful call of a workspace shows about its caller, what it leaves alone, and what an
  account-level call repeats.
\<close>

section \<open>The caller of a workspace operation\<close>

text \<open>The permission a workspace operation demands; the other requests are not such operations.\<close>

fun demanded :: "identity_call \<Rightarrow> string option" where
  "demanded (Rename_workspace _ _ _) = Some (scope_value Workspace_write)"
| "demanded (Remove_member _ _ _) = Some manage"
| "demanded (Change_role _ _ _ _) = Some manage"
| "demanded (Invite _ _ _ _ _ _) = Some manage"
| "demanded (Withdraw _ _ _) = Some manage"
| "demanded (Issue _ _ _ _ _ _) = Some issue_scope"
| "demanded (Rotate _ _ _ _ _) = Some issue_scope"
| "demanded (Revoke _ _ _) = Some issue_scope"
| "demanded (State_preferences _ _ _ _ _ _ _) = Some (scope_value Workspace_write)"
| "demanded (Acknowledge _ _ _ _) = Some (scope_value Workspace_write)"
| "demanded _ = None"

text \<open>The present membership behind a bound session with its CSRF proof.\<close>

definition authorised :: "transaction \<Rightarrow> 'f identity_db \<Rightarrow> string \<Rightarrow> session_info \<Rightarrow> membership_row \<Rightarrow> bool" where
  "authorised tx d p s m \<longleftrightarrow> auth_session tx = Some s \<and> si_csrf s \<and> member_row m d \<and>
     si_membership s = Some (mb_id m) \<and> si_account s = mb_account m \<and> si_workspace s = Some (mb_workspace m) \<and>
     ax_tenant (tx_cx tx) = Some (mb_tenant m) \<and> account_active (mb_account m) d \<and> role_holds (mb_role m) p \<and>
     auth_has_scope (tx_cx tx) (Some p) \<and>
     (tx_expected tx = None \<or> tx_expected tx = Some (mb_workspace m))"

lemma authority_authorised:
  assumes "identity_require_session Workspace_mode True tx = Inr s0" "scope_cached p tx = Inr u"
    and "workspace_membership_authority (Some p) lock tx d = Inr s"
  shows "\<exists>s m. authorised tx d p s m"
  using assms
  by (auto simp: authorised_def workspace_membership_authority_def and_then_Inr current_membership_def member_row_def
      identity_require_session_def scope_cached_def split: if_split_asm option.split_asm dest!: find_hit)

lemma manager_authorised: "manager_entry p args key tx d = Inr r \<Longrightarrow> \<exists>s m. authorised tx d p s m"
  by (auto simp: manager_entry_def elim!: and_then_InrE intro: authority_authorised)

lemma preference_authorised:
  "preference_entry args w tx d = Inr r \<Longrightarrow> \<exists>s m. authorised tx d (scope_value Workspace_write) s m"
  by (auto simp: preference_entry_def elim!: and_then_InrE intro: authority_authorised)

lemma perform_authorised:
  assumes "perform V hex now q tx seen d = Inr (d', tx')" "demanded q = Some p"
  shows "\<exists>s m. authorised tx d p s m"
  using assms
  by (cases q)
    (auto simp: writes_def rename_workspace_def remove_membership_def change_membership_role_def create_invitation_def
      revoke_invitation_def issue_api_credential_def rotate_api_credential_def revoke_api_credential_def
      state_workspace_preferences_def acknowledge_workspace_consent_def
      simp del: scope_value.simps permission_value.simps
      elim!: and_then_InrE dest: manager_authorised preference_authorised authority_authorised)

section \<open>Account-level claims\<close>

text \<open>Nothing amends or removes a claim of an account, so it is found again ever after.\<close>

definition claimed :: "uuid \<Rightarrow> string \<Rightarrow> utext option \<Rightarrow> 'f account_claim \<Rightarrow> 'f identity_db \<Rightarrow> bool" where
  "claimed a operation key c d \<longleftrightarrow> find_account_claim a operation key d = Some c"

lemma find_append_some: "find p xs = Some x \<Longrightarrow> find p (xs @ ys) = Some x"
  by (induction xs) auto

lemma claims_step: "effect V seen d d' \<Longrightarrow> \<exists>cs. account_claims d' = account_claims d @ cs"
  by (erule effect.cases)
    (auto simp: identity_updates delete_accounts_def delete_memberships_def Let_def
      dest!: insert_rows mint_binding_row put_preference_frame)

lemma claimed_append: "account_claims d' = account_claims d @ cs \<Longrightarrow> claimed a operation key c d \<Longrightarrow> claimed a operation key c d'"
  by (auto simp: claimed_def find_account_claim_def find_append_some split: option.split_asm)

interpretation claims: durable "claimed a operation key c"
proof unfold_locales
  fix V seen and d d' :: "'a identity_db"
  assume "effect V seen d d'" "claimed a operation key c d"
  then show "claimed a operation key c d'" using claims_step claimed_append by blast
qed

lemma keep_account_claim_claimed:
  assumes "keep_account_claim V a operation (Some k) fp result w d = Inr d'"
  shows "find_account_claim a operation (Some k) d = None"
    "claimed a operation (Some k) \<lparr>aq_account = a, aq_operation = cps operation, aq_key = k, aq_fingerprint = fp,
       aq_result = J_object (result @ [field ''event_id'' (J_string (snd w)),
            field ''record_id'' (J_uuid (fst w))])\<rparr> d'"
proof -
  let ?c = "\<lparr>aq_account = a, aq_operation = cps operation, aq_key = k, aq_fingerprint = fp,
       aq_result = J_object (result @ [field ''event_id'' (J_string (snd w)),
            field ''record_id'' (J_uuid (fst w))])\<rparr>"
  from assms have i: "insert_account_claim V ?c d = Inr d'" by (simp add: keep_account_claim_def)
  then have "\<not> (\<exists>c \<in> set (account_claims d). aq_account c = a \<and> aq_operation c = cps operation \<and> aq_key c = k)"
    unfolding insert_account_claim_def by (simp del: checked.simps)
  then show none: "find_account_claim a operation (Some k) d = None"
    by (auto simp: find_account_claim_def find_None_iff)
  have "find p (xs @ [x]) = Some x" if "find p xs = None" "p x" for p :: "'a account_claim \<Rightarrow> bool" and xs x
    using that by (induction xs) (auto split: if_split_asm)
  with none insert_rows(9) [OF i] show "claimed a operation (Some k) ?c d'"
    by (simp add: claimed_def find_account_claim_def)
qed

section \<open>Invitations and preferences\<close>

text \<open>One row of preferences per workspace; unique invitations, and at most one pending per address.\<close>

definition preferences_ok :: "'f identity_db \<Rightarrow> bool" where
  "preferences_ok d \<longleftrightarrow> distinct (map pf_id (preferences d)) \<and> distinct (map pf_workspace (preferences d))"

definition pending_key :: "'f invitation_row \<Rightarrow> uuid \<times> utext" where
  "pending_key i = (iv_workspace i, iv_email i)"

definition pending_rows :: "'f identity_db \<Rightarrow> 'f invitation_row list" where
  "pending_rows d = filter (\<lambda>i. iv_accepted i = None \<and> iv_revoked i = None) (invitations d)"

definition invitations_ok :: "'f identity_db \<Rightarrow> bool" where
  "invitations_ok d \<longleftrightarrow> distinct (map iv_id (invitations d)) \<and> distinct (map iv_fingerprint (invitations d)) \<and>
     distinct (map pending_key (pending_rows d)) \<and>
     (\<forall>i \<in> set (invitations d). email_regex (iv_email i) \<and> iv_role i \<in> set membership_roles \<and> iv_created i < iv_expires i)"

lemma put_preference_rows:
  "put_preference now cx None r d = Inr (x, d') \<Longrightarrow> \<exists>q. d' = d\<lparr>preferences := preferences d @ [q]\<rparr> \<and> pf_id q = pf_id r \<and>
     pf_workspace q = pf_workspace r \<and> pf_id r \<notin> pf_id ` set (preferences d) \<and> pf_workspace r \<notin> pf_workspace ` set (preferences d)"
  "put_preference now cx (Some b) r d = Inr (x, d') \<Longrightarrow> \<exists>q. d' = d\<lparr>preferences := update_where
     (\<lambda>p. pf_id p = pf_id b \<and> pf_tenant p = pf_tenant b) (\<lambda>p. q) (preferences d)\<rparr> \<and> pf_id q = pf_id r \<and> pf_workspace q = pf_workspace r"
proof -
  have c: "pf_id (set_consent now w b r) = pf_id r" "pf_workspace (set_consent now w b r) = pf_workspace r" for w b
    by (auto simp: set_consent_def Let_def split: option.split)
  show "put_preference now cx None r d = Inr (x, d') \<Longrightarrow> \<exists>q. d' = d\<lparr>preferences := preferences d @ [q]\<rparr> \<and> pf_id q = pf_id r \<and>
     pf_workspace q = pf_workspace r \<and> pf_id r \<notin> pf_id ` set (preferences d) \<and> pf_workspace r \<notin> pf_workspace ` set (preferences d)"
    using c by (auto simp: put_preference_def insert_preference_def Let_def simp del: checked.simps elim!: and_then_InrE)
  show "put_preference now cx (Some b) r d = Inr (x, d') \<Longrightarrow> \<exists>q. d' = d\<lparr>preferences := update_where
     (\<lambda>p. pf_id p = pf_id b \<and> pf_tenant p = pf_tenant b) (\<lambda>p. q) (preferences d)\<rparr> \<and> pf_id q = pf_id r \<and> pf_workspace q = pf_workspace r"
    using c by (auto simp: put_preference_def amend_preference_def Let_def simp del: checked.simps elim!: and_then_InrE)
qed

lemma effect_preferences:
  assumes "effect V seen d d'"
  obtains "preferences d' = preferences d" | now cx old r x where "put_preference now cx old r d = Inr (x, d')" "restated old r d"
  using assms
proof cases
  case (stating now cx old r x)
  with that(2) show ?thesis by blast
next
  case (purging gone cutoff now)
  then have "preferences d' = preferences d" by (simp add: delete_accounts_def delete_memberships_def Let_def)
  then show ?thesis by (rule that(1))
qed (use that(1) in \<open>auto simp: identity_updates Let_def dest!: insert_rows mint_binding_row\<close>)

lemma update_keys_kept:
  assumes "\<And>x. x \<in> set xs \<Longrightarrow> p x \<Longrightarrow> key (f x) = key x"
  shows "map key (update_where p f xs) = map key xs"
  using assms by (auto simp: update_where_def)

lemma preferences_ok_step:
  assumes "effect V seen d d'" "preferences_ok d"
  shows "preferences_ok d'"
  using assms(1)
proof (cases rule: effect_preferences)
  case 1
  with assms(2) show ?thesis by (simp add: preferences_ok_def)
next
  case (2 now cx old r x)
  show ?thesis
  proof (cases old)
    case None
    with 2 assms(2) show ?thesis by (auto simp: preferences_ok_def dest!: put_preference_rows(1))
  next
    case (Some b)
    with 2 have b: "b \<in> set (preferences d)" "pf_id r = pf_id b" "pf_workspace r = pf_workspace b" by (auto simp: restated_def)
    from put_preference_rows(2) [OF 2(1) [unfolded Some]] obtain q where q: "d' = d\<lparr>preferences := update_where (\<lambda>p. pf_id p = pf_id b \<and> pf_tenant p = pf_tenant b)
        (\<lambda>p. q) (preferences d)\<rparr>" "pf_id q = pf_id b" "pf_workspace q = pf_workspace b"
      using b by auto
    have "p = b" if "p \<in> set (preferences d)" "pf_id p = pf_id b" for p
      using row_by_key [of pf_id "preferences d" p b] that b assms(2) by (simp add: preferences_ok_def)
    with q have "map pf_id (preferences d') = map pf_id (preferences d)" "map pf_workspace (preferences d') = map pf_workspace (preferences d)"
      by (auto simp: q(1) intro!: update_keys_kept)
    with assms(2) show ?thesis by (simp add: preferences_ok_def)
  qed
qed

text \<open>What an effect does to the invitations: an insert, or updates of what does not identify them.\<close>

definition invitation_upkeep :: "('f invitation_row \<Rightarrow> 'f invitation_row) \<Rightarrow> bool" where
  "invitation_upkeep f \<longleftrightarrow> (\<forall>i. iv_id (f i) = iv_id i \<and> iv_fingerprint (f i) = iv_fingerprint i \<and> iv_email (f i) = iv_email i \<and>
     iv_workspace (f i) = iv_workspace i \<and> iv_role (f i) = iv_role i \<and> iv_created (f i) = iv_created i \<and>
     iv_expires (f i) = iv_expires i \<and>
     (iv_accepted (f i) = None \<and> iv_revoked (f i) = None \<longrightarrow> iv_accepted i = None \<and> iv_revoked i = None))"

lemma upkeep_fields:
  assumes "invitation_upkeep f"
  shows "iv_id (f i) = iv_id i" "iv_fingerprint (f i) = iv_fingerprint i" "pending_key (f i) = pending_key i"
    "iv_email (f i) = iv_email i" "iv_role (f i) = iv_role i" "iv_created (f i) = iv_created i" "iv_expires (f i) = iv_expires i"
  using assms unfolding invitation_upkeep_def pending_key_def by metis+

lemma upkeep_pending:
  "invitation_upkeep f \<Longrightarrow> iv_accepted (f i) = None \<Longrightarrow> iv_revoked (f i) = None \<Longrightarrow> iv_accepted i = None \<and> iv_revoked i = None"
  unfolding invitation_upkeep_def by blast

lemma effect_invitations:
  assumes "effect V seen d d'"
  obtains "invitations d' = invitations d"
  | i d1 where "insert_invitation i d = Inr d1" "invitations d' = invitations d1"
  | f where "invitations d' = map f (invitations d)" "invitation_upkeep f"
  using assms
proof cases
  case (inviting m i)
  with that(2) show ?thesis by blast
next
  case (joining i m d1 now)
  show ?thesis
    by (rule that(3) [of "\<lambda>x. if iv_id x = iv_id i then x\<lparr>iv_accepted := Some now, iv_membership := Some (mb_id m)\<rparr> else x"])
      (use joining in \<open>auto simp: invitation_upkeep_def update_where_def dest!: insert_rows\<close>)
next
  case (withdrawing now p)
  show ?thesis
    by (rule that(3) [of "\<lambda>x. if p x then x\<lparr>iv_revoked := Some now\<rparr> else x"])
      (use withdrawing in \<open>auto simp: invitation_upkeep_def update_where_def revoke_invitations_def\<close>)
next
  case (purging gone cutoff now)
  show ?thesis
    by (rule that(3) [of "\<lambda>i. (if \<exists>x \<in> set (memberships d). mb_account x \<in> gone \<and> iv_membership i = Some (mb_id x) \<and>
          (Some (iv_tenant i) = None \<or> Some (iv_tenant i) = Some (mb_tenant x))
        then i\<lparr>iv_membership := None\<rparr> else i)\<lparr>iv_inviter := forget gone (iv_inviter i)\<rparr>"])
      (auto simp: purging(1) delete_accounts_def delete_memberships_def Let_def update_where_def invitation_upkeep_def)
qed (use that(1) in \<open>auto simp: identity_updates Let_def dest!: insert_rows mint_binding_row put_preference_frame\<close>)

lemma pending_upkeep:
  assumes "invitation_upkeep f" "distinct (map pending_key (filter (\<lambda>i. iv_accepted i = None \<and> iv_revoked i = None) xs))"
  shows "distinct (map pending_key (filter (\<lambda>i. iv_accepted i = None \<and> iv_revoked i = None) (map f xs)))"
  using assms(2)
proof (induction xs)
  case (Cons x xs)
  have "pending_key ` set (filter (\<lambda>i. iv_accepted i = None \<and> iv_revoked i = None) (map f xs)) \<subseteq>
      pending_key ` set (filter (\<lambda>i. iv_accepted i = None \<and> iv_revoked i = None) xs)"
    using assms(1) by (auto simp: upkeep_fields dest: upkeep_pending)
  moreover have "pending_key (f x) = pending_key x" "iv_accepted (f x) = None \<and> iv_revoked (f x) = None \<longrightarrow>
      iv_accepted x = None \<and> iv_revoked x = None"
    using upkeep_fields(3) upkeep_pending assms(1) by blast+
  ultimately show ?case using Cons by (auto split: if_split_asm)
qed simp

lemma invitations_ok_step:
  assumes "effect V seen d d'" "invitations_ok d"
  shows "invitations_ok d'"
  using assms(1)
proof (cases rule: effect_invitations)
  case 1
  with assms(2) show ?thesis by (simp add: invitations_ok_def pending_rows_def)
next
  case (2 i d1)
  then have r: "d1 = d\<lparr>invitations := invitations d @ [i]\<rparr>" by (auto dest: insert_rows)
  have "email_regex (iv_email i)" "iv_created i < iv_expires i" "iv_role i \<in> set membership_roles"
      "iv_id i \<notin> iv_id ` set (invitations d)" "iv_fingerprint i \<notin> iv_fingerprint ` set (invitations d)"
      "iv_accepted i \<noteq> None \<or> iv_revoked i \<noteq> None \<or> \<not> (\<exists>x \<in> set (invitations d). pending_for (iv_workspace i) (iv_email i) x)"
    using 2(1) unfolding insert_invitation_def by (simp_all del: checked.simps)
  moreover have "pending_key i \<notin> pending_key ` set (pending_rows d)" if "iv_accepted i = None" "iv_revoked i = None"
    using \<open>iv_accepted i \<noteq> None \<or> _\<close> that by (auto simp: pending_rows_def pending_key_def pending_for_def)
  ultimately show ?thesis
    using assms(2) by (auto simp: invitations_ok_def 2(2) r pending_rows_def)
next
  case (3 f)
  then have "iv_id \<circ> f = iv_id" "iv_fingerprint \<circ> f = iv_fingerprint"
    by (auto simp: upkeep_fields)
  moreover have "distinct (map pending_key (pending_rows d'))"
    using pending_upkeep [OF 3(2)] assms(2) by (simp add: invitations_ok_def pending_rows_def 3(1))
  ultimately show ?thesis
    using assms(2) by (simp add: invitations_ok_def 3(1) upkeep_fields [OF 3(2)])
qed

interpretation rows: durable "\<lambda>d. preferences_ok d \<and> invitations_ok d"
  by unfold_locales (auto intro: preferences_ok_step invitations_ok_step)

lemma rows_ok:
  "run_world V hex evs empty_world = Some w \<Longrightarrow> preferences_ok (wd_db w) \<and> invitations_ok (wd_db w)"
  by (erule rows.run_keep)
    (use identity_ok_empty in \<open>simp_all add: empty_world_def preferences_ok_def invitations_ok_def pending_rows_def
      empty_identity_def\<close>)

section \<open>What a workspace operation leaves alone\<close>

text \<open>
  Every row of another workspace, every account with its password and tokens, every tenant and every
  account-level claim. A session changes only by losing its binding to the workspace.
\<close>

definition same_elsewhere :: "uuid \<Rightarrow> 'f identity_db \<Rightarrow> 'f identity_db \<Rightarrow> bool" where
  "same_elsewhere w d d' \<longleftrightarrow>
     filter (\<lambda>x. ws_id x \<noteq> w) (workspaces d') = filter (\<lambda>x. ws_id x \<noteq> w) (workspaces d) \<and>
     filter (\<lambda>x. ws_id x \<noteq> w) (directory d') = filter (\<lambda>x. ws_id x \<noteq> w) (directory d) \<and>
     filter (\<lambda>m. mb_workspace m \<noteq> w) (memberships d') = filter (\<lambda>m. mb_workspace m \<noteq> w) (memberships d) \<and>
     filter (\<lambda>i. iv_workspace i \<noteq> w) (invitations d') = filter (\<lambda>i. iv_workspace i \<noteq> w) (invitations d) \<and>
     filter (\<lambda>b. ab_workspace b \<noteq> Some w) (bindings d') = filter (\<lambda>b. ab_workspace b \<noteq> Some w) (bindings d) \<and>
     filter (\<lambda>p. pf_workspace p \<noteq> w) (preferences d') = filter (\<lambda>p. pf_workspace p \<noteq> w) (preferences d)"

definition loses_binding :: "uuid \<Rightarrow> 'f browser_row \<Rightarrow> 'f browser_row \<Rightarrow> bool" where
  "loses_binding w s s' \<longleftrightarrow> s' = s \<or> bs_workspace s = Some w \<and> s' = unbound s"

lemma loses_binding_refl [simp]: "loses_binding w s s"
  by (simp add: loses_binding_def)

lemma loses_binding_trans: "loses_binding w r s \<Longrightarrow> loses_binding w s t \<Longrightarrow> loses_binding w r t"
  by (auto simp: loses_binding_def unbound_def)

definition same_people :: "uuid \<Rightarrow> 'f identity_db \<Rightarrow> 'f identity_db \<Rightarrow> bool" where
  "same_people w d d' \<longleftrightarrow> accounts d' = accounts d \<and> passwords d' = passwords d \<and> tokens d' = tokens d \<and>
     account_claims d' = account_claims d \<and> tenants d' = tenants d \<and>
     list_all2 (loses_binding w) (browsers d) (browsers d')"

definition confined :: "uuid \<Rightarrow> 'f identity_db \<Rightarrow> 'f identity_db \<Rightarrow> bool" where
  "confined w d d' \<longleftrightarrow> same_elsewhere w d d' \<and> same_people w d d'"

lemma confined_refl [simp]: "confined w d d"
  by (simp add: confined_def same_elsewhere_def same_people_def list_all2_refl)

lemma confined_trans: "confined w d d1 \<Longrightarrow> confined w d1 d2 \<Longrightarrow> confined w d d2"
  using list_all2_trans [of "loses_binding w" "loses_binding w" "loses_binding w" "browsers d" "browsers d1" "browsers d2"]
    loses_binding_trans
  unfolding confined_def same_elsewhere_def same_people_def by metis

lemma filter_update_other:
  "(\<And>x. x \<in> set xs \<Longrightarrow> p x \<Longrightarrow> \<not> q x \<and> \<not> q (f x)) \<Longrightarrow> filter q (update_where p f xs) = filter q xs"
  by (induction xs) (auto simp: update_where_def)

lemma confined_framework [simp]: "confined w d (d\<lparr>framework := k\<rparr>)"
  by (simp add: confined_def same_elsewhere_def same_people_def list_all2_refl)

lemma confined_recorded:
  "record_operation V ids cx operation key fp result ev outcome resource details d = Inr (x, d') \<Longrightarrow> confined w d d'"
  by (auto simp: record_operation_def elim!: and_then_InrE dest!: identity_claim_frame append_event_frame)

lemma confined_bindings:
  "(\<And>b. b \<in> set (bindings d) \<Longrightarrow> p b \<Longrightarrow> ab_workspace b = Some w) \<Longrightarrow> confined w d (revoke_bindings now p d)"
  by (auto simp: confined_def same_elsewhere_def same_people_def revoke_bindings_def list_all2_refl intro!: filter_update_other)

lemma confined_invitations:
  "(\<And>i. p i \<Longrightarrow> iv_workspace i = w) \<Longrightarrow> confined w d (revoke_invitations now p d)"
  by (auto simp: confined_def same_elsewhere_def same_people_def revoke_invitations_def list_all2_refl intro!: filter_update_other)

lemma confined_members:
  assumes "memberships_ok d" "member_row m d" "\<And>x. mb_workspace (f x) = mb_workspace x"
  shows "confined (mb_workspace m) d (d\<lparr>memberships := update_where (\<lambda>x. mb_id x = mb_id m \<and> mb_tenant x = mb_tenant m \<and>
    mb_revoked x = None) f (memberships d)\<rparr>)"
proof -
  have "x = m" if "x \<in> set (memberships d)" "mb_id x = mb_id m" for x
    using row_by_key [of mb_id "memberships d" x m] that assms(1,2) by (simp add: memberships_ok_def member_row_def)
  with assms(3) show ?thesis
    by (auto simp: confined_def same_elsewhere_def same_people_def list_all2_refl intro!: filter_update_other)
qed

lemma issued_here:
  assumes "bindings_ok d" "memberships_ok d" "member_row m d" "b \<in> set (bindings d)" "ab_membership b = Some (mb_id m)"
  shows "ab_workspace b = Some (mb_workspace m)"
  using assms row_by_key [of mb_id "memberships d" _ m]
  by (fastforce simp: bindings_ok_def binding_ok_def memberships_ok_def member_row_def)

lemma bound_here:
  assumes "browsers_ok d" "memberships_ok d" "member_row m d" "s \<in> set (browsers d)" "bs_membership s = Some (mb_id m)"
  shows "bs_workspace s = Some (mb_workspace m)"
  using assms row_by_key [of mb_id "memberships d" _ m]
  by (fastforce simp: browsers_ok_def browser_ok_def memberships_ok_def member_row_def)

lemma confined_unbind:
  "(\<And>s. s \<in> set (browsers d) \<Longrightarrow> p s \<Longrightarrow> bs_workspace s = Some w) \<Longrightarrow> confined w d (unbind_browsers p d)"
  by (auto simp: confined_def same_elsewhere_def same_people_def unbind_browsers_def update_where_def list_all2_map2 loses_binding_def
      intro!: list.rel_refl_strong)

lemma confined_revoke_membership:
  assumes "identity_ok d" "member_row m d"
  shows "confined (mb_workspace m) d (revoke_membership now a m d)"
proof -
  note ok = ok_parts(3-5) [OF assms(1)]
  let ?d1 = "d\<lparr>memberships := update_where (\<lambda>x. mb_id x = mb_id m \<and> mb_tenant x = mb_tenant m \<and> mb_revoked x = None)
    (\<lambda>x. x\<lparr>mb_revoked := Some now, mb_updated := now, mb_revoker := Some a\<rparr>) (memberships d)\<rparr>"
  let ?d2 = "revoke_bindings now (\<lambda>b. ab_membership b = Some (mb_id m) \<and> ab_tenant b = mb_tenant m) ?d1"
  have "confined (mb_workspace m) d ?d1" using confined_members [OF ok(1) assms(2)] by simp
  moreover have "confined (mb_workspace m) ?d1 ?d2"
    by (rule confined_bindings) (use issued_here [OF ok(3,1) assms(2)] in auto)
  moreover have "confined (mb_workspace m) ?d2 (unbind_browsers (\<lambda>s. bs_membership s = Some (mb_id m)) ?d2)"
    by (rule confined_unbind) (use bound_here [OF ok(2,1) assms(2)] in \<open>auto simp: revoke_bindings_def\<close>)
  ultimately show ?thesis unfolding revoke_membership_def by (blast intro: confined_trans)
qed

lemma confined_apply_role:
  assumes "identity_ok d" "member_row m d"
  shows "confined (mb_workspace m) d (apply_role now r m d)"
proof -
  note ok = ok_parts(3-5) [OF assms(1)]
  have a: "confined (mb_workspace m) d (assign_role now r m d)"
    unfolding assign_role_def using confined_members [OF ok(1) assms(2)] by simp
  have "confined (mb_workspace m) (assign_role now r m d)
      (revoke_bindings now (\<lambda>b. ab_membership b = Some (mb_id m) \<and> ab_tenant b = mb_tenant m) (assign_role now r m d))"
    by (rule confined_bindings) (use issued_here [OF ok(3,1) assms(2)] in \<open>auto simp: assign_role_def\<close>)
  with a show ?thesis by (auto simp: apply_role_def Let_def intro: confined_trans)
qed


lemma confined_effects_of_insert:
  "insert_invitation r d = Inr d' \<Longrightarrow> confined (iv_workspace r) d d'"
  "mint_binding V r2 cs d = Inr (x, d') \<Longrightarrow> ab_workspace r2 = Some w \<Longrightarrow> confined w d d'"
  by (auto simp: confined_def same_elsewhere_def same_people_def list_all2_refl minted_fields dest!: insert_rows mint_binding_row)

lemma confined_put_preference:
  assumes "preferences_ok d" "put_preference now cx old r d = Inr (x, d')" "restated old r d" "pf_workspace r = w"
  shows "confined w d d'"
proof (cases old)
  case None
  with assms show ?thesis
    by (auto simp: confined_def same_elsewhere_def same_people_def list_all2_refl dest!: put_preference_rows(1))
next
  case (Some b)
  with assms(3) have b: "b \<in> set (preferences d)" "pf_id r = pf_id b" "pf_workspace r = pf_workspace b" by (auto simp: restated_def)
  have "p = b" if "p \<in> set (preferences d)" "pf_id p = pf_id b" for p
    using row_by_key [of pf_id "preferences d" p b] that b assms(1) by (simp add: preferences_ok_def)
  moreover obtain q where "d' = d\<lparr>preferences := update_where (\<lambda>p. pf_id p = pf_id b \<and> pf_tenant p = pf_tenant b)
      (\<lambda>p. q) (preferences d)\<rparr>" "pf_id q = pf_id r" "pf_workspace q = pf_workspace r"
    using put_preference_rows(2) [OF assms(2) [unfolded Some]] by auto
  ultimately show ?thesis
    using assms(4) b(3)
    by (auto simp: confined_def same_elsewhere_def same_people_def list_all2_refl intro!: filter_update_other)
qed

lemma confined_rename:
  assumes "\<And>x. hit x \<Longrightarrow> ws_id x = w" "\<And>x. ws_id (ren x) = ws_id x"
  shows "confined w d (d\<lparr>workspaces := update_where hit ren (workspaces d),
      directory := fold (\<lambda>x. sync_directory (ren x)) (filter hit (workspaces d)) (directory d)\<rparr>)"
proof -
  have one: "filter (\<lambda>x. ws_id x \<noteq> w) (sync_directory (ren y) ys) = filter (\<lambda>x. ws_id x \<noteq> w) ys" if "hit y" for y ys
  proof -
    have "ws_id (ren y) = w" using assms that by simp
    moreover have "filter (\<lambda>x. ws_id x \<noteq> w) (map (\<lambda>x. if ws_id x = w then ren y else x) ys) = filter (\<lambda>x. ws_id x \<noteq> w) ys"
      using \<open>ws_id (ren y) = w\<close> by (induction ys) auto
    ultimately show ?thesis by (simp add: sync_directory_def upsert_by_def)
  qed
  have "filter (\<lambda>x. ws_id x \<noteq> w) (fold (\<lambda>x. sync_directory (ren x)) (filter hit xs) ys) = filter (\<lambda>x. ws_id x \<noteq> w) ys" for xs ys
    by (induction xs arbitrary: ys) (auto simp: one)
  with assms show ?thesis
    by (auto simp: confined_def same_elsewhere_def same_people_def list_all2_refl intro!: filter_update_other)
qed

text \<open>The workspace of the entry is the one the session is bound to.\<close>

lemma authority_session:
  "workspace_membership_authority scope lock tx d = Inr s \<Longrightarrow> auth_session tx = Some s0 \<Longrightarrow> si_workspace s = si_workspace s0"
  by (auto simp: workspace_membership_authority_def and_then_Inr identity_require_session_def
      split: if_split_asm option.split_asm)

lemma manager_session:
  "manager_entry p args key tx d = Inr (s, x) \<Longrightarrow> auth_session tx = Some s0 \<Longrightarrow> si_workspace s = si_workspace s0"
  by (auto dest: manager_entry_authority authority_session)

lemma preference_session:
  "preference_entry args w tx d = Inr (s, x) \<Longrightarrow> auth_session tx = Some s0 \<Longrightarrow> si_workspace s = si_workspace s0"
  by (auto simp: preference_entry_def elim!: and_then_InrE dest: authority_session)

lemma found_member_here: "find_member i s d = Some m \<Longrightarrow> si_workspace s = Some w \<Longrightarrow> mb_workspace m = w"
  by (auto simp: find_member_def dest!: find_hit)

lemma confined_then_recorded:
  "record_operation V ids cx operation key fp result ev outcome resource details d1 = Inr (x, d') \<Longrightarrow> confined w d d1 \<Longrightarrow>
   confined w d d'"
  by (rule confined_trans [rotated, OF confined_recorded])

lemma confined_then_revocation:
  "record_revocation V ids cx operation key fp type rtype target s hit d1 = Inr (x, d') \<Longrightarrow> confined w d d1 \<Longrightarrow> confined w d d'"
  by (auto simp: record_revocation_def elim!: and_then_InrE intro: confined_then_recorded)

lemma rename_confined:
  assumes "rename_workspace V now ids name key tx d = Inr (x, d')" "auth_session tx = Some s0" "si_workspace s0 = Some w"
  shows "confined w d d'"
  using assms(1,3)
  by (auto simp: rename_workspace_def Let_def elim!: and_then_InrE dest!: authority_session [OF _ assms(2)]
      split: option.split_asm if_split_asm)
    (rule confined_then_recorded, assumption, rule confined_rename; simp)

lemma member_changes_confined:
  assumes "identity_ok d" "auth_session tx = Some s0" "si_workspace s0 = Some w"
  shows "remove_membership V now ids target key tx d = Inr (x, d') \<Longrightarrow> confined w d d'"
    "change_membership_role V now ids target role key tx d = Inr (y, d2) \<Longrightarrow> confined w d d2"
proof -
  have m: "member_row m d \<and> mb_workspace m = w" if "find_member i s d = Some m" "si_workspace s = si_workspace s0" for i s m
    using that assms(3) find_member_row found_member_here by metis
  show "confined w d d'" if "remove_membership V now ids target key tx d = Inr (x, d')"
    using that
    by (auto simp: remove_membership_def Let_def elim!: and_then_InrE split: option.split_asm if_split_asm
        dest!: manager_session [OF _ assms(2)] m)
      (auto intro: confined_then_recorded confined_revoke_membership [OF assms(1)])
  show "confined w d d2" if "change_membership_role V now ids target role key tx d = Inr (y, d2)"
    using that
    by (auto simp: change_membership_role_def Let_def elim!: and_then_InrE split: option.split_asm if_split_asm
        dest!: manager_session [OF _ assms(2)] m)
      (auto intro: confined_then_recorded confined_apply_role [OF assms(1)])
qed

lemma invitation_changes_confined:
  assumes "auth_session tx = Some s0" "si_workspace s0 = Some w"
  shows "create_invitation V now ids fresh address role ttl key tx d = Inr (x, d') \<Longrightarrow> confined w d d'"
    "revoke_invitation V now ids target key tx d = Inr (y, d2) \<Longrightarrow> confined w d d2"
proof -
  show "confined w d d'" if "create_invitation V now ids fresh address role ttl key tx d = Inr (x, d')"
  proof -
    have step: "confined w d d3" if "insert_invitation row (revoke_invitations now p d) = Inr d1" "\<And>i. p i \<Longrightarrow> iv_workspace i = w"
      "iv_workspace row = w" "record_operation V ids cx operation key fp result ev outcome resource details d1 = Inr (z, d3)"
      for row p d1 d3 cx operation fp result ev outcome resource details z
      using confined_then_recorded [OF that(4) confined_trans [OF confined_invitations confined_effects_of_insert(1) [OF that(1)]]] that(2,3)
      by blast
    show ?thesis
      using that
      by (auto simp: create_invitation_def Let_def elim!: and_then_InrE split: option.split_asm if_split_asm
          dest!: manager_session [OF _ assms(1)])
        (rule step, assumption; simp add: pending_here_def assms(2))+
  qed
  show "confined w d d2" if "revoke_invitation V now ids target key tx d = Inr (y, d2)"
    using that assms(2)
    by (auto simp: revoke_invitation_def Let_def elim!: and_then_InrE split: option.split_asm
        dest!: manager_session [OF _ assms(1)])
      (auto intro!: confined_invitations elim!: confined_then_revocation)
qed

lemma credential_changes_confined:
  assumes "identity_ok d" "auth_session tx = Some s0" "si_workspace s0 = Some w"
  shows "issue_api_credential V now ids fresh scopes expires label key tx seen d = Inr (x, d') \<Longrightarrow> confined w d d'"
    "rotate_api_credential V now ids fresh target expires key tx seen d = Inr (y, d2) \<Longrightarrow> confined w d d2"
    "revoke_api_credential V now ids target key tx d = Inr (z, d3) \<Longrightarrow> confined w d d3"
proof -
  have b: "ab_workspace (member_binding V now s scopes expires label rotated seen) = si_workspace s" for s scopes expires label rotated
    by (simp add: member_binding_def)
  show "confined w d d'" if "issue_api_credential V now ids fresh scopes expires label key tx seen d = Inr (x, d')"
    using that assms(3)
    by (auto simp: issue_api_credential_def Let_def elim!: and_then_InrE split: option.split_asm
        dest!: manager_session [OF _ assms(2)])
      (erule confined_then_recorded, erule confined_effects_of_insert(2), simp add: b)
  have step: "confined w d d3" if "own_binding target s d = Some old" "si_workspace s = Some w"
      "mint_binding V r cs d = Inr (v, d1)" "ab_workspace r = Some w"
      "record_operation V ids cx operation key fp result ev outcome resource details
        (revoke_bindings now (\<lambda>b. ab_id b = ab_id old \<and> Some (ab_tenant b) = si_tenant s) d1) = Inr (u, d3)"
    for target s old r cs v d1 cx operation fp result ev outcome resource details u d3
  proof -
    note minting = that(3)
    have old: "old \<in> set (bindings d)" "ab_workspace old = Some w"
      using that(1,2) by (auto simp: own_binding_def dest!: find_hit)
    have "x = old" if "x \<in> set (bindings d)" "ab_id x = ab_id old" for x
      using row_by_key [of ab_id "bindings d" x old] that old(1) ok_parts(5) [OF assms(1)] by (simp add: bindings_ok_def)
    moreover obtain b where "minted r d b" "d1 = d\<lparr>bindings := bindings d @ [b]\<rparr>" using mint_binding_row [OF minting] by blast
    ultimately have "confined w d1 (revoke_bindings now (\<lambda>b. ab_id b = ab_id old \<and> Some (ab_tenant b) = si_tenant s) d1)"
      using old by (intro confined_bindings) (auto simp: minted_def)
    then show ?thesis
      using confined_then_recorded [OF that(5)] confined_trans [OF confined_effects_of_insert(2) [OF that(3,4)]] by blast
  qed
  show "confined w d d2" if "rotate_api_credential V now ids fresh target expires key tx seen d = Inr (y, d2)"
    using that assms(3)
    by (auto simp: rotate_api_credential_def Let_def elim!: and_then_InrE split: option.split_asm if_split_asm
        dest!: manager_session [OF _ assms(2)])
      (rule step; assumption?; simp add: b)+
  show "confined w d d3" if "revoke_api_credential V now ids target key tx d = Inr (z, d3)"
    using that assms(3)
    by (auto simp: revoke_api_credential_def Let_def elim!: and_then_InrE split: option.split_asm
        dest!: manager_session [OF _ assms(2)])
      (auto intro!: confined_bindings simp: within_reach_def elim!: confined_then_revocation)
qed

lemma preference_changes_confined:
  assumes "preferences_ok d" "auth_session tx = Some s0" "si_workspace s0 = Some w"
  shows "state_workspace_preferences V now i aid ws regions excluded note intent tx d = Inr (x, d') \<Longrightarrow> confined w d d'"
    "acknowledge_workspace_consent V now i aid ws version tx d = Inr (y, d2) \<Longrightarrow> confined w d d2"
proof -
  have step: "confined w d d'"
    if "append_event V cx aid action outcome rtype rid details d = Inr d1" "put_preference now cx' old r d1 = Inr (v, d')"
      "restated old r d" "pf_workspace r = w" for cx action outcome rtype rid details d1 cx' old r v d'
  proof -
    note appended = that(1)
    obtain k where k: "d1 = d\<lparr>framework := k\<rparr>" using append_event_frame [OF appended] by blast
    then have "preferences_ok d1" "restated old r d1" using assms(1) that(3)
      by (auto simp: preferences_ok_def restated_def split: option.splits)
    from confined_put_preference [OF this(1) that(2) this(2) that(4)] show ?thesis
      using confined_trans [of w d d1] by (simp add: k)
  qed
  have here: "pf_workspace q = w" if "find_preference cx s d = Some q" "si_workspace s = Some w" for cx s q
    using that by (auto simp: find_preference_def dest!: find_hit)
  show "confined w d d'" if "state_workspace_preferences V now i aid ws regions excluded note intent tx d = Inr (x, d')"
    using that assms(3)
    by (auto simp: state_workspace_preferences_def Let_def apply_statement_def elim!: and_then_InrE
        split: if_split_asm option.split_asm dest!: preference_session [OF _ assms(2)])
      (auto simp: here blank_preference_def intro: step [OF _ _ restated_found(1)] step [OF _ _ restated_found(2)])
  show "confined w d d2" if "acknowledge_workspace_consent V now i aid ws version tx d = Inr (y, d2)"
    using that assms(3)
    by (auto simp: acknowledge_workspace_consent_def Let_def elim!: and_then_InrE
        split: if_split_asm option.split_asm dest!: preference_session [OF _ assms(2)])
      (auto simp: here blank_preference_def intro: step [OF _ _ restated_found(1)] step [OF _ _ restated_found(2)])
qed

lemma perform_confined:
  assumes "perform V hex now q tx seen d = Inr (d', tx')" "demanded q = Some p" "identity_ok d" "preferences_ok d"
    "auth_session tx = Some s0" "si_workspace s0 = Some w"
  shows "confined w d d'"
  using assms(1,2)
  by (cases q)
    (auto simp: writes_def elim!: and_then_InrE
      intro: rename_confined [OF _ assms(5,6)] member_changes_confined [OF assms(3,5,6)]
        invitation_changes_confined [OF assms(5,6)] credential_changes_confined [OF assms(3,5,6)]
        preference_changes_confined [OF assms(4-6)])


end
