(* ===== verification/Identity_Runs.thy ===== *)
theory Identity_Runs
  imports Identity_Authority
begin

text \<open>
  Concrete runs of the identity plane: a founder signs up, verifies the address, logs in, creates a
  workspace, issues a credential from its membership and asks for a recovery.
\<close>

section \<open>A concrete server and its runs\<close>

definition demo_server :: "jsonb server" where
  "demo_server = \<lparr>sv_platform = \<lparr>digest = (\<lambda>x. x), octets = (\<lambda>x. 100)\<rparr>, sv_sha = J_string,
     sv_lower = map (\<lambda>c. if upper_alpha c then c + 32 else c), sv_escape_v = 11\<rparr>"

definition demo_hash :: utext where
  "demo_hash = cps ''$argon2id$v=19$m=65536,t=3,p=4$'' @ replicate 16 65 @ cps ''$'' @ replicate 16 66"

definition demo_secret :: "string \<Rightarrow> nat \<Rightarrow> utext" where
  "demo_secret p k = identity_mint_secret p (replicate 32 k)"

definition demo_ids :: "string \<Rightarrow> op_ids" where
  "demo_ids s = \<lparr>oi_claim = cps (''c'' @ s), oi_event = cps (''v'' @ s), oi_audit = cps (''a'' @ s)\<rparr>"

definition demo_workspace_ids :: "string \<Rightarrow> workspace_ids" where
  "demo_workspace_ids s = \<lparr>wi_tenant = cps (''ten'' @ s), wi_workspace = cps (''wsp'' @ s),
     wi_membership = cps (''mem'' @ s), wi_claim = cps (''c'' @ s), wi_event = cps (''v'' @ s),
     wi_audit = cps (''a'' @ s), wi_slug = cps (''0a1b'' @ s)\<rparr>"

definition signup_run :: "jsonb identity_event list" where
  "signup_run =
     [Call 0 0 None (Sign_up (cps ''ann'') (cps ''t1'', replicate 32 1) (Some (cps ''Ann@example.com'')) (Some demo_hash) (Some 3600))]"

definition login_run :: "jsonb identity_event list" where
  "login_run = signup_run @
     [Call 1 10 None (Verify (Some (demo_secret (identity_secret_prefix Email_verification) 1))),
      Call 2 20 None (Log_in (Some (cps ''ann@example.com''))),
      Call 2 20 None (Open_session (Some 3600) (cps ''s1'', replicate 32 2, replicate 32 3)),
      Call 3 30 None (Bind_session (Some (demo_secret ''fbs_'' 2)) (Some (demo_secret ''fbc_'' 3)) (Some Account_mode))]"

text \<open>The workspace, and its session bound to it.\<close>

definition found_lab :: "string \<Rightarrow> transaction \<Rightarrow> jsonb identity_db
     \<Rightarrow> identity_error + membership_reply \<times> jsonb identity_db \<times> transaction" where
  "found_lab s tx d = create_workspace demo_server 31 (demo_workspace_ids s) (Some (cps ''lab'')) (Some (cps ''Lab''))
     (Some (cps ''key-0001'')) tx d d"

definition workspace_run :: "jsonb identity_event list" where
  "workspace_run = login_run @
     [Call 3 31 None (Create_workspace (demo_workspace_ids ''1'') (Some (cps ''lab'')) (Some (cps ''Lab'')) (Some (cps ''key-0001''))),
      Call 4 40 None (Bind_session (Some (demo_secret ''fbs_'' 2)) (Some (demo_secret ''fbc_'' 3)) (Some Account_mode)),
      Call 4 40 None (Choose_workspace (cps ''a2'') (Some (cps ''wsp1''))),
      Call 5 50 None (Bind_session (Some (demo_secret ''fbs_'' 2)) (Some (demo_secret ''fbc_'' 3)) (Some Workspace_mode))]"

definition issuing_run :: "jsonb identity_event list" where
  "issuing_run = workspace_run @
     [Call 5 51 None (Issue (demo_ids ''3'') [(cps ''b1'', replicate 32 4)] (Some [Some (cps ''workspace:read'')]) None None None),
      Call 6 60 None (Ask_recovery (cps ''t2'', replicate 32 5) (Some (cps ''ann@example.com'')) (Some 3600))]"

abbreviation demo_run :: "jsonb identity_event list \<Rightarrow> jsonb world option" where
  "demo_run evs \<equiv> run_world demo_server (\<lambda>x. x) evs empty_world"

text \<open>What the runs leave: the rows, and that the next calls succeed there.\<close>

definition succeeds :: "'e + 'a \<Rightarrow> bool" where
  "succeeds r \<longleftrightarrow> (case r of Inl e \<Rightarrow> False | Inr x \<Rightarrow> True)"

lemma succeedsE: "succeeds r \<Longrightarrow> (\<And>x. r = Inr x \<Longrightarrow> P) \<Longrightarrow> P"
  by (auto simp: succeeds_def split: sum.split_asm)

definition accepted :: "identity_error + bool \<times> 'f identity_db \<Rightarrow> bool" where
  "accepted r \<longleftrightarrow> (case r of Inl e \<Rightarrow> False | Inr (x, d) \<Rightarrow> x)"

lemma acceptedE: "accepted r \<Longrightarrow> (\<And>d. r = Inr (True, d) \<Longrightarrow> P) \<Longrightarrow> P"
  by (auto simp: accepted_def split: sum.split_asm prod.split_asm)

definition signup_outcome :: "jsonb world \<Rightarrow> bool" where
  "signup_outcome w \<longleftrightarrow> accepted (verify_account_email demo_server 10
     (Some (demo_secret (identity_secret_prefix Email_verification) 1)) new_transaction (wd_db w) (wd_db w))"

definition login_outcome :: "jsonb world \<Rightarrow> bool" where
  "login_outcome w \<longleftrightarrow> (case found_lab ''1'' (wd_tx w 3) (wd_db w) of Inl e \<Rightarrow> False
     | Inr (r, d, tx) \<Rightarrow> \<not> jr_replayed r \<and> succeeds (found_lab ''2'' (wd_tx w 3) d))"

definition issuing_outcome :: "jsonb world \<Rightarrow> bool" where
  "issuing_outcome w \<longleftrightarrow> map mb_role (memberships (wd_db w)) = [''owner''] \<and>
     map (\<lambda>b. (ab_revoked b, ab_membership b, ab_principal b)) (bindings (wd_db w)) = [(None, Some (cps ''mem1''), cps ''ann'')] \<and>
     accepted (complete_account_recovery demo_server 70
      (Some (demo_secret (identity_secret_prefix Account_recovery) 5)) (Some demo_hash) new_transaction (wd_db w) (wd_db w)) \<and>
     succeeds (perform demo_server (\<lambda>x. x) 70 (Rename_workspace (demo_ids ''4'') (Some (cps ''Lab two'')) None) (wd_tx w 5)
       (wd_db w) (wd_db w))"

lemma signup_evaluated: "map_option signup_outcome (demo_run signup_run) = Some True"
  by code_simp

lemma login_evaluated: "map_option login_outcome (demo_run login_run) = Some True"
  by code_simp

lemma issuing_evaluated: "map_option issuing_outcome (demo_run issuing_run) = Some True"
  by code_simp

lemma runs:
  "\<exists>w. demo_run signup_run = Some w \<and> signup_outcome w"
  "\<exists>w. demo_run login_run = Some w \<and> login_outcome w"
  "\<exists>w. demo_run issuing_run = Some w \<and> issuing_outcome w"
  using signup_evaluated login_evaluated issuing_evaluated by (auto simp only: map_option_eq_Some simp_thms)

end
