(* ===== verification/Identity_Properties.thy ===== *)
theory Identity_Properties
  imports Identity_Runs
begin

text \<open>
  The properties of the identity plane: invariants of every run of its machine, what a recovery and a
  used token leave for good, what a workspace call needs and how far it reaches, the repetition of an
  idempotent call, and the agreement of the database with the Python catalogue.
\<close>

section \<open>Shared lemmas\<close>

lemma verifying_spends:
  assumes "verify_account_email V now secret tx seen d = Inr (True, d')" "identity_ok d"
  obtains s where "secret = Some s" "token_spent (sv_sha V s) d'" "identity_ok d'"
proof -
  obtain t s where t: "t \<in> set (tokens d)" "secret = Some s" "tk_fingerprint t = sv_sha V s"
    and acc: "find_account (tk_account t) d \<noteq> None"
    and d': "d' = amend_account (tk_account t) (activated now) (consume_token now (tk_id t) d)"
    using assms(1)
    by (auto simp: verify_account_email_def locked_token_def elim!: and_then_InrE
        split: option.split_asm if_split_asm dest!: find_hit)
  have ok': "identity_ok d'" by (rule identity_ok_effects [OF verify_effects [OF assms(1)] assms(2)])
  obtain x where x: "x \<in> set (accounts d)" "ac_id x = tk_account t"
    using acc by (auto simp: find_account_def dest!: find_hit)
  then have "activated now x \<in> set (accounts d')" by (auto simp: d' identity_updates set_update_where)
  with x(2) have "account_active (tk_account t) d'"
    using account_active_iff [OF ok_parts(1) [OF ok']] by (auto simp: activated_def intro: bexI [rotated])
  moreover have "t\<lparr>tk_consumed := Some now\<rparr> \<in> set (tokens d')"
    using t(1) by (auto simp: d' identity_updates set_update_where)
  ultimately have "token_spent (sv_sha V s) d'"
    unfolding token_spent_def using t(3) by (intro bexI [of _ "t\<lparr>tk_consumed := Some now\<rparr>"]) (simp_all add: live_token_def)
  then show thesis by (rule that [OF t(2) _ ok'])
qed

lemma spent_token_unusable:
  assumes "token_spent (sv_sha V s) d" "identity_ok d"
  shows "verify_account_email V now (Some s) tx seen d \<noteq> Inr (True, d1)"
    "complete_account_recovery V now (Some s) hash tx seen d \<noteq> Inr (True, d2)"
  using spent_refused [OF ok_parts(2) [OF assms(2)] assms(1)]
  by (auto simp: verify_account_email_def complete_account_recovery_def elim!: and_then_InrE split: if_split_asm)

section \<open>Invariants\<close>



text \<open>
  C4: A workspace never loses its last owner: in every reachable state, the workspace of any membership
  ever granted has an active membership with the role owner. Removal, demotion, the reclaiming of
  accounts and invitations accepted late all keep it.
\<close>

theorem workspace_keeps_an_owner:
  assumes "run_world V hex evs empty_world = Some w" and "m \<in> set (memberships (wd_db w))"
  shows "\<exists>x \<in> set (memberships (wd_db w)). mb_workspace x = mb_workspace m \<and> mb_tenant x = mb_tenant m \<and>
    mb_role x = ''owner'' \<and> mb_revoked x = None"
  using ok_parts(6) [OF run_world_ok [OF assms(1)]] assms(2)
  by (auto simp: owned_def owner_of_def active_owner_def)

theorem workspace_keeps_an_owner_witness:
  "\<exists>w m. demo_run issuing_run = Some w \<and> m \<in> set (memberships (wd_db w)) \<and>
    (\<exists>x \<in> set (memberships (wd_db w)). mb_workspace x = mb_workspace m \<and> mb_tenant x = mb_tenant m \<and>
      mb_role x = ''owner'' \<and> mb_revoked x = None)"
proof -
  obtain w where w: "demo_run issuing_run = Some w" "issuing_outcome w" using runs(3) by blast
  then obtain m where m: "m \<in> set (memberships (wd_db w))" by (fastforce simp: issuing_outcome_def)
  from workspace_keeps_an_owner [OF w(1) m] w(1) m show ?thesis by blast
qed

text \<open>
  C5: A live credential issued from a membership always has the authority its member has now, and no
  more: the membership is active, it is in the credential's workspace and tenant and belongs to its
  principal, and every scope of the credential is issuable and held by the member's present role.
\<close>

theorem live_credential_within_role:
  assumes "run_world V hex evs empty_world = Some w" and "b \<in> set (bindings (wd_db w))"
    and "ab_revoked b = None" and "ab_membership b = Some i"
  shows "\<exists>m \<in> set (memberships (wd_db w)). mb_id m = i \<and> mb_revoked m = None \<and> mb_tenant m = ab_tenant b \<and>
    Some (mb_workspace m) = ab_workspace b \<and> mb_account m = ab_principal b \<and>
    (\<forall>s \<in> set (ab_scopes b). role_holds (mb_role m) s \<and> s \<in> set sql_issuable_scopes)"
proof -
  obtain m where m: "stands_on (wd_db w) b m"
    using ok_parts(7) [OF run_world_ok [OF assms(1)]] assms(2-4) by (auto simp: standing_def)
  have "role_holds (mb_role m) s \<and> s \<in> set sql_issuable_scopes" if "s \<in> set (ab_scopes b)" for s
    using m that by (cases "membership_role_scopes (mb_role m)") (auto simp: stands_on_def role_holds_def scopes_of_def)
  with m assms(4) show ?thesis
    by (intro bexI [of _ m]) (simp_all add: stands_on_def member_row_def)
qed

theorem live_credential_within_role_witness:
  "\<exists>w b. demo_run issuing_run = Some w \<and> b \<in> set (bindings (wd_db w)) \<and> ab_revoked b = None \<and>
    ab_membership b = Some (cps ''mem1'') \<and> (\<exists>m \<in> set (memberships (wd_db w)). mb_id m = cps ''mem1'' \<and> mb_revoked m = None)"
proof -
  obtain w where w: "demo_run issuing_run = Some w" "issuing_outcome w" using runs(3) by blast
  then obtain b where b: "b \<in> set (bindings (wd_db w))" "ab_revoked b = None" "ab_membership b = Some (cps ''mem1'')"
    by (auto simp: issuing_outcome_def map_eq_Cons_conv simp del: cps_def)
  from live_credential_within_role [OF w(1) b] w b show ?thesis by blast
qed

section \<open>Eviction\<close>

text \<open>What it means that a digest or a challenge opens nothing in a database, whoever presents it.\<close>

definition credential_refused :: "'f server \<Rightarrow> 'f \<Rightarrow> 'f identity_db \<Rightarrow> bool" where
  "credential_refused V fp d \<longleftrightarrow> (\<forall>c now tx. sv_sha V c = fp \<and> c \<noteq> [] \<and> entry_checks tx = Inr () \<longrightarrow>
     bind_authenticated_context V now (Some c) tx d = Inl Authentication_failed)"

definition session_refused :: "'f server \<Rightarrow> 'f \<Rightarrow> 'f identity_db \<Rightarrow> bool" where
  "session_refused V fp d \<longleftrightarrow> (\<forall>c now csrf m tx. sv_sha V c = fp \<and> entry_checks tx = Inr () \<longrightarrow>
     bind_session_context V now (Some c) csrf (Some m) tx d = Inl Refused)"

definition token_refused :: "'f server \<Rightarrow> 'f \<Rightarrow> 'f identity_db \<Rightarrow> bool" where
  "token_refused V fp d \<longleftrightarrow> (\<forall>c now h tx seen d'. sv_sha V c = fp \<longrightarrow>
     verify_account_email V now (Some c) tx seen d \<noteq> Inr (True, d') \<and>
     complete_account_recovery V now (Some c) h tx seen d \<noteq> Inr (True, d'))"

definition challenge_refused :: "'f server \<Rightarrow> uuid \<Rightarrow> int \<Rightarrow> 'f identity_db \<Rightarrow> bool" where
  "challenge_refused V a epoch d \<longleftrightarrow> (\<forall>now ttl fresh tx i r.
     tx_identity tx = Some (challenge Login_challenge (Some a) i (Some epoch)) \<longrightarrow>
     open_browser_session V now (Some ttl) fresh tx d \<noteq> Inr r)"

lemma ended_are_refused:
  assumes "identity_ok d"
  shows "credential_ended fp d \<Longrightarrow> credential_refused V fp d" "session_ended fp d \<Longrightarrow> session_refused V fp d"
    "token_spent fp d \<Longrightarrow> token_refused V fp d" "epoch_left a e d \<Longrightarrow> challenge_refused V a e d"
  unfolding credential_refused_def session_refused_def token_refused_def challenge_refused_def
  using credential_ended_refused [OF assms] ended_refused [OF ok_parts(4) [OF assms]] spent_token_unusable [OF _ assms]
    epoch_left_refused [OF ok_parts(1) [OF assms]]
  by metis+

text \<open>
  C6: Completing a recovery evicts for good everything the account had before it. The token names the
  account, its password is the new one, and in every later state no credential issued from a membership
  of the account authenticates, no session of it binds, no token of it works and no login challenge
  taken before opens a session: nothing that runs in between brings any of them back.
\<close>

theorem recovery_evicts_for_good:
  assumes "run_world V hex evs empty_world = Some w"
    and "complete_account_recovery V now (Some s) hash tx seen (wd_db w) = Inr (True, d)"
    and "run_world V hex later (w\<lparr>wd_db := d\<rparr>) = Some w'"
  shows "\<exists>t \<in> set (tokens (wd_db w)). tk_fingerprint t = sv_sha V s \<and>
    (\<forall>p \<in> set (passwords d). pw_account p = tk_account t \<longrightarrow> Some (pw_hash p) = hash) \<and>
    (\<forall>b \<in> set (bindings (wd_db w)). ab_principal b = tk_account t \<and> ab_membership b \<noteq> None \<longrightarrow>
      credential_refused V (ab_fingerprint b) (wd_db w')) \<and>
    (\<forall>x \<in> set (browsers (wd_db w)). bs_account x = tk_account t \<longrightarrow> session_refused V (bs_fingerprint x) (wd_db w')) \<and>
    (\<forall>u \<in> set (tokens (wd_db w)). tk_account u = tk_account t \<longrightarrow> token_refused V (tk_fingerprint u) (wd_db w')) \<and>
    (\<forall>x \<in> set (accounts (wd_db w)). ac_id x = tk_account t \<longrightarrow> challenge_refused V (ac_id x) (ac_epoch x) (wd_db w'))"
proof -
  note ok = run_world_ok [OF assms(1)]
  obtain a where "account_active a d" and hash: "\<forall>p \<in> set (passwords d). pw_account p = a \<longrightarrow> Some (pw_hash p) = hash"
    and b: "\<And>b. b \<in> set (bindings (wd_db w)) \<Longrightarrow> ab_principal b = a \<Longrightarrow> ab_membership b \<noteq> None \<Longrightarrow> credential_ended (ab_fingerprint b) d"
    and s: "\<And>s. s \<in> set (browsers (wd_db w)) \<Longrightarrow> bs_account s = a \<Longrightarrow> session_ended (bs_fingerprint s) d"
    and t: "\<And>t. t \<in> set (tokens (wd_db w)) \<Longrightarrow> tk_account t = a \<Longrightarrow> token_spent (tk_fingerprint t) d"
    and e: "\<And>x. x \<in> set (accounts (wd_db w)) \<Longrightarrow> ac_id x = a \<Longrightarrow> epoch_left a (ac_epoch x) d"
    and own: "\<exists>t \<in> set (tokens (wd_db w)). tk_account t = a \<and> (\<exists>c. Some s = Some c \<and> sv_sha V c = tk_fingerprint t)"
    and ok1: "identity_ok d"
    by (rule recovery_leaves [OF assms(2) ok]) (rule that; simp)
  have ok1': "identity_ok (wd_db (w\<lparr>wd_db := d\<rparr>))" using ok1 by simp
  note keep = ended_credentials.run_keep [OF assms(3) ok1'] ended_sessions.run_keep [OF assms(3) ok1']
    spent_tokens.run_keep [OF assms(3) ok1'] left_epochs.run_keep [OF assms(3) ok1']
  note refused = ended_are_refused [OF run_world_kept [OF assms(3) ok1']]
  from own obtain t0 where t0: "t0 \<in> set (tokens (wd_db w))" "tk_account t0 = a" "tk_fingerprint t0 = sv_sha V s" by auto
  show ?thesis
    by (rule bexI [OF _ t0(1)]) (use t0 hash keep refused b s t e in auto)
qed

theorem recovery_evicts_for_good_witness:
  "\<exists>w d. demo_run issuing_run = Some w \<and>
    complete_account_recovery demo_server 70 (Some (demo_secret (identity_secret_prefix Account_recovery) 5)) (Some demo_hash)
      new_transaction (wd_db w) (wd_db w) = Inr (True, d) \<and>
    (\<exists>t \<in> set (tokens (wd_db w)). \<forall>p \<in> set (passwords d). pw_account p = tk_account t \<longrightarrow> pw_hash p = demo_hash)"
proof -
  obtain w where w: "demo_run issuing_run = Some w" "issuing_outcome w" using runs(3) by blast
  then obtain d where d: "complete_account_recovery demo_server 70
      (Some (demo_secret (identity_secret_prefix Account_recovery) 5)) (Some demo_hash) new_transaction (wd_db w) (wd_db w) = Inr (True, d)"
    unfolding issuing_outcome_def by (elim conjE acceptedE)
  have "run_world demo_server (\<lambda>x. x) [] (w\<lparr>wd_db := d\<rparr>) = Some (w\<lparr>wd_db := d\<rparr>)" by simp
  from recovery_evicts_for_good [OF w(1) d this] w(1) d show ?thesis
    unfolding option.inject by blast
qed

text \<open>
  C21: A mailbox token works once: after it has verified an address, it neither verifies nor recovers an
  account in any later state.
\<close>

theorem mailbox_token_works_once:
  assumes "run_world V hex evs empty_world = Some w"
    and "verify_account_email V now (Some s) tx seen (wd_db w) = Inr (True, d)"
    and "run_world V hex later (w\<lparr>wd_db := d\<rparr>) = Some w'"
  shows "token_refused V (sv_sha V s) (wd_db w')"
proof -
  have d: "token_spent (sv_sha V s) (wd_db (w\<lparr>wd_db := d\<rparr>))" "identity_ok (wd_db (w\<lparr>wd_db := d\<rparr>))"
    using verifying_spends [OF assms(2) run_world_ok [OF assms(1)]] by auto
  show ?thesis
    by (rule ended_are_refused(3) [OF run_world_kept [OF assms(3) d(2)] spent_tokens.run_keep [OF assms(3) d(2,1)]])
qed

theorem mailbox_token_works_once_witness:
  "\<exists>w d. demo_run signup_run = Some w \<and> verify_account_email demo_server 10
      (Some (demo_secret (identity_secret_prefix Email_verification) 1)) new_transaction (wd_db w) (wd_db w) = Inr (True, d) \<and>
    token_refused demo_server (sv_sha demo_server (demo_secret (identity_secret_prefix Email_verification) 1)) d"
proof -
  obtain w where w: "demo_run signup_run = Some w" "signup_outcome w" using runs(1) by blast
  then obtain d where d: "verify_account_email demo_server 10
      (Some (demo_secret (identity_secret_prefix Email_verification) 1)) new_transaction (wd_db w) (wd_db w) = Inr (True, d)"
    unfolding signup_outcome_def by (elim acceptedE)
  have "run_world demo_server (\<lambda>x. x) [] (w\<lparr>wd_db := d\<rparr>) = Some (w\<lparr>wd_db := d\<rparr>)" by simp
  from mailbox_token_works_once [OF w(1) d this] w(1) d show ?thesis by auto
qed

section \<open>Calls of a workspace\<close>

text \<open>The renaming that witnesses the properties of workspace calls.\<close>

abbreviation lab_renamed :: "jsonb world \<Rightarrow> identity_error + jsonb identity_db \<times> transaction" where
  "lab_renamed w \<equiv> perform demo_server (\<lambda>x. x) 70 (Rename_workspace (demo_ids ''4'') (Some (cps ''Lab two'')) None)
     (wd_tx w 5) (wd_db w) (wd_db w)"

lemma lab_renamed_run:
  obtains w d' tx' where "demo_run issuing_run = Some w" "lab_renamed w = Inr (d', tx')"
proof -
  obtain w where w: "demo_run issuing_run = Some w" "issuing_outcome w" using runs(3) by blast
  then obtain x where "lab_renamed w = Inr x" unfolding issuing_outcome_def by (elim conjE succeedsE)
  with w(1) that [of w "fst x" "snd x"] show thesis by (simp only: prod.collapse)
qed

text \<open>
  C7: No write of a workspace rests on stale authority: a rename, a change of members, invitations,
  credentials, preferences or consent succeeds only in a session that proved its CSRF secret, through a
  membership of its account that is active at that moment, in an active account, with a role that holds
  the permission now, and in the workspace the request expected.
\<close>

theorem workspace_writes_need_present_authority:
  assumes "perform V hex now q tx seen d = Inr (d', tx')" and "demanded q = Some p"
  shows "\<exists>s m. auth_session tx = Some s \<and> si_csrf s \<and> m \<in> set (memberships d) \<and> mb_revoked m = None \<and>
    si_membership s = Some (mb_id m) \<and> si_account s = mb_account m \<and> si_workspace s = Some (mb_workspace m) \<and>
    ax_tenant (tx_cx tx) = Some (mb_tenant m) \<and> account_active (mb_account m) d \<and> role_holds (mb_role m) p \<and>
    tx_expected tx \<in> {None, Some (mb_workspace m)}"
  using perform_authorised [OF assms] by (auto simp: authorised_def member_row_def)

theorem workspace_writes_need_present_authority_witness:
  "\<exists>w s m. demo_run issuing_run = Some w \<and> auth_session (wd_tx w 5) = Some s \<and> m \<in> set (memberships (wd_db w)) \<and>
    si_membership s = Some (mb_id m) \<and> role_holds (mb_role m) (scope_value Workspace_write)"
proof -
  obtain w d' tx' where w: "demo_run issuing_run = Some w" and x: "lab_renamed w = Inr (d', tx')" by (rule lab_renamed_run)
  from workspace_writes_need_present_authority [OF x demanded.simps(1)] w show ?thesis by blast
qed

text \<open>
  C18: A call of a workspace reaches no further than the workspace: in a reachable state it leaves every
  membership, invitation, credential, preference and directory entry of every other workspace as it
  was, in its order, every account with its password and tokens, and every session but those it
  unbinds from this workspace.
\<close>

theorem workspace_writes_stay_in_workspace:
  assumes "run_world V hex evs empty_world = Some w" and "perform V hex now q tx seen (wd_db w) = Inr (d', tx')"
    and "demanded q = Some p" and "auth_session tx = Some s" and "si_workspace s = Some k"
  shows "same_elsewhere k (wd_db w) d' \<and> same_people k (wd_db w) d'"
  using perform_confined [OF assms(2,3) run_world_ok [OF assms(1)] conjunct1 [OF rows_ok [OF assms(1)]] assms(4,5)]
  by (simp add: confined_def)

theorem workspace_writes_stay_in_workspace_witness:
  "\<exists>w d' tx' k. demo_run issuing_run = Some w \<and> lab_renamed w = Inr (d', tx') \<and> same_people k (wd_db w) d'"
proof -
  obtain w d' tx' where w: "demo_run issuing_run = Some w" and x: "lab_renamed w = Inr (d', tx')" by (rule lab_renamed_run)
  obtain s m where s: "authorised (wd_tx w 5) (wd_db w) (scope_value Workspace_write) s m"
    using perform_authorised [OF x demanded.simps(1)] by blast
  then have "auth_session (wd_tx w 5) = Some s" "si_workspace s = Some (mb_workspace m)" by (simp_all add: authorised_def)
  from workspace_writes_stay_in_workspace [OF w x demanded.simps(1) this] w x show ?thesis by blast
qed



section \<open>Idempotent creation\<close>

lemma member_reply_replayed:
  "replay_account_claim fp \<lparr>aq_account = a, aq_operation = q, aq_key = k, aq_fingerprint = fp, aq_result =
     J_object (member_result m @ [field ''event_id'' (J_string (snd wr)), field ''record_id'' (J_uuid (fst wr))])\<rparr> =
   Inr ((member_reply m wr)\<lparr>jr_role := None, jr_replayed := True\<rparr>)"
  by (cases "fst wr") (simp_all add: replay_account_claim_def member_reply_def member_result_def Let_def get_text_def
      jsonb_get_def field_def cps_def J_uuid_def J_text_def)

lemma provision_claim:
  assumes "provision_workspace V now ids s slug name (Some k) fp tx d = Inr (r, d', tx')"
  shows "find_account_claim (si_account s) ''workspace.create'' (Some k) d = None \<and>
    (\<exists>c. claimed (si_account s) ''workspace.create'' (Some k) c d' \<and> replay_account_claim fp c = Inr (r\<lparr>jr_replayed := True\<rparr>))"
proof -
  obtain d1 d2 d3 d4 d5 cx t w m wr ids' result ev aid action outcome rtype rid details where
    a: "insert_tenant cx t d = Inr d1" "insert_workspace cx w d1 = Inr d2" "insert_membership m d2 = Inr d3"
      "identity_claim V cx ids' ''workspace.create'' (Some k) fp result ev d3 = Inr (wr, d4)"
    and k: "keep_account_claim V (si_account s) ''workspace.create'' (Some k) fp (member_result m) wr d4 = Inr d5"
    and e: "append_event V cx aid action outcome rtype rid details d5 = Inr d'"
    and r: "r = (member_reply m wr)\<lparr>jr_role := None\<rparr>"
    using assms by (auto simp: provision_workspace_def Let_def elim!: and_then_InrE)
  have "account_claims d4 = account_claims d"
    using a by (auto dest!: insert_rows identity_claim_frame)
  moreover have "account_claims d' = account_claims d5" using append_event_frame [OF e] by auto
  moreover note keep_account_claim_claimed [OF k]
  ultimately show ?thesis
    unfolding r using member_reply_replayed [of fp "si_account s" "cps ''workspace.create''" k m wr]
    by (auto simp: claimed_def find_account_claim_def)
qed



section \<open>Minted secrets\<close>

lemma url_char_safe: "n < 64 \<Longrightarrow> url_safe (url_char n)"
  by (simp add: url_char_def url_safe_def upper_alpha_def lower_alpha_def ascii_digit_def between_cps_def)

definition url_value :: "int \<Rightarrow> nat" where
  "url_value c = nat (if upper_alpha c then c - 65 else if lower_alpha c then c - 71 else if ascii_digit c then c + 4
     else if c = 45 then 62 else 63)"

lemma url_value_char: "n < 64 \<Longrightarrow> url_value (url_char n) = n"
  by (simp add: url_value_def url_char_def upper_alpha_def lower_alpha_def ascii_digit_def between_cps_def)

fun base64_bytes :: "utext \<Rightarrow> nat list" where
  "base64_bytes (p # q # r # s # t) =
     [url_value p * 4 + url_value q div 16, url_value q mod 16 * 16 + url_value r div 4, url_value r mod 4 * 64 + url_value s]
     @ base64_bytes t"
| "base64_bytes [p, q, r] = [url_value p * 4 + url_value q div 16, url_value q mod 16 * 16 + url_value r div 4]"
| "base64_bytes [p, q] = [url_value p * 4 + url_value q div 16]"
| "base64_bytes _ = []"

lemma sextets:
  assumes "(a::nat) < 256" "b < 256" "c < 256"
  shows "a div 4 < 64" "a mod 4 * 16 + b div 16 < 64" "b mod 16 * 4 + c div 64 < 64" "c mod 64 < 64"
    "a div 4 * 4 + (a mod 4 * 16 + b div 16) div 16 = a"
    "(a mod 4 * 16 + b div 16) mod 16 * 16 + (b mod 16 * 4 + c div 64) div 4 = b"
    "(b mod 16 * 4 + c div 64) mod 4 * 64 + c mod 64 = c"
proof -
  have "b div 16 < 16" "c div 64 < 4" "a mod 4 < 4" "b mod 16 < 16" using assms by auto
  then show "a div 4 < 64" "a mod 4 * 16 + b div 16 < 64" "b mod 16 * 4 + c div 64 < 64" "c mod 64 < 64"
    using assms(1) by auto
  show "a div 4 * 4 + (a mod 4 * 16 + b div 16) div 16 = a"
    "(a mod 4 * 16 + b div 16) mod 16 * 16 + (b mod 16 * 4 + c div 64) div 4 = b"
    "(b mod 16 * 4 + c div 64) mod 4 * 64 + c mod 64 = c"
    using assms by (auto simp: div_mult2_eq [symmetric]; presburger)+
qed

lemma base64_safe: "list_all (\<lambda>b. b < 256) bs \<Longrightarrow> list_all url_safe (base64_url bs)"
  by (induction bs rule: base64_url.induct) (auto intro!: url_char_safe simp: sextets)

lemma base64_length: "length (base64_url bs) = (length bs * 4 + 2) div 3"
  by (induction bs rule: base64_url.induct) auto

lemma base64_roundtrip: "list_all (\<lambda>b. b < 256) bs \<Longrightarrow> base64_bytes (base64_url bs) = bs"
proof (induction bs rule: base64_url.induct)
  case (1 a b c bs)
  then have "a < 256" "b < 256" "c < 256" "b div 16 < 16" "base64_bytes (base64_url bs) = bs" by auto
  moreover from this have "b div 16 mod 16 * 16 + b mod 16 = b" by simp
  ultimately show ?case using sextets [of a b c] by (simp add: url_value_char)
next
  case (2 a b)
  then show ?case using sextets [of a b 0] by (simp add: url_value_char)
next
  case (3 a)
  then show ?case using sextets [of a 0 0] by (simp add: url_value_char)
qed simp

text \<open>
  C39: Every secret the database mints from 32 drawn bytes has the form Python recognises for its kind,
  so that every scan refuses it as data, and loses nothing of what was drawn: the bytes can be read back.
\<close>

theorem minted_secret_carries_its_bytes:
  assumes "length bytes = 32" and "list_all (\<lambda>b. b < 256) bytes"
  shows "is_well_formed_credential (identity_mint_secret ''fbk_'' bytes) \<and>
    is_well_formed_identity_secret (identity_mint_secret (identity_secret_prefix k) bytes) k \<and>
    base64_bytes (drop 4 (identity_mint_secret (identity_secret_prefix k) bytes)) = bytes"
proof -
  have "length (base64_url bytes) = 43" using assms(1) by (simp add: base64_length)
  moreover have "length (cps (identity_secret_prefix k)) = 4" by (cases k) (simp_all add: cps_def)
  ultimately show ?thesis
    using base64_safe [OF assms(2)] base64_roundtrip [OF assms(2)]
    by (auto simp: is_well_formed_credential_def bearer_credential_regex_def is_well_formed_identity_secret_def
        full_match_prefixed identity_mint_secret_def)
qed

theorem minted_secret_carries_its_bytes_witness:
  "base64_bytes (drop 4 (identity_mint_secret (identity_secret_prefix Session) (replicate 32 200))) = replicate 32 200"
  using minted_secret_carries_its_bytes [of "replicate 32 200" Session] by (simp add: list_all_iff)

section \<open>Issuing in Python and in the database\<close>

lemma known_scope_text: "known_scope (Some t) = known_text t"
  by (simp add: known_scope_def known_text_def)

lemma roles_equal:
  "r \<in> set membership_roles \<Longrightarrow> effective_permissions r = Inr (scopes_of r)"
proof -
  have "list_all (\<lambda>r. effective_permissions r = Inr (scopes_of r)) membership_roles" by code_simp
  then show "r \<in> set membership_roles \<Longrightarrow> effective_permissions r = Inr (scopes_of r)" by (simp add: list_all_iff)
qed

lemma issuable_equal: "api_issuable_scopes = sql_issuable_scopes"
  by code_simp

text \<open>The text of a scope is no secret.\<close>

lemma known_text_unsuspicious: "known_text t = Some s \<Longrightarrow> looks_like_secret t = None \<and> s \<in> set known_scopes \<and> t = cps s"
proof -
  have "list_all (\<lambda>s. looks_like_secret (cps s) = None) known_scopes" by code_simp
  then show "known_text t = Some s \<Longrightarrow> looks_like_secret t = None \<and> s \<in> set known_scopes \<and> t = cps s"
    by (auto simp: known_text_Some list_all_iff)
qed

lemma issuable_text:
  "issuable r (Some t) = Inr s \<longleftrightarrow> known_text t = Some s \<and> s \<in> set sql_issuable_scopes \<and> s \<in> set (scopes_of r)"
  by (auto simp: issuable_def known_scope_text role_holds_def scopes_of_def split: option.splits)

lemma api_items_issuable:
  "api_items (filter (\<lambda>s. s \<in> set (scopes_of r)) sql_issuable_scopes) i (map Text_value ts) = Inr out \<longleftrightarrow>
   seq_map (issuable r) (map Some ts) = Inr out"
proof (induction ts arbitrary: i out)
  case (Cons t ts)
  let ?A = "api_items (filter (\<lambda>s. s \<in> set (scopes_of r)) sql_issuable_scopes) (Suc i) (map Text_value ts)"
  have "api_items (filter (\<lambda>s. s \<in> set (scopes_of r)) sql_issuable_scopes) i (map Text_value (t # ts)) = Inr out \<longleftrightarrow>
      (\<exists>s x. known_text t = Some s \<and> s \<in> set sql_issuable_scopes \<and> s \<in> set (scopes_of r) \<and> ?A = Inr x \<and> out = s # x)"
    using known_text_unsuspicious by (auto split: option.split sum.split)
  moreover have "seq_map (issuable r) (map Some (t # ts)) = Inr out \<longleftrightarrow>
      (\<exists>s x. issuable r (Some t) = Inr s \<and> seq_map (issuable r) (map Some ts) = Inr x \<and> out = s # x)"
    by (auto split: sum.split)
  ultimately show ?case using Cons.IH by (simp add: issuable_text)
qed auto

lemma issued_distinct:
  "seq_map (issuable r) (map Some ts) = Inr named \<Longrightarrow> distinct ts \<Longrightarrow> distinct named \<and> map cps named = ts"
proof (induction ts arbitrary: named)
  case (Cons t ts)
  then obtain s x where s: "issuable r (Some t) = Inr s" "seq_map (issuable r) (map Some ts) = Inr x" "named = s # x"
    by (auto split: sum.split_asm)
  then have "cps s = t" using known_text_unsuspicious by (auto simp: issuable_text)
  with Cons.IH [OF s(2)] Cons.prems(2) s(3) show ?case by auto
qed simp



section \<open>Concurrent requests\<close>

definition concurrent_run :: "jsonb identity_event list" where
  "concurrent_run = signup_run @
     [Call 7 60 None (Ask_recovery (cps ''t2'', replicate 32 5) (Some (cps ''ann@example.com'')) (Some 3600)),
      Call 8 60 (map_option wd_db (demo_run signup_run))
        (Ask_recovery (cps ''t3'', replicate 32 6) (Some (cps ''ann@example.com'')) (Some 3600))]"


end
