(* ===== verification/Lifecycle_Client.thy ===== *)
theory Lifecycle_Client
  imports Idempotent_Mutation
begin

text \<open>
  The Python half of \<open>db/lifecycle.py\<close>: what a caller may pass, how a refusal of the database is
  translated, and the two forms of a move.
\<close>

section \<open>Refusals\<close>

text \<open>
  The exceptions a caller sees. \<open>Translated\<close> is \<open>LifecycleError\<close> with the server's own message,
  \<open>Unexplained\<close> is \<open>LifecycleError\<close> with the SQLSTATE and no text of the database, and an
  \<open>IntegrityError\<close> passes through. \<open>LifecycleConflict\<close> carries one constant message.
\<close>

datatype client_error =
    Lifecycle_conflict_error
  | Transition_not_allowed string
  | Definition_error string
  | Idempotency_conflict
  | Provenance_error
  | Authorization_error string
  | Translated kernel_error
  | Unexplained string
  | Integrity_error kernel_error
  | Refused_name string "string option"
  | Refused_reason "string option"
  | Refused_type string
  | Refused_range string
  | Refused_metadata metadata_error
  | Refused_precondition mutation_error
  | Transaction_required
  | No_context_bound

definition translate_error :: "kernel_error \<Rightarrow> client_error" where
  "translate_error e =
     (if sqlstate e = ''FB001'' then Lifecycle_conflict_error
      else if sqlstate e = ''FB002'' then Transition_not_allowed (case e of Not_allowed w \<Rightarrow> w | _ \<Rightarrow> '''')
      else if sqlstate e = ''FB003'' then Definition_error (case e of Definition_unusable w \<Rightarrow> w | _ \<Rightarrow> '''')
      else if sqlstate e = ''FB004'' then Idempotency_conflict
      else if sqlstate e = ''FB005'' then Provenance_error
      else if sqlstate e = ''42501'' then Authorization_error (case e of Insufficient_privilege w \<Rightarrow> w | _ \<Rightarrow> '''')
      else if sqlstate e = ''22023'' then Translated e
      else Unexplained (sqlstate e))"

text \<open>\<open>_execute\<close>: an \<open>IntegrityError\<close> is left alone.\<close>

definition execute_statement :: "kernel_error + 'a \<Rightarrow> client_error + 'a" where
  "execute_statement r = (case r of Inr x \<Rightarrow> Inr x
     | Inl e \<Rightarrow> Inl (if integrity_error e then Integrity_error e else translate_error e))"

section \<open>What a caller may pass\<close>

definition require_client_name :: "string \<Rightarrow> py_value \<Rightarrow> client_error + utext" where
  "require_client_name what v =
     (case value_shape v of Some sh \<Rightarrow> Inl (Refused_name what (Some sh))
      | None \<Rightarrow> (case v of V_text t \<Rightarrow> if name_ok t then Inr t else Inl (Refused_name what None)
                 | _ \<Rightarrow> Inl (Refused_name what None)))"

definition require_reason :: "py_value \<Rightarrow> client_error + utext option" where
  "require_reason v =
     (case v of V_none \<Rightarrow> Inr None
      | _ \<Rightarrow> (case value_shape v of Some sh \<Rightarrow> Inl (Refused_reason (Some sh))
        | None \<Rightarrow> (case v of V_text t \<Rightarrow>
              if 1 \<le> length t \<and> length t \<le> max_lifecycle_reason_length then Inr (Some t)
              else Inl (Refused_reason None)
            | _ \<Rightarrow> Inl (Refused_type ''reason''))))"

definition require_client_uuid :: "py_value \<Rightarrow> client_error + uuid" where
  "require_client_uuid v = (case v of V_uuid u \<Rightarrow> Inr u | _ \<Rightarrow> Inl (Refused_type ''lifecycle instance id''))"

definition require_revision :: "py_value \<Rightarrow> client_error + int" where
  "require_revision v = (case v of
      V_int n \<Rightarrow> if n < 0 then Inl (Refused_range ''revision'') else Inr n
    | _ \<Rightarrow> Inl (Refused_type ''revision''))"

definition require_machine_version :: "py_value \<Rightarrow> client_error + int" where
  "require_machine_version v = (case v of
      V_int n \<Rightarrow> if n < 1 then Inl (Refused_range ''machine version'') else Inr n
    | _ \<Rightarrow> Inl (Refused_type ''machine version''))"

section \<open>Creating an instance\<close>

record lifecycle_position =
  lp_id :: uuid
  lp_machine :: machine_id
  lp_state :: utext
  lp_revision :: int
  lp_event :: uuid

definition client_create ::
  "'f platform \<Rightarrow> auth_context \<Rightarrow> session_state \<Rightarrow> py_value \<Rightarrow> py_value \<Rightarrow> uuid \<times> uuid \<times> uuid \<Rightarrow> rat
     \<Rightarrow> 'f kernel \<Rightarrow> client_error + lifecycle_position \<times> 'f kernel" where
  "client_create P cx ss key version ids now k =
     (if \<not> ss_open ss then Inl Transaction_required
      else case require_client_name ''lifecycle machine key'' key of Inl e \<Rightarrow> Inl e
      | Inr ky \<Rightarrow> (case require_machine_version version of Inl e \<Rightarrow> Inl e
      | Inr v \<Rightarrow> if ax_tenant cx = None then Inl No_context_bound
      else (case execute_statement (create_lifecycle_instance P cx (Some ky) (Some v) ids now k) of Inl e \<Rightarrow> Inl e
        | Inr (r, k') \<Rightarrow> Inr (\<lparr>lp_id = cr_instance r, lp_machine = (ky, v), lp_state = cr_state r,
            lp_revision = 0, lp_event = cr_event r\<rparr>, k'))))"

section \<open>Moving one\<close>

record move_call =
  mc_instance :: py_value
  mc_expected :: py_value
  mc_revision :: py_value
  mc_target :: py_value
  mc_reason :: py_value
  mc_details :: py_value

text \<open>\<open>details or {}\<close>: every falsy value becomes an empty mapping.\<close>

definition falsy :: "py_value \<Rightarrow> bool" where
  "falsy v \<longleftrightarrow> v = V_none \<or> v = V_bool False \<or> v = V_int 0 \<or> v = V_float 0 \<or> v = V_text [] \<or>
     v = V_seq [] \<or> v = V_map []"

text \<open>The request that is sent: names, revision and reason as checked, the details rendered and read
  back as \<open>jsonb\<close>.\<close>

definition build_request ::
  "'f python \<Rightarrow> auth_context \<Rightarrow> session_state \<Rightarrow> move_call \<Rightarrow> utext option \<Rightarrow> client_error + transition_request" where
  "build_request Y cx ss c key =
     (if \<not> ss_open ss then Inl Transaction_required
      else case require_client_uuid (mc_instance c) of Inl e \<Rightarrow> Inl e
      | Inr i \<Rightarrow> (case require_revision (mc_revision c) of Inl e \<Rightarrow> Inl e
      | Inr r \<Rightarrow> (case require_client_name ''expected lifecycle state'' (mc_expected c) of Inl e \<Rightarrow> Inl e
      | Inr s \<Rightarrow> (case require_client_name ''target lifecycle state'' (mc_target c) of Inl e \<Rightarrow> Inl e
      | Inr t \<Rightarrow> (case require_reason (mc_reason c) of Inl e \<Rightarrow> Inl e
      | Inr why \<Rightarrow> (case validated_metadata (py_float Y)
             (if falsy (mc_details c) then V_map [] else mc_details c) of Inl e \<Rightarrow> Inl (Refused_metadata e)
      | Inr d \<Rightarrow> if ax_tenant cx = None then Inl No_context_bound
      else Inr \<lparr>q_instance = Some i, q_expected = Some s, q_revision = Some r, q_target = Some t,
             q_reason = why, q_details = Some (document_jsonb d), q_key = key\<rparr>))))))"

record applied_transition =
  at_transition :: "uuid option"
  at_instance :: uuid
  at_machine :: machine_id
  at_from :: utext
  at_to :: utext
  at_from_rev :: "int option"
  at_to_rev :: "int option"
  at_event :: uuid
  at_record :: "uuid option"
  at_result :: jsonb
  at_replayed :: bool

definition applied :: "transition_request \<Rightarrow> transition_reply \<Rightarrow> applied_transition" where
  "applied q r = \<lparr>at_transition = rp_transition r, at_instance = the (q_instance q), at_machine = rp_machine r,
     at_from = (case get_text (rp_result r) ''from_state'' of Some s \<Rightarrow> s | None \<Rightarrow> the (q_expected q)),
     at_to = (case get_text (rp_result r) ''to_state'' of Some s \<Rightarrow> s | None \<Rightarrow> the (q_target q)),
     at_from_rev = rp_from_rev r, at_to_rev = rp_to_rev r, at_event = rp_event r, at_record = rp_claim r,
     at_result = rp_result r, at_replayed = rp_replayed r\<rparr>"

definition apply_transition ::
  "'f platform \<Rightarrow> 'f python \<Rightarrow> auth_context \<Rightarrow> session_state \<Rightarrow> move_call \<Rightarrow> utext option \<Rightarrow> new_ids \<Rightarrow> rat
     \<Rightarrow> 'f kernel \<Rightarrow> 'f kernel \<Rightarrow> client_error + applied_transition \<times> 'f kernel" where
  "apply_transition P Y cx ss c key ids now k1 k =
     (case build_request Y cx ss c key of Inl e \<Rightarrow> Inl e
      | Inr q \<Rightarrow> (case execute_statement (transition_lifecycle_instance P cx (ss_read_committed ss) q ids now k1 k) of
          Inl e \<Rightarrow> Inl e | Inr (r, k') \<Rightarrow> Inr (applied q r, k')))"

text \<open>The internal form has no key; the API form checks its key and the session first.\<close>

definition client_transition ::
  "'f platform \<Rightarrow> 'f python \<Rightarrow> auth_context \<Rightarrow> session_state \<Rightarrow> move_call \<Rightarrow> new_ids \<Rightarrow> rat
     \<Rightarrow> 'f kernel \<Rightarrow> 'f kernel \<Rightarrow> client_error + applied_transition \<times> 'f kernel" where
  "client_transition P Y cx ss c = apply_transition P Y cx ss c None"

definition execute_idempotent_lifecycle_transition ::
  "'f platform \<Rightarrow> 'f python \<Rightarrow> auth_context \<Rightarrow> session_state \<Rightarrow> py_value \<Rightarrow> move_call \<Rightarrow> new_ids \<Rightarrow> rat
     \<Rightarrow> 'f kernel \<Rightarrow> 'f kernel \<Rightarrow> client_error + idempotent_result \<times> 'f kernel" where
  "execute_idempotent_lifecycle_transition P Y cx ss key c ids now k1 k =
     (if \<not> ss_open ss then Inl Transaction_required
      else case require_valid_key key of Inl e \<Rightarrow> Inl (Refused_precondition e)
      | Inr ky \<Rightarrow>
          if \<not> ss_clean ss then Inl (Refused_precondition Unflushed_state)
          else if \<not> ss_read_committed ss then Inl (Refused_precondition Wrong_isolation)
          else (case apply_transition P Y cx ss c (Some ky) ids now k1 k of Inl e \<Rightarrow> Inl e
            | Inr (a, k') \<Rightarrow> Inr (\<lparr>ir_record = the (at_record a), ir_event = at_event a,
                ir_result = at_result a, ir_replayed = at_replayed a\<rparr>, k')))"

section \<open>Reading\<close>

definition lifecycle_instance :: "auth_context \<Rightarrow> uuid \<Rightarrow> 'f kernel \<Rightarrow> instance_row option" where
  "lifecycle_instance cx i k = find (\<lambda>r. in_id r = i \<and> instance_readable cx (defs k) r) (instances k)"

definition lifecycle_history :: "auth_context \<Rightarrow> uuid \<Rightarrow> nat \<Rightarrow> 'f kernel \<Rightarrow> transition_row list" where
  "lifecycle_history cx i limit k =
     take limit (sort_key tr_to_rev (filter (\<lambda>t. tr_instance t = i \<and> transition_readable cx (defs k) t) (transitions k)))"

definition registered_lifecycle_machines :: "definitions \<Rightarrow> machine_id list" where
  "registered_lifecycle_machines d =
     sort_key fst (sort_key snd (map mr_id (filter (\<lambda>m. mr_published_at m \<noteq> None) (machines d))))"

section \<open>The two copies of every check\<close>

text \<open>A UUID's text is stored as it is; it is never a secret and never long.\<close>

fun plain_scalar :: "py_value \<Rightarrow> bool" where
  "plain_scalar (V_uuid u) \<longleftrightarrow> looks_like_secret u = None \<and> length u \<le> max_metadata_string_length"
| "plain_scalar v = True"

fun plain_item :: "py_value \<Rightarrow> bool" where
  "plain_item (V_seq vs) \<longleftrightarrow> list_all plain_scalar vs"
| "plain_item v \<longleftrightarrow> plain_scalar v"

fun plain_ids :: "py_value \<Rightarrow> bool" where
  "plain_ids (V_map kvs) \<longleftrightarrow> list_all (\<lambda>(k, v). plain_item v) kvs"
| "plain_ids v = True"

lemma stored_scalar_ok: "scalar_ok v \<Longrightarrow> plain_scalar v \<Longrightarrow> scalar_ok (py_of_jsonb (scalar_jsonb (render_scalar v)))"
  by (cases v) auto

lemma stored_item_ok: "item_ok v \<Longrightarrow> plain_item v \<Longrightarrow> item_ok (py_of_jsonb (item_jsonb (render_item v)))"
proof (cases v)
  case (V_seq vs)
  assume "item_ok v" "plain_item v"
  then show ?thesis using V_seq stored_scalar_ok by (auto simp: list_all_iff)
qed auto

lemma key_ok_text: "key_ok k \<Longrightarrow> key_ok (V_text (key_text k))"
  by (cases k) auto

lemma stored_details_ok:
  assumes "validated_metadata ft v = Inr d" "plain_ids v"
  shows "audit_require_acceptable_details oct (Some (document_jsonb d)) =
    (if oct (document_jsonb d) \<le> max_metadata_bytes then Inr () else Inl D_too_large)"
proof -
  obtain kvs where v: "v = V_map kvs" "length kvs \<le> max_metadata_keys" "list_all (\<lambda>(k, x). key_ok k \<and> item_ok x) kvs"
    and d: "d = map (\<lambda>(k, x). (key_text k, render_item x)) kvs"
    using assms (1) unfolding validated_metadata_Inr by blast
  let ?m = "map (\<lambda>(k, x). (key_text k, item_jsonb (render_item x))) kvs"
  have dj: "document_jsonb d = J_object ?m" unfolding d document_jsonb_def by (simp add: comp_def split_def)
  have "sql_check_member (i, kx) = Inr ()" if kx: "kx \<in> set ?m" for i kx
  proof -
    obtain a b where ab: "(a, b) \<in> set kvs" "kx = (key_text a, item_jsonb (render_item b))"
      using kx by auto
    have "key_ok a" "item_ok b" "plain_item b"
      using v (1,3) assms (2) ab (1) by (auto simp: list_all_iff)
    then have "sql_check_key i (key_text a) = Inr ()" "sql_check_value i (item_jsonb (render_item b)) = Inr ()"
      using key_ok_text stored_item_ok by (simp_all only: sql_check_key_Inr sql_check_value_Inr)
    then show ?thesis by (simp add: sql_check_member_def ab (2))
  qed
  then have "seq_map sql_check_member (zip [0..<length ?m] ?m) = Inr (map (\<lambda>_. ()) (zip [0..<length ?m] ?m))"
    by (intro seq_map_total) (auto dest: set_zip_rightD)
  then show ?thesis using v (2) by (simp add: audit_require_acceptable_details_def dj)
qed

lemma require_client_name_Inr:
  "require_client_name what v = Inr t \<longleftrightarrow> v = V_text t \<and> looks_like_secret t = None \<and> name_ok t"
  by (cases v) (auto simp: require_client_name_def split: option.splits)

lemma require_reason_Inr:
  "require_reason v = Inr r \<longleftrightarrow> v = V_none \<and> r = None \<or>
    (\<exists>t. v = V_text t \<and> r = Some t \<and> looks_like_secret t = None \<and> 1 \<le> length t \<and> length t \<le> max_lifecycle_reason_length)"
  by (cases v) (auto simp: require_reason_def split: option.splits)

lemma require_revision_Inr: "require_revision v = Inr n \<longleftrightarrow> v = V_int n \<and> 0 \<le> n"
  by (cases v) (auto simp: require_revision_def)

lemma require_valid_key_Inr:
  "require_valid_key v = Inr t \<longleftrightarrow> v = V_text t \<and> looks_like_secret t = None \<and> full_match idempotency_key_regex t"
  by (cases v) (auto simp: require_valid_key_def split: option.splits)

lemma build_request_Inr:
  assumes "build_request Y cx ss c key = Inr q"
  obtains s t d n where "q_expected q = Some s" "looks_like_secret s = None" "name_ok s"
    "q_target q = Some t" "looks_like_secret t = None" "name_ok t"
    "q_revision q = Some n" "0 \<le> n" "q_instance q \<noteq> None"
    "validated_metadata (py_float Y) (if falsy (mc_details c) then V_map [] else mc_details c) = Inr d"
    "q_details q = Some (document_jsonb d)" "q_key q = key" "ax_tenant cx \<noteq> None"
    "secret_shape (q_reason q) = None"
    "case q_reason q of None \<Rightarrow> True | Some r \<Rightarrow> 1 \<le> length r \<and> length r \<le> max_lifecycle_reason_length"
  using assms
  by (auto simp: build_request_def bind_Inr require_client_name_Inr require_reason_Inr require_revision_Inr
      secret_shape_def split: if_splits option.splits)

text \<open>
  The checks the Python layer makes before it sends a move are the database's own: a request it
  built is refused by the database's validation only for what Python does not decide, namely a
  revision beyond the column's integer range, a missing capability, details whose stored text is
  larger than the column allows, or, with a key, the wrong isolation level. No refusal of the
  database ever concerns the form of a value that Python passed on.
\<close>

theorem client_checks_are_the_database_checks:
  assumes "build_request Y cx ss c key = Inr q" and "plain_ids (mc_details c)"
    and "case key of None \<Rightarrow> True | Some ky \<Rightarrow> require_valid_key (V_text ky) = Inr ky"
  shows "case check_request P cx rc q of
      Inr rq \<Rightarrow> Some (rq_revision rq) = q_revision q \<and> rq_key rq = key
    | Inl e \<Rightarrow> e = Out_of_range \<and> \<not> in_sql_integer (q_revision q)
        \<or> e = Insufficient_privilege ''mutation:execute'' \<and> \<not> auth_has_scope cx (Some mutation_scope)
        \<or> e = Details_refused D_too_large \<and> octets P (the (q_details q)) > max_metadata_bytes
        \<or> e = Not_read_committed \<and> key \<noteq> None \<and> \<not> rc"
proof -
  obtain s t d n where q: "q_expected q = Some s" "looks_like_secret s = None" "name_ok s"
    "q_target q = Some t" "looks_like_secret t = None" "name_ok t"
    "q_revision q = Some n" "0 \<le> n" "q_instance q \<noteq> None"
    and d: "validated_metadata (py_float Y) (if falsy (mc_details c) then V_map [] else mc_details c) = Inr d"
    "q_details q = Some (document_jsonb d)" "q_key q = key" "ax_tenant cx \<noteq> None"
    and r: "secret_shape (q_reason q) = None"
    "case q_reason q of None \<Rightarrow> True | Some r \<Rightarrow> 1 \<le> length r \<and> length r \<le> max_lifecycle_reason_length"
    by (rule build_request_Inr [OF assms (1)])
  have k: "secret_shape key = None" "case key of None \<Rightarrow> True | Some ky \<Rightarrow> full_match idempotency_key_regex ky"
    using assms (3) by (auto simp: secret_shape_def require_valid_key_Inr split: option.splits)
  have "plain_ids (if falsy (mc_details c) then V_map [] else mc_details c)" using assms (2) by simp
  note det = stored_details_ok [OF d (1) this, of "octets P"]
  have f: "secret_shape (q_expected q) = None" "secret_shape (q_target q) = None"
    "good_state_name (q_expected q)" "good_state_name (q_target q)" "at_least 0 (q_revision q)"
    using q by (simp_all add: secret_shape_def good_state_name_def at_least_def)
  show ?thesis
    using f q (7,9) d (2,3,4) r k det
    unfolding check_request_def by (auto split: option.splits)
qed

section \<open>One refusal for everything stale or unseen\<close>

text \<open>
  A conflict is one refusal: an instance that does not exist, one of another tenant, one whose
  machine the caller may not read, and one that has moved on since the caller read it all give the
  same \<open>LifecycleConflict\<close>, which carries nothing about which of them it was.
\<close>

theorem conflict_is_one_refusal:
  assumes "build_request Y cx ss c key = Inr q"
    and "check_request P cx (ss_read_committed ss) q = Inr rq"
    and "case lifecycle_instance cx (rq_instance rq) k1 of None \<Rightarrow> True
      | Some i \<Rightarrow> key = None \<and> holds cx (defs k1) (in_machine i) Transition \<and>
          (in_state i \<noteq> rq_expected rq \<or> in_revision i \<noteq> rq_revision rq)"
  shows "apply_transition P Y cx ss c key ids now k1 k = Inl Lifecycle_conflict_error"
proof -
  have "q_key q = key" by (rule build_request_Inr [OF assms (1)])
  then have key: "rq_key rq = key" using check_request_Inr (7) [OF assms (2)] by simp
  have "transition_lifecycle_instance P cx (ss_read_committed ss) q ids now k1 k = Inl Lifecycle_conflict"
  proof (cases "lifecycle_instance cx (rq_instance rq) k1")
    case None
    then show ?thesis by (simp add: transition_lifecycle_instance_def assms (2) lifecycle_instance_def)
  next
    case (Some i)
    then have i: "key = None" "holds cx (defs k1) (in_machine i) Transition"
      "in_state i \<noteq> rq_expected rq \<or> in_revision i \<noteq> rq_revision rq" using assms (3) by simp_all
    have "move_instance P cx ids now rq i k1 k = Inl Lifecycle_conflict"
      using i holds_registered [OF i (2)] key
      by (simp add: move_instance_def Let_def replay_def lost_update_def)
    then show ?thesis using Some
      by (simp add: transition_lifecycle_instance_def assms (2) lifecycle_instance_def)
  qed
  then show ?thesis
    by (simp add: apply_transition_def assms (1) execute_statement_def integrity_error_def translate_error_def)
qed

section \<open>Reading the history\<close>

lemma walks_revisions:
  "walks d m s r ts s' r' \<Longrightarrow> sorted (map tr_to_rev ts) \<and> (\<forall>t \<in> set ts. r < tr_to_rev t \<and> tr_machine t = m)"
proof (induction ts arbitrary: s r)
  case (Cons t ts)
  then have t: "tr_to_rev t = r + 1" "tr_machine t = m" and w: "walks d m (tr_to t) (r + 1) ts s' r'" by simp_all
  from Cons.IH [OF w] t show ?case by force
qed simp

text \<open>
  A caller who may read an instance reads its whole history and nothing else: \<open>lifecycle_history\<close>
  returns the rows of the instance in the order they were written, at most \<open>limit\<close> of them, no row
  hidden by the policies, and a limit of the instance's revision is enough for all of them.
\<close>

theorem history_reads_the_trail:
  assumes "(kernel_step P)\<^sup>*\<^sup>* empty_kernel k" and "lifecycle_instance cx n k = Some i"
  shows "lifecycle_history cx n limit k = take limit (trail n k) \<and>
    (if nat (in_revision i) \<le> limit then length (lifecycle_history cx n limit k) = nat (in_revision i) else True)"
proof -
  have ok: "kernel_ok k" using kernel_machine.inv_reachable [OF refl assms (1)] .
  have i: "in_id i = n" "i \<in> set (instances k)" "instance_readable cx (defs k) i"
    using find_in [OF assms (2) [unfolded lifecycle_instance_def]] by simp_all
  have d: "distinct (map in_id (instances k))" using ok unfolding kernel_ok_def by blast
  have "on_graph k i" using ok i (2) unfolding kernel_ok_def by blast
  then obtain s where w: "walks (defs k) (in_machine i) s 0 (trail n k) (in_state i) (in_revision i)"
    unfolding on_graph_def i (1) by blast
  have readable: "transition_readable cx (defs k) t" if t: "t \<in> set (transitions k)" "tr_instance t = n" for t
  proof -
    obtain j where j: "j \<in> set (instances k)" "in_id j = n" "in_tenant j = tr_tenant t" "in_machine j = tr_machine t"
      using ok t unfolding kernel_ok_def by metis
    then have "j = i" using distinct_map_eq [OF d j (1) i (2)] i (1) by simp
    with j i (3) show ?thesis by (simp add: transition_readable_def instance_readable_def)
  qed
  have "filter (\<lambda>t. tr_instance t = n \<and> transition_readable cx (defs k) t) (transitions k) = trail n k"
    unfolding trail_def using readable by (intro filter_cong) auto
  moreover have "sort_key tr_to_rev (trail n k) = trail n k"
    using walks_revisions [OF w] by (simp add: sort_key_id_if_sorted)
  ultimately have h: "lifecycle_history cx n limit k = take limit (trail n k)"
    by (simp add: lifecycle_history_def)
  have "in_revision i = int (length (trail n k))" using walks_revision [OF w] by simp
  with h show ?thesis by simp
qed

section \<open>The theorems at a concrete call\<close>

definition demo_move_call :: move_call where
  "demo_move_call = \<lparr>mc_instance = V_uuid (cps ''i1''), mc_expected = V_text (cps ''pending''),
     mc_revision = V_int 0, mc_target = V_text (cps ''running''), mc_reason = V_none,
     mc_details = V_map [(V_text (cps ''attempt''), V_int 1)]\<rparr>"

definition demo_built :: transition_request where
  "demo_built = projr (build_request demo_python demo_context demo_session demo_move_call None)"

lemma demo_built_Inr: "build_request demo_python demo_context demo_session demo_move_call None = Inr demo_built"
proof -
  have "isl (build_request demo_python demo_context demo_session demo_move_call None) = False" by code_simp
  then show ?thesis by (simp add: demo_built_def)
qed

lemma client_checks_are_the_database_checks_witness:
  "\<exists>rq. check_request demo_platform demo_context True demo_built = Inr rq"
proof -
  have c: "auth_has_scope demo_context (Some mutation_scope)" "in_sql_integer (q_revision demo_built)"
    "octets demo_platform (the (q_details demo_built)) \<le> max_metadata_bytes" by code_simp+
  have "plain_ids (mc_details demo_move_call)" by (simp add: demo_move_call_def)
  from client_checks_are_the_database_checks [OF demo_built_Inr this, of demo_platform True] c
  show ?thesis by (auto split: sum.splits)
qed

lemma conflict_is_one_refusal_witness:
  "apply_transition demo_platform demo_python demo_context demo_session demo_move_call None demo_ids 9 demo_moved demo_moved =
     Inl Lifecycle_conflict_error"
proof -
  have "isl (check_request demo_platform demo_context True demo_built) = False" by code_simp
  then obtain rq where rq: "check_request demo_platform demo_context True demo_built = Inr rq" by (metis sum.collapse(2))
  have "Some (rq_instance rq) = q_instance demo_built" "Some (rq_expected rq) = q_expected demo_built"
    using check_request_Inr (3,4) [OF rq] by simp_all
  moreover have "q_instance demo_built = Some (cps ''i1'')" "q_expected demo_built = Some (cps ''pending'')" by code_simp+
  ultimately have q: "rq_instance rq = cps ''i1''" "rq_expected rq = cps ''pending''" by simp_all
  have m: "case lifecycle_instance demo_context (cps ''i1'') demo_moved of None \<Rightarrow> False
      | Some i \<Rightarrow> holds demo_context (defs demo_moved) (in_machine i) Transition \<and> in_state i \<noteq> cps ''pending''" by code_simp
  show ?thesis
    by (rule conflict_is_one_refusal [OF demo_built_Inr])
      (use rq q m in \<open>auto simp: demo_session_def split: option.splits\<close>)
qed

lemma history_reads_the_trail_witness:
  "\<exists>i. lifecycle_instance demo_context (cps ''i1'') demo_moved = Some i \<and>
     length (lifecycle_history demo_context (cps ''i1'') 100 demo_moved) = nat (in_revision i)"
proof -
  have "case lifecycle_instance demo_context (cps ''i1'') demo_moved of None \<Rightarrow> False
      | Some i \<Rightarrow> nat (in_revision i) \<le> 100" by code_simp
  then obtain i where i: "lifecycle_instance demo_context (cps ''i1'') demo_moved = Some i" "nat (in_revision i) \<le> 100"
    by (auto split: option.splits)
  have "length (lifecycle_history demo_context (cps ''i1'') 100 demo_moved) = nat (in_revision i)"
    using history_reads_the_trail [OF demo_moved_reachable i (1), of 100] i (2) by meson
  with i (1) show ?thesis by blast
qed

end
