(* ===== verification/Identity_Client.thy ===== *)
theory Identity_Client
  imports Identity_Durability Lifecycle_Client
begin

text \<open>
  The Python half of the identity plane: \<open>db/accounts.py\<close>, \<open>db/membership.py\<close>, \<open>db/credentials.py\<close>,
  \<open>db/preferences.py\<close> and \<open>security/passwords.py\<close>. What a caller may pass is checked before a statement is
  sent, a refusal of the database is translated, and the memory-hard work of Argon2 is done, and counted,
  in Python. Argon2 itself, the salts, \<open>str.lower\<close> and the admission gate are arguments.
\<close>

section \<open>Refusals\<close>

text \<open>
  The exceptions a caller sees. \<open>Refusal\<close> is \<open>IdentityRefused\<close> with its one constant message;
  \<open>Scrubbed\<close> is an unexpected failure of a statement that carried a secret, and \<open>Passed_on\<close> the driver's own.
\<close>

datatype account_error =
    Refusal
  | Conflicting identity_error
  | Key_reused
  | Context_error identity_error
  | Binding_mismatch
  | Unauthorized identity_error
  | Declined identity_error
  | Context_taken
  | Isolation_required
  | Primary_required
  | Scrubbed string
  | Passed_on identity_error
  | Input_refused string "string option"
  | Not_a_secret
  | Bad_password string
  | Gate_saturated
  | Key_refused mutation_error
  | Scopes_refused scope_error
  | No_open_transaction
  | Inside_savepoint

definition translate :: "identity_error \<Rightarrow> account_error option" where
  "translate e =
     (let s = identity_sqlstate e
      in if s = ''FB010'' then Some Refusal
         else if s = ''FB011'' then Some (Conflicting e)
         else if s = ''FB012'' then Some Key_reused
         else if s = ''FB013'' then Some (Context_error e)
         else if s = ''FB014'' then Some Binding_mismatch
         else if s = ''42501'' then Some (Unauthorized e)
         else if s = ''22023'' then Some (Declined e)
         else if s = ''25000'' then Some Context_taken
         else if s = ''0A000'' then Some Isolation_required
         else if s = ''25006'' then Some Primary_required
         else None)"

definition run_statement_of :: "bool \<Rightarrow> identity_error + 'a \<Rightarrow> account_error + 'a" where
  "run_statement_of scrub r =
     (case r of Inr x \<Rightarrow> Inr x
      | Inl e \<Rightarrow> Inl (case translate e of Some x \<Rightarrow> x
          | None \<Rightarrow> if scrub then Scrubbed (identity_sqlstate e) else Passed_on e))"

section \<open>What a caller may pass\<close>

text \<open>A secret comes wrapped in a \<open>Secret\<close>, as a text, or as a value of another type.\<close>

datatype presented = Wrapped utext | Plain utext | Other_object

definition presented_text :: "presented \<Rightarrow> utext option" where
  "presented_text p = (case p of Wrapped t \<Rightarrow> Some t | Plain t \<Rightarrow> Some t | Other_object \<Rightarrow> None)"

definition well_formed_presented :: "presented \<Rightarrow> identity_kind \<Rightarrow> utext option" where
  "well_formed_presented p k =
     (case presented_text p of None \<Rightarrow> None | Some t \<Rightarrow> if is_well_formed_identity_secret t k then Some t else None)"

definition require_secret :: "presented \<Rightarrow> identity_kind \<Rightarrow> account_error + utext" where
  "require_secret p k = (case well_formed_presented p k of None \<Rightarrow> Inl Not_a_secret | Some t \<Rightarrow> Inr t)"

text \<open>What Python brings: \<open>str.lower\<close>, Argon2 with the salt of each use, the dummy hash, and whether the
  gate admits a use.\<close>

record python_side =
  ps_lower :: "utext \<Rightarrow> utext"
  ps_hash :: "nat \<Rightarrow> utext \<Rightarrow> utext"
  ps_verify :: "utext \<Rightarrow> utext \<Rightarrow> bool"
  ps_dummy :: utext
  ps_admits :: "nat \<Rightarrow> bool"

definition ascii_whitespace :: "int list" where "ascii_whitespace = [32, 9, 10, 13, 12, 11]"

definition normalize_email :: "python_side \<Rightarrow> py_value \<Rightarrow> account_error + utext" where
  "normalize_email Y v =
     (case value_shape v of Some sh \<Rightarrow> Inl (Input_refused ''email'' (Some sh))
      | None \<Rightarrow> (case v of
          V_text t \<Rightarrow>
            if length t > email_max_length + 32 then Inl (Input_refused ''email'' None)
            else let n = ps_lower Y (strip_chars ascii_whitespace t)
                 in if length n > email_max_length \<or> \<not> email_regex n then Inl (Input_refused ''email'' None)
                    else Inr n
        | _ \<Rightarrow> Inl (Input_refused ''email'' None)))"

text \<open>A \<open>timedelta\<close>, or a value of another type.\<close>

definition require_ttl :: "rat option \<Rightarrow> account_error + rat" where
  "require_ttl ttl = (case ttl of None \<Rightarrow> Inl (Input_refused ''lifetime'' None)
     | Some t \<Rightarrow> if t \<le> 0 then Inl (Input_refused ''lifetime'' None) else Inr t)"

definition require_uuid :: "string \<Rightarrow> py_value \<Rightarrow> account_error + uuid" where
  "require_uuid what v = (case v of V_uuid u \<Rightarrow> Inr u | _ \<Rightarrow> Inl (Input_refused what None))"

definition optional_key :: "py_value \<Rightarrow> account_error + utext option" where
  "optional_key v = (case v of V_none \<Rightarrow> Inr None
     | _ \<Rightarrow> (case require_valid_key v of Inl e \<Rightarrow> Inl (Key_refused e) | Inr k \<Rightarrow> Inr (Some k)))"

text \<open>A \<open>MembershipRole\<close> stands for its value.\<close>

definition require_role :: "py_value \<Rightarrow> account_error + utext" where
  "require_role v =
     (case v of V_text t \<Rightarrow> if looks_like_secret t = None \<and> t \<in> cps ` set membership_roles then Inr t
          else Inl (Input_refused ''role'' None)
      | _ \<Rightarrow> Inl (Input_refused ''role'' None))"

definition require_text :: "string \<Rightarrow> nat \<Rightarrow> py_value \<Rightarrow> account_error + utext" where
  "require_text what most v =
     (case value_shape v of Some sh \<Rightarrow> Inl (Input_refused what (Some sh))
      | None \<Rightarrow> (case v of V_text t \<Rightarrow> if 1 \<le> length t \<and> length t \<le> most then Inr t else Inl (Input_refused what None)
          | _ \<Rightarrow> Inl (Input_refused what None)))"

definition require_label :: "py_value \<Rightarrow> account_error + utext option" where
  "require_label v = (case v of V_none \<Rightarrow> Inr None
     | _ \<Rightarrow> (case require_text ''label'' label_max_length v of Inl e \<Rightarrow> Inl e | Inr t \<Rightarrow> Inr (Some t)))"

section \<open>Passwords\<close>

text \<open>A computation that may use Argon2: it takes and returns the number of uses so far.\<close>

type_synonym 'a working = "nat \<Rightarrow> (account_error + 'a) \<times> nat"

definition effortless :: "account_error + 'a \<Rightarrow> 'a working" where
  "effortless r n = (r, n)"

definition work_then :: "'a working \<Rightarrow> ('a \<Rightarrow> 'b working) \<Rightarrow> 'b working" where
  "work_then m f n = (case m n of (Inl e, k) \<Rightarrow> (Inl e, k) | (Inr x, k) \<Rightarrow> f x k)"

definition password_min_bytes :: nat where "password_min_bytes = 12"
definition password_max_bytes :: nat where "password_max_bytes = 256"

definition require_password :: "presented \<Rightarrow> account_error + utext" where
  "require_password p =
     (case p of Wrapped v \<Rightarrow>
          (case utf8_length v of None \<Rightarrow> Inl (Bad_password ''not encodable'')
           | Some b \<Rightarrow> if b < password_min_bytes then Inl (Bad_password ''shorter than the minimum'')
               else if password_max_bytes < b then Inl (Bad_password ''longer than the maximum'')
               else if 0 \<in> set v then Inl (Bad_password ''NUL'') else Inr v)
      | _ \<Rightarrow> Inl (Bad_password ''not a Secret''))"

definition hash_password :: "python_side \<Rightarrow> presented \<Rightarrow> utext working" where
  "hash_password Y p =
     work_then (effortless (require_password p)) (\<lambda>v n.
       if \<not> ps_admits Y n then (Inl Gate_saturated, n)
       else let h = ps_hash Y n v
            in (if stored_hash (Some h) then Inr h else Inl (Bad_password ''unexpected format''), Suc n))"

definition verify_password :: "python_side \<Rightarrow> utext \<Rightarrow> presented \<Rightarrow> bool working" where
  "verify_password Y h p n =
     (case p of Wrapped v \<Rightarrow>
          if \<not> stored_hash (Some h) then (Inr False, n)
          else if \<not> ps_admits Y n then (Inl Gate_saturated, n)
          else (Inr (ps_verify Y h v), Suc n)
      | _ \<Rightarrow> (Inl (Bad_password ''not a Secret''), n))"

section \<open>The account plane\<close>

record client_session =
  ct_open :: bool
  ct_savepoint :: bool

definition require_transaction :: "client_session \<Rightarrow> account_error + unit" where
  "require_transaction cs = (if ct_open cs then Inr () else Inl No_open_transaction)"

definition client_signup ::
  "'f server \<Rightarrow> python_side \<Rightarrow> rat \<Rightarrow> client_session \<Rightarrow> uuid \<Rightarrow> uuid \<times> nat list \<Rightarrow> py_value \<Rightarrow> presented \<Rightarrow> rat option
     \<Rightarrow> transaction \<Rightarrow> 'f identity_db \<Rightarrow> 'f identity_db \<Rightarrow> (token_reply \<times> 'f identity_db) working" where
  "client_signup V Y now cs i fresh email password ttl tx snap d =
     work_then (effortless (require_transaction cs)) (\<lambda>_.
     work_then (effortless (normalize_email Y email)) (\<lambda>address.
     work_then (hash_password Y password) (\<lambda>hash.
     work_then (effortless (require_ttl ttl)) (\<lambda>t.
       effortless (run_statement_of True (signup_account V now i fresh (Some address) (Some hash) (Some t) tx snap d))))))"

text \<open>An unacceptable address is an unknown one.\<close>

definition client_request_email_verification ::
  "'f server \<Rightarrow> python_side \<Rightarrow> rat \<Rightarrow> client_session \<Rightarrow> uuid \<times> nat list \<Rightarrow> py_value \<Rightarrow> rat option \<Rightarrow> transaction
     \<Rightarrow> 'f identity_db \<Rightarrow> 'f identity_db \<Rightarrow> account_error + token_reply \<times> 'f identity_db" where
  "client_request_email_verification V Y now cs fresh email ttl tx snap d =
     and_then (require_transaction cs) (\<lambda>_.
     case normalize_email Y email of Inl e \<Rightarrow> Inr (Unknown_address, d)
     | Inr a \<Rightarrow> and_then (require_ttl ttl) (\<lambda>t.
         run_statement_of False (request_email_verification V now fresh (Some a) (Some t) tx snap d)))"

definition client_request_recovery ::
  "'f server \<Rightarrow> python_side \<Rightarrow> rat \<Rightarrow> client_session \<Rightarrow> uuid \<times> nat list \<Rightarrow> py_value \<Rightarrow> rat option \<Rightarrow> transaction
     \<Rightarrow> 'f identity_db \<Rightarrow> 'f identity_db \<Rightarrow> account_error + token_reply \<times> 'f identity_db" where
  "client_request_recovery V Y now cs fresh email ttl tx snap d =
     and_then (require_transaction cs) (\<lambda>_.
     case normalize_email Y email of Inl e \<Rightarrow> Inr (Unknown_address, d)
     | Inr a \<Rightarrow> and_then (require_ttl ttl) (\<lambda>t.
         run_statement_of False (request_account_recovery V now fresh (Some a) (Some t) tx snap d)))"

definition client_verify_email ::
  "'f server \<Rightarrow> rat \<Rightarrow> client_session \<Rightarrow> presented \<Rightarrow> transaction \<Rightarrow> 'f identity_db \<Rightarrow> 'f identity_db
     \<Rightarrow> account_error + bool \<times> 'f identity_db" where
  "client_verify_email V now cs secret tx snap d =
     and_then (require_transaction cs) (\<lambda>_.
     case well_formed_presented secret Email_verification of None \<Rightarrow> Inr (False, d)
     | Some s \<Rightarrow> run_statement_of True (verify_account_email V now (Some s) tx snap d))"

text \<open>Shape first, possession second, and only then the hash of the new password.\<close>

definition client_complete_recovery ::
  "'f server \<Rightarrow> python_side \<Rightarrow> rat \<Rightarrow> client_session \<Rightarrow> presented \<Rightarrow> presented \<Rightarrow> transaction
     \<Rightarrow> 'f identity_db \<Rightarrow> 'f identity_db \<Rightarrow> (bool \<times> 'f identity_db) working" where
  "client_complete_recovery V Y now cs secret password tx snap d =
     work_then (effortless (require_transaction cs)) (\<lambda>_.
     case well_formed_presented secret Account_recovery of None \<Rightarrow> effortless (Inr (False, d))
     | Some s \<Rightarrow>
         if \<not> account_recovery_token_valid V now (Some s) snap then effortless (Inr (False, d))
         else work_then (hash_password Y password) (\<lambda>hash.
           effortless (run_statement_of True (complete_account_recovery V now (Some s) (Some hash) tx snap d))))"

definition client_purge ::
  "rat \<Rightarrow> client_session \<Rightarrow> rat option \<Rightarrow> transaction \<Rightarrow> 'f identity_db \<Rightarrow> account_error + nat \<times> 'f identity_db" where
  "client_purge now cs age tx d =
     and_then (require_transaction cs) (\<lambda>_. and_then (require_ttl age) (\<lambda>t.
       run_statement_of False (purge_expired_unverified_accounts now (Some t) tx d)))"

record login_outcome =
  lo_account :: "uuid option"
  lo_verified :: bool

text \<open>An unacceptable address is still looked up, as null, and an unknown one is verified against the dummy hash.\<close>

definition client_login ::
  "'f server \<Rightarrow> python_side \<Rightarrow> client_session \<Rightarrow> py_value \<Rightarrow> presented \<Rightarrow> transaction \<Rightarrow> 'f identity_db
     \<Rightarrow> (login_outcome \<times> transaction) working" where
  "client_login V Y cs email password tx d =
     work_then (effortless (require_transaction cs)) (\<lambda>_.
     case password of Wrapped v \<Rightarrow>
       (let address = (case normalize_email Y email of Inl e \<Rightarrow> None | Inr a \<Rightarrow> Some a)
        in work_then (effortless (run_statement_of False (login_lookup V address tx d))) (\<lambda>(r, tx').
           work_then (verify_password Y (case lg_hash r of None \<Rightarrow> ps_dummy Y | Some h \<Rightarrow> if h = [] then ps_dummy Y else h) password)
             (\<lambda>matched. effortless (Inr
               (if lg_account r = None \<or> \<not> matched then \<lparr>lo_account = None, lo_verified = False\<rparr>
                else \<lparr>lo_account = lg_account r, lo_verified = lg_verified r\<rparr>, tx')))))
     | _ \<Rightarrow> effortless (Inl (Bad_password ''not a Secret'')))"

definition client_open_session ::
  "'f server \<Rightarrow> rat \<Rightarrow> client_session \<Rightarrow> rat option \<Rightarrow> uuid \<times> nat list \<times> nat list \<Rightarrow> transaction
     \<Rightarrow> 'f identity_db \<Rightarrow> account_error + opened \<times> 'f identity_db" where
  "client_open_session V now cs ttl fresh tx d =
     and_then (require_transaction cs) (\<lambda>_. and_then (require_ttl ttl) (\<lambda>t.
       run_statement_of False (open_browser_session V now (Some t) fresh tx d)))"

text \<open>
  The lookup locks the account and writes the challenge, the current password is verified, and only then
  is the new one hashed. \<open>None\<close> is a wrong current password.
\<close>

definition client_change_password ::
  "'f server \<Rightarrow> python_side \<Rightarrow> rat \<Rightarrow> client_session \<Rightarrow> py_value \<Rightarrow> py_value \<Rightarrow> presented \<Rightarrow> presented \<Rightarrow> rat option
     \<Rightarrow> uuid \<times> nat list \<times> nat list \<Rightarrow> transaction \<Rightarrow> 'f identity_db \<Rightarrow> (opened \<times> 'f identity_db) option working" where
  "client_change_password V Y now cs account session current new ttl fresh tx d =
     work_then (effortless (require_transaction cs)) (\<lambda>_.
     case (current, new) of (Wrapped old, Wrapped v) \<Rightarrow>
       work_then (effortless (require_uuid ''account'' account)) (\<lambda>a.
       work_then (effortless (require_uuid ''session'' session)) (\<lambda>s.
       work_then (effortless (run_statement_of False (password_change_lookup now (Some a) (Some s) tx d))) (\<lambda>(h, tx').
       let stored = (case h of None \<Rightarrow> ps_dummy Y | Some x \<Rightarrow> if x = [] then ps_dummy Y else x)
       in work_then (verify_password Y stored current) (\<lambda>matched.
            if \<not> matched then effortless (Inr None)
            else work_then (hash_password Y new) (\<lambda>hash.
              work_then (effortless (require_ttl ttl)) (\<lambda>t.
              work_then (effortless (run_statement_of True
                (change_account_password V now (Some stored) (Some hash) (Some t) fresh tx' d))) (\<lambda>r.
                effortless (Inr (Some r)))))))))
     | _ \<Rightarrow> effortless (Inl (Bad_password ''not a Secret'')))"

section \<open>Sessions\<close>

definition client_bind_session ::
  "'f server \<Rightarrow> rat \<Rightarrow> client_session \<Rightarrow> presented \<Rightarrow> presented option \<Rightarrow> session_mode option \<Rightarrow> transaction
     \<Rightarrow> 'f identity_db \<Rightarrow> account_error + bound_reply \<times> 'f identity_db \<times> transaction" where
  "client_bind_session V now cs secret csrf mode tx d =
     (if mode = None then Inl (Input_refused ''mode'' None)
      else if \<not> ct_open cs then Inl Not_a_secret
      else if ct_savepoint cs then Inl Inside_savepoint
      else if \<not> tx_primary tx \<or> \<not> tx_writable tx then Inl Primary_required
      else and_then (require_secret secret Session) (\<lambda>s.
        and_then (case csrf of None \<Rightarrow> Inr None
          | Some c \<Rightarrow> and_then (require_secret c Csrf) (\<lambda>x. Inr (Some x))) (\<lambda>c.
        run_statement_of True (bind_session_context V now (Some s) c mode tx d))))"

definition client_expect_workspace :: "py_value \<Rightarrow> transaction \<Rightarrow> account_error + transaction" where
  "client_expect_workspace w tx =
     and_then (require_uuid ''workspace'' w) (\<lambda>u. run_statement_of False (identity_expect_workspace (Some u) tx))"

text \<open>How \<open>session_transaction\<close> enters: the bind, then the expected workspace if there is one.\<close>

definition session_transaction ::
  "'f server \<Rightarrow> rat \<Rightarrow> presented \<Rightarrow> presented option \<Rightarrow> session_mode option \<Rightarrow> py_value \<Rightarrow> transaction
     \<Rightarrow> 'f identity_db \<Rightarrow> account_error + bound_reply \<times> 'f identity_db \<times> transaction" where
  "session_transaction V now secret csrf mode expected tx d =
     and_then (client_bind_session V now \<lparr>ct_open = True, ct_savepoint = False\<rparr> secret csrf mode tx d) (\<lambda>(r, d', tx').
       if expected = V_none then Inr (r, d', tx')
       else and_then (client_expect_workspace expected tx') (\<lambda>tx''. Inr (r, d', tx'')))"

definition client_revoke_session ::
  "rat \<Rightarrow> py_value \<Rightarrow> transaction \<Rightarrow> 'f identity_db \<Rightarrow> account_error + bool \<times> 'f identity_db" where
  "client_revoke_session now i tx d =
     and_then (require_uuid ''session'' i) (\<lambda>u. run_statement_of False (revoke_browser_session now (Some u) tx d))"

definition client_revoke_all_sessions ::
  "rat \<Rightarrow> bool \<Rightarrow> transaction \<Rightarrow> 'f identity_db \<Rightarrow> account_error + nat \<times> 'f identity_db" where
  "client_revoke_all_sessions now keep tx d = run_statement_of False (revoke_all_browser_sessions now keep tx d)"

section \<open>Workspaces, members and invitations\<close>

definition require_membership ::
  "py_value \<Rightarrow> bool \<Rightarrow> transaction \<Rightarrow> 'f identity_db \<Rightarrow> account_error + session_info" where
  "require_membership scope lock tx d =
     (case scope of
        V_none \<Rightarrow> run_statement_of False (workspace_membership_authority None lock tx d)
      | V_text t \<Rightarrow> run_statement_of False (workspace_membership_authority
          (Some (case known_text t of None \<Rightarrow> [] | Some p \<Rightarrow> p)) lock tx d)
      | _ \<Rightarrow> Inl (Input_refused ''permission'' None))"

definition client_create_workspace ::
  "'f server \<Rightarrow> rat \<Rightarrow> workspace_ids \<Rightarrow> py_value \<Rightarrow> py_value \<Rightarrow> py_value \<Rightarrow> transaction \<Rightarrow> 'f identity_db \<Rightarrow> 'f identity_db
     \<Rightarrow> account_error + membership_reply \<times> 'f identity_db \<times> transaction" where
  "client_create_workspace V now ids slug name key tx snap d =
     and_then (require_text ''slug'' 62 slug) (\<lambda>s. and_then (require_text ''name'' 200 name) (\<lambda>n.
     and_then (optional_key key) (\<lambda>k.
       run_statement_of False (create_workspace V now ids (Some s) (Some n) k tx snap d))))"

definition client_bind_workspace ::
  "'f server \<Rightarrow> rat \<Rightarrow> uuid \<Rightarrow> py_value \<Rightarrow> transaction \<Rightarrow> 'f identity_db
     \<Rightarrow> account_error + workspace_binding \<times> 'f identity_db \<times> transaction" where
  "client_bind_workspace V now aid w tx d =
     and_then (require_uuid ''workspace'' w) (\<lambda>u. run_statement_of False (bind_session_workspace V now aid (Some u) tx d))"

definition client_rename_workspace ::
  "'f server \<Rightarrow> rat \<Rightarrow> op_ids \<Rightarrow> py_value \<Rightarrow> py_value \<Rightarrow> transaction \<Rightarrow> 'f identity_db
     \<Rightarrow> account_error + change_reply \<times> 'f identity_db" where
  "client_rename_workspace V now ids name key tx d =
     and_then (require_text ''name'' 200 name) (\<lambda>n. and_then (optional_key key) (\<lambda>k.
       run_statement_of False (rename_workspace V now ids (Some n) k tx d)))"

definition client_remove_membership ::
  "'f server \<Rightarrow> rat \<Rightarrow> op_ids \<Rightarrow> py_value \<Rightarrow> py_value \<Rightarrow> transaction \<Rightarrow> 'f identity_db
     \<Rightarrow> account_error + change_reply \<times> 'f identity_db" where
  "client_remove_membership V now ids m key tx d =
     and_then (require_uuid ''membership'' m) (\<lambda>u. and_then (optional_key key) (\<lambda>k.
       run_statement_of False (remove_membership V now ids (Some u) k tx d)))"

definition client_change_role ::
  "'f server \<Rightarrow> rat \<Rightarrow> op_ids \<Rightarrow> py_value \<Rightarrow> py_value \<Rightarrow> py_value \<Rightarrow> transaction \<Rightarrow> 'f identity_db
     \<Rightarrow> account_error + change_reply \<times> 'f identity_db" where
  "client_change_role V now ids m role key tx d =
     and_then (require_uuid ''membership'' m) (\<lambda>u. and_then (require_role role) (\<lambda>r. and_then (optional_key key) (\<lambda>k.
       run_statement_of False (change_membership_role V now ids (Some u) (Some r) k tx d))))"

definition client_create_invitation ::
  "'f server \<Rightarrow> python_side \<Rightarrow> rat \<Rightarrow> op_ids \<Rightarrow> uuid \<times> nat list \<Rightarrow> py_value \<Rightarrow> py_value \<Rightarrow> rat option \<Rightarrow> py_value
     \<Rightarrow> transaction \<Rightarrow> 'f identity_db \<Rightarrow> account_error + invitation_reply \<times> 'f identity_db" where
  "client_create_invitation V Y now ids fresh email role ttl key tx d =
     and_then (require_ttl ttl) (\<lambda>t. and_then (normalize_email Y email) (\<lambda>a. and_then (require_role role) (\<lambda>r.
     and_then (optional_key key) (\<lambda>k.
       run_statement_of False (create_invitation V now ids fresh (Some a) (Some r) (Some t) k tx d)))))"

definition client_revoke_invitation ::
  "'f server \<Rightarrow> rat \<Rightarrow> op_ids \<Rightarrow> py_value \<Rightarrow> py_value \<Rightarrow> transaction \<Rightarrow> 'f identity_db
     \<Rightarrow> account_error + revocation_reply \<times> 'f identity_db" where
  "client_revoke_invitation V now ids i key tx d =
     and_then (require_uuid ''invitation'' i) (\<lambda>u. and_then (optional_key key) (\<lambda>k.
       run_statement_of False (revoke_invitation V now ids (Some u) k tx d)))"

text \<open>A malformed secret gets the refusal the database would give.\<close>

definition client_accept_invitation ::
  "'f server \<Rightarrow> ('f \<Rightarrow> jsonb) \<Rightarrow> rat \<Rightarrow> accept_ids \<Rightarrow> presented \<Rightarrow> py_value \<Rightarrow> transaction \<Rightarrow> 'f identity_db \<Rightarrow> 'f identity_db
     \<Rightarrow> account_error + membership_reply \<times> 'f identity_db \<times> transaction" where
  "client_accept_invitation V hex now ids secret key tx snap d =
     (case well_formed_presented secret Invitation of None \<Rightarrow> Inl Refusal
      | Some s \<Rightarrow> and_then (optional_key key) (\<lambda>k.
          run_statement_of True (accept_invitation V hex now ids (Some s) k tx snap d)))"

section \<open>Credentials\<close>

definition client_issue_credential ::
  "'f server \<Rightarrow> rat \<Rightarrow> op_ids \<Rightarrow> (uuid \<times> nat list) list \<Rightarrow> string \<Rightarrow> requested list \<Rightarrow> py_value \<Rightarrow> rat option \<Rightarrow> py_value
     \<Rightarrow> transaction \<Rightarrow> 'f identity_db \<Rightarrow> 'f identity_db \<Rightarrow> account_error + credential_reply \<times> 'f identity_db" where
  "client_issue_credential V now ids fresh role scopes label expires key tx snap d =
     (case api_scopes_within role scopes of Inl e \<Rightarrow> Inl (Scopes_refused e)
      | Inr granted \<Rightarrow> and_then (require_label label) (\<lambda>l. and_then (optional_key key) (\<lambda>k.
          run_statement_of False
            (issue_api_credential V now ids fresh (Some (map (Some \<circ> cps) granted)) expires l k tx snap d))))"

definition client_rotate_credential ::
  "'f server \<Rightarrow> rat \<Rightarrow> op_ids \<Rightarrow> (uuid \<times> nat list) list \<Rightarrow> py_value \<Rightarrow> rat option \<Rightarrow> py_value
     \<Rightarrow> transaction \<Rightarrow> 'f identity_db \<Rightarrow> 'f identity_db \<Rightarrow> account_error + credential_reply \<times> 'f identity_db" where
  "client_rotate_credential V now ids fresh b expires key tx snap d =
     and_then (require_uuid ''binding'' b) (\<lambda>u. and_then (optional_key key) (\<lambda>k.
       run_statement_of False (rotate_api_credential V now ids fresh (Some u) expires k tx snap d)))"

definition client_revoke_credential ::
  "'f server \<Rightarrow> rat \<Rightarrow> op_ids \<Rightarrow> py_value \<Rightarrow> py_value \<Rightarrow> transaction \<Rightarrow> 'f identity_db
     \<Rightarrow> account_error + revocation_reply \<times> 'f identity_db" where
  "client_revoke_credential V now ids b key tx d =
     and_then (require_uuid ''binding'' b) (\<lambda>u. and_then (optional_key key) (\<lambda>k.
       run_statement_of False (revoke_api_credential V now ids (Some u) k tx d)))"

section \<open>Preferences\<close>

text \<open>An array over a closed vocabulary, deduplicated and sorted; an absent one is empty.\<close>

fun closed_entries :: "string \<Rightarrow> string list \<Rightarrow> py_value list \<Rightarrow> account_error + string list" where
  "closed_entries what allowed [] = Inr []"
| "closed_entries what allowed (v # vs) =
     (case value_shape v of Some sh \<Rightarrow> Inl (Input_refused what (Some sh))
      | None \<Rightarrow> (case (case v of V_text t \<Rightarrow> find (\<lambda>a. cps a = t) allowed | _ \<Rightarrow> None) of
          None \<Rightarrow> Inl (Input_refused what None)
        | Some a \<Rightarrow> and_then (closed_entries what allowed vs) (\<lambda>as. Inr (a # as))))"

definition require_closed_array :: "string \<Rightarrow> string list \<Rightarrow> py_value \<Rightarrow> account_error + string list" where
  "require_closed_array what allowed v =
     (case v of V_none \<Rightarrow> Inr []
      | V_seq vs \<Rightarrow> if length vs > max_array_length then Inl (Input_refused what None)
          else and_then (closed_entries what allowed vs) (\<lambda>out. Inr (sort (remdups out)))
      | _ \<Rightarrow> Inl (Input_refused what None))"

definition require_note :: "py_value \<Rightarrow> account_error + utext option" where
  "require_note v =
     (case v of V_none \<Rightarrow> Inr None
      | _ \<Rightarrow> (case value_shape v of Some sh \<Rightarrow> Inl (Input_refused ''note'' (Some sh))
        | None \<Rightarrow> (case v of
            V_text t \<Rightarrow>
              (let s = strip_chars whitespace_code_points t
               in if s = [] then Inr None
                  else if length s > note_max_length then Inl (Input_refused ''note'' None) else Inr (Some s))
          | _ \<Rightarrow> Inl (Input_refused ''note'' None))))"

definition require_intent :: "py_value \<Rightarrow> account_error + utext" where
  "require_intent v = (case v of V_text t \<Rightarrow> if t \<in> cps ` set evaluation_intents then Inr t
        else Inl (Input_refused ''intent'' None)
     | _ \<Rightarrow> Inl (Input_refused ''intent'' None))"

definition require_consent_version :: "py_value \<Rightarrow> account_error + utext" where
  "require_consent_version v =
     (case value_shape v of Some sh \<Rightarrow> Inl (Input_refused ''consent version'' (Some sh))
      | None \<Rightarrow> (case v of V_text t \<Rightarrow> if t \<in> cps ` set consent_versions then Inr t
            else Inl (Input_refused ''consent version'' None)
          | _ \<Rightarrow> Inl (Input_refused ''consent version'' None)))"

definition client_state_preferences ::
  "'f server \<Rightarrow> rat \<Rightarrow> uuid \<Rightarrow> uuid \<Rightarrow> py_value \<Rightarrow> py_value \<Rightarrow> py_value \<Rightarrow> py_value \<Rightarrow> py_value \<Rightarrow> transaction
     \<Rightarrow> 'f identity_db \<Rightarrow> account_error + preference_reply \<times> 'f identity_db" where
  "client_state_preferences V now i aid w regions excluded note intent tx d =
     and_then (require_uuid ''workspace'' w) (\<lambda>u.
     and_then (require_closed_array ''region policy'' region_groups regions) (\<lambda>rs.
     and_then (require_closed_array ''provider exclusion'' provider_classes excluded) (\<lambda>es.
     and_then (require_note note) (\<lambda>n. and_then (require_intent intent) (\<lambda>iv.
       run_statement_of False (state_workspace_preferences V now i aid (Some u)
         (Some (map (Some \<circ> cps) rs)) (Some (map (Some \<circ> cps) es)) n (Some iv) tx d))))))"

definition client_acknowledge_consent ::
  "'f server \<Rightarrow> rat \<Rightarrow> uuid \<Rightarrow> uuid \<Rightarrow> py_value \<Rightarrow> py_value \<Rightarrow> transaction \<Rightarrow> 'f identity_db
     \<Rightarrow> account_error + preference_row \<times> 'f identity_db" where
  "client_acknowledge_consent V now i aid w version tx d =
     and_then (require_uuid ''workspace'' w) (\<lambda>u. and_then (require_consent_version version) (\<lambda>v.
       run_statement_of False (acknowledge_workspace_consent V now i aid (Some u) (Some v) tx d)))"

section \<open>Readers\<close>

definition client_account_profile ::
  "transaction \<Rightarrow> 'f identity_db \<Rightarrow> account_error + (uuid \<times> utext \<times> bool \<times> rat) option" where
  "client_account_profile tx d = run_statement_of False (account_profile tx d)"

definition client_account_sessions ::
  "rat \<Rightarrow> transaction \<Rightarrow> 'f identity_db \<Rightarrow> account_error + session_summary list" where
  "client_account_sessions now tx d = run_statement_of False (account_sessions now tx d)"

definition client_account_workspaces ::
  "transaction \<Rightarrow> 'f identity_db \<Rightarrow> account_error + workspace_summary list" where
  "client_account_workspaces tx d = run_statement_of False (account_workspaces tx d)"

definition client_workspace_memberships ::
  "transaction \<Rightarrow> 'f identity_db \<Rightarrow> account_error + member_summary list" where
  "client_workspace_memberships tx d = run_statement_of False (workspace_memberships tx d)"

definition client_workspace_invitations ::
  "rat \<Rightarrow> transaction \<Rightarrow> 'f identity_db \<Rightarrow> account_error + invitation_summary list" where
  "client_workspace_invitations now tx d = run_statement_of False (workspace_invitations now tx d)"

definition client_list_credentials ::
  "rat \<Rightarrow> transaction \<Rightarrow> 'f identity_db \<Rightarrow> account_error + credential_summary list" where
  "client_list_credentials now tx d = run_statement_of False (workspace_api_credentials now tx d)"

definition client_read_preferences ::
  "uuid \<Rightarrow> transaction \<Rightarrow> 'f identity_db \<Rightarrow> account_error + preference_row option" where
  "client_read_preferences w tx d = run_statement_of False (read_preferences w tx d)"

definition client_unbind_workspace ::
  "transaction \<Rightarrow> 'f identity_db \<Rightarrow> account_error + bool \<times> 'f identity_db" where
  "client_unbind_workspace tx d = run_statement_of False (unbind_session_workspace tx d)"

definition client_record_use ::
  "rat \<Rightarrow> transaction \<Rightarrow> 'f identity_db \<Rightarrow> account_error + 'f identity_db" where
  "client_record_use now tx d = run_statement_of False (record_api_credential_use now tx d)"

section \<open>Lemmas\<close>

lemma translate_Refused [simp]: "translate Refused = Some Refusal"
  by (simp add: translate_def)

lemma run_statement_of_simps [simp]:
  "run_statement_of b (Inr x) = Inr x" "run_statement_of b (Inl Refused) = Inl Refusal"
  by (simp_all add: run_statement_of_def)

text \<open>A computation without an Argon2 use leaves the count alone, and a use adds one.\<close>

lemma work_then_effortless [simp]:
  "work_then (effortless (Inl e)) f n = (Inl e, n)" "work_then (effortless (Inr x)) f n = f x n"
  by (simp_all add: work_then_def effortless_def)

lemma hash_password_work:
  "hash_password Y p n = (r, k) \<Longrightarrow> k \<le> Suc n"
  by (auto simp: hash_password_def Let_def work_then_def effortless_def split: sum.split_asm if_split_asm)

text \<open>
  The two normal forms of an address: if the server reads \<open>\v\<close> as the vertical tab and folds case as
  Python does, Python accepts what the database accepts, less the texts shaped like a secret.
\<close>

lemma normalize_email_agrees:
  assumes "sv_escape_v V = 11" and "sv_lower V = ps_lower Y"
  shows "normalize_email Y (V_text t) = Inr n \<longleftrightarrow>
    looks_like_secret t = None \<and> identity_normalize_email V (Some t) = Some n"
proof -
  have "btrim V t = strip_chars ascii_whitespace t"
    by (simp add: btrim_def trimmed_by_sql_def ascii_whitespace_def assms(1))
  then show ?thesis
    by (auto simp: normalize_email_def identity_normalize_email_def Let_def assms(2) split: option.split)
qed

end
