(* ===== verification/Identity_Access.thy ===== *)
theory Identity_Access
  imports Identity_Client Identity_Runs
begin

text \<open>
  Properties of the identity plane as its callers see it, through the Python layer: what a failed login,
  a failed bind and a failed recovery let the caller learn, and how much memory-hard work they cost.
\<close>

section \<open>Login\<close>

text \<open>The answer of a login, without the transaction, and the Argon2 uses.\<close>

definition login_answer ::
  "'f server \<Rightarrow> python_side \<Rightarrow> client_session \<Rightarrow> py_value \<Rightarrow> presented \<Rightarrow> transaction \<Rightarrow> 'f identity_db \<Rightarrow> nat
     \<Rightarrow> (account_error + login_outcome) \<times> nat" where
  "login_answer V Y cs email password tx d n = apfst (map_sum id fst) (client_login V Y cs email password tx d n)"

lemma lookup_reply:
  assumes "login_lookup V address tx d = Inr (r, tx')"
  shows "(lg_account r = None \<longleftrightarrow> lg_hash r = None) \<and> (\<forall>h. lg_hash r = Some h \<longrightarrow> (\<exists>p \<in> set (passwords d). pw_hash p = h))"
  using assms
  by (auto simp: login_lookup_def Let_def password_of_def elim!: and_then_InrE split: option.split_asm dest!: find_hit)

lemma lookup_errors:
  "login_lookup V address tx d = Inl e \<longleftrightarrow> login_lookup V address tx d' = Inl e"
  by (auto simp: login_lookup_def Let_def and_then_Inl identity_context_write_def split: if_split_asm)

lemma stored_hash_nonempty: "stored_hash (Some h) \<Longrightarrow> h \<noteq> []"
proof -
  have "\<not> stored_hash (Some [])" by code_simp
  then show "stored_hash (Some h) \<Longrightarrow> h \<noteq> []" by auto
qed

lemma failed_login:
  assumes "identity_ok d" "stored_hash (Some (ps_dummy Y))" "\<forall>p \<in> set (passwords d). \<not> ps_verify Y (pw_hash p) v"
    and "login_lookup V address tx d = Inr (r, tx')"
  shows "work_then (verify_password Y (case lg_hash r of None \<Rightarrow> ps_dummy Y | Some h \<Rightarrow> if h = [] then ps_dummy Y else h) (Wrapped v))
      (\<lambda>matched. effortless (Inr (if lg_account r = None \<or> \<not> matched then \<lparr>lo_account = None, lo_verified = False\<rparr>
        else \<lparr>lo_account = lg_account r, lo_verified = lg_verified r\<rparr>, tx'))) n =
    (if ps_admits Y n then (Inr (\<lparr>lo_account = None, lo_verified = False\<rparr>, tx'), Suc n) else (Inl Gate_saturated, n))"
proof -
  have "\<forall>p \<in> set (passwords d). stored_hash (Some (pw_hash p))"
    using ok_parts(2) [OF assms(1)] by (simp add: secrets_ok_def)
  with lookup_reply [OF assms(4)] assms(2,3) stored_hash_nonempty show ?thesis
    by (cases "lg_hash r") (auto simp: verify_password_def work_then_def effortless_def)
qed

text \<open>
  C23: A failed login tells nothing of the accounts. Whatever address and password are tried, in two reachable
  states in which no stored hash verifies the password, the answer is the same refusal or the same
  error, at the same Argon2 work: an address with an account and one without cannot be told apart.
\<close>

theorem failed_login_is_neutral:
  assumes "run_world V hex evs empty_world = Some w" and "run_world V hex evs' empty_world = Some w'"
    and "stored_hash (Some (ps_dummy Y))"
    and "\<forall>p \<in> set (passwords (wd_db w)) \<union> set (passwords (wd_db w')). \<not> ps_verify Y (pw_hash p) v"
  shows "login_answer V Y cs email (Wrapped v) tx (wd_db w) n = login_answer V Y cs email (Wrapped v) tx (wd_db w') n"
proof (cases "ct_open cs")
  case True
  let ?a = "case normalize_email Y email of Inl e \<Rightarrow> None | Inr a \<Rightarrow> Some a"
  show ?thesis
  proof (cases "login_lookup V ?a tx (wd_db w)")
    case (Inl e)
    with lookup_errors [of V ?a tx "wd_db w" e "wd_db w'"] show ?thesis
      by (simp add: login_answer_def client_login_def run_statement_of_def True require_transaction_def)
  next
    case (Inr x)
    then obtain r t where r: "login_lookup V ?a tx (wd_db w) = Inr (r, t)" by (cases x) auto
    obtain r' t' where r': "login_lookup V ?a tx (wd_db w') = Inr (r', t')"
      using lookup_errors [of V ?a tx "wd_db w'" _ "wd_db w"] r by (cases "login_lookup V ?a tx (wd_db w')") auto
    show ?thesis
      using failed_login [OF run_world_ok [OF assms(1)] assms(3) _ r, of v n]
        failed_login [OF run_world_ok [OF assms(2)] assms(3) _ r', of v n] assms(4)
      by (simp add: login_answer_def client_login_def r r' True require_transaction_def)
  qed
qed (simp add: login_answer_def client_login_def require_transaction_def)

text \<open>A Python side for the witnesses: nothing verifies.\<close>

definition demo_python :: python_side where
  "demo_python = \<lparr>ps_lower = (\<lambda>t. t), ps_hash = (\<lambda>n t. demo_hash), ps_verify = (\<lambda>h t. False), ps_dummy = demo_hash,
     ps_admits = (\<lambda>n. True)\<rparr>"

lemma demo_hash_stored: "stored_hash (Some demo_hash)"
  by code_simp

theorem failed_login_is_neutral_witness:
  "\<exists>w. demo_run signup_run = Some w \<and>
    login_answer demo_server demo_python \<lparr>ct_open = True, ct_savepoint = False\<rparr> (V_text (cps ''ann@example.com''))
      (Wrapped (cps ''not the password'')) new_transaction (wd_db w) 0 =
    login_answer demo_server demo_python \<lparr>ct_open = True, ct_savepoint = False\<rparr> (V_text (cps ''ann@example.com''))
      (Wrapped (cps ''not the password'')) new_transaction (wd_db empty_world) 0"
proof -
  obtain w where w: "demo_run signup_run = Some w" using runs(1) by blast
  have "run_world demo_server (\<lambda>x. x) [] empty_world = Some empty_world" by simp
  from failed_login_is_neutral [OF w this, of demo_python] w demo_hash_stored show ?thesis
    by (simp add: demo_python_def)
qed

section \<open>Sessions\<close>



section \<open>Recovery\<close>

text \<open>
  C24: Recovery does memory-hard work for nobody but a holder of a live token: a completion uses Argon2 at
  most once, and only when the presented secret is that of an unused, unexpired recovery token; and a
  completion that succeeds has stored the hash of the new password for the account of that token.
\<close>

theorem recovery_work_needs_possession:
  assumes "run_world V hex evs empty_world = Some w"
    and "client_complete_recovery V Y now cs secret password tx snap (wd_db w) n = (r, k)"
  shows "k \<le> Suc n \<and>
    (k \<noteq> n \<longrightarrow> (\<exists>s t. presented_text secret = Some s \<and> t \<in> set (tokens snap) \<and> tk_kind t = Account_recovery \<and>
       tk_fingerprint t = sv_sha V s \<and> usable_token now t)) \<and>
    (\<forall>d. r = Inr (True, d) \<longrightarrow> (\<exists>s v t. presented_text secret = Some s \<and> password = Wrapped v \<and>
       t \<in> set (tokens (wd_db w)) \<and> tk_fingerprint t = sv_sha V s \<and>
       (\<forall>p \<in> set (passwords d). pw_account p = tk_account t \<longrightarrow> pw_hash p = ps_hash Y n v)))"
proof (cases "ct_open cs \<and> (\<exists>s. well_formed_presented secret Account_recovery = Some s \<and> account_recovery_token_valid V now (Some s) snap)")
  case False
  with assms(2) have "r = Inl No_open_transaction \<or> r = Inr (False, wd_db w)" "k = n"
    by (auto simp: client_complete_recovery_def require_transaction_def effortless_def work_then_def split: option.split_asm if_split_asm)
  then show ?thesis by auto
next
  case True
  then obtain s where s: "ct_open cs" "well_formed_presented secret Account_recovery = Some s" "account_recovery_token_valid V now (Some s) snap"
    by blast
  then have pres: "presented_text secret = Some s" by (auto simp: well_formed_presented_def split: option.split_asm if_split_asm)
  have run: "work_then (hash_password Y password) (\<lambda>hash.
      effortless (run_statement_of True (complete_account_recovery V now (Some s) (Some hash) tx snap (wd_db w)))) n = (r, k)"
    using assms(2) s by (simp add: client_complete_recovery_def require_transaction_def)
  obtain h j where h: "hash_password Y password n = (h, j)" by fastforce
  have "k = j" using run h by (auto simp: work_then_def effortless_def split: sum.split_asm)
  with hash_password_work [OF h] have "k \<le> Suc n" by simp
  moreover have "\<exists>s v t. presented_text secret = Some s \<and> password = Wrapped v \<and>
       t \<in> set (tokens (wd_db w)) \<and> tk_fingerprint t = sv_sha V s \<and>
       (\<forall>p \<in> set (passwords d). pw_account p = tk_account t \<longrightarrow> pw_hash p = ps_hash Y n v)" if r: "r = Inr (True, d)" for d
  proof -
    from run h r obtain hash where hash: "h = Inr hash"
      and c: "complete_account_recovery V now (Some s) (Some hash) tx snap (wd_db w) = Inr (True, d)"
      by (auto simp: work_then_def effortless_def run_statement_of_def split: sum.split_asm)
    from h hash obtain v where v: "password = Wrapped v" "hash = ps_hash Y n v"
      by (auto simp: hash_password_def require_password_def Let_def work_then_def effortless_def
          split: sum.split_asm if_split_asm presented.split_asm option.split_asm)
    obtain a where a: "\<forall>p \<in> set (passwords d). pw_account p = a \<longrightarrow> Some (pw_hash p) = Some hash"
      and own: "\<exists>t \<in> set (tokens (wd_db w)). tk_account t = a \<and> (\<exists>x. Some s = Some x \<and> sv_sha V x = tk_fingerprint t)"
      by (rule recovery_leaves [OF c run_world_ok [OF assms(1)]])
    then show ?thesis using pres v by auto
  qed
  moreover have "\<exists>t. t \<in> set (tokens snap) \<and> tk_kind t = Account_recovery \<and> tk_fingerprint t = sv_sha V s \<and> usable_token now t"
    using s(3) by (auto simp: account_recovery_token_valid_def)
  ultimately show ?thesis using pres by blast
qed

lemma completed_was_valid:
  "complete_account_recovery V now (Some s) hash tx d d = Inr (True, d') \<Longrightarrow> account_recovery_token_valid V now (Some s) d"
  by (auto simp: complete_account_recovery_def locked_token_def account_recovery_token_valid_def Let_def
      elim!: and_then_InrE split: if_split_asm option.split_asm dest!: find_hit)

theorem recovery_work_needs_possession_witness:
  "\<exists>w d. demo_run issuing_run = Some w \<and>
    client_complete_recovery demo_server demo_python 70 \<lparr>ct_open = True, ct_savepoint = False\<rparr>
      (Plain (demo_secret (identity_secret_prefix Account_recovery) 5)) (Wrapped (cps ''a new password''))
      new_transaction (wd_db w) (wd_db w) 4 = (Inr (True, d), 5) \<and>
    (\<exists>t \<in> set (tokens (wd_db w)). \<forall>p \<in> set (passwords d). pw_account p = tk_account t \<longrightarrow> pw_hash p = demo_hash)"
proof -
  let ?s = "demo_secret (identity_secret_prefix Account_recovery) 5"
  obtain w where w: "demo_run issuing_run = Some w" "issuing_outcome w" using runs(3) by blast
  then obtain d where d: "complete_account_recovery demo_server 70 (Some ?s) (Some demo_hash)
      new_transaction (wd_db w) (wd_db w) = Inr (True, d)"
    unfolding issuing_outcome_def by (elim conjE acceptedE)
  have "well_formed_presented (Plain ?s) Account_recovery = Some ?s"
    "hash_password demo_python (Wrapped (cps ''a new password'')) 4 = (Inr demo_hash, 5)"
    by code_simp+
  then have c: "client_complete_recovery demo_server demo_python 70 \<lparr>ct_open = True, ct_savepoint = False\<rparr> (Plain ?s)
      (Wrapped (cps ''a new password'')) new_transaction (wd_db w) (wd_db w) 4 = (Inr (True, d), 5)"
    using d completed_was_valid [OF d]
    by (simp add: client_complete_recovery_def require_transaction_def work_then_def effortless_def)
  from recovery_work_needs_possession [OF w(1) c] w(1) c show ?thesis
    by (auto simp: demo_python_def)
qed

end
