(* ===== verification/Hcl_Reader.thy ===== *)
theory Hcl_Reader
  imports Secret_Shapes "HOL-Library.Sublist"
begin

text \<open>
  \<open>infra/terraform/policy/hcl.py\<close>: the strict reader of the Terraform sources on which the policy
  checks rest. A lexer that skips comments and delimits strings, interpolations and heredocs, and a
  recursive parser of blocks, attributes and literal values; an expression it does not evaluate is kept
  as its source text.

  Every loop and every recursive call of the code takes one unit of fuel, and \<open>None\<close> is running out of
  it. \<open>hcl_parse_returns\<close> shows that one unit more than the length of the source is always enough,
  whatever the source: the reader returns a block or an error. Python's limit on the depth of recursion
  is not represented, and the value of a number with a point or an exponent is kept as its text.
\<close>

section \<open>Computations with fuel\<close>

definition fuelled :: "('e + 'a) option \<Rightarrow> ('a \<Rightarrow> ('e + 'b) option) \<Rightarrow> ('e + 'b) option" where
  "fuelled r f = (case r of None \<Rightarrow> None | Some (Inl e) \<Rightarrow> Some (Inl e) | Some (Inr x) \<Rightarrow> f x)"

lemma fuelled_simps [simp]:
  "fuelled None f = None" "fuelled (Some (Inl e)) f = Some (Inl e)" "fuelled (Some (Inr x)) f = f x"
  by (simp_all add: fuelled_def)

fun fuelled_map :: "('a \<Rightarrow> ('e + 'b) option) \<Rightarrow> 'a list \<Rightarrow> ('e + 'b list) option" where
  "fuelled_map f [] = Some (Inr [])"
| "fuelled_map f (x # xs) = fuelled (f x) (\<lambda>y. fuelled (fuelled_map f xs) (\<lambda>ys. Some (Inr (y # ys))))"

text \<open>Two computations agree on a value, and neither has run out of fuel.\<close>

definition settled :: "'a option \<Rightarrow> 'a option \<Rightarrow> bool" where
  "settled x y \<longleftrightarrow> x = y \<and> x \<noteq> None"

lemma settled_Some [intro, simp]: "settled (Some x) (Some x)"
  by (simp add: settled_def)

lemma settled_if: "(b \<Longrightarrow> settled x x') \<Longrightarrow> (\<not> b \<Longrightarrow> settled y y') \<Longrightarrow> settled (if b then x else y) (if b then x' else y')"
  by simp

lemma settled_fuelled [intro]:
  "settled r r' \<Longrightarrow> (\<And>x. r = Some (Inr x) \<Longrightarrow> settled (f x) (g x)) \<Longrightarrow> settled (fuelled r f) (fuelled r' g)"
  unfolding settled_def fuelled_def by (auto split: option.splits sum.splits) (metis option.exhaust)+

lemma settled_map: "(\<And>x. x \<in> set xs \<Longrightarrow> settled (f x) (g x)) \<Longrightarrow> settled (fuelled_map f xs) (fuelled_map g xs)"
  by (induction xs) auto

lemma fuelled_Inr: "fuelled r f = Some (Inr y) \<longleftrightarrow> (\<exists>x. r = Some (Inr x) \<and> f x = Some (Inr y))"
  by (auto simp: fuelled_def split: option.splits sum.splits)

section \<open>Errors and tokens\<close>

datatype hcl_error =
    Unterminated_interpolation nat | Newline_in_string nat | Unterminated_string nat
  | Unterminated_comment nat | Unterminated_heredoc nat utext | Unexpected_character nat int
  | End_inside_block | Expected_item nat utext | No_value nat utext | Duplicate_attribute nat utext
  | Expected_brace nat utext | Unbalanced nat utext | Mismatched nat utext | End_inside_expression
  | Empty_expression | Item_without_key nat | Too_many_digits

datatype token_kind = Ident | String_literal | Heredoc | Number | Punct | Operator | New_line

record token =
  tok_kind :: token_kind
  tok_text :: utext
  tok_start :: nat
  tok_end :: nat
  tok_line :: nat

section \<open>Strings and interpolations\<close>

text \<open>
  \<open>scan_string\<close> is called after the opening quote and \<open>scan_interpolation\<close> after the opening brace;
  both return what is left of the source after the closing one.
\<close>

fun scan_string :: "nat \<Rightarrow> nat \<Rightarrow> utext \<Rightarrow> (hcl_error + utext) option"
  and scan_interpolation :: "nat \<Rightarrow> nat \<Rightarrow> nat \<Rightarrow> utext \<Rightarrow> (hcl_error + utext) option" where
  "scan_string 0 line s = None"
| "scan_string (Suc n) line [] = Some (Inl (Unterminated_string line))"
| "scan_string (Suc n) line (c # s) =
     (if c = 92 then scan_string n line (drop 1 s)
      else if c = 34 then Some (Inr s)
      else if c = 10 then Some (Inl (Newline_in_string line))
      else if (c = 36 \<or> c = 37) \<and> take 2 s = [c, 123] then scan_string n line (drop 2 s)
      else if (c = 36 \<or> c = 37) \<and> take 1 s = [123]
      then fuelled (scan_interpolation n line 1 (drop 1 s)) (scan_string n line)
      else scan_string n line s)"
| "scan_interpolation 0 line depth s = None"
| "scan_interpolation (Suc n) line depth [] = Some (Inl (Unterminated_interpolation line))"
| "scan_interpolation (Suc n) line depth (c # s) =
     (if c = 34 then fuelled (scan_string n line s) (scan_interpolation n line depth)
      else if c = 123 then scan_interpolation n line (depth + 1) s
      else if c = 125 then (if depth - 1 = 0 then Some (Inr s) else scan_interpolation n line (depth - 1) s)
      else scan_interpolation n line depth s)"

text \<open>Every round uses up a part of the source.\<close>

definition leaves :: "utext \<Rightarrow> utext \<Rightarrow> bool" where
  "leaves s r \<longleftrightarrow> suffix r s \<and> length r < length s"

lemma leaves_shorter: "leaves s r \<Longrightarrow> length r < length s"
  by (simp add: leaves_def)

lemma leaves_suffix: "leaves s r \<Longrightarrow> suffix r s"
  by (simp add: leaves_def)

lemma leaves_Cons: "suffix r s \<Longrightarrow> leaves (c # s) r"
  by (auto simp: leaves_def suffix_ConsI dest: suffix_length_le)

lemma leaves_trans: "leaves s r \<Longrightarrow> suffix q r \<Longrightarrow> leaves s q" "suffix r s \<Longrightarrow> leaves r q \<Longrightarrow> leaves s q"
  by (auto simp: leaves_def dest: suffix_length_le intro: suffix_order.trans)

lemma leaves_drop: "0 < n \<Longrightarrow> s \<noteq> [] \<Longrightarrow> leaves s (drop n s)"
  by (auto simp: leaves_def suffix_drop)

lemma suffix_of_drop: "suffix r (drop n s) \<Longrightarrow> suffix r s"
  by (rule suffix_order.trans [OF _ suffix_drop])

lemma scans_leave:
  "scan_string n line s = Some (Inr r) \<Longrightarrow> leaves s r"
  "scan_interpolation n line depth s = Some (Inr r) \<Longrightarrow> leaves s r"
proof (induction n arbitrary: s r depth)
  case (Suc n)
  { case 1
    then show ?case
      by (cases s)
        (auto split: if_splits simp: fuelled_Inr dest!: Suc.IH
          intro: leaves_Cons suffix_of_drop leaves_suffix leaves_trans) }
  { case 2
    then show ?case
      by (cases s)
        (auto split: if_splits simp: fuelled_Inr dest!: Suc.IH
          intro: leaves_Cons suffix_of_drop leaves_suffix leaves_trans) }
qed auto

lemmas scans_shorten = scans_leave [THEN leaves_shorter]

lemma scans_settle:
  "length s < n \<Longrightarrow> length s < m \<Longrightarrow> settled (scan_string n line s) (scan_string m line s)"
  "length s < n \<Longrightarrow> length s < m \<Longrightarrow> settled (scan_interpolation n line depth s) (scan_interpolation m line depth s)"
proof (induction n arbitrary: m s depth)
  case (Suc n)
  { case 1
    then show ?case using Suc.IH
      by (cases m; cases s) (auto intro!: settled_fuelled dest!: scans_shorten) }
  { case 2
    then show ?case using Suc.IH
      by (cases m; cases s) (auto intro!: settled_fuelled dest!: scans_shorten) }
qed auto

section \<open>The lexer\<close>

definition ident_start :: "int \<Rightarrow> bool" where "ident_start c \<longleftrightarrow> upper_alpha c \<or> lower_alpha c \<or> c = 95"
definition ident_char :: "int \<Rightarrow> bool" where "ident_char c \<longleftrightarrow> ident_start c \<or> ascii_digit c"
definition line_end :: int where "line_end = 10"

text \<open>\<open>_IDENT\<close> and \<open>_NUMBER\<close>: the longest match at the start, empty where there is none.\<close>

definition ident_prefix :: "utext \<Rightarrow> utext" where
  "ident_prefix s = (case s of [] \<Rightarrow> []
     | c # t \<Rightarrow> if ident_start c then c # takeWhile (\<lambda>x. ident_char x \<or> x = 45) t else [])"

definition fraction_prefix :: "utext \<Rightarrow> utext" where
  "fraction_prefix s = (case s of [] \<Rightarrow> []
     | c # t \<Rightarrow> if c = 46 \<and> takeWhile ascii_digit t \<noteq> [] then c # takeWhile ascii_digit t else [])"

definition exponent_prefix :: "utext \<Rightarrow> utext" where
  "exponent_prefix s = (case s of [] \<Rightarrow> []
     | c # t \<Rightarrow> let sign = takeWhile (\<lambda>x. x = 43 \<or> x = 45) (take 1 t); ds = takeWhile ascii_digit (drop (length sign) t)
         in if (c = 101 \<or> c = 69) \<and> ds \<noteq> [] then c # sign @ ds else [])"

definition number_prefix :: "utext \<Rightarrow> utext" where
  "number_prefix s =
     (let ds = takeWhile ascii_digit s; fr = fraction_prefix (drop (length ds) s);
          ex = exponent_prefix (drop (length ds + length fr) s)
      in if ds = [] then [] else ds @ fr @ ex)"

definition operators :: "utext list" where
  "operators = map cps [''=='', ''!='', ''<='', ''>='', ''&&'', ''||'', ''=>'', ''...'']"

definition punctuation :: utext where "punctuation = cps ''{}[]()=,:?''"
definition lone_operators :: utext where "lone_operators = cps ''.*/%+-<>!''"

definition starts_text :: "utext \<Rightarrow> utext \<Rightarrow> bool" where
  "starts_text p s \<longleftrightarrow> take (length p) s = p"

text \<open>\<open>str.strip()\<close>.\<close>

definition strip_blanks :: "utext \<Rightarrow> utext" where
  "strip_blanks t = (let blank = (\<lambda>c. c \<in> set whitespace_code_points) in rev (dropWhile blank (rev (dropWhile blank t))))"

text \<open>\<open>source.find("*/", ...)\<close>: what precedes the first end of a comment and what follows it.\<close>

fun end_comment :: "utext \<Rightarrow> (utext \<times> utext) option" where
  "end_comment [] = None"
| "end_comment (c # s) =
     (if c = 42 \<and> take 1 s = [47] then Some ([], drop 1 s)
      else map_option (\<lambda>(u, r). (c # u, r)) (end_comment s))"

text \<open>\<open>_HEREDOC\<close>: the marker and what follows the line of the opening.\<close>

definition heredoc_label :: "utext \<Rightarrow> (utext \<times> utext) option" where
  "heredoc_label t =
     (let marker = (case t of [] \<Rightarrow> [] | c # u \<Rightarrow> if ident_start c then c # takeWhile ident_char u else []);
          rest = dropWhile (\<lambda>c. c = 32 \<or> c = 9) (drop (length marker) t)
      in if marker \<noteq> [] \<and> take 1 rest = [line_end] then Some (marker, drop 1 rest) else None)"

definition heredoc_header :: "utext \<Rightarrow> (utext \<times> utext) option" where
  "heredoc_header s =
     (if starts_text (cps ''<<'') s
      then heredoc_label (drop (if take 1 (drop 2 s) = [45] then 3 else 2) s) else None)"

text \<open>The loop over the lines of a heredoc: its body and what is left, from the end of the line of the marker.\<close>

function heredoc_lines :: "utext \<Rightarrow> utext \<Rightarrow> (utext \<times> utext) option" where
  "heredoc_lines marker s =
     (let l = takeWhile (\<lambda>c. c \<noteq> line_end) s; t = dropWhile (\<lambda>c. c \<noteq> line_end) s
      in if strip_blanks l = marker then Some ([], t)
         else if t = [] then None
         else map_option (\<lambda>(u, r). (l @ line_end # u, r)) (heredoc_lines marker (tl t)))"
  by pat_completeness auto
termination
proof (relation "measure (\<lambda>(m, s). length s)", goal_cases)
  case (2 marker s l t)
  from 2(2-4) have "length t \<le> length s" "t \<noteq> []" by (auto simp: length_dropWhile_le)
  then show ?case by (cases t) auto
qed simp

declare heredoc_lines.simps [simp del]

definition new_lines :: "utext \<Rightarrow> nat" where
  "new_lines s = length (filter (\<lambda>c. c = line_end) s)"

text \<open>
  One round of the loop of \<open>_tokenize\<close> at a source that is not used up: the token, if there is one, and
  what is left.
\<close>

definition found :: "token_kind \<Rightarrow> utext \<Rightarrow> nat \<Rightarrow> nat \<Rightarrow> utext \<Rightarrow> utext \<Rightarrow> (hcl_error + token option \<times> utext) option" where
  "found k t i line s r =
     Some (Inr (Some \<lparr>tok_kind = k, tok_text = t, tok_start = i, tok_end = i + (length s - length r), tok_line = line\<rparr>, r))"

definition plain :: "token_kind \<Rightarrow> utext \<Rightarrow> nat \<Rightarrow> nat \<Rightarrow> utext \<Rightarrow> (hcl_error + token option \<times> utext) option" where
  "plain k t i line s = found k t i line s (drop (length t) s)"

definition lex_step :: "nat \<Rightarrow> nat \<Rightarrow> nat \<Rightarrow> utext \<Rightarrow> (hcl_error + token option \<times> utext) option" where
  "lex_step n i line s =
     (let c = hd s
      in if c = line_end then plain New_line [c] i line s
         else if c = 32 \<or> c = 9 \<or> c = 13 then Some (Inr (None, tl s))
         else if c = 35 \<or> starts_text (cps ''//'') s then Some (Inr (None, dropWhile (\<lambda>x. x \<noteq> line_end) s))
         else if starts_text (cps ''/*'') s
         then (case end_comment (drop 2 s) of None \<Rightarrow> Some (Inl (Unterminated_comment line)) | Some (_, r) \<Rightarrow> Some (Inr (None, r)))
         else case heredoc_header s of
           Some (marker, t) \<Rightarrow>
             (case heredoc_lines marker t of None \<Rightarrow> Some (Inl (Unterminated_heredoc line marker))
              | Some (body, r) \<Rightarrow> found Heredoc body i line s r)
         | None \<Rightarrow>
             if c = 34
             then fuelled (scan_string n line (tl s)) (\<lambda>r. found String_literal (take (length s - length r) s) i line s r)
             else if ident_prefix s \<noteq> [] then plain Ident (ident_prefix s) i line s
             else if number_prefix s \<noteq> [] then plain Number (number_prefix s) i line s
             else (case find (\<lambda>p. starts_text p s) operators of Some p \<Rightarrow> plain Operator p i line s
              | None \<Rightarrow>
                  if c \<in> set punctuation then plain Punct [c] i line s
                  else if c \<in> set lone_operators then plain Operator [c] i line s
                  else Some (Inl (Unexpected_character line c))))"

fun tokenize :: "nat \<Rightarrow> nat \<Rightarrow> nat \<Rightarrow> utext \<Rightarrow> (hcl_error + token list) option" where
  "tokenize 0 i line s = None"
| "tokenize (Suc n) i line s =
     (if s = [] then Some (Inr [])
      else fuelled (lex_step n i line s) (\<lambda>(t, r).
        let u = length s - length r
        in fuelled (tokenize n (i + u) (line + new_lines (take u s)) r) (\<lambda>ts.
             Some (Inr (case t of None \<Rightarrow> ts | Some x \<Rightarrow> x # ts)))))"

lemma end_comment_leaves: "end_comment s = Some (u, r) \<Longrightarrow> suffix r s"
  by (induction s arbitrary: u)
    (auto split: if_splits intro: suffix_ConsI suffix_drop)

lemma heredoc_lines_leave: "heredoc_lines m s = Some (u, r) \<Longrightarrow> suffix r s"
proof (induction m s arbitrary: u rule: heredoc_lines.induct)
  case (1 m s)
  let ?t = "dropWhile (\<lambda>c. c \<noteq> line_end) s"
  have "suffix r ?t"
    using "1.prems" "1.IH" [OF refl refl]
    by (subst (asm) heredoc_lines.simps) (auto simp: Let_def split: if_splits intro: suffix_tl suffix_order.trans)
  then show ?case using suffix_dropWhile suffix_order.trans by blast
qed

lemma nonempty_take: "take 1 s = [c] \<Longrightarrow> s \<noteq> []"
  by auto

lemma guarded_Some: "(if p then Some x else None) = Some y \<longleftrightarrow> p \<and> x = y"
  by simp

lemma heredoc_label_leaves:
  assumes "heredoc_label u = Some (m, t)"
  shows "leaves u t"
proof -
  define marker where "marker = (case u of [] \<Rightarrow> [] | c # v \<Rightarrow> if ident_start c then c # takeWhile ident_char v else [])"
  define r where "r = dropWhile (\<lambda>c. c = 32 \<or> c = 9) (drop (length marker) u)"
  have "heredoc_label u = (if marker \<noteq> [] \<and> take 1 r = [line_end] then Some (marker, drop 1 r) else None)"
    unfolding heredoc_label_def marker_def r_def Let_def by (rule refl)
  note * = assms [unfolded this guarded_Some prod.inject]
  have t: "take 1 r = [line_end]" "drop 1 r = t"
    by (rule conjunct2 [OF conjunct1 [OF *]], rule conjunct2 [OF conjunct2 [OF *]])
  have "suffix r u" unfolding r_def by (rule suffix_of_drop [OF suffix_dropWhile])
  with leaves_drop [OF zero_less_one nonempty_take [OF t(1)]] show ?thesis
    unfolding t(2) by (rule leaves_trans(2) [rotated])
qed

lemma heredoc_header_leaves: "heredoc_header s = Some (m, t) \<Longrightarrow> leaves s t"
  by (auto simp: heredoc_header_def split: if_split_asm
      intro: leaves_trans(2) [OF suffix_drop heredoc_label_leaves])

lemma prefix_append: "prefix p s \<Longrightarrow> prefix q (drop (length p) s) \<Longrightarrow> prefix (p @ q) s"
  by (auto simp: prefix_def)

lemma prefixes: "prefix (ident_prefix s) s" "prefix (number_prefix s) s"
proof -
  have fr: "prefix (fraction_prefix s) s" for s
    by (auto simp: fraction_prefix_def takeWhile_is_prefix split: list.split)
  have "prefix (takeWhile P (take 1 t)) t" for P :: "int \<Rightarrow> bool" and t
    by (rule prefix_order.trans [OF takeWhile_is_prefix take_is_prefix])
  then have ex: "prefix (exponent_prefix s) s" for s
    by (auto simp: exponent_prefix_def Let_def takeWhile_is_prefix split: list.split intro!: prefix_append)
  show "prefix (ident_prefix s) s"
    by (auto simp: ident_prefix_def takeWhile_is_prefix split: list.split)
  show "prefix (number_prefix s) s"
    using prefix_append [OF takeWhile_is_prefix prefix_append [OF fr ex], of ascii_digit s]
    by (simp add: number_prefix_def Let_def takeWhile_is_prefix add.commute)
qed

text \<open>What a token says of the place where it stands.\<close>

definition placed :: "nat \<Rightarrow> nat \<Rightarrow> utext \<Rightarrow> utext \<Rightarrow> token option \<Rightarrow> bool" where
  "placed i line s r t \<longleftrightarrow> leaves s r \<and> (\<forall>x. t = Some x \<longrightarrow> tok_start x = i \<and> tok_end x = i + (length s - length r) \<and>
     tok_line x = line \<and> (tok_kind x \<noteq> Heredoc \<longrightarrow> tok_text x = take (length s - length r) s))"

lemma placed_None [simp]: "placed i line s r None \<longleftrightarrow> leaves s r"
  by (simp add: placed_def)

lemma placed_found:
  "found k t i line s r = Some (Inr (o', r')) \<Longrightarrow> leaves s r \<Longrightarrow> k = Heredoc \<or> t = take (length s - length r) s
    \<Longrightarrow> placed i line s r' o'"
  by (auto simp: found_def placed_def)

lemma placed_plain:
  assumes "plain k t i line s = Some (Inr (o', r'))" "prefix t s" "t \<noteq> []"
  shows "placed i line s r' o'"
proof -
  obtain u where s: "s = t @ u" using assms(2) by (auto simp: prefix_def)
  show ?thesis
    by (rule placed_found [OF assms(1) [unfolded plain_def]]) (use s assms(3) in \<open>auto simp: leaves_def suffix_def\<close>)
qed

lemma operators_nonempty: "find (\<lambda>p. starts_text p s) operators = Some p \<Longrightarrow> p \<noteq> [] \<and> prefix p s"
  by (auto simp: operators_def cps_def starts_text_def prefix_def split: if_split_asm)
    (metis append_take_drop_id)+

lemma lex_step_placed:
  assumes "lex_step n i line s = Some (Inr (t, r))" "s \<noteq> []"
  shows "placed i line s r t"
proof -
  have tl: "leaves s (tl s)" and hd: "prefix [hd s] s" using assms(2) by (cases s; simp add: leaves_Cons)+
  have nl: "prefix [line_end] s" if "hd s = line_end" using hd that by simp
  have comment: "leaves s (dropWhile (\<lambda>x. x \<noteq> line_end) s)" if "hd s \<noteq> line_end"
    using that assms(2) by (cases s) (simp_all add: leaves_Cons suffix_dropWhile)
  have block: "leaves s q" if "end_comment (drop 2 s) = Some (u, q)" for u q
    using leaves_trans(1) [OF leaves_drop [OF _ assms(2), of 2] end_comment_leaves [OF that]] by simp
  have here: "leaves s q" if "heredoc_header s = Some (m, b)" "heredoc_lines m b = Some (u, q)" for m b u q
    by (rule leaves_trans(1) [OF heredoc_header_leaves [OF that(1)] heredoc_lines_leave [OF that(2)]])
  have str: "leaves s q" if "scan_string n line (tl s) = Some (Inr q)" for q
    by (rule leaves_trans(1) [OF tl leaves_suffix [OF scans_leave(1) [OF that]]])
  show ?thesis
    using assms(1) prefixes [of s] unfolding lex_step_def Let_def
    by (auto split: if_split_asm option.split_asm simp: fuelled_Inr dest!: operators_nonempty
        intro: placed_plain placed_found [OF _ here] placed_found [OF _ str] hd nl tl comment block)
qed

lemma lex_step_settles:
  assumes "s \<noteq> []" "length s \<le> n" "length s \<le> m"
  shows "settled (lex_step n i line s) (lex_step m i line s)"
proof -
  have "settled (scan_string n line (tl s)) (scan_string m line (tl s))"
    using assms by (intro scans_settle) (cases s; simp)+
  then show ?thesis
    by (auto simp: lex_step_def Let_def found_def plain_def split: option.split)
qed

lemma tokenize_settles:
  "length s < n \<Longrightarrow> length s < m \<Longrightarrow> settled (tokenize n i line s) (tokenize m i line s)"
proof (induction n arbitrary: m i line s)
  case (Suc n)
  then obtain k where m: "m = Suc k" by (cases m) auto
  show ?case
  proof (cases "s = []")
    case False
    have "settled (tokenize n j l r) (tokenize k j l r)" if "lex_step n i line s = Some (Inr (t, r))" for t r j l
      using leaves_shorter lex_step_placed [OF that False] Suc m by (fastforce simp: placed_def)
    then show ?thesis
      using False Suc.prems lex_step_settles [OF False, of n k] unfolding m
      by (auto simp: Let_def intro!: settled_fuelled)
  qed (simp add: m)
qed simp

text \<open>A token of a source: its text, the place where it stands and the line of that place.\<close>

definition token_of :: "utext \<Rightarrow> token \<Rightarrow> bool" where
  "token_of src x \<longleftrightarrow> tok_start x < tok_end x \<and> tok_end x \<le> length src \<and>
     tok_line x = 1 + new_lines (take (tok_start x) src) \<and>
     (tok_kind x \<noteq> Heredoc \<longrightarrow> tok_text x = take (tok_end x - tok_start x) (drop (tok_start x) src))"

lemma new_lines_append [simp]: "new_lines (u @ v) = new_lines u + new_lines v"
  by (simp add: new_lines_def)

lemma tokenize_tokens:
  "tokenize n (length p) (1 + new_lines p) s = Some (Inr ts) \<Longrightarrow>
   list_all (token_of (p @ s)) ts \<and> sorted_wrt (\<lambda>x y. tok_end x \<le> tok_start y) ts \<and>
   list_all (\<lambda>x. length p \<le> tok_start x) ts \<and> length ts \<le> length s"
proof (induction n arbitrary: p s ts)
  case (Suc n)
  show ?case
  proof (cases "s = []")
    case False
    obtain t r us where l: "lex_step n (length p) (1 + new_lines p) s = Some (Inr (t, r))"
      and us: "tokenize n (length p + (length s - length r)) (1 + new_lines p + new_lines (take (length s - length r) s)) r = Some (Inr us)"
      and ts: "ts = (case t of None \<Rightarrow> us | Some x \<Rightarrow> x # us)"
      using Suc.prems False by (auto simp: fuelled_Inr Let_def)
    note pl = lex_step_placed [OF l False]
    then obtain v where v: "s = v @ r" "v \<noteq> []" by (auto simp: placed_def leaves_def suffix_def)
    have "list_all (token_of ((p @ v) @ r)) us \<and> sorted_wrt (\<lambda>x y. tok_end x \<le> tok_start y) us \<and>
        list_all (\<lambda>x. length (p @ v) \<le> tok_start x) us \<and> length us \<le> length r"
      by (rule Suc.IH) (use us v in \<open>simp add: add.assoc\<close>)
    moreover have "token_of (p @ s) x \<and> tok_start x = length p \<and> tok_end x = length (p @ v)" if "t = Some x" for x
      using pl v that by (cases "tok_kind x = Heredoc") (auto simp: placed_def token_of_def)
    moreover have "1 \<le> length v" using v(2) by (cases v) simp_all
    ultimately show ?thesis
      using v by (cases t) (auto simp: ts list_all_iff)
  qed (use Suc.prems in simp)
qed simp

section \<open>Values\<close>

text \<open>
  The values of attributes: \<open>str\<close>, \<open>Template\<close>, \<open>int\<close>, \<open>float\<close> (as its text), \<open>bool\<close>, \<open>None\<close>, \<open>Raw\<close>,
  \<open>tuple\<close>, \<open>dict\<close> and \<open>Call\<close>. A key of an object is marked when it is a \<open>Raw\<close>; as \<open>Raw\<close> is a kind of
  \<open>str\<close>, keys are compared by their text.
\<close>

datatype hcl_value =
    H_text utext | H_template utext | H_int int | H_float utext | H_bool bool | H_null | H_raw utext
  | H_tuple "hcl_value list" | H_object "((bool \<times> utext) \<times> hcl_value) list" | H_call utext "hcl_value list"

fun unescape :: "utext \<Rightarrow> utext" where
  "unescape [] = []"
| "unescape (c # s) =
     (case s of [] \<Rightarrow> [c]
      | d # t \<Rightarrow>
          if c = 92 \<and> d \<in> set (cps ''nrt'') then (if d = 110 then 10 else if d = 114 then 13 else 9) # unescape t
          else if c = 92 \<and> (d = 34 \<or> d = 92) then d # unescape t
          else c # unescape s)"

definition unquote :: "utext \<Rightarrow> utext" where "unquote t = unescape (butlast (tl t))"

text \<open>\<open>(?<![$%])[$%]\{\<close> somewhere in the text.\<close>

fun interpolates :: "bool \<Rightarrow> utext \<Rightarrow> bool" where
  "interpolates after [] = False"
| "interpolates after (c # s) =
     (let sigil = c = 36 \<or> c = 37 in (sigil \<and> \<not> after \<and> take 1 s = [123]) \<or> interpolates sigil s)"

definition is_punct :: "string \<Rightarrow> token \<Rightarrow> bool" where
  "is_punct ps t \<longleftrightarrow> tok_kind t = Punct \<and> (\<exists>p \<in> set (cps ps). tok_text t = [p])"

definition opens :: "token \<Rightarrow> bool" where "opens = is_punct ''{[(''"
definition closes :: "token \<Rightarrow> bool" where "closes = is_punct ''}])''"

definition closer_of :: "token \<Rightarrow> utext" where
  "closer_of t = (if tok_text t = cps ''{'' then cps ''}'' else if tok_text t = cps ''['' then cps '']'' else cps '')'')"

definition part :: "nat \<Rightarrow> nat \<Rightarrow> 'a list \<Rightarrow> 'a list" where
  "part a b xs = take (b - a) (drop a xs)"

text \<open>\<open>_split\<close>: the loop over the positions of the range, then the last item and the filter.\<close>

fun split_loop :: "token list \<Rightarrow> nat list \<Rightarrow> int \<Rightarrow> nat \<Rightarrow> (nat \<times> nat) list \<times> nat" where
  "split_loop toks [] depth st = ([], st)"
| "split_loop toks (i # ps) depth st =
     (let t = toks ! i
      in if opens t then split_loop toks ps (depth + 1) st
         else if closes t then split_loop toks ps (depth - 1) st
         else if depth = 0 \<and> (tok_kind t = New_line \<or> is_punct '','' t)
         then (let (its, z) = split_loop toks ps depth (i + 1) in (if st < i then (st, i) # its else its, z))
         else split_loop toks ps depth st)"

definition split_items :: "token list \<Rightarrow> nat \<Rightarrow> nat \<Rightarrow> (nat \<times> nat) list" where
  "split_items toks a b =
     (let (its, st) = split_loop toks [a..<b] 0 a
      in filter (\<lambda>(x, y). \<exists>t \<in> set (part x y toks). tok_kind t \<noteq> New_line) (its @ (if st < b then [(st, b)] else [])))"

fun closing_position :: "token list \<Rightarrow> nat list \<Rightarrow> int \<Rightarrow> nat option" where
  "closing_position toks [] depth = None"
| "closing_position toks (i # ps) depth =
     (if opens (toks ! i) then closing_position toks ps (depth + 1)
      else if closes (toks ! i)
      then (if depth - 1 = 0 then Some i else closing_position toks ps (depth - 1))
      else closing_position toks ps depth)"

definition closes_at_end :: "token list \<Rightarrow> nat \<Rightarrow> nat \<Rightarrow> bool" where
  "closes_at_end toks a b \<longleftrightarrow> closing_position toks [a..<b] 0 = Some (b - 1)"

definition raw_text :: "utext \<Rightarrow> token list \<Rightarrow> nat \<Rightarrow> nat \<Rightarrow> utext" where
  "raw_text src toks a b = part (tok_start (toks ! a)) (tok_end (toks ! (b - 1))) src"

text \<open>\<open>int(text)\<close> refuses more than 4,300 digits.\<close>

definition lone_value :: "utext \<Rightarrow> token list \<Rightarrow> nat \<Rightarrow> hcl_error + hcl_value" where
  "lone_value src toks a =
     (let t = toks ! a; s = tok_text t
      in case tok_kind t of
           String_literal \<Rightarrow> Inr (if interpolates False s then H_template (unquote s) else H_text (unquote s))
         | Heredoc \<Rightarrow> Inr (H_text s)
         | Number \<Rightarrow>
             if \<exists>c \<in> set s. c = 46 \<or> c = 101 \<or> c = 69 then Inr (H_float s)
             else if 4300 < length s then Inl Too_many_digits
             else Inr (H_int (foldl (\<lambda>n c. 10 * n + (c - 48)) 0 s))
         | Ident \<Rightarrow>
             Inr (if s = cps ''true'' then H_bool True else if s = cps ''false'' then H_bool False
               else if s = cps ''null'' then H_null else H_raw (raw_text src toks a (a + 1)))
         | _ \<Rightarrow> Inr (H_raw (raw_text src toks a (a + 1))))"

text \<open>The two loops that skip the line ends around an expression.\<close>

definition skip_front :: "token list \<Rightarrow> nat \<Rightarrow> nat \<Rightarrow> nat" where
  "skip_front toks a b = a + length (takeWhile (\<lambda>t. tok_kind t = New_line) (part a b toks))"

definition skip_back :: "token list \<Rightarrow> nat \<Rightarrow> nat \<Rightarrow> nat" where
  "skip_back toks a b = b - length (takeWhile (\<lambda>t. tok_kind t = New_line) (rev (part a b toks)))"

definition keyword_for :: "token \<Rightarrow> bool" where
  "keyword_for t \<longleftrightarrow> tok_kind t = Ident \<and> tok_text t = cps ''for''"

text \<open>A dictionary assignment: a known key keeps its place and its spelling.\<close>

fun put_item :: "bool \<times> utext \<Rightarrow> hcl_value \<Rightarrow> ((bool \<times> utext) \<times> hcl_value) list \<Rightarrow> ((bool \<times> utext) \<times> hcl_value) list" where
  "put_item k v [] = [(k, v)]"
| "put_item k v ((j, w) # its) = (if snd j = snd k then (j, v) # its else (j, w) # put_item k v its)"

definition object_key :: "utext \<Rightarrow> token list \<Rightarrow> nat \<Rightarrow> nat \<Rightarrow> bool \<times> utext" where
  "object_key src toks a sep =
     (let t = toks ! a
      in if sep = a + 1 \<and> tok_kind t = String_literal then (False, unquote (tok_text t))
         else if sep = a + 1 \<and> tok_kind t = Ident then (False, tok_text t)
         else (True, raw_text src toks a sep))"

definition hcl_item ::
  "(nat \<Rightarrow> nat \<Rightarrow> (hcl_error + hcl_value) option) \<Rightarrow> utext \<Rightarrow> token list \<Rightarrow> nat \<Rightarrow> nat
     \<Rightarrow> (hcl_error + (bool \<times> utext) \<times> hcl_value) option" where
  "hcl_item value_at src toks a b =
     (case filter (\<lambda>i. is_punct ''=:'' (toks ! i)) [a..<b] of
        [] \<Rightarrow> Some (Inl (Item_without_key (tok_line (toks ! a))))
      | sep # _ \<Rightarrow>
          if sep = a then Some (Inl (Item_without_key (tok_line (toks ! a))))
          else fuelled (value_at (sep + 1) b) (\<lambda>v. Some (Inr (object_key src toks a sep, v))))"

primrec hcl_value_at :: "nat \<Rightarrow> utext \<Rightarrow> token list \<Rightarrow> nat \<Rightarrow> nat \<Rightarrow> (hcl_error + hcl_value) option" where
  "hcl_value_at 0 src toks a0 b0 = None"
| "hcl_value_at (Suc n) src toks a0 b0 =
     (let a = skip_front toks a0 b0; b = skip_back toks a b0
      in if b \<le> a then Some (Inl Empty_expression)
         else let t = toks ! a
         in if b - a = 1 then Some (lone_value src toks a)
         else if is_punct ''['' t \<and> closes_at_end toks a b
         then (if keyword_for (toks ! (a + 1)) then Some (Inr (H_raw (raw_text src toks a b)))
               else fuelled (fuelled_map (\<lambda>(x, y). hcl_value_at n src toks x y) (split_items toks (a + 1) (b - 1)))
                      (\<lambda>vs. Some (Inr (H_tuple vs))))
         else if is_punct ''{'' t \<and> closes_at_end toks a b
         then (if (case filter (\<lambda>t. tok_kind t \<noteq> New_line) (part (a + 1) b toks) of [] \<Rightarrow> False | u # _ \<Rightarrow> keyword_for u)
               then Some (Inr (H_raw (raw_text src toks a b)))
               else fuelled (fuelled_map (\<lambda>(x, y). hcl_item (hcl_value_at n src toks) src toks x y) (split_items toks (a + 1) (b - 1)))
                      (\<lambda>its. Some (Inr (H_object (fold (\<lambda>(k, v). put_item k v) its [])))))
         else if tok_kind t = Ident \<and> is_punct ''('' (toks ! (a + 1)) \<and> closes_at_end toks (a + 1) b
         then fuelled (fuelled_map (\<lambda>(x, y). hcl_value_at n src toks x y) (split_items toks (a + 2) (b - 1)))
                (\<lambda>vs. Some (Inr (H_call (tok_text t) vs)))
         else Some (Inr (H_raw (raw_text src toks a b))))"

lemma split_loop_within:
  "split_loop toks ps depth st = (its, z) \<Longrightarrow> sorted_wrt (<) ps \<Longrightarrow> list_all (\<lambda>i. lo \<le> i \<and> i < hi) ps \<Longrightarrow>
   lo \<le> st \<Longrightarrow> lo \<le> z \<and> list_all (\<lambda>(x, y). lo \<le> x \<and> x < y \<and> y < hi) its"
proof (induction toks ps depth st arbitrary: its z rule: split_loop.induct)
  case (2 toks i ps depth st)
  let ?t = "toks ! i"
  show ?case
  proof (cases "opens ?t \<or> closes ?t")
    case True
    then show ?thesis using 2 by (auto simp: Let_def split: if_split_asm)
  next
    case False
    then show ?thesis
      using "2.IH"(3,4) [of ?t] "2.prems" by (auto simp: Let_def split: if_split_asm prod.split_asm)
  qed
qed simp

lemma split_items_within:
  "(x, y) \<in> set (split_items toks a b) \<Longrightarrow> a \<le> x \<and> x < y \<and> y \<le> b"
proof -
  obtain its st where l: "split_loop toks [a..<b] 0 a = (its, st)" by fastforce
  have "a \<le> st \<and> list_all (\<lambda>(x, y). a \<le> x \<and> x < y \<and> y < b) its"
    by (rule split_loop_within [OF l]) (auto simp: list_all_iff sorted_wrt_upt)
  then show "(x, y) \<in> set (split_items toks a b) \<Longrightarrow> a \<le> x \<and> x < y \<and> y \<le> b"
    using l by (auto simp: split_items_def list_all_iff split: if_split_asm)
qed

text \<open>An expression of fewer tokens than there is fuel has a value or an error.\<close>

lemma item_settles:
  assumes "\<And>x. a \<le> x \<Longrightarrow> settled (f (Suc x) b) (g (Suc x) b)"
  shows "settled (hcl_item f src toks a b) (hcl_item g src toks a b)"
proof -
  have "settled (f (Suc sep) b) (g (Suc sep) b)" if "filter (\<lambda>i. is_punct ''=:'' (toks ! i)) [a..<b] = sep # r" for sep r
  proof -
    have "sep \<in> set (filter (\<lambda>i. is_punct ''=:'' (toks ! i)) [a..<b])" using that by simp
    then show ?thesis by (auto intro: assms)
  qed
  then show ?thesis unfolding hcl_item_def by (auto split: list.split intro!: settled_fuelled)
qed

lemma value_settles:
  "b - a < n \<Longrightarrow> b - a < m \<Longrightarrow> settled (hcl_value_at n src toks a b) (hcl_value_at m src toks a b)"
proof (induction n arbitrary: m a b)
  case (Suc n)
  have items: "settled (fuelled_map (\<lambda>(x, y). f x y) (split_items toks x y)) (fuelled_map (\<lambda>(x, y). g x y) (split_items toks x y))"
    if "\<And>x' y'. y' - x' \<le> y - x \<Longrightarrow> settled (f x' y') (g x' y')" for f g :: "nat \<Rightarrow> nat \<Rightarrow> (hcl_error + 'z) option" and x y
    using that by (auto intro!: settled_map dest!: split_items_within)
  from Suc.prems obtain k where m: "m = Suc k" by (cases m) auto
  let ?a = "skip_front toks a b"
  let ?b = "skip_back toks ?a b"
  have ab: "?b - ?a < Suc n" "?b - ?a < Suc k"
    using Suc.prems m by (auto simp: skip_back_def skip_front_def)
  have tuple: "settled (fuelled_map (\<lambda>(x, y). hcl_value_at n src toks x y) (split_items toks (?a + j) (?b - 1)))
      (fuelled_map (\<lambda>(x, y). hcl_value_at k src toks x y) (split_items toks (?a + j) (?b - 1)))"
    and object: "settled (fuelled_map (\<lambda>(x, y). hcl_item (hcl_value_at n src toks) src toks x y) (split_items toks (?a + j) (?b - 1)))
      (fuelled_map (\<lambda>(x, y). hcl_item (hcl_value_at k src toks) src toks x y) (split_items toks (?a + j) (?b - 1)))"
    if "?b - ?a > 1" "j > 0" for j
    using ab that by (intro items item_settles Suc.IH; linarith)+
  show ?case
    unfolding m hcl_value_at.simps Let_def
    by (intro settled_if settled_Some settled_fuelled tuple object impI; simp)
qed simp

section \<open>Bodies\<close>

datatype hcl_block = Block
  (bl_type: utext) (bl_labels: "utext list") (bl_attributes: "(utext \<times> hcl_value) list")
  (bl_raw_attributes: "(utext \<times> utext) list") (bl_blocks: "hcl_block list") (bl_line: nat)

definition empty_block :: hcl_block where "empty_block = Block [] [] [] [] [] 0"

definition add_attribute :: "utext \<Rightarrow> utext \<Rightarrow> hcl_value \<Rightarrow> hcl_block \<Rightarrow> hcl_block" where
  "add_attribute k r v b = Block (bl_type b) (bl_labels b) (bl_attributes b @ [(k, v)])
     (bl_raw_attributes b @ [(k, r)]) (bl_blocks b) (bl_line b)"

definition add_block :: "utext \<Rightarrow> utext list \<Rightarrow> nat \<Rightarrow> hcl_block \<Rightarrow> hcl_block \<Rightarrow> hcl_block" where
  "add_block kind labels line child b = Block (bl_type b) (bl_labels b) (bl_attributes b) (bl_raw_attributes b)
     (bl_blocks b @ [Block kind labels (bl_attributes child) (bl_raw_attributes child) (bl_blocks child) line]) (bl_line b)"

text \<open>\<open>_expression_end\<close>, with the stack of expected closers, on the tokens from a position on.\<close>

fun expression_end :: "bool \<Rightarrow> utext list \<Rightarrow> token list \<Rightarrow> nat \<Rightarrow> hcl_error + nat" where
  "expression_end closing stack [] i = (if stack \<noteq> [] then Inl End_inside_expression else Inr i)"
| "expression_end closing stack (t # ts) i =
     (if opens t then expression_end closing (closer_of t # stack) ts (i + 1)
      else if closes t
      then (case stack of
             [] \<Rightarrow> if closing \<and> is_punct ''}'' t then Inr i else Inl (Unbalanced (tok_line t) (tok_text t))
           | x # stack' \<Rightarrow> if x \<noteq> tok_text t then Inl (Mismatched (tok_line t) (tok_text t))
               else expression_end closing stack' ts (i + 1))
      else if tok_kind t = New_line \<and> stack = [] then Inr i
      else expression_end closing stack ts (i + 1))"

definition block_label :: "token \<Rightarrow> utext" where
  "block_label t = (if tok_kind t = String_literal then unquote (tok_text t) else tok_text t)"

primrec hcl_body :: "nat \<Rightarrow> utext \<Rightarrow> token list \<Rightarrow> bool \<Rightarrow> hcl_block \<Rightarrow> nat \<Rightarrow> (hcl_error + hcl_block \<times> nat) option" where
  "hcl_body 0 src toks closing blk pos0 = None"
| "hcl_body (Suc n) src toks closing blk pos0 =
     (let pos = skip_front toks pos0 (length toks)
      in if length toks \<le> pos then Some (if closing then Inl End_inside_block else Inr (blk, pos))
         else let t = toks ! pos
         in if closing \<and> is_punct ''}'' t then Some (Inr (blk, pos + 1))
         else if tok_kind t \<noteq> Ident then Some (Inl (Expected_item (tok_line t) (tok_text t)))
         else if pos + 1 < length toks \<and> is_punct ''='' (toks ! (pos + 1))
         then (case expression_end closing [] (drop (pos + 2) toks) (pos + 2) of Inl e \<Rightarrow> Some (Inl e)
               | Inr stop \<Rightarrow>
                   if stop = pos + 2 then Some (Inl (No_value (tok_line t) (tok_text t)))
                   else if tok_text t \<in> fst ` set (bl_attributes blk)
                   then Some (Inl (Duplicate_attribute (tok_line t) (tok_text t)))
                   else fuelled (hcl_value_at n src toks (pos + 2) stop) (\<lambda>v.
                     hcl_body n src toks closing
                       (add_attribute (tok_text t) (raw_text src toks (pos + 2) stop) v blk) stop))
         else (let ls = takeWhile (\<lambda>x. tok_kind x \<in> {String_literal, Ident}) (drop (pos + 1) toks);
                   j = pos + 1 + length ls
               in if length toks \<le> j \<or> \<not> is_punct ''{'' (toks ! j)
                  then Some (Inl (Expected_brace (tok_line t) (tok_text t)))
                  else fuelled (hcl_body n src toks True empty_block (j + 1)) (\<lambda>(child, p).
                    hcl_body n src toks closing (add_block (tok_text t) (map block_label ls) (tok_line t) child blk) p)))"

definition hcl_parse :: "nat \<Rightarrow> utext \<Rightarrow> (hcl_error + hcl_block) option" where
  "hcl_parse n src =
     fuelled (tokenize n 0 1 src) (\<lambda>toks. fuelled (hcl_body n src toks False empty_block 0) (\<lambda>(b, _).
       Some (Inr (Block (cps ''<root>'') (bl_labels b) (bl_attributes b) (bl_raw_attributes b) (bl_blocks b) (bl_line b)))))"

lemma expression_end_within:
  "expression_end closing stack ts i = Inr j \<Longrightarrow> i \<le> j \<and> j \<le> i + length ts"
  by (induction closing stack ts i rule: expression_end.induct)
    (auto split: if_split_asm list.split_asm)

text \<open>A body ends at or after the token where it starts, and after it where a block has to be closed.\<close>

lemma skip_front_le: "a \<le> skip_front toks a b"
  by (simp add: skip_front_def)

lemma hcl_body_advances:
  "hcl_body n src toks closing blk pos = Some (Inr (b, p)) \<Longrightarrow> pos \<le> p"
proof (induction n arbitrary: closing blk pos b p)
  case (Suc n)
  let ?q = "skip_front toks pos (length toks)"
  have q: "pos \<le> ?q" by (rule skip_front_le)
  from Suc.prems show ?case
    using q
    by (auto simp: Let_def fuelled_Inr split: if_split_asm sum.split_asm prod.split_asm
        dest!: Suc.IH expression_end_within)
qed simp

lemma hcl_body_settles:
  "length toks - pos < n \<Longrightarrow> length toks - pos < m \<Longrightarrow>
   settled (hcl_body n src toks closing blk pos) (hcl_body m src toks closing blk pos)"
proof (induction n arbitrary: m closing blk pos)
  case (Suc n)
  then obtain k where m: "m = Suc k" by (cases m) auto
  let ?q = "skip_front toks pos (length toks)"
  have q: "pos \<le> ?q" by (rule skip_front_le)
  have fuel: "length toks - j < n" "length toks - j < k" if "?q < j" "?q < length toks" for j
    using Suc.prems q that m by linarith+
  have val: "settled (hcl_value_at n src toks (?q + 2) j) (hcl_value_at k src toks (?q + 2) j)"
    if "j \<le> length toks" "?q < length toks" for j
    by (rule value_settles) (use Suc.prems q that m in linarith)+
  have attr: "settled (hcl_body n src toks closing x j) (hcl_body k src toks closing x j)"
    if "expression_end closing [] (drop (?q + 2) toks) (?q + 2) = Inr j" "?q < length toks" for x j
    by (intro Suc.IH fuel) (use expression_end_within [OF that(1)] that(2) in auto)
  have child: "settled (hcl_body n src toks True empty_block (Suc (Suc (?q + j)))) (hcl_body k src toks True empty_block (Suc (Suc (?q + j))))"
    if "?q < length toks" for j
    by (intro Suc.IH fuel) (use that in auto)
  have rest: "settled (hcl_body n src toks closing x p) (hcl_body k src toks closing x p)"
    if "?q < length toks" "hcl_body n src toks True empty_block (Suc (Suc (?q + j))) = Some (Inr (b, p))" for x p j b
    by (intro Suc.IH fuel) (use hcl_body_advances [OF that(2)] that(1) in auto)
  show ?case
    unfolding m hcl_body.simps Let_def
  proof (intro settled_if settled_Some, goal_cases)
    case 1
    show ?case
    proof (cases "expression_end closing [] (drop (?q + 2) toks) (?q + 2)")
      case (Inr j)
      have "j \<le> length toks" using expression_end_within [OF Inr] 1 by auto
      with 1 show ?thesis
        unfolding Inr sum.case by (intro settled_if settled_Some settled_fuelled val attr [OF Inr]) simp_all
    qed simp
  next
    case 2
    then show ?case
      by (auto intro!: settled_fuelled child rest split: prod.split)
  qed
qed simp

text \<open>
  C32: The reader always returns. For every source, whatever its quotes, braces, comments and heredocs, one
  unit of fuel more than its length is enough for the lexer and the parser, and more fuel changes nothing:
  the result is one and the same block or error.
\<close>

theorem hcl_parse_returns:
  "\<exists>r. \<forall>k. hcl_parse (Suc (length src + k)) src = Some r"
proof -
  have toks: "settled (tokenize (Suc (length src)) 0 1 src) (tokenize (Suc (length src + k)) 0 1 src)" for k
    by (rule tokenize_settles) simp_all
  have "settled (hcl_parse (Suc (length src)) src) (hcl_parse (Suc (length src + k)) src)" for k
    unfolding hcl_parse_def
  proof (rule settled_fuelled [OF toks])
    fix ts
    assume "tokenize (Suc (length src)) 0 1 src = Some (Inr ts)"
    then have "length ts \<le> length src" using tokenize_tokens [of "Suc (length src)" "[]" src ts] by (simp add: new_lines_def)
    then show "settled (fuelled (hcl_body (Suc (length src)) src ts False empty_block 0) (\<lambda>(b, _).
          Some (Inr (Block (cps ''<root>'') (bl_labels b) (bl_attributes b) (bl_raw_attributes b) (bl_blocks b) (bl_line b)))))
        (fuelled (hcl_body (Suc (length src + k)) src ts False empty_block 0) (\<lambda>(b, _).
          Some (Inr (Block (cps ''<root>'') (bl_labels b) (bl_attributes b) (bl_raw_attributes b) (bl_blocks b) (bl_line b)))))"
      by (intro settled_fuelled hcl_body_settles) (auto split: prod.split)
  qed
  then show ?thesis unfolding settled_def by (metis option.exhaust)
qed

end
