(* ===== verification/Spec2Isabelle.thy ===== *)
theory Spec2Isabelle
  imports Operator_Cli Request_Fingerprint Identity_Properties Identity_Access Hcl_Reader
begin

text \<open>
  Firmbatch runs batch inference jobs on rented machines before a deadline. The repository holds
  two systems. The first (v0) is a complete small one: a control plane over a SQLite store
  (\<open>src/control/db.py\<close>, \<open>src/control/app.py\<close>), workers that claim shards of a job over HTTP
  (\<open>src/worker/agent.py\<close>), providers that start and stop machines (\<open>src/providers/\<close>), a controller
  that rents as many as the deadline needs (\<open>src/controller.py\<close>) and an operator command line
  (\<open>src/fb.py\<close>). The second (v1, \<open>src/control_plane/\<close>) is the multi-tenant control plane being built
  to replace it, on PostgreSQL: security primitives, a metadata and audit policy, an idempotency
  primitive with a transactional outbox, and a kernel of lifecycle state machines whose rules live
  in the database (\<open>db/migrations/versions/0002\<close> to \<open>0004\<close>) with Python callers in \<open>db/\<close>.

  \<^bold>\<open>Theories.\<close> \<open>Fb_Prelude\<close>: errors as values, SQL statements on lists of rows, Python's integer text
  and rounding, and the locale \<open>transition_system\<close> (induction over reachable states), which every
  state machine below interprets.

  v0. \<open>Job_Store\<close> and \<open>Job_Results\<close> are \<open>control/db.py\<close>: a record \<open>store\<close> of seven tables, one function
  per operation, a transaction being one function application. \<open>Job_Invariant\<close>, \<open>Job_Safety\<close> and
  \<open>Job_Claim\<close> hold the steps, the invariants \<open>store_ok\<close> and \<open>accounted\<close> with their preservation, and
  the contracts of the operations. \<open>Job_Api\<close> is \<open>control/app.py\<close>. \<open>Worker_Agent\<close> is the worker's shard
  loop, retrying post and acceptors, and \<open>Worker_Run\<close> runs it against the store. \<open>Providers\<close> and
  \<open>Deadline_Controller\<close> are the providers and the controller's loop; \<open>Operator_Cli\<close> is \<open>fb.py\<close>.

  v1. \<open>Secret_Shapes\<close> is \<open>security/secrets.py\<close>, with its regular expressions as a datatype and a
  matcher. \<open>Scope_Catalogue\<close> is \<open>security/authorization.py\<close> and \<open>permissions.py\<close>. \<open>Metadata_Policy\<close> is
  \<open>db/metadata.py\<close>, \<open>db/audit.py\<close> and the database's copy of the policy in migration \<open>0003\<close>.
  \<open>Lifecycle_Definition\<close> is the validation and registration of a machine and the protected tables
  with their triggers. \<open>Lifecycle_Tables\<close> holds the tenant-owned tables, row policies, triggers and
  constraints, one function per statement; \<open>Lifecycle_Kernel\<close> the two entry points of migration
  \<open>0004\<close>. \<open>Lifecycle_Steps\<close> makes them a step relation, \<open>Lifecycle_Safety\<close> proves its invariant, and
  \<open>Lifecycle_Properties\<close>, \<open>Lifecycle_Replay\<close> and \<open>Lifecycle_Isolation\<close> draw the consequences.
  \<open>Idempotent_Mutation\<close> is \<open>db/idempotency.py\<close> on the same tables, \<open>Request_Fingerprint\<close> shows that
  the text it digests can be read back, and \<open>Lifecycle_Client\<close> is the Python half of
  \<open>db/lifecycle.py\<close>.

  \<^bold>\<open>What is shown.\<close> Of the job store: under every interleaving of transactions, each shard is in one
  place of its life cycle, no answered work is handed out again, and a job with nothing outstanding
  is complete; of the controller: it stays within its limits and leaves no machine behind; of the
  worker: it closes a shard only when every request has an answer. Of the secrets and scopes: a
  credential is recognised wherever it is embedded, and a scope set is stored exactly when it is
  closed and canonical. Of the metadata policy: the Python and the database copy agree. Of lifecycle
  machines: a published definition never changes; an instance's history explains its state and its
  revision; a transition writes all of its artifacts or none; one of two movers from a revision
  wins; an identical retry is answered from the first run for ever after and a changed request is
  refused; a claim in the reserved namespace always has a transition behind it; a tenant reads and
  writes its own rows only, and what it may not see cannot be told apart from what does not exist.
  Of the mutation primitive: a call is all or nothing, at most once, and replays.

  \<^bold>\<open>Conventions.\<close> Clock readings, generated identifiers and process identifiers are arguments, and so
  is every library the sources call: the inference engine, the HTTP server, the cloud client, the
  digest, the text size PostgreSQL computes, Python's rendering of a float, the mutation callback.
  Times and numbers are exact rationals. Text is a list of code points. A table is a list of rows in
  insertion order. An operation that raises returns \<open>Inl\<close> and no state, except
  \<open>execute_idempotent_mutation\<close>, which returns the state it left behind its savepoint. Where \<open>READ
  COMMITTED\<close> lets other transactions commit inside one call, the call takes two databases: the one
  its first reads see and the one its writes see; the theorems hold for every choice of the first.
  The checks before a statement are listed in order (\<open>checked\<close>), so the first that fails decides.

  \<^bold>\<open>Bounds and fuel.\<close> Loops over rows, states, entries and characters are structural. The worker's
  loop over shards and the controller's loop take the list of what the environment does in each
  round, so they run as long as that list; every theorem is for all lists. The retries of \<open>post\<close> are
  bounded by the code. Integers of the database are bounded by \<open>max_sql_integer\<close> where a value can
  reach the bound; Python's are unbounded.

  \<^bold>\<open>Not modelled.\<close> The identity, membership and account layer (migrations \<open>0005\<close> to \<open>0007\<close> and their
  Python callers), the customer API, the binding of a credential to a context, passwords, roles and
  grants, the engine and connection handling, the infrastructure policy and delivery tools, and
  development scripts. Of the kernel: foreign keys to tables outside it, storage sizes of columns,
  and the catalogue query that finds the writer role, which is the argument \<open>writer\<close> of a statement.
\<close>

end
